(* ===== verification/Prelude.thy ===== *)
theory Prelude
  imports Main "HOL-Library.Word"
begin

unbundle bit_operations_syntax

text \<open>
  Shared vocabulary of the development.

  Strings of the Go code are byte strings: a \<^typ>\<open>string\<close> is a list of bytes
  (\<^typ>\<open>char\<close>). Integers of Go type \<open>int\<close> are modelled by \<^typ>\<open>int\<close> and the
  fixed width unsigned ones by words. A \<open>time.Time\<close> is the integer number of time units since
  the zero time, so \<open>IsZero\<close> is equality with 0, \<open>Before\<close> is \<open><\<close> and \<open>After\<close> is \<open>>\<close>.
  A Go function with an error result is a function into \<open>error + value\<close>; one that may panic
  returns an \<^typ>\<open>'a option\<close> in which \<^term>\<open>None\<close> is the panic.

  The theory also holds the few functions of Go's standard library that several components
  use: \<open>strings.HasPrefix\<close>, \<open>strings.TrimPrefix\<close>, \<open>strings.TrimSpace\<close> and
  \<open>strings.ToLower\<close> (on ASCII bytes), and \<open>sort.Search\<close>.
\<close>

section \<open>Types and fact collections\<close>

type_synonym go_time = int
type_synonym bytes = "8 word list"

named_theorems acs_simps \<open>definitions of the access mode constants and tests\<close>
named_theorems mode_bits \<open>bits of the access mode constants\<close>

section \<open>Errors of the storage layer\<close>

text \<open>The constants of type \<open>StoreError\<close>, and a constructor for every other error value.\<close>

datatype store_error =
    ErrInternal | ErrMalformed | ErrFailed | ErrDuplicate | ErrUnsupported | ErrExpired
  | ErrPolicy | ErrCredentials | ErrUserNotFound | ErrTopicNotFound | ErrNotFound
  | ErrPermissionDenied | ErrInvalidResponse | ErrRedirected | ErrClusterFenced
  | ErrVersionConflict | ErrOther string

text \<open>The outcome of a statement: the error it fails with, if any.\<close>

type_synonym db_err = "store_error option"

section \<open>Byte strings\<close>

definition HasPrefix :: "string \<Rightarrow> string \<Rightarrow> bool" where
  "HasPrefix s p = (take (length p) s = p)"

definition TrimPrefix :: "string \<Rightarrow> string \<Rightarrow> string" where
  "TrimPrefix s p = (if HasPrefix s p then drop (length p) s else s)"

lemma HasPrefix_append [simp]: "HasPrefix (p @ s) p"
  by (simp add: HasPrefix_def)

lemma TrimPrefix_append [simp]: "TrimPrefix (p @ s) p = s"
  by (simp add: TrimPrefix_def)

lemma HasPrefix_iff: "HasPrefix s p \<longleftrightarrow> (\<exists>t. s = p @ t)"
  unfolding HasPrefix_def by (metis append_eq_conv_conj append_take_drop_id)

definition is_space :: "char \<Rightarrow> bool" where
  "is_space c = (c = CHR '' '' \<or> of_char c = (9::nat) \<or> of_char c = (10::nat) \<or>
     of_char c = (11::nat) \<or> of_char c = (12::nat) \<or> of_char c = (13::nat))"

definition TrimSpace :: "string \<Rightarrow> string" where
  "TrimSpace s = rev (dropWhile is_space (rev (dropWhile is_space s)))"

definition lower_char :: "char \<Rightarrow> char" where
  "lower_char c = (let n = (of_char c :: nat) in
     if 65 \<le> n \<and> n \<le> 90 then char_of (n + 32) else c)"

definition ToLower :: "string \<Rightarrow> string" where
  "ToLower s = map lower_char s"

lemma length_ToLower [simp]: "length (ToLower s) = length s"
  by (simp add: ToLower_def)

text \<open>\<open>strconv.Itoa\<close>\<close>

fun Itoa_digits :: "nat \<Rightarrow> string" where
  "Itoa_digits n =
     (if n < 10 then [char_of (48 + n)] else Itoa_digits (n div 10) @ [char_of (48 + n mod 10)])"

declare Itoa_digits.simps [simp del]

definition Itoa :: "int \<Rightarrow> string" where
  "Itoa i = (if i < 0 then CHR ''-'' # Itoa_digits (nat (- i)) else Itoa_digits (nat i))"

section \<open>Binary search\<close>

text \<open>
  \<open>sort.Search(n, f)\<close>: the half interval \<open>[i, j)\<close> is cut at its middle until it is empty.
\<close>

function search_loop :: "(nat \<Rightarrow> bool) \<Rightarrow> nat \<Rightarrow> nat \<Rightarrow> nat" where
  "search_loop f i j =
     (if i < j then
        (let h = (i + j) div 2 in
         if \<not> f h then search_loop f (h + 1) j else search_loop f i h)
      else i)"
  by pat_completeness auto
termination
  by (relation "measure (\<lambda>(f, i, j). j - i)") auto

declare search_loop.simps [simp del]

definition Search :: "nat \<Rightarrow> (nat \<Rightarrow> bool) \<Rightarrow> nat" where
  "Search n f = search_loop f 0 n"

definition up_closed :: "nat \<Rightarrow> (nat \<Rightarrow> bool) \<Rightarrow> bool" where
  "up_closed n f = (\<forall>a b. a \<le> b \<longrightarrow> b < n \<longrightarrow> f a \<longrightarrow> f b)"

lemma search_loop_spec:
  assumes "up_closed n f" "i \<le> j" "j \<le> n" "\<And>k. k < i \<Longrightarrow> \<not> f k" "\<And>k. j \<le> k \<Longrightarrow> k < n \<Longrightarrow> f k"
  shows "search_loop f i j \<le> n \<and> (\<forall>k < search_loop f i j. \<not> f k) \<and>
         (\<forall>k. search_loop f i j \<le> k \<longrightarrow> k < n \<longrightarrow> f k)"
  using assms
proof (induction f i j rule: search_loop.induct)
  case (1 f i j)
  show ?case
  proof (cases "i < j")
    case False
    then have "search_loop f i j = i" by (simp add: search_loop.simps)
    then show ?thesis using False "1.prems" by simp
  next
    case True
    define h where "h = (i + j) div 2"
    have h: "i \<le> h" "h < j" "h < n" using True "1.prems"(3) by (auto simp: h_def)
    show ?thesis
    proof (cases "f h")
      case False
      then have low: "\<not> f k" if "k < h + 1" for k
        using that "1.prems"(1) h unfolding up_closed_def by (metis less_Suc_eq_le Suc_eq_plus1)
      have "search_loop f i j = search_loop f (h + 1) j"
        using True False by (simp add: search_loop.simps [of f i j] h_def [symmetric] Let_def)
      then show ?thesis
        using "1.IH"(1) [OF True h_def False "1.prems"(1) _ "1.prems"(3) low "1.prems"(5)] h by simp
    next
      case True2: True
      then have high: "f k" if "h \<le> k" "k < n" for k
        using that "1.prems"(1) unfolding up_closed_def by blast
      have "search_loop f i j = search_loop f i h"
        using True True2 by (simp add: search_loop.simps [of f i j] h_def [symmetric] Let_def)
      then show ?thesis
        using "1.IH"(2) [OF True h_def _ "1.prems"(1) _ _ "1.prems"(4) high] h True2 by simp
    qed
  qed
qed

lemma Search_spec:
  assumes "up_closed n f"
  shows "Search n f \<le> n" and "k < Search n f \<Longrightarrow> \<not> f k"
    and "Search n f \<le> k \<Longrightarrow> k < n \<Longrightarrow> f k"
  using search_loop_spec [OF assms, of 0 n] by (auto simp: Search_def)

section \<open>Steps that never lower a level\<close>

text \<open>
  Several components keep a number that only grows: the fencing epoch of a database, the epoch
  of a topic, the term of a node. The contract of such a component is that no operation lowers
  the level; what follows for a whole run is proved here once.
\<close>

locale monotone_steps =
  fixes step :: "'op \<Rightarrow> 's \<Rightarrow> 's" and level :: "'s \<Rightarrow> 'l::order"
  assumes step_level: "level s \<le> level (step op s)"
begin

lemma run_level: "level s \<le> level (fold step ops s)"
  by (induction ops arbitrary: s) (auto intro: order_trans [OF step_level])

lemma run_above: "l \<le> level s \<Longrightarrow> l \<le> level (fold step ops s)"
  using run_level order_trans by blast

end

text \<open>The dual contract: an invariant that every operation keeps.\<close>

locale invariant_steps =
  fixes step :: "'op \<Rightarrow> 's \<Rightarrow> 's" and inv :: "'s \<Rightarrow> bool"
  assumes step_inv: "inv s \<Longrightarrow> inv (step op s)"
begin

lemma run_inv: "inv s \<Longrightarrow> inv (fold step ops s)"
  by (induction ops arbitrary: s) (auto intro: step_inv)

end

section \<open>Trimmed strings\<close>

lemma dropWhile_rev_dropWhile:
  "dropWhile P (rev (dropWhile P (rev (dropWhile P s)))) = rev (dropWhile P (rev (dropWhile P s)))"
proof (cases "dropWhile P s")
  case (Cons a t)
  then have "\<not> P a" by (metis dropWhile_eq_Cons_conv)
  then have "rev (dropWhile P (rev (a # t))) \<noteq> [] \<and> hd (rev (dropWhile P (rev (a # t)))) = a"
    by (simp add: dropWhile_append)
  then show ?thesis using \<open>\<not> P a\<close> unfolding Cons
    by (cases "rev (dropWhile P (rev (a # t)))") auto
next
  case Nil
  show ?thesis by (simp only: Nil) simp
qed

lemma TrimSpace_idem [simp]: "TrimSpace (TrimSpace s) = TrimSpace s"
  unfolding TrimSpace_def dropWhile_rev_dropWhile by (simp add: dropWhile_idem)

lemma dropWhile_all_False: "(\<forall>c \<in> set s. \<not> P c) \<Longrightarrow> dropWhile P s = s"
  by (cases s) auto

lemma TrimSpace_id: "(\<forall>c \<in> set s. \<not> is_space c) \<Longrightarrow> TrimSpace s = s"
  by (simp add: TrimSpace_def dropWhile_all_False)

end
