(* ===== verification/AccessMode.thy ===== *)
theory AccessMode
  imports Prelude
begin

text \<open>
  Access control modes (\<^verbatim>\<open>server/store/types/access_mode.go\<close>): the bit map constants, the
  text form \<open>JRWPASDO\<close> with its parser and printer, the difference of two modes as a text
  \<open>+A-B\<close> and its application, and the tests the rest of the server performs on a mode.

  A Go \<open>AccessMode\<close> is an \<open>uint\<close>, 64 bits wide on the supported platforms. A method with a
  pointer receiver returns the error together with the new value of the receiver.
\<close>

type_synonym access_mode = "64 word"

section \<open>Constants\<close>

definition ModeJoin :: access_mode where "ModeJoin = push_bit 0 1"
definition ModeRead :: access_mode where "ModeRead = push_bit 1 1"
definition ModeWrite :: access_mode where "ModeWrite = push_bit 2 1"
definition ModePres :: access_mode where "ModePres = push_bit 3 1"
definition ModeApprove :: access_mode where "ModeApprove = push_bit 4 1"
definition ModeShare :: access_mode where "ModeShare = push_bit 5 1"
definition ModeDelete :: access_mode where "ModeDelete = push_bit 6 1"
definition ModeOwner :: access_mode where "ModeOwner = push_bit 7 1"
definition ModeUnset :: access_mode where "ModeUnset = push_bit 8 1"
definition ModeNone :: access_mode where "ModeNone = 0"

definition ModeCPublic :: access_mode where
  "ModeCPublic = ModeJoin OR ModeRead OR ModeWrite OR ModePres OR ModeShare"
definition ModeCMeFnd :: access_mode where
  "ModeCMeFnd = ModeJoin OR ModePres OR ModeShare"
definition ModeCSelf :: access_mode where
  "ModeCSelf = ModeJoin OR ModeRead OR ModeWrite OR ModeDelete OR ModeOwner"
definition ModeCFull :: access_mode where
  "ModeCFull = ModeJoin OR ModeRead OR ModeWrite OR ModePres OR ModeApprove OR ModeShare OR
     ModeDelete OR ModeOwner"
definition ModeCP2P :: access_mode where
  "ModeCP2P = ModeJoin OR ModeRead OR ModeWrite OR ModePres OR ModeApprove"
definition ModeCP2PD :: access_mode where
  "ModeCP2PD = ModeJoin OR ModeRead OR ModeWrite OR ModePres OR ModeApprove OR ModeDelete"
definition ModeCAuth :: access_mode where "ModeCAuth = ModeCP2P OR ModeCPublic"
definition ModeCReadOnly :: access_mode where "ModeCReadOnly = ModeJoin OR ModeRead"
definition ModeCSys :: access_mode where
  "ModeCSys = ModeJoin OR ModeRead OR ModeWrite OR ModePres OR ModeDelete"
definition ModeCChnWriter :: access_mode where
  "ModeCChnWriter = ModeRead OR ModeWrite OR ModePres OR ModeShare"
definition ModeCChnReader :: access_mode where
  "ModeCChnReader = ModeJoin OR ModeRead OR ModePres"
definition ModeCAdmin :: access_mode where "ModeCAdmin = ModeOwner OR ModeApprove"
definition ModeCSharer :: access_mode where "ModeCSharer = ModeCAdmin OR ModeShare"
definition ModeInvalid :: access_mode where "ModeInvalid = 0x100000"
definition ModeBitmask :: access_mode where
  "ModeBitmask = ModeJoin OR ModeRead OR ModeWrite OR ModePres OR ModeApprove OR ModeShare OR
     ModeDelete OR ModeOwner"

section \<open>Text form\<close>

datatype acs_error =
    AcsInvalid | AcsNotAlone | AcsBadChar char | AcsSyntax | AcsBadDelta string | AcsScanType

fun marshal_loop :: "access_mode \<Rightarrow> nat \<Rightarrow> string \<Rightarrow> string" where
  "marshal_loop m i [] = []"
| "marshal_loop m i (chr # modes) =
     (if m AND push_bit i 1 \<noteq> 0 then chr # marshal_loop m (Suc i) modes
      else marshal_loop m (Suc i) modes)"

definition MarshalText :: "access_mode \<Rightarrow> acs_error + string" where
  "MarshalText m =
     (if m = ModeNone then Inr ''N''
      else if m = ModeInvalid then Inl AcsInvalid
      else Inr (marshal_loop m 0 ''JRWPASDO''))"

fun parse_loop :: "access_mode \<Rightarrow> string \<Rightarrow> acs_error + access_mode" where
  "parse_loop m0 [] = Inr m0"
| "parse_loop m0 (b # bs) =
     (if b \<in> {CHR ''J'', CHR ''j''} then parse_loop (m0 OR ModeJoin) bs
      else if b \<in> {CHR ''R'', CHR ''r''} then parse_loop (m0 OR ModeRead) bs
      else if b \<in> {CHR ''W'', CHR ''w''} then parse_loop (m0 OR ModeWrite) bs
      else if b \<in> {CHR ''A'', CHR ''a''} then parse_loop (m0 OR ModeApprove) bs
      else if b \<in> {CHR ''S'', CHR ''s''} then parse_loop (m0 OR ModeShare) bs
      else if b \<in> {CHR ''D'', CHR ''d''} then parse_loop (m0 OR ModeDelete) bs
      else if b \<in> {CHR ''P'', CHR ''p''} then parse_loop (m0 OR ModePres) bs
      else if b \<in> {CHR ''O'', CHR ''o''} then parse_loop (m0 OR ModeOwner) bs
      else if b \<in> {CHR ''N'', CHR ''n''} then
        (if m0 \<noteq> ModeUnset then Inl AcsNotAlone else Inr ModeNone)
      else Inl (AcsBadChar b))"

definition ParseAcs :: "string \<Rightarrow> acs_error + access_mode" where
  "ParseAcs b = parse_loop ModeUnset b"

definition UnmarshalText :: "access_mode \<Rightarrow> string \<Rightarrow> acs_error option \<times> access_mode" where
  "UnmarshalText m b =
     (case ParseAcs b of
        Inl err \<Rightarrow> (Some err, m)
      | Inr m0 \<Rightarrow> (None, if m0 \<noteq> ModeUnset then m0 AND ModeBitmask else m))"

definition acs_String :: "access_mode \<Rightarrow> string" where
  "acs_String m = (case MarshalText m of Inl _ \<Rightarrow> [] | Inr res \<Rightarrow> res)"

definition acs_MarshalJSON :: "access_mode \<Rightarrow> acs_error + string" where
  "acs_MarshalJSON m =
     (case MarshalText m of
        Inl err \<Rightarrow> Inl err
      | Inr res \<Rightarrow> Inr (CHR 0x22 # res @ [CHR 0x22]))"

text \<open>
  \<open>b[0]\<close> panics on an empty slice, and \<open>b[1 : len(b)-1]\<close> on a slice of one byte.
\<close>

definition acs_UnmarshalJSON ::
  "access_mode \<Rightarrow> string \<Rightarrow> (acs_error option \<times> access_mode) option" where
  "acs_UnmarshalJSON m b =
     (if b = [] then None
      else if hd b \<noteq> CHR 0x22 \<or> last b \<noteq> CHR 0x22 then Some (Some AcsSyntax, m)
      else if length b < 2 then None
      else Some (UnmarshalText m (butlast (tl b))))"

text \<open>A value handed over by the SQL driver: a byte slice or something else.\<close>

datatype sql_val = SqlBytes string | SqlOther

fun acs_Scan :: "access_mode \<Rightarrow> sql_val \<Rightarrow> acs_error option \<times> access_mode" where
  "acs_Scan m (SqlBytes bb) = UnmarshalText m bb"
| "acs_Scan m SqlOther = (Some AcsScanType, m)"

definition acs_Value :: "access_mode \<Rightarrow> acs_error + string" where
  "acs_Value m = (case MarshalText m of Inl err \<Rightarrow> Inl err | Inr res \<Rightarrow> Inr res)"

section \<open>Comparison and difference\<close>

definition BetterThan :: "access_mode \<Rightarrow> access_mode \<Rightarrow> bool" where
  "BetterThan grant want = (ModeBitmask AND grant AND NOT want \<noteq> 0)"

definition BetterEqual :: "access_mode \<Rightarrow> access_mode \<Rightarrow> bool" where
  "BetterEqual grant want = (ModeBitmask AND grant AND want = want)"

definition Delta :: "access_mode \<Rightarrow> access_mode \<Rightarrow> string" where
  "Delta old new =
     (let o2n = ModeBitmask AND old AND NOT new;
          n2o = ModeBitmask AND new AND NOT old;
          removed = (if o2n > 0 \<and> acs_String o2n \<noteq> [] then CHR ''-'' # acs_String o2n else []);
          added = (if n2o > 0 \<and> acs_String n2o \<noteq> [] then CHR ''+'' # acs_String n2o else [])
      in added @ removed)"

definition is_sign :: "char \<Rightarrow> bool" where
  "is_sign c = (c = CHR ''+'' \<or> c = CHR ''-'')"

text \<open>
  The loop of \<open>ApplyDelta\<close> walks \<open>delta\<close> from sign to sign. Its argument \<open>rest\<close> is
  \<open>delta[next:]\<close>; the loop ends when fewer than two bytes are left or no further sign was
  found, which is the case \<open>next = -1\<close>.
\<close>

function delta_loop :: "string \<Rightarrow> access_mode \<Rightarrow> string \<Rightarrow> acs_error + access_mode" where
  "delta_loop delta m0 rest =
     (if length rest < 2 then Inr m0
      else
        let ch = hd rest;
            chunk = takeWhile (\<lambda>c. \<not> is_sign c) (tl rest);
            next = dropWhile (\<lambda>c. \<not> is_sign c) (tl rest)
        in (case ParseAcs chunk of
              Inl err \<Rightarrow> Inl err
            | Inr upd \<Rightarrow>
                if ch = CHR ''+'' then
                  delta_loop delta
                    (if upd \<noteq> ModeUnset then m0 OR (upd AND ModeBitmask) else m0) next
                else if ch = CHR ''-'' then
                  delta_loop delta
                    (if upd \<noteq> ModeUnset then m0 AND NOT (upd AND ModeBitmask) else m0) next
                else Inl (AcsBadDelta delta)))"
  by pat_completeness auto
termination
proof (relation "measure (\<lambda>(_, _, rest). length rest)", goal_cases)
  case 1
  then show ?case by simp
qed (auto simp: less_Suc_eq_le intro: le_less_trans [OF length_dropWhile_le])

declare delta_loop.simps [simp del]

definition ApplyDelta :: "access_mode \<Rightarrow> string \<Rightarrow> acs_error option \<times> access_mode" where
  "ApplyDelta m delta =
     (if delta = [] \<or> delta = ''N'' then (None, m)
      else case delta_loop delta m delta of
             Inl err \<Rightarrow> (Some err, m)
           | Inr m0 \<Rightarrow> (None, m0))"

definition ApplyMutation :: "access_mode \<Rightarrow> string \<Rightarrow> acs_error option \<times> access_mode" where
  "ApplyMutation m mutation =
     (if mutation = [] then (None, m)
      else if list_ex is_sign mutation then ApplyDelta m mutation
      else UnmarshalText m mutation)"

section \<open>Tests\<close>

definition IsJoiner :: "access_mode \<Rightarrow> bool" where "IsJoiner m = (m AND ModeJoin \<noteq> 0)"
definition IsOwner :: "access_mode \<Rightarrow> bool" where "IsOwner m = (m AND ModeOwner \<noteq> 0)"
definition IsApprover :: "access_mode \<Rightarrow> bool" where "IsApprover m = (m AND ModeApprove \<noteq> 0)"
definition IsAdmin :: "access_mode \<Rightarrow> bool" where "IsAdmin m = (IsOwner m \<or> IsApprover m)"
definition IsSharer :: "access_mode \<Rightarrow> bool" where
  "IsSharer m = (IsAdmin m \<or> m AND ModeShare \<noteq> 0)"
definition IsWriter :: "access_mode \<Rightarrow> bool" where "IsWriter m = (m AND ModeWrite \<noteq> 0)"
definition IsReader :: "access_mode \<Rightarrow> bool" where "IsReader m = (m AND ModeRead \<noteq> 0)"
definition IsPresencer :: "access_mode \<Rightarrow> bool" where "IsPresencer m = (m AND ModePres \<noteq> 0)"
definition IsDeleter :: "access_mode \<Rightarrow> bool" where "IsDeleter m = (m AND ModeDelete \<noteq> 0)"
definition IsZero :: "access_mode \<Rightarrow> bool" where "IsZero m = (m = ModeNone)"
definition IsInvalid :: "access_mode \<Rightarrow> bool" where "IsInvalid m = (m = ModeInvalid)"
definition IsDefined :: "access_mode \<Rightarrow> bool" where
  "IsDefined m = (m \<noteq> ModeInvalid \<and> m \<noteq> ModeUnset)"


section \<open>Bits of the modes\<close>

lemma word64_eq_iff: "a = b \<longleftrightarrow> (\<forall>n. bit a n = bit b n)" for a b :: access_mode
  by (auto intro: bit_eqI)

lemma bit64D: "bit m n \<Longrightarrow> n < 64" for m :: access_mode
  using bit_imp_le_length by force

lemma bit_pow [simp]: "bit (2 ^ i :: access_mode) n \<longleftrightarrow> n = i \<and> n < 64"
  by (auto simp: bit_exp_iff)

lemma and_pow_iff: "m AND 2 ^ i \<noteq> 0 \<longleftrightarrow> bit m i" for m :: access_mode
  using bit_iff_and_push_bit_not_eq_0 [of m i] by (simp add: push_bit_of_1)

lemmas mode_consts =
  ModeJoin_def ModeRead_def ModeWrite_def ModePres_def ModeApprove_def ModeShare_def
  ModeDelete_def ModeOwner_def ModeUnset_def

lemma bit_modes [simp, mode_bits]:
  "bit ModeJoin n \<longleftrightarrow> n = 0" "bit ModeRead n \<longleftrightarrow> n = 1" "bit ModeWrite n \<longleftrightarrow> n = 2"
  "bit ModePres n \<longleftrightarrow> n = 3" "bit ModeApprove n \<longleftrightarrow> n = 4" "bit ModeShare n \<longleftrightarrow> n = 5"
  "bit ModeDelete n \<longleftrightarrow> n = 6" "bit ModeOwner n \<longleftrightarrow> n = 7" "bit ModeUnset n \<longleftrightarrow> n = 8"
  unfolding mode_consts push_bit_of_1 bit_pow by auto

lemma bit_ModeBitmask [simp, mode_bits]: "bit ModeBitmask n \<longleftrightarrow> n < 8"
proof -
  have "ModeBitmask = mask 8"
    by (simp add: ModeBitmask_def mode_consts mask_eq_exp_minus_1)
  moreover have "bit (mask 8 :: access_mode) n \<longleftrightarrow> n < 8"
    by (auto simp: bit_mask_iff simp del: mask_numeral)
  ultimately show ?thesis by (simp only:)
qed

lemma mode_tests [mode_bits]:
  "IsJoiner m \<longleftrightarrow> bit m 0" "IsReader m \<longleftrightarrow> bit m 1" "IsWriter m \<longleftrightarrow> bit m 2"
  "IsPresencer m \<longleftrightarrow> bit m 3" "IsApprover m \<longleftrightarrow> bit m 4" "IsDeleter m \<longleftrightarrow> bit m 6"
  "IsOwner m \<longleftrightarrow> bit m 7"
  unfolding IsJoiner_def IsReader_def IsWriter_def IsPresencer_def IsApprover_def IsDeleter_def
    IsOwner_def mode_consts
  by (simp_all only: bit_iff_and_push_bit_not_eq_0)

text \<open>A mode is well formed when it has permission bits only.\<close>

definition acs_wf :: "access_mode \<Rightarrow> bool" where
  "acs_wf m = (m AND NOT ModeBitmask = 0)"

lemma acs_wf_iff: "acs_wf m \<longleftrightarrow> m AND ModeBitmask = m"
  unfolding acs_wf_def by (auto simp: word64_eq_iff bit_simps dest: bit64D)

lemma acs_wf_bits: "acs_wf m \<longleftrightarrow> (\<forall>n. bit m n \<longrightarrow> n < 8)"
  unfolding acs_wf_def word64_eq_iff
  by (auto simp: bit_simps dest: bit64D)

lemma acs_wf_closed [intro, simp]:
  "acs_wf (m AND ModeBitmask)" "acs_wf (ModeBitmask AND m)" "acs_wf 0"
  "acs_wf m \<Longrightarrow> acs_wf (m AND k)" "acs_wf m \<Longrightarrow> acs_wf k \<Longrightarrow> acs_wf (m OR k)"
  by (auto simp: acs_wf_bits bit_simps)

lemma BetterEqual_bits:
  "BetterEqual grant want \<longleftrightarrow> (\<forall>n. bit want n \<longrightarrow> n < 8 \<and> bit grant n)"
  unfolding BetterEqual_def word64_eq_iff
  by (auto simp: bit_simps dest: bit64D)

lemma BetterThan_bits: "BetterThan grant want \<longleftrightarrow> (\<exists>n < 8. bit grant n \<and> \<not> bit want n)"
  unfolding BetterThan_def word64_eq_iff by (auto simp: bit_simps dest: bit64D)

section \<open>Printing and parsing\<close>

lemma parse_marshal_step:
  assumes "\<And>m0 bs. parse_loop m0 (c # bs) = parse_loop (m0 OR push_bit i 1) bs"
  shows "parse_loop m0 (marshal_loop m i (c # cs)) =
    parse_loop (m0 OR (m AND push_bit i 1)) (marshal_loop m (Suc i) cs)"
proof (cases "bit m i")
  case True
  then have "m AND push_bit i 1 = push_bit i 1"
    by (auto simp: word64_eq_iff bit_simps)
  with True bit64D [OF True] show ?thesis
    by (simp add: assms and_pow_iff del: parse_loop.simps)
next
  case False
  then have "m AND push_bit i 1 = 0"
    by (auto simp: word64_eq_iff bit_simps)
  then show ?thesis by simp
qed

lemma parse_marshal_loop:
  "parse_loop m0 (marshal_loop m 0 ''JRWPASDO'') = Inr (m0 OR (m AND ModeBitmask))"
proof -
  have "m AND ModeBitmask =
    m AND push_bit 0 1 OR m AND push_bit 1 1 OR m AND push_bit 2 1 OR m AND push_bit 3 1 OR
    m AND push_bit 4 1 OR m AND push_bit 5 1 OR m AND push_bit 6 1 OR m AND push_bit 7 1"
    unfolding ModeBitmask_def mode_consts by (simp only: bit.conj_disj_distrib or.assoc)
  then show ?thesis
    by (simp add: parse_marshal_step mode_consts or.assoc del: marshal_loop.simps(2))
qed

lemma marshal_loop_letters: "set (marshal_loop m i cs) \<subseteq> set cs"
  by (induction cs arbitrary: i) auto

lemma marshal_loop_eq_Nil:
  "marshal_loop m i cs = [] \<longleftrightarrow> (\<forall>k < length cs. \<not> bit m (i + k))"
proof (induction cs arbitrary: i)
  case Nil
  then show ?case by simp
next
  case (Cons c cs)
  show ?case
    by (auto simp: Cons All_less_Suc2 and_pow_iff)
qed

lemma MarshalText_wf:
  assumes "acs_wf m"
  shows "MarshalText m =
    Inr (if m = 0 then ''N'' else marshal_loop m 0 ''JRWPASDO'')"
proof -
  have "m \<noteq> ModeInvalid"
  proof
    assume "m = ModeInvalid"
    then have "bit m 20" by (simp add: ModeInvalid_def)
    with assms show False by (force simp: acs_wf_bits)
  qed
  then show ?thesis by (simp add: MarshalText_def ModeNone_def)
qed

lemma acs_String_wf:
  "acs_wf m \<Longrightarrow> m \<noteq> 0 \<Longrightarrow> acs_String m = marshal_loop m 0 ''JRWPASDO''"
  by (simp add: acs_String_def MarshalText_wf)

lemma Unset_or_neq:
  assumes "acs_wf m" "m \<noteq> 0"
  shows "ModeUnset OR m \<noteq> ModeUnset"
proof -
  from assms obtain n where "bit m n" "n < 8"
    by (auto simp: acs_wf_bits word64_eq_iff)
  then have "bit (ModeUnset OR m) n \<noteq> bit ModeUnset n"
    by (simp add: bit_simps)
  then show ?thesis by metis
qed

lemma Unset_and_mask [simp]: "(ModeUnset OR m) AND ModeBitmask = m AND ModeBitmask"
  by (auto simp: word64_eq_iff bit_simps)

lemma ParseAcs_String:
  assumes "acs_wf m" "m \<noteq> 0"
  shows "ParseAcs (acs_String m) = Inr (ModeUnset OR m)"
  using assms by (simp add: acs_String_wf ParseAcs_def parse_marshal_loop acs_wf_iff
      del: marshal_loop.simps)

lemma UnmarshalText_MarshalText:
  assumes "acs_wf m"
  shows "MarshalText m = Inr (acs_String m)" "UnmarshalText k (acs_String m) = (None, m)"
proof -
  show "MarshalText m = Inr (acs_String m)"
    using assms by (simp add: acs_String_def MarshalText_wf)
  show "UnmarshalText k (acs_String m) = (None, m)"
  proof (cases "m = 0")
    case True
    then show ?thesis
      by (simp add: acs_String_def MarshalText_def UnmarshalText_def ParseAcs_def ModeNone_def
          ModeUnset_def)
  next
    case False
    with assms show ?thesis
      by (simp add: UnmarshalText_def ParseAcs_String Unset_or_neq acs_wf_iff)
  qed
qed

text \<open>C36. Every representation the code gives a well formed access mode (its text, its JSON
  string, its SQL column value) is read back by the matching reader as the same mode, whatever
  value the receiver had before.\<close>

theorem acs_roundtrip:
  assumes "acs_wf m"
  shows "\<exists>s. MarshalText m = Inr s \<and> UnmarshalText k s = (None, m) \<and>
    acs_Value m = Inr s \<and> acs_Scan k (SqlBytes s) = (None, m) \<and>
    (\<exists>j. acs_MarshalJSON m = Inr j \<and> acs_UnmarshalJSON k j = Some (None, m))"
  using UnmarshalText_MarshalText [OF assms]
  by (simp add: acs_Value_def acs_MarshalJSON_def acs_UnmarshalJSON_def)

theorem acs_roundtrip_witness:
  "acs_wf 47 \<and> (\<exists>s. MarshalText 47 = Inr s \<and> UnmarshalText 256 s = (None, 47) \<and>
    acs_Value 47 = Inr s \<and> acs_Scan 256 (SqlBytes s) = (None, 47) \<and>
    (\<exists>j. acs_MarshalJSON 47 = Inr j \<and> acs_UnmarshalJSON 256 j = Some (None, 47)))"
proof -
  have "acs_wf 47" by (simp add: acs_wf_def ModeBitmask_def mode_consts)
  then show ?thesis using acs_roundtrip [of 47 256] by blast
qed

section \<open>Differences\<close>

lemma letters_no_sign: "set (marshal_loop m i ''JRWPASDO'') \<inter> Collect is_sign = {}"
proof -
  have "\<not> is_sign c" if "c \<in> set ''JRWPASDO''" for c
    using that by (auto simp: is_sign_def)
  then show ?thesis using marshal_loop_letters by blast
qed

lemma String_no_sign:
  assumes "acs_wf m" "m \<noteq> 0"
  shows "\<forall>c \<in> set (acs_String m). \<not> is_sign c" "acs_String m \<noteq> []"
proof -
  show "\<forall>c \<in> set (acs_String m). \<not> is_sign c"
    using letters_no_sign assms by (auto simp: acs_String_wf simp del: marshal_loop.simps)
  from assms obtain n where "bit m n" "n < 8"
    by (auto simp: acs_wf_bits word64_eq_iff)
  then show "acs_String m \<noteq> []"
    unfolding acs_String_wf [OF assms] marshal_loop_eq_Nil by (auto simp: eval_nat_numeral)
qed

lemma takeWhile_chunk:
  assumes "\<forall>c \<in> set xs. \<not> is_sign c" "rest = [] \<or> is_sign (hd rest)"
  shows "takeWhile (\<lambda>c. \<not> is_sign c) (xs @ rest) = xs"
    and "dropWhile (\<lambda>c. \<not> is_sign c) (xs @ rest) = rest"
  using assms by (induction xs) (cases rest; auto)+

text \<open>One signed chunk of a difference is consumed by one turn of the loop.\<close>

lemma delta_loop_chunk:
  assumes "acs_wf x" "x \<noteq> 0" "rest = [] \<or> is_sign (hd rest)"
  shows "delta_loop d m0 (CHR ''+'' # acs_String x @ rest) = delta_loop d (m0 OR x) rest"
    and "delta_loop d m0 (CHR ''-'' # acs_String x @ rest) = delta_loop d (m0 AND NOT x) rest"
proof -
  note str = String_no_sign [OF assms(1,2)]
  note chunk = takeWhile_chunk [OF str(1) assms(3)]
  have len: "acs_String x \<noteq> []" by (rule str(2))
  have parse: "ParseAcs (acs_String x) = Inr (ModeUnset OR x)" "ModeUnset OR x \<noteq> ModeUnset"
    "(ModeUnset OR x) AND ModeBitmask = x"
    using assms(1,2) by (simp_all add: ParseAcs_String Unset_or_neq acs_wf_iff)
  show "delta_loop d m0 (CHR ''+'' # acs_String x @ rest) = delta_loop d (m0 OR x) rest"
    using len parse
    by (subst delta_loop.simps) (simp add: chunk Let_def del: Unset_and_mask)
  show "delta_loop d m0 (CHR ''-'' # acs_String x @ rest) = delta_loop d (m0 AND NOT x) rest"
    using len parse
    by (subst delta_loop.simps) (simp add: chunk Let_def del: Unset_and_mask)
qed

lemma delta_loop_Nil [simp]: "delta_loop d m0 [] = Inr m0"
  by (subst delta_loop.simps) simp

lemma Delta_loop:
  "delta_loop d old (Delta old new) = Inr ((old AND NOT ModeBitmask) OR (new AND ModeBitmask))"
proof -
  define rem where "rem = ModeBitmask AND old AND NOT new"
  define add where "add = ModeBitmask AND new AND NOT old"
  have wf: "acs_wf rem" "acs_wf add" by (simp_all add: rem_def add_def)
  let ?rem = "if rem = 0 then [] else CHR ''-'' # acs_String rem"
  have delta: "Delta old new = (if add = 0 then [] else CHR ''+'' # acs_String add) @ ?rem"
    using String_no_sign(2) [OF wf(1)] String_no_sign(2) [OF wf(2)]
    by (simp add: Delta_def rem_def [symmetric] add_def [symmetric] Let_def word_gt_0)
  have rest: "?rem = [] \<or> is_sign (hd ?rem)" by (simp add: is_sign_def)
  have "delta_loop d old (Delta old new) = delta_loop d (old OR add) ?rem"
    unfolding delta using delta_loop_chunk(1) [OF wf(2) _ rest] by auto
  also have "\<dots> = Inr ((old OR add) AND NOT rem)"
    using delta_loop_chunk(2) [OF wf(1), of "[]"] by simp
  also have "(old OR add) AND NOT rem = (old AND NOT ModeBitmask) OR (new AND ModeBitmask)"
    by (auto simp: word64_eq_iff bit_simps rem_def add_def dest: bit64D)
  finally show ?thesis .
qed

lemma Delta_neq_N: "Delta old new \<noteq> ''N''"
  by (auto simp: Delta_def Let_def)

text \<open>Applying to a mode the difference between it and a target mode yields the permission
  bits of the target and keeps the other bits of the mode: \<open>ApplyDelta\<close> inverts \<open>Delta\<close>.\<close>

theorem delta_roundtrip:
  "ApplyDelta old (Delta old new) = (None, (old AND NOT ModeBitmask) OR (new AND ModeBitmask))"
proof (cases "Delta old new = []")
  case True
  then show ?thesis using Delta_loop [of "[]" old new] by (simp add: ApplyDelta_def)
next
  case False
  then show ?thesis using Delta_loop Delta_neq_N by (simp add: ApplyDelta_def)
qed

lemma delta_loop_wf:
  "acs_wf m0 \<Longrightarrow> delta_loop d m0 rest = Inr m \<Longrightarrow> acs_wf m"
proof (induction d m0 rest rule: delta_loop.induct)
  case (1 d m0 rest)
  have nots: "acs_wf (m0 AND NOT k)" for k using "1.prems"(1) by simp
  show ?case
    using "1.prems" "1.IH" nots
    by (subst (asm) delta_loop.simps)
      (auto simp: Let_def split: if_splits sum.splits)
qed

text \<open>A requested change of a mode (an assignment or a difference, \<open>ApplyMutation\<close>) never
  sets a bit that is not a permission: from a well formed mode it leads to a well formed mode, on
  an error the mode is left as it was.\<close>

theorem mutation_safe:
  assumes "acs_wf m"
  shows "acs_wf (snd (ApplyMutation m s)) \<and>
    (fst (ApplyMutation m s) \<noteq> None \<longrightarrow> snd (ApplyMutation m s) = m)"
  using assms
  by (auto simp: ApplyMutation_def ApplyDelta_def UnmarshalText_def split: sum.splits
      dest: delta_loop_wf)

theorem mutation_safe_witness:
  "acs_wf 47 \<and> ApplyMutation 47 ''+D-Wx'' = (Some (AcsBadChar (CHR ''x'')), 47) \<and>
   acs_wf (snd (ApplyMutation 47 ''+D-W''))"
proof -
  have wf: "acs_wf 47" by (simp add: acs_wf_def ModeBitmask_def mode_consts)
  have "ApplyMutation 47 ''+D-Wx'' = (Some (AcsBadChar (CHR ''x'')), 47)"
    by code_simp
  then show ?thesis using wf mutation_safe [OF wf] by blast
qed

end
