(* ===== verification/Encoding.thy ===== *)
theory Encoding
  imports Prelude
begin

text \<open>
  The parts of Go's \<^verbatim>\<open>encoding/binary\<close> and \<^verbatim>\<open>encoding/base64\<close> the server's identifiers use:
  little endian 64 bit integers and the URL alphabet of base64 without padding. The decoder works
  on quanta of four characters as Go's does: it skips line breaks, and at the first character
  that is not of the alphabet it stops with an error and the bytes of the complete quanta before.
\<close>

section \<open>Little endian integers\<close>

fun le_bytes :: "nat \<Rightarrow> nat \<Rightarrow> string" where
  "le_bytes 0 n = []"
| "le_bytes (Suc k) n = char_of n # le_bytes k (n div 256)"

fun le_nat :: "string \<Rightarrow> nat" where
  "le_nat [] = 0"
| "le_nat (c # cs) = of_char c + 256 * le_nat cs"

definition PutUint64 :: "64 word \<Rightarrow> string" where
  "PutUint64 w = le_bytes 8 (unat w)"

text \<open>\<open>Uint64\<close> panics on fewer than eight bytes; its callers check the length first.\<close>

definition Uint64 :: "string \<Rightarrow> 64 word" where
  "Uint64 b = of_nat (le_nat (take 8 b))"

lemma length_le_bytes [simp]: "length (le_bytes k n) = k"
  by (induction k arbitrary: n) auto

lemma le_nat_le_bytes: "le_nat (le_bytes k n) = n mod 256 ^ k"
proof (induction k arbitrary: n)
  case (Suc k)
  have "n mod 256 ^ Suc k = n mod 256 + 256 * (n div 256 mod 256 ^ k)"
    using mod_mult2_eq [of n 256 "256 ^ k"] by simp
  with Suc show ?case by simp
qed simp

lemma le_bytes_le_nat: "length cs = k \<Longrightarrow> le_bytes k (le_nat cs) = cs"
proof (induction cs arbitrary: k)
  case (Cons c cs)
  then obtain j where "k = Suc j" "length cs = j" by auto
  moreover have "(of_char c + 256 * le_nat cs) div 256 = le_nat cs"
    using nat_of_char_less_256 [of c] by simp
  moreover have "char_of (of_char c + 256 * le_nat cs) = c"
    using char_of_mod_256 [of "of_char c + 256 * le_nat cs"] nat_of_char_less_256 [of c]
    by (simp del: char_of_mod_256)
  ultimately show ?case using Cons.IH by simp
qed simp


lemma length_PutUint64 [simp]: "length (PutUint64 w) = 8"
  by (simp add: PutUint64_def)

lemma Uint64_PutUint64 [simp]: "Uint64 (PutUint64 w @ rest) = w"
proof -
  have "unat w < 256 ^ 8" using unsigned_less [of w] by simp
  then show ?thesis
    by (simp add: Uint64_def PutUint64_def le_nat_le_bytes)
qed

lemma Uint64_PutUint64' [simp]: "Uint64 (PutUint64 w) = w"
  using Uint64_PutUint64 [of w "[]"] by simp

lemma le_nat_bound: "le_nat cs < 256 ^ length cs"
proof (induction cs)
  case (Cons c cs)
  have "of_char c + 256 * le_nat cs < 256 + 256 * le_nat cs" by (simp add: nat_of_char_less_256)
  also have "\<dots> = 256 * Suc (le_nat cs)" by simp
  also have "\<dots> \<le> 256 * 256 ^ length cs"
    using Cons by (metis Suc_leI mult_le_mono2)
  finally show ?case by simp
qed simp

lemma PutUint64_Uint64: "length b = 8 \<Longrightarrow> PutUint64 (Uint64 b) = b"
  using le_nat_bound [of b]
  by (simp add: PutUint64_def Uint64_def unat_of_nat take_bit_eq_mod le_bytes_le_nat)

lemma PutUint64_inject: "PutUint64 a = PutUint64 b \<longleftrightarrow> a = b"
  by (metis Uint64_PutUint64')

section \<open>Base64, URL alphabet, no padding\<close>

definition b64_alphabet :: string where
  "b64_alphabet = ''ABCDEFGHIJKLMNOPQRSTUVWXYZabcdefghijklmnopqrstuvwxyz0123456789-_''"

definition enc64 :: "nat \<Rightarrow> char" where
  "enc64 n = b64_alphabet ! (n mod 64)"

definition dec64 :: "char \<Rightarrow> nat option" where
  "dec64 c = (let i = length (takeWhile (\<lambda>x. x \<noteq> c) b64_alphabet) in
     if i < 64 then Some i else None)"

fun b64_encode :: "string \<Rightarrow> string" where
  "b64_encode (a # b # c # rest) =
     (let v = of_char a * 65536 + of_char b * 256 + of_char c in
      enc64 (v div 262144) # enc64 (v div 4096) # enc64 (v div 64) # enc64 v # b64_encode rest)"
| "b64_encode [a, b] =
     (let v = of_char a * 65536 + of_char b * 256 in
      [enc64 (v div 262144), enc64 (v div 4096), enc64 (v div 64)])"
| "b64_encode [a] =
     (let v = of_char a * 65536 in [enc64 (v div 262144), enc64 (v div 4096)])"
| "b64_encode [] = []"

text \<open>The decoder returns the bytes written and whether it met corrupt input.\<close>

fun b64_quanta :: "string \<Rightarrow> string \<times> bool" where
  "b64_quanta (a # b # c # d # rest) =
     (case (dec64 a, dec64 b, dec64 c, dec64 d) of
        (Some w, Some x, Some y, Some z) \<Rightarrow>
          (let v = w * 262144 + x * 4096 + y * 64 + z; (bs, bad) = b64_quanta rest in
           (char_of (v div 65536) # char_of (v div 256) # char_of v # bs, bad))
      | _ \<Rightarrow> ([], True))"
| "b64_quanta [a, b, c] =
     (case (dec64 a, dec64 b, dec64 c) of
        (Some w, Some x, Some y) \<Rightarrow>
          (let v = w * 262144 + x * 4096 + y * 64 in
           ([char_of (v div 65536), char_of (v div 256)], False))
      | _ \<Rightarrow> ([], True))"
| "b64_quanta [a, b] =
     (case (dec64 a, dec64 b) of
        (Some w, Some x) \<Rightarrow>
          (let v = w * 262144 + x * 4096 in ([char_of (v div 65536)], False))
      | _ \<Rightarrow> ([], True))"
| "b64_quanta [a] = ([], True)"
| "b64_quanta [] = ([], False)"

definition b64_decode :: "string \<Rightarrow> string \<times> bool" where
  "b64_decode s = b64_quanta (filter (\<lambda>c. of_char c \<noteq> (10::nat) \<and> of_char c \<noteq> (13::nat)) s)"

lemma dec64_enc64: "dec64 (enc64 n) = Some (n mod 64)"
proof -
  have "\<forall>i \<in> set [0..<64]. dec64 (b64_alphabet ! i) = Some i"
    by code_simp
  then show ?thesis by (simp add: enc64_def)
qed

lemma enc64_no_break: "of_char (enc64 n) \<noteq> (10::nat)" "of_char (enc64 n) \<noteq> (13::nat)"
proof -
  have "\<forall>i \<in> set [0..<64]. of_char (b64_alphabet ! i) \<noteq> (10::nat) \<and>
      of_char (b64_alphabet ! i) \<noteq> (13::nat)"
    by code_simp
  then show "of_char (enc64 n) \<noteq> (10::nat)" "of_char (enc64 n) \<noteq> (13::nat)"
    by (simp_all add: enc64_def)
qed

text \<open>A 24 bit quantum is the sum of its four six bit digits.\<close>

lemma digit_sum:
  fixes v :: nat
  assumes "q3 * 64 + r2 = q2" "q2 * 64 + r1 = q1" "q1 * 64 + r0 = v"
  shows "q3 * 262144 + r2 * 4096 + r1 * 64 + r0 = v"
  using assms by linarith

lemma quantum_digits:
  fixes v :: nat
  assumes "v < 16777216"
  shows "v div 262144 mod 64 * 262144 + v div 4096 mod 64 * 4096 + v div 64 mod 64 * 64 +
    v mod 64 = v"
proof -
  have "v div 4096 = v div 64 div 64" "v div 262144 = v div 64 div 64 div 64"
    by (simp_all add: div_mult2_eq [symmetric])
  moreover have "v div 64 div 64 div 64 mod 64 = v div 64 div 64 div 64"
    using assms by (simp add: div_mult2_eq [symmetric])
  ultimately show ?thesis
    using digit_sum [OF div_mult_mod_eq div_mult_mod_eq div_mult_mod_eq, of v] by simp
qed

lemma quantum_bytes:
  fixes a b c :: char
  defines "v \<equiv> of_char a * 65536 + of_char b * 256 + of_char c :: nat"
  shows "char_of (v div 65536) = a" "char_of (v div 256) = b" "char_of v = c" "v < 16777216"
proof -
  have lt: "of_char a < (256::nat)" "of_char b < (256::nat)" "of_char c < (256::nat)"
    by (simp_all add: nat_of_char_less_256)
  moreover have "v = of_char c + 256 * (of_char b + 256 * of_char a)" unfolding v_def by simp
  ultimately have "v mod 256 = of_char c" "v div 256 = of_char b + 256 * of_char a"
    by (simp_all only: mod_mult_self2 div_mult_self2 mod_less div_less)
  with lt have "v div 65536 = of_char a" "v div 256 mod 256 = of_char b" "v mod 256 = of_char c"
    by (simp_all add: div_mult2_eq [of v 256 256, simplified])
  then show "char_of (v div 65536) = a" "char_of (v div 256) = b" "char_of v = c"
    using char_of_mod_256 [of "v div 256"] char_of_mod_256 [of v] by simp_all
  show "v < 16777216" unfolding v_def using lt by linarith
qed

lemma b64_quanta_step:
  assumes "v < 16777216"
  shows "b64_quanta (enc64 (v div 262144) # enc64 (v div 4096) # enc64 (v div 64) # enc64 v # rest) =
    (char_of (v div 65536) # char_of (v div 256) # char_of v # fst (b64_quanta rest),
     snd (b64_quanta rest))"
  by (simp add: dec64_enc64 quantum_digits [OF assms] Let_def case_prod_unfold
      del: mod_div_trivial)

lemma b64_quanta_encode: "b64_quanta (b64_encode bs) = (bs, False)"
proof (induction bs rule: b64_encode.induct)
  case (1 a b c rest)
  define v :: nat where "v = of_char a * 65536 + of_char b * 256 + of_char c"
  have "b64_encode (a # b # c # rest) =
      enc64 (v div 262144) # enc64 (v div 4096) # enc64 (v div 64) # enc64 v # b64_encode rest"
    by (simp add: v_def Let_def)
  moreover note quantum_bytes [of a b c, folded v_def]
  ultimately show ?case
    using 1 [OF v_def] b64_quanta_step [of v "b64_encode rest"] by (simp del: b64_quanta.simps)
next
  case (2 a b)
  define v :: nat where "v = of_char a * 65536 + of_char b * 256"
  have enc: "b64_encode [a, b] = [enc64 (v div 262144), enc64 (v div 4096), enc64 (v div 64)]"
    by (simp add: v_def Let_def)
  have bytes: "char_of (v div 65536) = a" "char_of (v div 256) = b" "v < 16777216"
    using quantum_bytes [of a b "CHR 0x00"] by (simp_all add: v_def)
  have "v mod 64 = 0" unfolding v_def by presburger
  then have "v div 262144 mod 64 * 262144 + v div 4096 mod 64 * 4096 + v div 64 mod 64 * 64 = v"
    using quantum_digits [OF bytes(3)] by (simp only: add_0_right)
  then show ?case unfolding enc using bytes by (simp add: Let_def dec64_enc64 del: mod_div_trivial)
next
  case (3 a)
  define v :: nat where "v = of_char a * 65536"
  have enc: "b64_encode [a] = [enc64 (v div 262144), enc64 (v div 4096)]"
    by (simp add: v_def Let_def)
  have bytes: "char_of (v div 65536) = a" "v < 16777216"
    using quantum_bytes [of a "CHR 0x00" "CHR 0x00"] by (simp_all add: v_def)
  have "v = 64 * (64 * (16 * of_char a))" unfolding v_def by simp
  then have "v mod 64 = 0" "v div 64 mod 64 = 0"
    by (simp_all only: mod_mult_self1_is_0 nonzero_mult_div_cancel_left)
  then have "v div 262144 mod 64 * 262144 + v div 4096 mod 64 * 4096 = v"
    using quantum_digits [OF bytes(2)] by (simp only: add_0_right mult_zero_left)
  then show ?case unfolding enc using bytes by (simp add: Let_def dec64_enc64 del: mod_div_trivial)
next
  case 4
  then show ?case by simp
qed

lemma b64_encode_no_break:
  "c \<in> set (b64_encode bs) \<Longrightarrow> of_char c \<noteq> (10::nat) \<and> of_char c \<noteq> (13::nat)"
  by (induction bs rule: b64_encode.induct) (auto simp: Let_def enc64_no_break)

lemma b64_roundtrip: "b64_decode (b64_encode bs) = (bs, False)"
proof -
  have "filter (\<lambda>c. of_char c \<noteq> (10::nat) \<and> of_char c \<noteq> (13::nat)) (b64_encode bs) = b64_encode bs"
    by (auto simp: filter_id_conv dest: b64_encode_no_break)
  then show ?thesis by (simp add: b64_decode_def b64_quanta_encode)
qed

lemma length_b64_encode: "length (b64_encode bs) = (length bs * 8 + 5) div 6"
  by (induction bs rule: b64_encode.induct) (auto simp: Let_def)

end
