(* ===== verification/Uid.thy ===== *)
theory Uid
  imports Encoding "HOL-Library.List_Lexorder"
begin

text \<open>
  User and object identifiers (\<^verbatim>\<open>server/store/types/uid.go\<close> and
  \<^verbatim>\<open>server/store/types/uidgen.go\<close>): the binary, text and JSON forms of a \<open>Uid\<close>, names of
  user, group, channel and peer to peer topics, sorted slices of identifiers, and the generator
  that encrypts a sequence number into an identifier.

  The sequence source (package snowflake) and the block cipher (package xtea) are third party
  code: they are arguments of the definitions that call them.
\<close>

type_synonym uid = "64 word"

definition ZeroUid :: uid where "ZeroUid = 0"

definition uidBase64Unpadded :: nat where "uidBase64Unpadded = 11"
definition p2pBase64Unpadded :: nat where "p2pBase64Unpadded = 22"

definition uid_IsZero :: "uid \<Rightarrow> bool" where "uid_IsZero u = (u = ZeroUid)"

definition uid_Compare :: "uid \<Rightarrow> uid \<Rightarrow> int" where
  "uid_Compare u u2 = (if u < u2 then -1 else if u > u2 then 1 else 0)"

section \<open>Binary, text and JSON forms\<close>

datatype uid_error =
    UidLength | UidDecode | UidUnrecognized | P2PLength | P2PDecode | P2PPrefix

definition uid_MarshalBinary :: "uid \<Rightarrow> string" where
  "uid_MarshalBinary u = PutUint64 u"

definition uid_UnmarshalBinary :: "uid \<Rightarrow> string \<Rightarrow> uid_error option \<times> uid" where
  "uid_UnmarshalBinary u b = (if length b < 8 then (Some UidLength, u) else (None, Uint64 b))"

definition uid_UnmarshalText :: "uid \<Rightarrow> string \<Rightarrow> uid_error option \<times> uid" where
  "uid_UnmarshalText u src =
     (if length src \<noteq> uidBase64Unpadded then (Some UidLength, u)
      else
        let (dec, err) = b64_decode src in
        if length dec < 8 then (Some UidDecode, u) else (None, Uint64 dec))"

definition uid_MarshalText :: "uid \<Rightarrow> string" where
  "uid_MarshalText u = (if u = ZeroUid then [] else b64_encode (PutUint64 u))"

definition uid_MarshalJSON :: "uid \<Rightarrow> string" where
  "uid_MarshalJSON u = CHR 0x22 # uid_MarshalText u @ [CHR 0x22]"

definition uid_UnmarshalJSON :: "uid \<Rightarrow> string \<Rightarrow> uid_error option \<times> uid" where
  "uid_UnmarshalJSON u b =
     (if length b \<noteq> uidBase64Unpadded + 2 then (Some UidLength, u)
      else if hd b \<noteq> CHR 0x22 \<or> last b \<noteq> CHR 0x22 then (Some UidUnrecognized, u)
      else uid_UnmarshalText u (butlast (tl b)))"

definition uid_String :: "uid \<Rightarrow> string" where
  "uid_String u = uid_MarshalText u"

definition ParseUid :: "string \<Rightarrow> uid" where
  "ParseUid s = snd (uid_UnmarshalText 0 s)"

section \<open>Topic names\<close>

definition PrefixId :: "uid \<Rightarrow> string \<Rightarrow> string" where
  "PrefixId u prefix = (if uid_IsZero u then [] else prefix @ uid_String u)"

definition UserId :: "uid \<Rightarrow> string" where "UserId u = PrefixId u ''usr''"
definition FndName :: "uid \<Rightarrow> string" where "FndName u = PrefixId u ''fnd''"
definition SlfName :: "uid \<Rightarrow> string" where "SlfName u = PrefixId u ''slf''"

definition ParseUserId :: "string \<Rightarrow> uid" where
  "ParseUserId s = (if HasPrefix s ''usr'' then snd (uid_UnmarshalText 0 (drop 3 s)) else 0)"

definition GrpToChn :: "string \<Rightarrow> string" where
  "GrpToChn grp =
     (if HasPrefix grp ''grp'' then ''chn'' @ drop 3 grp
      else if HasPrefix grp ''chn'' then grp
      else [])"

definition IsChannel :: "string \<Rightarrow> bool" where "IsChannel name = HasPrefix name ''chn''"

definition ChnToGrp :: "string \<Rightarrow> string" where
  "ChnToGrp chn =
     (if HasPrefix chn ''chn'' then ''grp'' @ drop 3 chn
      else if HasPrefix chn ''grp'' then chn
      else [])"

definition P2PName :: "uid \<Rightarrow> uid \<Rightarrow> string" where
  "P2PName u u2 =
     (if \<not> uid_IsZero u \<and> \<not> uid_IsZero u2 then
        (let b1 = uid_MarshalBinary u; b2 = uid_MarshalBinary u2 in
         if u < u2 then ''p2p'' @ b64_encode (b1 @ b2)
         else if u > u2 then ''p2p'' @ b64_encode (b2 @ b1)
         else [])
      else [])"

definition ParseP2P :: "string \<Rightarrow> uid_error + uid \<times> uid" where
  "ParseP2P p2p =
     (if HasPrefix p2p ''p2p'' then
        (let src = drop 3 p2p in
         if length src \<noteq> p2pBase64Unpadded then Inl P2PLength
         else
           let (dec, err) = b64_decode src in
           if length dec < 16 then Inl P2PDecode
           else Inr (Uint64 dec, Uint64 (drop 8 dec)))
      else Inl P2PPrefix)"

definition P2PNameForUser :: "uid \<Rightarrow> string \<Rightarrow> uid_error + string" where
  "P2PNameForUser u p2p =
     (case ParseP2P p2p of
        Inl err \<Rightarrow> Inl err
      | Inr (uid1, uid2) \<Rightarrow>
          Inr (if uid_Compare u uid1 = 0 then UserId uid2 else UserId uid1))"

section \<open>Sorted slices of identifiers\<close>

type_synonym uid_slice = "uid list"

definition us_find :: "uid_slice \<Rightarrow> uid \<Rightarrow> nat \<times> bool" where
  "us_find us u =
     (let l = length us in
      if l = 0 \<or> us ! 0 > u then (0, False)
      else if u > us ! (l - 1) then (l, False)
      else let idx = Search l (\<lambda>i. u \<le> us ! i) in (idx, idx < l \<and> us ! idx = u))"

definition us_Add :: "uid_slice \<Rightarrow> uid \<Rightarrow> bool \<times> uid_slice" where
  "us_Add us u =
     (let (idx, found) = us_find us u in
      if found then (False, us) else (True, take idx us @ u # drop idx us))"

definition us_Rem :: "uid_slice \<Rightarrow> uid \<Rightarrow> bool \<times> uid_slice" where
  "us_Rem us u =
     (let (idx, found) = us_find us u in
      if \<not> found then (False, us)
      else if idx = length us - 1 then (True, take idx us)
      else (True, take idx us @ drop (idx + 1) us))"

definition us_Contains :: "uid_slice \<Rightarrow> uid \<Rightarrow> bool" where
  "us_Contains us u = snd (us_find us u)"

section \<open>The identifier generator\<close>

record ('node, 'cipher) uid_generator =
  ug_seq :: "'node option"
  ug_cipher :: "'cipher option"

datatype 'e gen_error = GenUninitialized | GenInit 'e

definition ug_Init ::
  "(nat \<Rightarrow> 'e + 'node) \<Rightarrow> (string \<Rightarrow> 'e + 'cipher) \<Rightarrow> nat \<Rightarrow> string \<Rightarrow>
   ('node, 'cipher) uid_generator \<Rightarrow> 'e option \<times> ('node, 'cipher) uid_generator" where
  "ug_Init newNode newCipher workerID key ug =
     (let (err, ug1) =
        (case ug_seq ug of
           Some _ \<Rightarrow> (None, ug)
         | None \<Rightarrow> (case newNode workerID of
                      Inl e \<Rightarrow> (Some e, ug)
                    | Inr nd \<Rightarrow> (None, ug\<lparr>ug_seq := Some nd\<rparr>)))
      in if err = None \<and> ug_cipher ug1 = None then
           (case newCipher key of
              Inl e \<Rightarrow> (Some e, ug1)
            | Inr c \<Rightarrow> (None, ug1\<lparr>ug_cipher := Some c\<rparr>))
         else (err, ug1))"

definition getIDBuffer ::
  "('node \<Rightarrow> int \<times> 'node) \<Rightarrow> ('cipher \<Rightarrow> string \<Rightarrow> string) \<Rightarrow>
   ('node, 'cipher) uid_generator \<Rightarrow> ('e gen_error + string) \<times> ('node, 'cipher) uid_generator"
  where
  "getIDBuffer generate encrypt ug =
     (case (ug_seq ug, ug_cipher ug) of
        (Some nd, Some c) \<Rightarrow>
          (let (n, nd') = generate nd; idv = word_of_int n in
           (Inr (encrypt c (PutUint64 idv)), ug\<lparr>ug_seq := Some nd'\<rparr>))
      | _ \<Rightarrow> (Inl GenUninitialized, ug))"

definition ug_Get ::
  "('node \<Rightarrow> int \<times> 'node) \<Rightarrow> ('cipher \<Rightarrow> string \<Rightarrow> string) \<Rightarrow>
   ('node, 'cipher) uid_generator \<Rightarrow> uid \<times> ('node, 'cipher) uid_generator" where
  "ug_Get generate encrypt ug =
     (case getIDBuffer generate encrypt ug of
        (Inl (_ :: unit gen_error), ug') \<Rightarrow> (ZeroUid, ug')
      | (Inr buf, ug') \<Rightarrow> (Uint64 buf, ug'))"

definition ug_GetStr ::
  "('node \<Rightarrow> int \<times> 'node) \<Rightarrow> ('cipher \<Rightarrow> string \<Rightarrow> string) \<Rightarrow>
   ('node, 'cipher) uid_generator \<Rightarrow> string \<times> ('node, 'cipher) uid_generator" where
  "ug_GetStr generate encrypt ug =
     (case getIDBuffer generate encrypt ug of
        (Inl (_ :: unit gen_error), ug') \<Rightarrow> ([], ug')
      | (Inr buf, ug') \<Rightarrow> (b64_encode buf, ug'))"

definition DecodeUid ::
  "('cipher \<Rightarrow> string \<Rightarrow> string) \<Rightarrow> ('node, 'cipher) uid_generator \<Rightarrow> uid \<Rightarrow> int" where
  "DecodeUid decrypt ug u =
     (case (ug_seq ug, ug_cipher ug) of
        (Some _, Some c) \<Rightarrow> sint (Uint64 (decrypt c (PutUint64 u)))
      | _ \<Rightarrow> 0)"

definition EncodeInt64 ::
  "('cipher \<Rightarrow> string \<Rightarrow> string) \<Rightarrow> ('node, 'cipher) uid_generator \<Rightarrow> int \<Rightarrow> uid" where
  "EncodeInt64 encrypt ug val =
     (case (ug_seq ug, ug_cipher ug) of
        (Some _, Some c) \<Rightarrow> Uint64 (encrypt c (PutUint64 (word_of_int val)))
      | _ \<Rightarrow> ZeroUid)"


section \<open>Round trips\<close>

lemma b64_uid [simp]: "b64_decode (b64_encode (PutUint64 u)) = (PutUint64 u, False)"
  by (rule b64_roundtrip)

lemma length_uid_String [simp]: "u \<noteq> 0 \<Longrightarrow> length (uid_MarshalText u) = 11"
  by (simp add: uid_MarshalText_def ZeroUid_def length_b64_encode)

lemma UnmarshalText_uid_MarshalText:
  "u \<noteq> 0 \<Longrightarrow> uid_UnmarshalText k (uid_MarshalText u) = (None, u)"
  by (simp add: uid_UnmarshalText_def uidBase64Unpadded_def)
    (simp add: uid_MarshalText_def ZeroUid_def)

lemma ParseUid_String [simp]: "ParseUid (uid_String u) = u"
proof (cases "u = 0")
  case True
  then show ?thesis
    by (simp add: ParseUid_def uid_String_def uid_MarshalText_def ZeroUid_def uid_UnmarshalText_def
        uidBase64Unpadded_def)
next
  case False
  then show ?thesis by (simp add: ParseUid_def uid_String_def UnmarshalText_uid_MarshalText)
qed

lemma ParseUserId_UserId [simp]: "ParseUserId (UserId u) = u"
proof (cases "u = 0")
  case True
  then show ?thesis
    by (simp add: ParseUserId_def UserId_def PrefixId_def uid_IsZero_def ZeroUid_def HasPrefix_def)
next
  case False
  then show ?thesis
    by (simp add: ParseUserId_def UserId_def PrefixId_def uid_IsZero_def ZeroUid_def uid_String_def
        UnmarshalText_uid_MarshalText HasPrefix_def)
qed

text \<open>Reading back what was written gives the same identifier, for the binary form, the
  base64 text, the \<open>usr\<close> name and (for an initialised identifier) the JSON string; so two
  identifiers never share a text.\<close>

theorem uid_roundtrip:
  "uid_UnmarshalBinary k (uid_MarshalBinary u) = (None, u) \<and>
   ParseUid (uid_String u) = u \<and> ParseUserId (UserId u) = u \<and>
   (u \<noteq> ZeroUid \<longrightarrow> uid_UnmarshalText k (uid_MarshalText u) = (None, u) \<and>
      uid_UnmarshalJSON k (uid_MarshalJSON u) = (None, u))"
  by (auto simp: uid_UnmarshalBinary_def uid_MarshalBinary_def ZeroUid_def
      UnmarshalText_uid_MarshalText uid_UnmarshalJSON_def uid_MarshalJSON_def uidBase64Unpadded_def)

theorem uid_roundtrip_witness:
  "(7 :: uid) \<noteq> ZeroUid \<and> uid_UnmarshalJSON 0 (uid_MarshalJSON 7) = (None, 7) \<and>
   ParseUserId (UserId 7) = 7"
proof -
  have "(7 :: uid) \<noteq> ZeroUid" by (simp add: ZeroUid_def)
  then show ?thesis using uid_roundtrip [of 0 7] by blast
qed

section \<open>Peer to peer topics\<close>

lemma P2PName_less:
  assumes "u \<noteq> 0" "u < v"
  shows "P2PName u v = ''p2p'' @ b64_encode (PutUint64 u @ PutUint64 v)"
    and "P2PName v u = ''p2p'' @ b64_encode (PutUint64 u @ PutUint64 v)"
    and "ParseP2P (P2PName u v) = Inr (u, v)"
proof -
  have v: "v \<noteq> 0" using assms(2) by auto
  show eq: "P2PName u v = ''p2p'' @ b64_encode (PutUint64 u @ PutUint64 v)"
    and "P2PName v u = ''p2p'' @ b64_encode (PutUint64 u @ PutUint64 v)"
    using assms v
    by (auto simp: P2PName_def uid_IsZero_def ZeroUid_def uid_MarshalBinary_def Let_def)
  show "ParseP2P (P2PName u v) = Inr (u, v)"
    unfolding eq
    by (simp add: ParseP2P_def HasPrefix_def length_b64_encode p2pBase64Unpadded_def b64_roundtrip)
qed

lemma uid_Compare_eq [simp]: "uid_Compare u v = 0 \<longleftrightarrow> u = v"
  by (auto simp: uid_Compare_def)

text \<open>The name of the peer to peer topic of two distinct users does not depend on which of
  them asks for it, determines the pair, and is shown to each of the two as the other's user
  name.\<close>

theorem p2p_name:
  assumes "u \<noteq> ZeroUid" "v \<noteq> ZeroUid" "u \<noteq> v"
  shows "P2PName u v = P2PName v u \<and>
    ParseP2P (P2PName u v) = Inr (min u v, max u v) \<and>
    P2PNameForUser u (P2PName u v) = Inr (UserId v) \<and>
    P2PNameForUser v (P2PName u v) = Inr (UserId u)"
proof -
  consider "u < v" | "v < u" using assms(3) by fastforce
  then show ?thesis
  proof cases
    case 1
    note less = P2PName_less [OF _ 1]
    from assms less show ?thesis
      using 1 by (simp add: ZeroUid_def P2PNameForUser_def min_def max_def)
  next
    case 2
    note less = P2PName_less [OF _ 2]
    from assms less have "ParseP2P (P2PName u v) = Inr (v, u)" "P2PName u v = P2PName v u"
      by (simp_all add: ZeroUid_def)
    with 2 assms show ?thesis
      by (auto simp: P2PNameForUser_def min_def max_def)
  qed
qed

theorem p2p_name_witness:
  "(5 :: uid) \<noteq> ZeroUid \<and> (3 :: uid) \<noteq> ZeroUid \<and> (5 :: uid) \<noteq> 3 \<and>
   P2PName 5 3 = P2PName 3 5 \<and> ParseP2P (P2PName 5 3) = Inr (min 5 3, max 5 3)"
proof -
  have h: "(5 :: uid) \<noteq> ZeroUid" "(3 :: uid) \<noteq> ZeroUid" "(5 :: uid) \<noteq> 3"
    by (simp_all add: ZeroUid_def)
  show ?thesis using h p2p_name [OF h] by blast
qed

section \<open>Slices as finite sets\<close>

text \<open>
  The contract of a duplicate free set of keys with reporting insertion and removal, and what
  its clients may conclude from it.
\<close>

locale reporting_set =
  fixes add_key :: "'s \<Rightarrow> 'k \<Rightarrow> bool \<times> 's"
    and rem_key :: "'s \<Rightarrow> 'k \<Rightarrow> bool \<times> 's"
    and has_key :: "'s \<Rightarrow> 'k \<Rightarrow> bool"
    and keys :: "'s \<Rightarrow> 'k set"
    and valid :: "'s \<Rightarrow> bool"
  assumes has_key: "valid s \<Longrightarrow> has_key s k \<longleftrightarrow> k \<in> keys s"
    and add_keys: "valid s \<Longrightarrow> keys (snd (add_key s k)) = insert k (keys s)"
    and add_report: "valid s \<Longrightarrow> fst (add_key s k) \<longleftrightarrow> k \<notin> keys s"
    and add_valid: "valid s \<Longrightarrow> valid (snd (add_key s k))"
    and rem_keys: "valid s \<Longrightarrow> keys (snd (rem_key s k)) = keys s - {k}"
    and rem_report: "valid s \<Longrightarrow> fst (rem_key s k) \<longleftrightarrow> k \<in> keys s"
    and rem_valid: "valid s \<Longrightarrow> valid (snd (rem_key s k))"
begin

lemma add_then_has: "valid s \<Longrightarrow> has_key (snd (add_key s k)) k"
  by (simp add: has_key add_keys add_valid)

lemma rem_then_has: "valid s \<Longrightarrow> has_key (snd (rem_key s k)) j \<longleftrightarrow> j \<noteq> k \<and> has_key s j"
  by (auto simp: has_key rem_keys rem_valid)

lemma add_all:
  assumes "valid s"
  shows "valid (fold (\<lambda>k t. snd (add_key t k)) ks s)"
    and "keys (fold (\<lambda>k t. snd (add_key t k)) ks s) = keys s \<union> set ks"
  using assms by (induction ks arbitrary: s) (auto simp: add_keys add_valid)

end

lemma us_search:
  fixes us :: uid_slice and u :: uid
  assumes "sorted_wrt (<) us"
  defines "idx \<equiv> Search (length us) (\<lambda>i. u \<le> us ! i)"
  shows "idx \<le> length us" "\<And>x. x \<in> set (take idx us) \<Longrightarrow> x < u"
    "\<And>x. x \<in> set (drop idx us) \<Longrightarrow> u \<le> x"
proof -
  have up: "up_closed (length us) (\<lambda>i. u \<le> us ! i)"
    using assms(1) unfolding up_closed_def
    by (metis le_neq_implies_less order_less_imp_le order_trans sorted_wrt_nth_less)
  note spec = Search_spec [OF up, folded idx_def]
  show "idx \<le> length us" by (rule spec)
  show "x < u" if "x \<in> set (take idx us)" for x
    using that spec(2) by (force simp: in_set_conv_nth)
  show "u \<le> x" if "x \<in> set (drop idx us)" for x
  proof -
    from that obtain i where "x = us ! (idx + i)" "idx + i < length us"
      by (auto simp: in_set_conv_nth)
    then show ?thesis using spec(3) [of "idx + i"] by simp
  qed
qed

text \<open>The short cuts of \<open>find\<close> agree with the search itself.\<close>

lemma us_find_search:
  assumes "sorted_wrt (<) us"
  shows "us_find us u =
    (let idx = Search (length us) (\<lambda>i. u \<le> us ! i) in (idx, idx < length us \<and> us ! idx = u))"
proof -
  define idx where "idx = Search (length us) (\<lambda>i. u \<le> us ! i)"
  note s = us_search [OF assms, where u = u, folded idx_def]
  have first: "idx = 0" if "us = [] \<or> u < us ! 0"
  proof (rule ccontr)
    assume "idx \<noteq> 0"
    with s(1) have "us \<noteq> []" "us ! 0 \<in> set (take idx us)"
      by (auto simp: in_set_conv_nth)
    with s(2) that show False by force
  qed
  have last: "idx = length us" if "us \<noteq> []" "us ! (length us - 1) < u"
  proof (rule ccontr)
    assume "idx \<noteq> length us"
    with s(1) have "us ! (length us - 1) \<in> set (drop idx us)"
      by (auto simp: in_set_conv_nth intro!: exI [of _ "length us - 1 - idx"])
    with s(3) that show False by force
  qed
  show ?thesis
    using first last unfolding us_find_def idx_def by (auto simp: Let_def)
qed


lemma us_found_iff:
  assumes "sorted_wrt (<) us"
  shows "snd (us_find us u) \<longleftrightarrow> u \<in> set us"
proof -
  define idx where "idx = Search (length us) (\<lambda>i. u \<le> us ! i)"
  note s = us_search [OF assms, where u = u, folded idx_def]
  have "u \<in> set us \<longleftrightarrow> idx < length us \<and> us ! idx = u"
  proof
    assume "u \<in> set us"
    then have "u \<in> set (drop idx us)"
      using s(2) [of u] by (metis Un_iff append_take_drop_id order_less_irrefl set_append)
    then have len: "idx < length us" by (cases "idx < length us") auto
    moreover have "us ! idx \<le> u"
    proof -
      have "sorted_wrt (<) (drop idx us)" using assms by (rule sorted_wrt_drop)
      moreover have "drop idx us = us ! idx # drop (Suc idx) us"
        using len by (rule Cons_nth_drop_Suc [symmetric])
      ultimately show ?thesis
        using \<open>u \<in> set (drop idx us)\<close> by (auto simp: less_imp_le)
    qed
    moreover have "u \<le> us ! idx"
      using s(3) len by (metis Cons_nth_drop_Suc list.set_intros(1))
    ultimately show "idx < length us \<and> us ! idx = u" by simp
  qed auto
  then show ?thesis by (simp add: us_find_search [OF assms] idx_def [symmetric] Let_def)
qed

lemma us_Add_props:
  assumes "sorted_wrt (<) us"
  shows "fst (us_Add us u) \<longleftrightarrow> u \<notin> set us"
    and "set (snd (us_Add us u)) = insert u (set us)"
    and "sorted_wrt (<) (snd (us_Add us u))"
proof -
  define idx where "idx = Search (length us) (\<lambda>i. u \<le> us ! i)"
  note s = us_search [OF assms, where u = u, folded idx_def]
  have find: "us_find us u = (idx, u \<in> set us)"
    using us_found_iff [OF assms, of u]
    by (simp add: us_find_search [OF assms] idx_def [symmetric] Let_def)
  show "fst (us_Add us u) \<longleftrightarrow> u \<notin> set us" by (simp add: us_Add_def find)
  have split: "set us = set (take idx us) \<union> set (drop idx us)"
    by (metis append_take_drop_id set_append)
  then show "set (snd (us_Add us u)) = insert u (set us)"
    by (auto simp: us_Add_def find)
  have "sorted_wrt (<) (take idx us @ u # drop idx us)" if "u \<notin> set us"
  proof -
    have "u < x" if "x \<in> set (drop idx us)" for x
      using s(3) [OF that] that \<open>u \<notin> set us\<close> split by (metis UnI2 order_le_less)
    moreover have "sorted_wrt (<) (take idx us @ drop idx us)" using assms by simp
    ultimately show ?thesis using s(2) unfolding sorted_wrt_append by (auto intro: less_trans)
  qed
  then show "sorted_wrt (<) (snd (us_Add us u))"
    using assms by (simp add: us_Add_def find)
qed

lemma us_Rem_props:
  assumes "sorted_wrt (<) us"
  shows "fst (us_Rem us u) \<longleftrightarrow> u \<in> set us"
    and "set (snd (us_Rem us u)) = set us - {u}"
    and "sorted_wrt (<) (snd (us_Rem us u))"
proof -
  define idx where "idx = Search (length us) (\<lambda>i. u \<le> us ! i)"
  have find: "us_find us u = (idx, u \<in> set us)"
    using us_found_iff [OF assms, of u]
    by (simp add: us_find_search [OF assms] idx_def [symmetric] Let_def)
  have at: "idx < length us \<and> us ! idx = u" if "u \<in> set us"
    using that us_found_iff [OF assms, of u]
    by (simp add: us_find_search [OF assms] idx_def [symmetric] Let_def)
  have rem: "snd (us_Rem us u) = (if u \<in> set us then take idx us @ drop (Suc idx) us else us)"
    using at by (auto simp: us_Rem_def find)
  show "fst (us_Rem us u) \<longleftrightarrow> u \<in> set us" by (simp add: us_Rem_def find)
  have dist: "distinct us" using assms by (simp add: strict_sorted_iff)
  have parts: "us = take idx us @ u # drop (Suc idx) us" if "u \<in> set us"
    using at [OF that] by (metis id_take_nth_drop)
  show "set (snd (us_Rem us u)) = set us - {u}"
  proof (cases "u \<in> set us")
    case True
    have "distinct (take idx us @ u # drop (Suc idx) us)" using dist parts [OF True] by simp
    then have "set (take idx us @ u # drop (Suc idx) us) - {u} =
        set (take idx us @ drop (Suc idx) us)" by auto
    then show ?thesis using True parts [OF True] rem by simp
  qed (simp add: rem)
  show "sorted_wrt (<) (snd (us_Rem us u))"
  proof (cases "u \<in> set us")
    case True
    have "sorted_wrt (<) (take idx us @ u # drop (Suc idx) us)" using assms parts [OF True] by simp
    then show ?thesis using True rem by (auto simp: sorted_wrt_append)
  qed (simp add: rem assms)
qed

interpretation uset: reporting_set us_Add us_Rem us_Contains set "sorted_wrt (<)"
  by unfold_locales
    (simp_all add: us_Contains_def us_found_iff us_Add_props us_Rem_props)

text \<open>A slice of identifiers built from an empty one by any sequence of \<open>Add\<close> is strictly
  ascending and holds exactly the added identifiers; \<open>Contains\<close> decides membership, and
  removing one identifier removes that one only.\<close>

theorem uid_slice_set:
  "sorted_wrt (<) (fold (\<lambda>u us. snd (us_Add us u)) uids []) \<and>
   (us_Contains (fold (\<lambda>u us. snd (us_Add us u)) uids []) u \<longleftrightarrow> u \<in> set uids) \<and>
   (us_Contains (snd (us_Rem (fold (\<lambda>u us. snd (us_Add us u)) uids []) v)) u \<longleftrightarrow>
      u \<noteq> v \<and> u \<in> set uids)"
  using uset.add_all [of "[]" uids]
  by (simp add: uset.has_key uset.rem_then_has)

section \<open>The generator\<close>

lemma encode_decode:
  assumes "\<And>c b. length b = 8 \<Longrightarrow> length (encrypt c b) = 8"
    and "\<And>c b. length b = 8 \<Longrightarrow> decrypt c (encrypt c b) = b"
    and "ug_seq ug = Some nd" "ug_cipher ug = Some c"
  shows "DecodeUid decrypt ug (EncodeInt64 encrypt ug val) = sint (word_of_int val :: 64 word)"
  using assms by (simp add: DecodeUid_def EncodeInt64_def PutUint64_Uint64)

text \<open>With a block cipher whose decryption inverts its encryption on blocks of eight bytes,
  an initialised generator maps every 64 bit database key to an identifier from which the same
  key is recovered, and the text it generates is the text of the identifier it generates.\<close>

theorem uid_generator_roundtrip:
  assumes enc: "\<And>c b. length b = 8 \<Longrightarrow> length (encrypt c b) = 8"
    and dec: "\<And>c b. length b = 8 \<Longrightarrow> decrypt c (encrypt c b) = b"
    and init: "ug_seq ug = Some nd" "ug_cipher ug = Some c"
    and range: "- (2 ^ 63) \<le> val" "val < 2 ^ 63"
  shows "DecodeUid decrypt ug (EncodeInt64 encrypt ug val) = val \<and>
    (fst (ug_Get generate encrypt ug) \<noteq> ZeroUid \<longrightarrow>
      fst (ug_GetStr generate encrypt ug) = uid_String (fst (ug_Get generate encrypt ug)))"
proof -
  have "sint (word_of_int val :: 64 word) = val"
    using range by (simp add: signed_of_int signed_take_bit_int_eq_self)
  moreover have "fst (ug_GetStr generate encrypt ug) = uid_String (fst (ug_Get generate encrypt ug))"
    if "fst (ug_Get generate encrypt ug) \<noteq> ZeroUid"
    using that enc init
    by (auto simp: ug_Get_def ug_GetStr_def getIDBuffer_def uid_String_def uid_MarshalText_def
        PutUint64_Uint64 Let_def split: prod.splits)
  moreover have "DecodeUid decrypt ug (EncodeInt64 encrypt ug val) = sint (word_of_int val :: 64 word)"
    using enc dec init by (rule encode_decode)
  ultimately show ?thesis by simp
qed

theorem uid_generator_roundtrip_witness:
  "DecodeUid (\<lambda>c b. rev b) \<lparr>ug_seq = Some (0::int), ug_cipher = Some ()\<rparr>
     (EncodeInt64 (\<lambda>c b. rev b) \<lparr>ug_seq = Some (0::int), ug_cipher = Some ()\<rparr> (-5)) = -5"
  using uid_generator_roundtrip [of "\<lambda>c b. rev b" "\<lambda>c b. rev b"
      "\<lparr>ug_seq = Some (0::int), ug_cipher = Some ()\<rparr>" 0 "()" "-5" "\<lambda>n. (n, n + 1)"]
  by simp

end
