(* ===== verification/Ranges.thy ===== *)
theory Ranges
  imports AccessMode Uid "HOL-Library.Product_Lexorder"
begin

text \<open>
  Ranges of message numbers (\<^verbatim>\<open>server/store/types/message.go\<close>, and the unread counter of
  \<^verbatim>\<open>internal/server/topic.go\<close>), the rolling list of read check points
  (\<^verbatim>\<open>server/store/types/read_history.go\<close>) and topic categories.

  A range holds the numbers from \<open>Low\<close> up to but without \<open>Hi\<close>; the value 0 of \<open>Hi\<close> marks
  the range of the single number \<open>Low\<close>. This reading, the one the struct's comment gives and
  the deletion handlers use, is \<open>range_ids\<close> below.
\<close>

section \<open>Ranges\<close>

record range =
  Low :: int
  Hi :: int

abbreviation Range :: "int \<Rightarrow> int \<Rightarrow> range" where
  "Range l h \<equiv> \<lparr>Low = l, Hi = h\<rparr>"

definition range_end :: "range \<Rightarrow> int" where
  "range_end r = (if Hi r = 0 then Low r + 1 else Hi r)"

definition range_ids :: "range \<Rightarrow> int set" where
  "range_ids r = {Low r ..< range_end r}"

definition ranges_ids :: "range list \<Rightarrow> int set" where
  "ranges_ids rs = (\<Union>r \<in> set rs. range_ids r)"

text \<open>\<open>RangeSorter.Less\<close>, and sorting by it: equal ranges are indistinguishable, so the result of
  the sort is determined by the order on \<open>Low\<close> and, for equal \<open>Low\<close>, the reverse order on
  \<open>Hi\<close>.\<close>

definition RangeLess :: "range \<Rightarrow> range \<Rightarrow> bool" where
  "RangeLess a b =
     (if Low a < Low b then True else if Low a = Low b then Hi a \<ge> Hi b else False)"

definition sort_ranges :: "range list \<Rightarrow> range list" where
  "sort_ranges rs = sort_key (\<lambda>r. (Low r, - Hi r)) rs"

fun normalize_loop :: "nat \<Rightarrow> nat \<Rightarrow> nat \<Rightarrow> range list \<Rightarrow> range list" where
  "normalize_loop 0 i prev rs = take (prev + 1) rs"
| "normalize_loop (Suc n) i prev rs =
     (if Low (rs ! prev) = Low (rs ! i) then normalize_loop n (i + 1) prev rs
      else if Hi (rs ! prev) > 0 \<and> Hi (rs ! prev) + 1 \<ge> Low (rs ! i) then
        normalize_loop n (i + 1) prev
          (if Hi (rs ! prev) < Hi (rs ! i)
           then rs[prev := (rs ! prev)\<lparr>Hi := Hi (rs ! i)\<rparr>] else rs)
      else normalize_loop n (i + 1) (prev + 1) rs)"

text \<open>The counter of the loop is the number of turns left, \<open>ll - i\<close>.\<close>

definition Normalize :: "range list \<Rightarrow> range list" where
  "Normalize rs = (if length rs > 1 then normalize_loop (length rs - 1) 1 0 rs else rs)"

fun slice_loop :: "range list \<Rightarrow> int list \<Rightarrow> range list" where
  "slice_loop out [] = out"
| "slice_loop out (i # ids) =
     (if out = [] then slice_loop [Range i 0] ids
      else
        let prev = last out in
        if (Hi prev = 0 \<and> i \<noteq> Low prev + 1) \<or> i > Hi prev
        then slice_loop (out @ [Range i 0]) ids
        else slice_loop (butlast out @ [prev\<lparr>Hi := i + 1\<rparr>]) ids)"

definition SliceToRanges :: "int list \<Rightarrow> range list" where
  "SliceToRanges ids = slice_loop [] ids"

fun unread_loop :: "int \<Rightarrow> int \<Rightarrow> int \<Rightarrow> range list \<Rightarrow> int" where
  "unread_loop readID lastID count [] = count"
| "unread_loop readID lastID count (r # rs) =
     (let rangeStart = Low r; rangeEnd = (if Hi r = 0 then rangeStart + 1 else Hi r) in
      if rangeEnd \<le> readID then unread_loop readID lastID count rs
      else
        let iStart = max (readID + 1) rangeStart; iEnd = min (lastID + 1) rangeEnd in
        unread_loop readID lastID (if iStart < iEnd then count + (iEnd - iStart) else count) rs)"

definition calculateUnreadInRanges :: "int \<Rightarrow> int \<Rightarrow> range list \<Rightarrow> int" where
  "calculateUnreadInRanges readID lastID ranges =
     (if readID \<ge> lastID then 0 else unread_loop readID lastID 0 ranges)"

section \<open>Read check points\<close>

record read_checkpoint =
  LowSeqId :: int
  HighSeqId :: int
  ReadAt :: go_time

type_synonym read_history = "read_checkpoint list"

definition maxReadHistoryCheckpoints :: nat where "maxReadHistoryCheckpoints = 4096"

definition rh_Append :: "read_history \<Rightarrow> int \<Rightarrow> int \<Rightarrow> go_time \<Rightarrow> go_time \<Rightarrow> read_history" where
  "rh_Append history lowSeqId highSeqId readAt cutoff =
     (if lowSeqId \<le> 0 \<or> highSeqId < lowSeqId then history
      else
        let filtered = filter (\<lambda>c. \<not> ReadAt c < cutoff) history;
            next = filtered @ [\<lparr>LowSeqId = lowSeqId, HighSeqId = highSeqId, ReadAt = readAt\<rparr>]
        in if length next > maxReadHistoryCheckpoints
           then drop (length next - maxReadHistoryCheckpoints) next else next)"

fun rh_TimeFor :: "read_history \<Rightarrow> int \<Rightarrow> go_time option" where
  "rh_TimeFor [] seqId = None"
| "rh_TimeFor (c # history) seqId =
     (if seqId \<ge> LowSeqId c \<and> seqId \<le> HighSeqId c then Some (ReadAt c)
      else rh_TimeFor history seqId)"

section \<open>Topic categories\<close>

datatype topic_cat =
  TopicCatMe | TopicCatFnd | TopicCatP2P | TopicCatGrp | TopicCatSys | TopicCatSlf

text \<open>\<open>name[:3]\<close> panics on a shorter name, as does a name of no known category.\<close>

definition GetTopicCat :: "string \<Rightarrow> topic_cat option" where
  "GetTopicCat name =
     (if length name < 3 then None
      else
        let p = take 3 name in
        if p = ''usr'' then Some TopicCatMe
        else if p = ''p2p'' then Some TopicCatP2P
        else if p = ''grp'' \<or> p = ''chn'' then Some TopicCatGrp
        else if p = ''fnd'' then Some TopicCatFnd
        else if p = ''sys'' then Some TopicCatSys
        else if p = ''slf'' then Some TopicCatSlf
        else None)"

definition IsEphemeralTopic :: "string \<Rightarrow> bool option" where
  "IsEphemeralTopic topic =
     (case GetTopicCat topic of
        None \<Rightarrow> None
      | Some cat \<Rightarrow> Some (cat = TopicCatMe \<or> cat = TopicCatFnd))"

text \<open>The name under which a topic is shown to one of its users.\<close>

definition topicNameForUser :: "string \<Rightarrow> uid \<Rightarrow> bool \<Rightarrow> string option" where
  "topicNameForUser name u isChan =
     (case GetTopicCat name of
        None \<Rightarrow> None
      | Some TopicCatMe \<Rightarrow> Some ''me''
      | Some TopicCatFnd \<Rightarrow> Some ''fnd''
      | Some TopicCatP2P \<Rightarrow>
          Some (case P2PNameForUser u name of Inl _ \<Rightarrow> [] | Inr topic \<Rightarrow> topic)
      | Some TopicCatGrp \<Rightarrow> Some (if isChan then GrpToChn name else name)
      | Some _ \<Rightarrow> Some name)"


section \<open>The unread counter\<close>

lemma finite_range_ids [simp]: "finite (range_ids r)"
  by (simp add: range_ids_def)

lemma unread_loop_sum:
  "unread_loop readID lastID count rs =
     count + (\<Sum>r \<leftarrow> rs. int (card (range_ids r \<inter> {readID + 1 .. lastID})))"
proof (induction rs arbitrary: count)
  case Nil
  then show ?case by simp
next
  case (Cons r rs)
  have eq: "range_ids r \<inter> {readID + 1 .. lastID} =
      {max (readID + 1) (Low r) ..< min (lastID + 1) (range_end r)}"
    by (auto simp: range_ids_def)
  have "int (card (range_ids r \<inter> {readID + 1 .. lastID})) =
      (if range_end r \<le> readID then 0
       else if max (readID + 1) (Low r) < min (lastID + 1) (range_end r)
       then min (lastID + 1) (range_end r) - max (readID + 1) (Low r) else 0)"
    unfolding eq by auto
  then show ?case
    by (simp add: Cons Let_def range_end_def [symmetric])
qed

definition ranges_disjoint :: "range list \<Rightarrow> bool" where
  "ranges_disjoint rs = sorted_wrt (\<lambda>a b. range_ids a \<inter> range_ids b = {}) rs"

lemma card_disjoint_ranges:
  assumes "ranges_disjoint rs"
  shows "(\<Sum>r \<leftarrow> rs. int (card (range_ids r \<inter> A))) = int (card (ranges_ids rs \<inter> A))"
  using assms
proof (induction rs)
  case Nil
  then show ?case by (simp add: ranges_ids_def)
next
  case (Cons r rs)
  then have "range_ids r \<inter> ranges_ids rs = {}" and IH: "ranges_disjoint rs"
    by (auto simp: ranges_disjoint_def ranges_ids_def)
  then have "card ((range_ids r \<inter> A) \<union> (ranges_ids rs \<inter> A)) =
      card (range_ids r \<inter> A) + card (ranges_ids rs \<inter> A)"
    by (intro card_Un_disjoint) (auto simp: ranges_ids_def)
  moreover have "ranges_ids (r # rs) \<inter> A = (range_ids r \<inter> A) \<union> (ranges_ids rs \<inter> A)"
    by (auto simp: ranges_ids_def)
  ultimately show ?case using Cons.IH [OF IH] by simp
qed

text \<open>For disjoint ranges the unread counter is the number of messages of the ranges that lie
  after the last read one and not after the last message of the topic.\<close>

theorem unread_count:
  assumes "ranges_disjoint ranges"
  shows "calculateUnreadInRanges readID lastID ranges =
    int (card (ranges_ids ranges \<inter> {readID + 1 .. lastID}))"
  using card_disjoint_ranges [OF assms, of "{readID + 1 .. lastID}"]
  by (simp add: calculateUnreadInRanges_def unread_loop_sum)

theorem unread_count_witness:
  "ranges_disjoint [Range 1 4, Range 6 0, Range 8 12] \<and>
   calculateUnreadInRanges 2 9 [Range 1 4, Range 6 0, Range 8 12] =
     int (card (ranges_ids [Range 1 4, Range 6 0, Range 8 12] \<inter> {2 + 1 .. 9})) \<and>
   calculateUnreadInRanges 2 9 [Range 1 4, Range 6 0, Range 8 12] = 4"
proof -
  have d: "ranges_disjoint [Range 1 4, Range 6 0, Range 8 12]"
    by (simp add: ranges_disjoint_def range_ids_def range_end_def)
  show ?thesis
    using d unread_count [OF d, of 2 9] by (simp add: calculateUnreadInRanges_def Let_def)
qed

section \<open>From numbers to ranges\<close>

lemma slice_loop_singles:
  assumes "sorted_wrt (<) ids" "\<forall>i \<in> set ids. 0 < i" "out \<noteq> [] \<Longrightarrow> Hi (last out) = 0"
    "out \<noteq> [] \<Longrightarrow> \<forall>i \<in> set ids. 0 < i"
  shows "slice_loop out ids = out @ map (\<lambda>i. Range i 0) ids"
  using assms by (induction ids arbitrary: out) (auto simp: Let_def)

text \<open>Converting ascending positive message numbers to ranges keeps exactly the given
  numbers; each number becomes a range of its own, because the test \<open>id > prev.Hi\<close> holds for
  every range of a single number, so adjacent numbers are never merged.\<close>

theorem slice_to_ranges:
  assumes "sorted_wrt (<) ids" "\<forall>i \<in> set ids. 0 < i"
  shows "ranges_ids (SliceToRanges ids) = set ids \<and>
    SliceToRanges ids = map (\<lambda>i. Range i 0) ids"
proof -
  have "SliceToRanges ids = map (\<lambda>i. Range i 0) ids"
    using slice_loop_singles [OF assms, of "[]"] by (simp add: SliceToRanges_def)
  then show ?thesis by (auto simp: ranges_ids_def range_ids_def range_end_def)
qed

theorem slice_to_ranges_witness:
  "ranges_ids (SliceToRanges [1, 2, 3, 7]) = set [1, 2, 3, 7] \<and>
   SliceToRanges [1, 2, 3, 7] = map (\<lambda>i. Range i 0) [1, 2, 3, 7]"
  by (rule slice_to_ranges) simp_all

section \<open>Merging ranges\<close>

text \<open>Two neighbours that the loop leaves apart.\<close>

definition apart :: "range \<Rightarrow> range \<Rightarrow> bool" where
  "apart a b \<longleftrightarrow> Low a < Low b \<and> (Hi a > 0 \<longrightarrow> Hi a + 1 < Low b)"

lemma normalize_loop_apart:
  assumes "sorted_wrt apart rs" "i + n = length rs" "0 < i"
  shows "normalize_loop n i (i - 1) rs = rs"
  using assms(2,3)
proof (induction n arbitrary: i)
  case 0
  then show ?case by simp
next
  case (Suc n)
  then have "apart (rs ! (i - 1)) (rs ! i)"
    using sorted_wrt_nth_less [OF assms(1), of "i - 1" i] by simp
  then show ?case
    using Suc.IH [of "i + 1"] Suc.prems by (auto simp: apart_def)
qed

text \<open>A run of ranges none of which starts beyond the end reached so far plus one is merged
  into the first of them.\<close>

fun chained :: "int \<Rightarrow> range list \<Rightarrow> bool" where
  "chained h [] = True"
| "chained h (r # rs) = (Low r \<le> h + 1 \<and> chained (max h (Hi r)) rs)"

lemma normalize_loop_chained:
  assumes "chained h (drop i rs)" "i + n = length rs" "0 < i" "h > 0"
    "rs ! 0 = Range l h" "\<forall>r \<in> set rs. Low r = l \<longrightarrow> Hi r \<le> h"
    "\<forall>r \<in> set rs. Low r \<ge> l"
  shows "normalize_loop n i 0 rs = [Range l (fold max (map Hi (drop i rs)) h)]"
  using assms
proof (induction n arbitrary: i rs h)
  case 0
  then have "rs \<noteq> []" by auto
  then show ?case using 0 by (cases rs) auto
next
  case (Suc n)
  have i: "i < length rs" and ne: "rs \<noteq> []" using Suc.prems(2) by auto
  define r where "r = rs ! i"
  define rs' where "rs' = (if h < Hi r then rs[0 := Range l (Hi r)] else rs)"
  have d: "drop i rs = r # drop (i + 1) rs" using i by (simp add: r_def Cons_nth_drop_Suc)
  have r: "r \<in> set rs" using i by (simp add: r_def)
  have c: "Low r \<le> h + 1" "chained (max h (Hi r)) (drop (i + 1) rs)"
    using Suc.prems(1) d by auto
  show ?case
  proof (cases "Low r = l")
    case True
    then have "Hi r \<le> h" using Suc.prems(6) r by blast
    then show ?thesis
      using Suc.IH [of h "i + 1" rs] Suc.prems c True d by (simp add: r_def [symmetric] max_absorb1)
  next
    case False
    have len: "length rs' = length rs" by (simp add: rs'_def)
    have dr: "drop (i + 1) rs' = drop (i + 1) rs" by (simp add: rs'_def)
    have h0: "rs' ! 0 = Range l (max h (Hi r))"
      using ne Suc.prems(5) by (auto simp: rs'_def max_def)
    have sub: "set rs' \<subseteq> insert (Range l (max h (Hi r))) (set rs)"
      using set_update_subset_insert [of rs 0 "Range l (Hi r)"] by (auto simp: rs'_def max_def)
    have "normalize_loop n (i + 1) 0 rs' =
        [Range l (fold max (map Hi (drop (i + 1) rs')) (max h (Hi r)))]"
    proof (rule Suc.IH)
      show "chained (max h (Hi r)) (drop (i + 1) rs')" using c dr by simp
      show "\<forall>q \<in> set rs'. Low q = l \<longrightarrow> Hi q \<le> max h (Hi r)"
      proof (intro ballI impI)
        fix q assume "q \<in> set rs'" "Low q = l"
        then have "q = Range l (max h (Hi r)) \<or> Hi q \<le> h" using sub Suc.prems(6) by blast
        then show "Hi q \<le> max h (Hi r)" by (auto simp: le_max_iff_disj)
      qed
      show "\<forall>q \<in> set rs'. Low q \<ge> l" using sub Suc.prems(7) by (auto dest!: subsetD)
    qed (use Suc.prems len h0 in auto)
    moreover have "normalize_loop (Suc n) i 0 rs = normalize_loop n (i + 1) 0 rs'"
      using False Suc.prems(4,5) c(1) by (simp add: rs'_def r_def [symmetric])
    ultimately show ?thesis using d dr by (simp add: max.commute)
  qed
qed

text \<open>Merging leaves a list of ranges as it is when each starts more than one past the end
  of the one before it, and turns a list in which every range starts at most one past the end
  reached so far into the single range up to the largest end.\<close>

theorem normalize_merges:
  "(sorted_wrt apart rs \<longrightarrow> Normalize rs = rs) \<and>
   (0 < h \<and> chained h rs \<and> (\<forall>r \<in> set rs. l \<le> Low r \<and> (Low r = l \<longrightarrow> Hi r \<le> h)) \<longrightarrow>
      Normalize (Range l h # rs) = [Range l (fold max (map Hi rs) h)])"
proof (intro conjI impI)
  assume "sorted_wrt apart rs"
  then show "Normalize rs = rs"
    using normalize_loop_apart [of rs 1 "length rs - 1"] by (auto simp: Normalize_def)
next
  assume "0 < h \<and> chained h rs \<and> (\<forall>r \<in> set rs. l \<le> Low r \<and> (Low r = l \<longrightarrow> Hi r \<le> h))"
  then show "Normalize (Range l h # rs) = [Range l (fold max (map Hi rs) h)]"
    using normalize_loop_chained [of h 1 "Range l h # rs" "length rs" l]
    by (auto simp: Normalize_def)
qed

theorem normalize_merges_witness:
  "Normalize [Range 1 4, Range 6 9] = [Range 1 4, Range 6 9] \<and>
   Normalize [Range 1 4, Range 2 4, Range 5 7] = [Range 1 7]"
proof -
  have "sorted_wrt apart [Range 1 4, Range 6 9]" by (simp add: apart_def)
  moreover have "0 < (4::int) \<and> chained 4 [Range 2 4, Range 5 7] \<and>
      (\<forall>r \<in> set [Range 2 4, Range 5 7]. 1 \<le> Low r \<and> (Low r = 1 \<longrightarrow> Hi r \<le> 4))" by simp
  moreover have "fold max (map Hi [Range 2 4, Range 5 7]) (4::int) = 7" by simp
  ultimately show ?thesis
    using normalize_merges [of "[Range 1 4, Range 6 9]" 4 1]
      normalize_merges [of "[Range 2 4, Range 5 7]" 4 1] by metis
qed

text \<open>Where a gap follows a merge the result is wrong: the loop advances \<open>prev\<close> without
  copying the current range there, so the range after the gap is lost and a stale one stays; and
  since the ends are exclusive, merging at a distance of one adds a number no range had.\<close>

theorem normalize_flaws:
  "sort_ranges [Range 1 4, Range 2 4, Range 10 12] = [Range 1 4, Range 2 4, Range 10 12] \<and>
   Normalize [Range 1 4, Range 2 4, Range 10 12] = [Range 1 4, Range 2 4] \<and>
   10 \<in> ranges_ids [Range 1 4, Range 2 4, Range 10 12] \<and>
   10 \<notin> ranges_ids (Normalize [Range 1 4, Range 2 4, Range 10 12]) \<and>
   4 \<notin> ranges_ids [Range 1 4, Range 5 7] \<and>
   4 \<in> ranges_ids (Normalize [Range 1 4, Range 5 7])"
  by (simp add: sort_ranges_def Normalize_def ranges_ids_def range_ids_def range_end_def
      numeral_2_eq_2)

section \<open>Read check points\<close>

lemma rh_TimeFor_hit:
  assumes "LowSeqId c \<le> s" "s \<le> HighSeqId c"
    "\<forall>d \<in> set history. \<not> (LowSeqId d \<le> s \<and> s \<le> HighSeqId d)"
  shows "rh_TimeFor (history @ [c]) s = Some (ReadAt c)"
  using assms by (induction history) auto

text \<open>Appending a valid check point keeps the history bounded, drops every check point older
  than the cutoff, and makes the time of each number that was not covered before readable.\<close>

theorem read_history_append:
  assumes "0 < low" "low \<le> high"
  shows "length (rh_Append history low high readAt cutoff) \<le> maxReadHistoryCheckpoints \<and>
    (\<forall>c \<in> set (rh_Append history low high readAt cutoff).
       c = \<lparr>LowSeqId = low, HighSeqId = high, ReadAt = readAt\<rparr> \<or>
       c \<in> set history \<and> cutoff \<le> ReadAt c) \<and>
    (\<forall>s. low \<le> s \<and> s \<le> high \<and> rh_TimeFor history s = None \<longrightarrow>
       rh_TimeFor (rh_Append history low high readAt cutoff) s = Some readAt)"
proof -
  define c where "c = \<lparr>LowSeqId = low, HighSeqId = high, ReadAt = readAt\<rparr>"
  define fl where "fl = filter (\<lambda>c. \<not> ReadAt c < cutoff) history"
  define k where "k = length fl + 1 - maxReadHistoryCheckpoints"
  have ap: "rh_Append history low high readAt cutoff = drop k fl @ [c]"
    using assms by (auto simp: rh_Append_def Let_def c_def fl_def k_def maxReadHistoryCheckpoints_def)
  have none: "\<forall>d \<in> set history. \<not> (LowSeqId d \<le> s \<and> s \<le> HighSeqId d)"
    if "rh_TimeFor history s = None" for s
    using that by (induction history) (auto split: if_splits)
  have sub: "set (drop k fl) \<subseteq> {d \<in> set history. cutoff \<le> ReadAt d}"
    using set_drop_subset [of k fl] by (auto simp: fl_def)
  have "length (drop k fl @ [c]) \<le> maxReadHistoryCheckpoints"
    by (simp add: k_def maxReadHistoryCheckpoints_def)
  moreover have "rh_TimeFor (drop k fl @ [c]) s = Some readAt"
    if "low \<le> s" "s \<le> high" "rh_TimeFor history s = None" for s
    using rh_TimeFor_hit [of c s "drop k fl"] that none [of s] sub by (auto simp: c_def)
  ultimately show ?thesis using sub unfolding ap c_def [symmetric] by auto
qed

theorem read_history_append_witness:
  "0 < (5::int) \<and>
   rh_TimeFor (rh_Append [\<lparr>LowSeqId = 1, HighSeqId = 4, ReadAt = 10\<rparr>] 5 8 20 3) 6 = Some 20"
  using read_history_append [of 5 8 "[\<lparr>LowSeqId = 1, HighSeqId = 4, ReadAt = 10\<rparr>]" 20 3] by simp

end
