(* ===== verification/RingHash.thy ===== *)
theory RingHash
  imports Prelude "HOL-Library.List_Lexorder" "HOL-Library.Char_ord" "HOL-Library.Product_Lexorder"
    "HOL-Library.Multiset"
begin

text \<open>
  The consistent hash ring (\<^verbatim>\<open>server/ringhash/ringhash.go\<close>) that maps a topic name to
  the cluster node which owns it, and the functions of the cluster that rebuild and query it
  (\<^verbatim>\<open>internal/server/cluster_membership.go\<close>).

  The ring holds \<open>replicas\<close> points for each node, sorted by hash and name. The checksum, the
  FNV-1a digest and the ASCII-85 text of the signature are those of Go's standard library and
  are written out, so that a ring can be evaluated.
\<close>

section \<open>Checksums of the standard library\<close>


text \<open>\<open>crc32.IEEETable\<close>: eight shifts with the reversed polynomial.\<close>

definition crc_shift :: "32 word \<Rightarrow> 32 word" where
  "crc_shift c = (if bit c 0 then drop_bit 1 c XOR 0xedb88320 else drop_bit 1 c)"

definition IEEETable :: "8 word \<Rightarrow> 32 word" where
  "IEEETable b = (crc_shift ^^ 8) (ucast b)"

definition byte_of :: "char \<Rightarrow> 8 word" where
  "byte_of c = of_char c"

definition checksumIEEEString :: "string \<Rightarrow> 32 word" where
  "checksumIEEEString s =
     NOT (foldl (\<lambda>checksum c. IEEETable (ucast checksum XOR byte_of c) XOR drop_bit 8 checksum)
        (NOT 0) s)"

text \<open>\<open>fnv.New128a\<close>, and the 16 bytes of its sum, the most significant first.\<close>

definition fnv128a_write :: "128 word \<Rightarrow> string \<Rightarrow> 128 word" where
  "fnv128a_write = foldl (\<lambda>h c. (h XOR ucast (byte_of c)) * (2 ^ 88 + 0x13b))"

definition fnv128a_offset :: "128 word" where
  "fnv128a_offset = 0x6c62272e07bb014262b821756295c58d"

definition fnv128a_sum :: "128 word \<Rightarrow> string" where
  "fnv128a_sum h = map (\<lambda>i. char_of (unat (drop_bit (8 * (15 - i)) h) mod 256)) [0..<16]"

text \<open>\<open>ascii85.Encode\<close> on a number of bytes that is divisible by four: a group of zeros is the
  one letter \<open>z\<close>, and what remains of the buffer stays zero.\<close>

definition ascii85_group :: "char list \<Rightarrow> string" where
  "ascii85_group g =
     (let v = foldl (\<lambda>a c. 256 * a + of_char c) (0::nat) g in
      if v = 0 then ''z''
      else map (\<lambda>i. char_of (33 + v div 85 ^ (4 - i) mod 85)) [0..<5])"

fun ascii85_Encode :: "string \<Rightarrow> string" where
  "ascii85_Encode (a # b # c # d # s) = ascii85_group [a, b, c, d] @ ascii85_Encode s"
| "ascii85_Encode s = []"

definition ascii85_MaxEncodedLen :: "nat \<Rightarrow> nat" where
  "ascii85_MaxEncodedLen n = (n + 3) div 4 * 5"

section \<open>The ring\<close>

record elem =
  el_key :: string
  el_hash :: "32 word"

record ring =
  ring_keys :: "elem list"
  ring_sig :: string
  ring_replicas :: int
  ring_hashfunc :: "(string \<Rightarrow> 32 word) option"

text \<open>\<open>sortable.Less\<close>: by hash, and by name where the hashes collide. Elements that neither
  precedes are equal, so sorting by this order has one result.\<close>

definition elem_Less :: "elem \<Rightarrow> elem \<Rightarrow> bool" where
  "elem_Less a b =
     (if el_hash a < el_hash b then True else if el_hash a = el_hash b then el_key a < el_key b else False)"

definition point :: "elem \<Rightarrow> 32 word \<times> string" where
  "point e = (el_hash e, el_key e)"

definition sort_elems :: "elem list \<Rightarrow> elem list" where
  "sort_elems = sort_key point"

definition ring_New :: "int \<Rightarrow> (string \<Rightarrow> 32 word) option \<Rightarrow> ring" where
  "ring_New n fn = \<lparr>ring_keys = [], ring_sig = [], ring_replicas = n, ring_hashfunc = fn\<rparr>"

definition ring_Len :: "ring \<Rightarrow> nat" where
  "ring_Len r = length (ring_keys r)"

definition hashString :: "ring \<Rightarrow> string \<Rightarrow> 32 word" where
  "hashString r value =
     (case ring_hashfunc r of None \<Rightarrow> checksumIEEEString value | Some f \<Rightarrow> f value)"

definition node_elems :: "ring \<Rightarrow> string \<Rightarrow> elem list" where
  "node_elems r k =
     map (\<lambda>i. \<lparr>el_key = k, el_hash = hashString r (Itoa (int i) @ k)\<rparr>) [0..<nat (ring_replicas r)]"

definition hash_bytes :: "32 word \<Rightarrow> string" where
  "hash_bytes h = map (\<lambda>i. char_of (unat (drop_bit (8 * i) h) mod 256)) [0..<4]"

definition ring_signature :: "elem list \<Rightarrow> string" where
  "ring_signature ks =
     (let b = fnv128a_sum (foldl (\<lambda>h e. fnv128a_write (fnv128a_write h (hash_bytes (el_hash e))) (el_key e))
                fnv128a_offset ks);
          text = ascii85_Encode b
      in text @ replicate (ascii85_MaxEncodedLen (length b) - length text) (char_of (0::nat)))"

definition ring_Add :: "ring \<Rightarrow> string list \<Rightarrow> ring" where
  "ring_Add r ks =
     (let sorted = sort_elems (ring_keys r @ concat (map (node_elems r) ks)) in
      r\<lparr>ring_keys := sorted, ring_sig := ring_signature sorted\<rparr>)"

definition at_or_after :: "32 word \<Rightarrow> string \<Rightarrow> elem \<Rightarrow> bool" where
  "at_or_after h k el = (el_hash el > h \<or> el_hash el = h \<and> el_key el \<ge> k)"

definition ring_Get :: "ring \<Rightarrow> string \<Rightarrow> string" where
  "ring_Get r k =
     (if ring_Len r = 0 then []
      else
        let h = hashString r k;
            idx = Search (length (ring_keys r)) (\<lambda>i. at_or_after h k (ring_keys r ! i));
            idx' = (if idx = length (ring_keys r) then 0 else idx)
        in el_key (ring_keys r ! idx'))"

section \<open>The ring of a cluster node\<close>

definition clusterHashReplicas :: int where "clusterHashReplicas = 256"

text \<open>\<open>rehash\<close>: the new ring, and the nodes on it. The names of the other nodes come out of a Go
  map, so their order is arbitrary; it is the argument \<open>names\<close>.\<close>

definition rehash :: "string list \<Rightarrow> string \<Rightarrow> string list option \<Rightarrow> ring \<times> string list" where
  "rehash names thisNodeName nodes =
     (let ringKeys = (case nodes of None \<Rightarrow> names @ [thisNodeName] | Some ns \<Rightarrow> ns) in
      (ring_Add (ring_New clusterHashReplicas None) ringKeys, ringKeys))"

definition topicOwner :: "ring \<Rightarrow> string \<Rightarrow> string" where
  "topicOwner r topic = ring_Get r topic"


section \<open>Sorted rings\<close>

definition ring_wf :: "ring \<Rightarrow> bool" where
  "ring_wf r = sorted (map point (ring_keys r))"

lemma elem_Less_point: "elem_Less a b = (point a < point b)"
  by (auto simp: elem_Less_def point_def less_prod_def)

lemma at_or_after_point: "at_or_after h k e = ((h, k) \<le> point e)"
  by (auto simp: at_or_after_def point_def less_eq_prod_def)

lemma inj_point: "inj point"
  by (rule injI) (auto simp: point_def)

lemma ring_wf_New [simp]: "ring_wf (ring_New n fn)"
  by (simp add: ring_wf_def ring_New_def)

lemma ring_wf_Add [simp]: "ring_wf (ring_Add r ks)"
  by (simp add: ring_wf_def ring_Add_def sort_elems_def Let_def)

lemma hashString_Add [simp]: "hashString (ring_Add r ks) = hashString r"
  by (simp add: ring_Add_def Let_def hashString_def fun_eq_iff)

lemma set_ring_Add:
  "set (ring_keys (ring_Add r ks)) = set (ring_keys r) \<union> (\<Union>k \<in> set ks. set (node_elems r k))"
  by (simp add: ring_Add_def sort_elems_def Let_def)

lemma key_node_elems: "e \<in> set (node_elems r k) \<Longrightarrow> el_key e = k"
  by (auto simp: node_elems_def)

text \<open>The owner in terms of the set of points: the least point at or after the key, or, where
  there is none, the least point of all.\<close>

definition successor :: "elem set \<Rightarrow> 32 word \<times> string \<Rightarrow> elem \<Rightarrow> bool" where
  "successor A p e \<longleftrightarrow> e \<in> A \<and>
     (if \<exists>a \<in> A. p \<le> point a then p \<le> point e \<and> (\<forall>a \<in> A. p \<le> point a \<longrightarrow> point e \<le> point a)
      else \<forall>a \<in> A. point e \<le> point a)"

lemma successor_unique: "successor A p e \<Longrightarrow> successor A p e' \<Longrightarrow> e = e'"
  by (rule injD [OF inj_point], rule antisym) (auto simp: successor_def split: if_splits)

lemma successor_Un:
  assumes "successor A p a" "successor (A \<union> B) p e"
  shows "e = a \<or> e \<in> B"
proof (cases "e \<in> B")
  case False
  then have "successor A p e" using assms unfolding successor_def by (auto split: if_splits)
  then show ?thesis using successor_unique assms(1) by blast
qed simp

lemma ring_Get_successor:
  assumes "ring_wf r" "ring_keys r \<noteq> []"
  obtains e where "successor (set (ring_keys r)) (hashString r k, k) e" "ring_Get r k = el_key e"
proof -
  define ks where "ks = ring_keys r"
  define p where "p = (hashString r k, k)"
  define f where "f = (\<lambda>i. at_or_after (hashString r k) k (ks ! i))"
  define idx where "idx = Search (length ks) f"
  have mono: "point (ks ! a) \<le> point (ks ! b)" if "a \<le> b" "b < length ks" for a b
    using sorted_nth_mono [of "map point ks" a b] assms(1) that by (simp add: ring_wf_def ks_def)
  have f: "f i = (p \<le> point (ks ! i))" for i by (simp add: f_def p_def at_or_after_point)
  have up: "up_closed (length ks) f"
    unfolding up_closed_def f using mono order_trans by blast
  note S = Search_spec [OF up, folded idx_def]
  define e where "e = ks ! (if idx = length ks then 0 else idx)"
  have get: "ring_Get r k = el_key e"
    using assms(2) by (simp add: ring_Get_def ring_Len_def Let_def e_def idx_def f_def ks_def)
  have "successor (set ks) p e"
  proof (cases "idx = length ks")
    case True
    then have "\<not> p \<le> point a" if "a \<in> set ks" for a
      using S(2) that by (metis f in_set_conv_nth)
    moreover have "point e \<le> point a" if "a \<in> set ks" for a
      using that mono True by (metis e_def in_set_conv_nth zero_le)
    moreover have "e \<in> set ks" using assms(2) True by (simp add: e_def ks_def)
    ultimately show ?thesis by (auto simp: successor_def)
  next
    case False
    then have lt: "idx < length ks" using S(1) by simp
    then have e: "e = ks ! idx" and "e \<in> set ks" by (auto simp: e_def)
    moreover have "p \<le> point e" using S(3) [of idx] lt f e by simp
    moreover have "point e \<le> point a" if "a \<in> set ks" "p \<le> point a" for a
    proof -
      obtain i where i: "i < length ks" "a = ks ! i" using \<open>a \<in> set ks\<close> by (metis in_set_conv_nth)
      then have "idx \<le> i" using S(2) [of i] \<open>p \<le> point a\<close> f by fastforce
      then show ?thesis using mono i e by simp
    qed
    ultimately show ?thesis by (auto simp: successor_def)
  qed
  then show thesis using that get by (simp add: ks_def p_def)
qed

lemma ring_Add_nonempty:
  assumes "ks \<noteq> []" "0 < n"
  shows "ring_keys (ring_Add (ring_New n fn) ks) \<noteq> []"
proof -
  obtain k ks' where ks: "ks = k # ks'" using assms(1) by (cases ks) simp_all
  have "node_elems (ring_New n fn) k \<noteq> []"
    using assms(2) by (simp add: node_elems_def ring_New_def)
  then have "set (ring_keys (ring_Add (ring_New n fn) ks)) \<noteq> {}"
    unfolding set_ring_Add ks by simp
  then show ?thesis by simp
qed

lemma ring_Get_New_Add:
  assumes "ks \<noteq> []" "0 < n"
  shows "\<exists>e. successor (\<Union>m \<in> set ks. set (node_elems (ring_New n fn) m))
      (hashString (ring_New n fn) k, k) e \<and>
    ring_Get (ring_Add (ring_New n fn) ks) k = el_key e \<and> el_key e \<in> set ks"
proof -
  let ?r = "ring_Add (ring_New n fn) ks"
  have set: "set (ring_keys ?r) = (\<Union>m \<in> set ks. set (node_elems (ring_New n fn) m))"
    by (simp add: set_ring_Add) (simp add: ring_New_def)
  obtain e where e: "successor (set (ring_keys ?r)) (hashString ?r k, k) e"
      "ring_Get ?r k = el_key e"
    using ring_Get_successor [OF ring_wf_Add ring_Add_nonempty [OF assms]] by blast
  moreover from e(1) have "el_key e \<in> set ks"
    unfolding set successor_def using key_node_elems by fastforce
  ultimately show ?thesis using set by auto
qed

lemma ring_Get_member:
  "ks \<noteq> [] \<Longrightarrow> 0 < n \<Longrightarrow> ring_Get (ring_Add (ring_New n fn) ks) k \<in> set ks"
  using ring_Get_New_Add by metis

text \<open>C32. The binary search of \<open>Get\<close> finds the owner that the definition of consistent hashing
  asks for: the node of the first point at or after the key on the circle, one of the nodes that
  were added.\<close>

theorem ring_get_owner:
  assumes "ks \<noteq> []" "0 < n"
  shows "\<exists>e. successor (\<Union>m \<in> set ks. set (node_elems (ring_New n fn) m))
      (hashString (ring_New n fn) k, k) e \<and>
    ring_Get (ring_Add (ring_New n fn) ks) k = el_key e \<and> el_key e \<in> set ks"
  by (rule ring_Get_New_Add [OF assms])

theorem ring_get_owner_witness:
  "\<exists>e. successor (\<Union>m \<in> set [''one'', ''two'']. set (node_elems (ring_New 2 None) m))
      (hashString (ring_New 2 None) ''grpA'', ''grpA'') e \<and>
    ring_Get (ring_Add (ring_New 2 None) [''one'', ''two'']) ''grpA'' = el_key e \<and>
    el_key e \<in> set [''one'', ''two'']"
  by (rule ring_get_owner) simp_all

text \<open>C33. When a node joins, a topic either stays with its owner or moves to the new node: no
  topic moves between two old nodes.\<close>

theorem ring_join_moves_only_to_new:
  assumes "ring_wf r" "ring_keys r \<noteq> []"
  shows "ring_Get (ring_Add r [node]) k = ring_Get r k \<or> ring_Get (ring_Add r [node]) k = node"
proof -
  obtain a where a: "successor (set (ring_keys r)) (hashString r k, k) a" "ring_Get r k = el_key a"
    using ring_Get_successor [OF assms] by blast
  have "ring_keys (ring_Add r [node]) \<noteq> []"
    using set_ring_Add [of r "[node]"] assms(2) by (metis Un_empty set_empty)
  then obtain e where e: "successor (set (ring_keys (ring_Add r [node]))) (hashString r k, k) e"
      "ring_Get (ring_Add r [node]) k = el_key e"
    using ring_Get_successor [of "ring_Add r [node]" k] by auto
  have "e = a \<or> e \<in> set (node_elems r node)"
    using successor_Un [OF a(1)] e(1) by (simp add: set_ring_Add)
  then show ?thesis using a e key_node_elems by metis
qed

theorem ring_join_moves_only_to_new_witness:
  "ring_Get (ring_Add (ring_Add (ring_New 3 None) [''one'', ''two'']) [''three'']) ''grpA'' =
     ring_Get (ring_Add (ring_New 3 None) [''one'', ''two'']) ''grpA'' \<or>
   ring_Get (ring_Add (ring_Add (ring_New 3 None) [''one'', ''two'']) [''three'']) ''grpA'' = ''three''"
  by (rule ring_join_moves_only_to_new [OF ring_wf_Add ring_Add_nonempty]) simp_all

lemma sort_elems_mset:
  assumes "mset a = mset b"
  shows "sort_elems a = sort_elems b"
proof -
  have "sort (map point a) = sort (map point b)"
    by (rule properties_for_sort) (simp_all add: assms)
  moreover have "map point (sort_elems l) = sort (map point l)" for l
    by (rule properties_for_sort [symmetric]) (simp_all add: sort_elems_def)
  ultimately show ?thesis by (metis inj_point inj_map_eq_map)
qed

text \<open>The ring does not depend on the order of the node names: nodes that agree on the set of
  members compute the same ring, the same signature and the same owners, whatever order their
  maps are walked in.\<close>

theorem rehash_order_irrelevant:
  assumes "mset names = mset names'"
  shows "fst (rehash names this None) = fst (rehash names' this None) \<and>
    topicOwner (fst (rehash names this None)) topic =
      topicOwner (fst (rehash (this # names') m (Some (names' @ [this])))) topic"
proof -
  have m: "mset (concat (map g (names @ [this]))) = mset (concat (map g (names' @ [this])))"
    for g :: "string \<Rightarrow> elem list"
  proof -
    have "mset (concat (map g l)) = sum_mset (image_mset (\<lambda>x. mset (g x)) (mset l))" for l
      by (induction l) simp_all
    then show ?thesis by (simp only: mset_append assms)
  qed
  have "ring_Add r (names @ [this]) = ring_Add r (names' @ [this])" for r
  proof -
    have "mset (ring_keys r @ concat (map (node_elems r) (names @ [this]))) =
        mset (ring_keys r @ concat (map (node_elems r) (names' @ [this])))"
      using m [of "node_elems r"] by (simp only: mset_append)
    from sort_elems_mset [OF this] show ?thesis by (simp only: ring_Add_def)
  qed
  then show ?thesis by (simp add: rehash_def Let_def)
qed

theorem rehash_order_irrelevant_witness:
  "fst (rehash [''one'', ''two''] ''three'' None) = fst (rehash [''two'', ''one''] ''three'' None)"
proof -
  have "mset [''one'', ''two''] = mset [''two'', ''one'']" by simp
  from rehash_order_irrelevant [OF this] show ?thesis by blast
qed

end
