(* ===== verification/Election.thy ===== *)
theory Election
  imports RingHash
begin

text \<open>
  Leader election between the nodes of a cluster (\<^verbatim>\<open>internal/server/cluster_leader.go\<close>).

  The state of one node is the record \<open>cluster\<close>: the fields of \<open>Cluster\<close> and
  \<open>clusterFailover\<close> that the election uses, and the local variables of the goroutine \<open>run\<close>.
  While \<open>electLeader\<close> waits for replies the goroutine serves no other channel; its loop
  variables are then in the field \<open>elect\<close>. The cases of the \<open>select\<close> in \<open>run\<close> are the
  functions \<open>run_tick\<close>, \<open>run_health\<close> and \<open>run_vote\<close>, those of the \<open>select\<close> in
  \<open>electLeader\<close> are the events of \<open>elect_event\<close>.

  The relation \<open>cstep\<close> interleaves these handlers over all nodes. A vote request is handled at
  most once and a health check any number of times; either may be late, out of order or never
  arrive. Processes do not restart: terms are kept in memory only.
\<close>

section \<open>One node\<close>

record ClusterHealth =
  h_Leader :: string
  h_Term :: int
  h_Signature :: string
  h_Nodes :: "string list"

record ClusterVoteRequest =
  vr_Node :: string
  vr_Term :: int

record ClusterVoteResponse =
  vs_Result :: bool
  vs_Term :: int

record clusterFailoverConfig =
  cfg_Enabled :: bool
  cfg_Heartbeat :: int
  cfg_VoteAfter :: int
  cfg_NodeFailAfter :: int

record cluster =
  thisNodeName :: string
  c_nodes :: "(string \<times> int) list"
  c_ring :: ring
  fo_leader :: string
  fo_term :: int
  fo_heartBeat :: int
  fo_voteTimeout :: int
  fo_activeNodes :: "string list"
  fo_nodeFailCountLimit :: int
  run_missed :: int
  run_rehashSkipped :: bool
  elect :: "(int \<times> int) option"

text \<open>\<open>c_nodes\<close> pairs the name of every other node with its \<open>failCount\<close>, in the order in which
  the map of nodes is walked.\<close>

datatype 'a init = InitDisabled | InitPanic | InitDone 'a

text \<open>\<open>failoverInit\<close>; times are in nanoseconds and \<open>rnd\<close> is the value drawn by \<open>rand.Intn\<close>,
  which panics unless its argument is positive, as does \<open>make\<close> for a negative capacity.\<close>

definition failoverInit ::
  "string \<Rightarrow> string list \<Rightarrow> clusterFailoverConfig option \<Rightarrow> int \<Rightarrow> cluster init" where
  "failoverInit this names config rnd =
     (case config of
        None \<Rightarrow> InitDisabled
      | Some cfg \<Rightarrow>
          if \<not> cfg_Enabled cfg then InitDisabled
          else if length names < 2 then InitDisabled
          else
            let activeNodes = names @ [this];
                r = fst (rehash names this (Some activeNodes));
                hb = cfg_Heartbeat cfg * 1000000
            in if hb div 2 \<le> 0 \<or> cfg_VoteAfter cfg < 0 then InitPanic
               else InitDone \<lparr>thisNodeName = this, c_nodes = map (\<lambda>n. (n, 0)) names, c_ring = r,
                 fo_leader = [], fo_term = 0, fo_heartBeat = hb div 2 + hb div 4 + rnd,
                 fo_voteTimeout = cfg_VoteAfter cfg, fo_activeNodes = activeNodes,
                 fo_nodeFailCountLimit = cfg_NodeFailAfter cfg,
                 run_missed = 0, run_rehashSkipped = False, elect = None\<rparr>)"

text \<open>\<open>sendHealthChecks\<close>: \<open>failed n\<close> says whether the call to node \<open>n\<close> fails. The result has
  the checks that were sent, by destination, and whether the hub is told to rehash.\<close>

fun health_loop ::
  "int \<Rightarrow> (string \<Rightarrow> bool) \<Rightarrow> (string \<times> int) list \<Rightarrow> (string \<times> int) list \<times> bool" where
  "health_loop limit failed [] = ([], False)"
| "health_loop limit failed ((n, failCount) # nodes) =
     (let (rest, re) = health_loop limit failed nodes in
      if failed n then ((n, failCount + 1) # rest, failCount + 1 = limit \<or> re)
      else ((n, 0) # rest, failCount \<ge> limit \<or> re))"

definition sendHealthChecks ::
  "(string \<Rightarrow> bool) \<Rightarrow> cluster \<Rightarrow> cluster \<times> (string \<times> ClusterHealth) list \<times> bool" where
  "sendHealthChecks failed c =
     (let health = \<lparr>h_Leader = thisNodeName c, h_Term = fo_term c,
            h_Signature = ring_sig (c_ring c), h_Nodes = fo_activeNodes c\<rparr>;
          sent = map (\<lambda>(n, _). (n, health)) (c_nodes c);
          (nodes, doRehash) = health_loop (fo_nodeFailCountLimit c) failed (c_nodes c);
          c1 = c\<lparr>c_nodes := nodes\<rparr>
      in if doRehash then
           let activeNodes = thisNodeName c #
                 map fst (filter (\<lambda>(_, failCount). failCount < fo_nodeFailCountLimit c) nodes)
           in (c1\<lparr>fo_activeNodes := activeNodes,
                  c_ring := fst (rehash (map fst nodes) (thisNodeName c) (Some activeNodes))\<rparr>,
               sent, True)
         else (c1, sent, False))"

text \<open>\<open>electLeader\<close>: the start sends a request to every other node and enters the loop with
  \<open>i = 0\<close> and the candidate's own vote.\<close>

definition expectVotes :: "cluster \<Rightarrow> int" where
  "expectVotes c = (int (length (c_nodes c)) + 1) div 2 + 1"

definition electLeader_start :: "cluster \<Rightarrow> cluster \<times> (string \<times> ClusterVoteRequest) list" where
  "electLeader_start c =
     (let c1 = c\<lparr>fo_term := fo_term c + 1, fo_leader := [], elect := Some (0, 1)\<rparr> in
      (c1, map (\<lambda>(n, _). (n, \<lparr>vr_Node = thisNodeName c, vr_Term = fo_term c1\<rparr>)) (c_nodes c)))"

datatype vote_event = VoteReply ClusterVoteResponse | VoteError | VoteTimeout

definition elect_event :: "int \<Rightarrow> int \<Rightarrow> vote_event \<Rightarrow> int \<times> int \<Rightarrow> int \<times> int" where
  "elect_event nodeCount trm ev st =
     (let (i, voteCount) = st in
      case ev of
        VoteReply resp \<Rightarrow>
          if vs_Result resp then (i + 1, voteCount + 1)
          else if trm < vs_Term resp then (nodeCount + 1, 0)
          else (i + 1, voteCount)
      | VoteError \<Rightarrow> (i + 1, voteCount)
      | VoteTimeout \<Rightarrow> (nodeCount, voteCount))"

definition elect_continues :: "cluster \<Rightarrow> int \<times> int \<Rightarrow> bool" where
  "elect_continues c st = (fst st < int (length (c_nodes c)) \<and> snd st < expectVotes c)"

definition electLeader_finish :: "cluster \<Rightarrow> int \<times> int \<Rightarrow> cluster" where
  "electLeader_finish c st =
     (if snd st \<ge> expectVotes c then c\<lparr>fo_leader := thisNodeName c, elect := None\<rparr>
      else c\<lparr>elect := None\<rparr>)"

text \<open>The whole of \<open>electLeader\<close> on the events it receives, in their order; \<^term>\<open>None\<close> while it
  still waits for more.\<close>

fun elect_loop :: "cluster \<Rightarrow> vote_event list \<Rightarrow> int \<times> int \<Rightarrow> (int \<times> int) option" where
  "elect_loop c evs st =
     (if elect_continues c st then
        (case evs of
           [] \<Rightarrow> None
         | ev # evs' \<Rightarrow>
             elect_loop c evs' (elect_event (int (length (c_nodes c))) (fo_term c) ev st))
      else Some st)"

definition electLeader :: "vote_event list \<Rightarrow> cluster \<Rightarrow> cluster option" where
  "electLeader evs c =
     (let c1 = fst (electLeader_start c) in
      map_option (electLeader_finish c1) (elect_loop c1 evs (0, 1)))"

section \<open>The cases of the event loop\<close>

datatype tick_result =
    TickHealth cluster "(string \<times> ClusterHealth) list" bool
  | TickIdle cluster
  | TickElect cluster "(string \<times> ClusterVoteRequest) list"

definition run_tick :: "(string \<Rightarrow> bool) \<Rightarrow> cluster \<Rightarrow> tick_result" where
  "run_tick failed c =
     (if fo_leader c = thisNodeName c then
        (let (c1, sent, re) = sendHealthChecks failed c in TickHealth c1 sent re)
      else
        let c1 = c\<lparr>run_missed := run_missed c + 1\<rparr> in
        if run_missed c1 \<ge> fo_voteTimeout c then
          (let (c2, reqs) = electLeader_start (c1\<lparr>run_missed := 0\<rparr>) in TickElect c2 reqs)
        else TickIdle c1)"

text \<open>The branch that reports a wrong leader and calls it a bug.\<close>

definition wrong_leader :: "ClusterHealth \<Rightarrow> cluster \<Rightarrow> bool" where
  "wrong_leader health c \<longleftrightarrow>
     h_Term health = fo_term c \<and> h_Leader health \<noteq> fo_leader c \<and> fo_leader c \<noteq> []"

definition run_health :: "ClusterHealth \<Rightarrow> cluster \<Rightarrow> cluster \<times> bool" where
  "run_health health c =
     (if h_Term health < fo_term c then (c, False)
      else
        let c1 = (if h_Term health > fo_term c
                  then c\<lparr>fo_term := h_Term health, fo_leader := h_Leader health\<rparr>
                  else if h_Leader health \<noteq> fo_leader c then c\<lparr>fo_leader := h_Leader health\<rparr>
                  else c);
            c2 = c1\<lparr>run_missed := 0\<rparr>
        in if h_Signature health \<noteq> ring_sig (c_ring c2) then
             if run_rehashSkipped c2 then
               (c2\<lparr>c_ring := fst (rehash (map fst (c_nodes c2)) (thisNodeName c2) (Some (h_Nodes health))),
                   run_rehashSkipped := False\<rparr>, True)
             else (c2\<lparr>run_rehashSkipped := True\<rparr>, False)
           else (c2, False))"

definition run_vote :: "ClusterVoteRequest \<Rightarrow> cluster \<Rightarrow> cluster \<times> ClusterVoteResponse" where
  "run_vote req c =
     (if fo_term c < vr_Term req then
        (c\<lparr>fo_term := vr_Term req, fo_leader := []\<rparr>, \<lparr>vs_Result = True, vs_Term = vr_Term req\<rparr>)
      else (c, \<lparr>vs_Result = False, vs_Term = fo_term c\<rparr>))"

section \<open>The cluster\<close>

text \<open>
  The messages under way: vote requests by destination, replies tagged with the voter and the
  request they answer, health checks by destination. Three fields record history only:
  \<open>grants\<close> has \<open>(voter, term, candidate)\<close> for every vote given, the candidate's own
  included, \<open>support\<close> the voters counted in a node's current election, and \<open>elected\<close>
  \<open>(leader, term)\<close> for every election won.
\<close>

record cluster_state =
  st :: "string \<Rightarrow> cluster"
  requests :: "(string \<times> ClusterVoteRequest) set"
  replies :: "(string \<times> ClusterVoteRequest \<times> ClusterVoteResponse) set"
  healths :: "(string \<times> ClusterHealth) set"
  grants :: "(string \<times> int \<times> string) set"
  support :: "string \<Rightarrow> string set"
  elected :: "(string \<times> int) set"

definition req_of :: "cluster \<Rightarrow> ClusterVoteRequest" where
  "req_of c = \<lparr>vr_Node = thisNodeName c, vr_Term = fo_term c\<rparr>"

inductive cstep :: "string set \<Rightarrow> cluster_state \<Rightarrow> cluster_state \<Rightarrow> bool" for N where
  tick_health:
    "\<lbrakk>n \<in> N; elect (st s n) = None; run_tick failed (st s n) = TickHealth c sent re\<rbrakk> \<Longrightarrow>
     cstep N s (s\<lparr>st := (st s)(n := c), healths := healths s \<union> set sent\<rparr>)"
| tick_idle:
    "\<lbrakk>n \<in> N; elect (st s n) = None; run_tick failed (st s n) = TickIdle c\<rbrakk> \<Longrightarrow>
     cstep N s (s\<lparr>st := (st s)(n := c)\<rparr>)"
| tick_elect:
    "\<lbrakk>n \<in> N; elect (st s n) = None; run_tick failed (st s n) = TickElect c reqs\<rbrakk> \<Longrightarrow>
     cstep N s (s\<lparr>st := (st s)(n := c), requests := requests s \<union> set reqs,
       grants := insert (n, fo_term c, n) (grants s), support := (support s)(n := {n})\<rparr>)"
| elect_reply:
    "\<lbrakk>n \<in> N; elect (st s n) = Some e; elect_continues (st s n) e;
      (v, req_of (st s n), resp) \<in> replies s;
      e' = elect_event (int (length (c_nodes (st s n)))) (fo_term (st s n)) (VoteReply resp) e\<rbrakk> \<Longrightarrow>
     cstep N s (s\<lparr>st := (st s)(n := (st s n)\<lparr>elect := Some e'\<rparr>),
       replies := replies s - {(v, req_of (st s n), resp)},
       support := (if vs_Result resp then (support s)(n := insert v (support s n)) else support s)\<rparr>)"
| elect_other:
    "\<lbrakk>n \<in> N; elect (st s n) = Some e; elect_continues (st s n) e; ev \<in> {VoteError, VoteTimeout};
      e' = elect_event (int (length (c_nodes (st s n)))) (fo_term (st s n)) ev e\<rbrakk> \<Longrightarrow>
     cstep N s (s\<lparr>st := (st s)(n := (st s n)\<lparr>elect := Some e'\<rparr>)\<rparr>)"
| elect_end:
    "\<lbrakk>n \<in> N; elect (st s n) = Some e; \<not> elect_continues (st s n) e\<rbrakk> \<Longrightarrow>
     cstep N s (s\<lparr>st := (st s)(n := electLeader_finish (st s n) e),
       elected := (if snd e \<ge> expectVotes (st s n) then insert (n, fo_term (st s n)) (elected s)
                   else elected s)\<rparr>)"
| health:
    "\<lbrakk>n \<in> N; elect (st s n) = None; (n, h) \<in> healths s\<rbrakk> \<Longrightarrow>
     cstep N s (s\<lparr>st := (st s)(n := fst (run_health h (st s n)))\<rparr>)"
| vote:
    "\<lbrakk>n \<in> N; elect (st s n) = None; (n, req) \<in> requests s; run_vote req (st s n) = (c, resp)\<rbrakk> \<Longrightarrow>
     cstep N s (s\<lparr>st := (st s)(n := c), requests := requests s - {(n, req)},
       replies := insert (n, req, resp) (replies s),
       grants := (if vs_Result resp then insert (n, vr_Term req, vr_Node req) (grants s)
                  else grants s)\<rparr>)"

inductive_cases cstepE: "cstep N s s'"

text \<open>A cluster starts with every node initialised over the same finite set of names.\<close>

definition cluster_start :: "string set \<Rightarrow> cluster_state \<Rightarrow> bool" where
  "cluster_start N s \<longleftrightarrow> finite N \<and> [] \<notin> N \<and>
     (\<forall>n \<in> N. \<exists>names cfg rnd. set names = N - {n} \<and> distinct names \<and>
        failoverInit n names (Some cfg) rnd = InitDone (st s n)) \<and>
     requests s = {} \<and> replies s = {} \<and> healths s = {} \<and> grants s = {} \<and>
     (\<forall>n. support s n = {}) \<and> elected s = {}"

inductive creach :: "string set \<Rightarrow> cluster_state \<Rightarrow> bool" for N where
  start: "cluster_start N s \<Longrightarrow> creach N s"
| step: "creach N s \<Longrightarrow> cstep N s s' \<Longrightarrow> creach N s'"

declare elect_loop.simps [simp del]

section \<open>What each handler changes\<close>

text \<open>The part of a node that the handlers of the ring never touch.\<close>

definition same_member :: "cluster \<Rightarrow> cluster \<Rightarrow> bool" where
  "same_member c c' \<longleftrightarrow> thisNodeName c' = thisNodeName c \<and> map fst (c_nodes c') = map fst (c_nodes c)"

lemma health_loop_names: "map fst (fst (health_loop limit failed ns)) = map fst ns"
  by (induction limit failed ns rule: health_loop.induct) (auto simp: Let_def split: prod.splits)

lemma sendHealthChecks_frame:
  assumes "sendHealthChecks failed c = (c', sent, re)"
  shows "same_member c c' \<and> fo_term c' = fo_term c \<and> fo_leader c' = fo_leader c \<and> elect c' = elect c"
    and "(d, h) \<in> set sent \<Longrightarrow> h_Leader h = thisNodeName c \<and> h_Term h = fo_term c"
proof -
  obtain ns re' where l: "health_loop (fo_nodeFailCountLimit c) failed (c_nodes c) = (ns, re')"
    by fastforce
  have names: "map fst ns = map fst (c_nodes c)"
    using health_loop_names [of "fo_nodeFailCountLimit c" failed "c_nodes c"] by (simp add: l)
  show "same_member c c' \<and> fo_term c' = fo_term c \<and> fo_leader c' = fo_leader c \<and> elect c' = elect c"
    using assms names by (auto simp: sendHealthChecks_def Let_def l same_member_def split: if_splits)
  show "h_Leader h = thisNodeName c \<and> h_Term h = fo_term c" if "(d, h) \<in> set sent"
    using assms that by (auto simp: sendHealthChecks_def Let_def l split: if_splits)
qed

lemma run_tick_health:
  assumes "run_tick failed c = TickHealth c' sent re"
  shows "same_member c c'" "fo_term c' = fo_term c" "fo_leader c' = fo_leader c" "elect c' = elect c"
    "fo_leader c = thisNodeName c"
    "(d, h) \<in> set sent \<Longrightarrow> h_Leader h = thisNodeName c \<and> h_Term h = fo_term c"
  using assms sendHealthChecks_frame [of failed c c' sent re]
  by (auto simp: run_tick_def Let_def electLeader_start_def split: if_splits prod.splits)

lemma run_tick_idle:
  assumes "run_tick failed c = TickIdle c'"
  shows "same_member c c'" "fo_term c' = fo_term c" "fo_leader c' = fo_leader c" "elect c' = elect c"
  using assms by (auto simp: run_tick_def Let_def same_member_def split: if_splits prod.splits)

lemma run_tick_elect:
  assumes "run_tick failed c = TickElect c' reqs"
  shows "same_member c c'" "fo_term c' = fo_term c + 1" "fo_leader c' = []" "elect c' = Some (0, 1)"
    "set reqs = (\<lambda>x. (fst x, req_of c')) ` set (c_nodes c)"
proof -
  let ?c = "c\<lparr>run_missed := 0, fo_term := fo_term c + 1, fo_leader := [], elect := Some (0, 1)\<rparr>"
  have "c' = ?c \<and> reqs = map (\<lambda>x. (fst x, req_of ?c)) (c_nodes c)"
    using assms
    by (auto simp: run_tick_def Let_def electLeader_start_def req_of_def split: if_splits prod.splits)
  then show "same_member c c'" "fo_term c' = fo_term c + 1" "fo_leader c' = []"
    "elect c' = Some (0, 1)" "set reqs = (\<lambda>x. (fst x, req_of c')) ` set (c_nodes c)"
    by (auto simp: same_member_def)
qed

lemma run_health_frame:
  "same_member c (fst (run_health h c))" "elect (fst (run_health h c)) = elect c"
  by (auto simp: run_health_def Let_def same_member_def)

lemma run_health_leader:
  "fo_term (fst (run_health h c)) = max (fo_term c) (h_Term h)"
  "fo_leader (fst (run_health h c)) = (if h_Term h < fo_term c then fo_leader c else h_Leader h)"
  by (auto simp: run_health_def Let_def)

lemma run_vote_frame:
  assumes "run_vote req c = (c', resp)"
  shows "same_member c c'" "elect c' = elect c" "fo_term c' = max (fo_term c) (vr_Term req)"
    "fo_leader c' = (if vs_Result resp then [] else fo_leader c)"
    "vs_Result resp \<longleftrightarrow> fo_term c < vr_Term req"
  using assms by (auto simp: run_vote_def same_member_def split: if_splits)

section \<open>Invariants of the cluster\<close>

text \<open>Every node knows itself and exactly the other nodes.\<close>

definition member_ok :: "string set \<Rightarrow> string \<Rightarrow> cluster \<Rightarrow> bool" where
  "member_ok N n c \<longleftrightarrow> thisNodeName c = n \<and> set (map fst (c_nodes c)) = N - {n} \<and>
     distinct (map fst (c_nodes c))"

lemma member_ok_same: "same_member c c' \<Longrightarrow> member_ok N n c \<Longrightarrow> member_ok N n c'"
  by (simp add: same_member_def member_ok_def)

lemma member_ok_elect [simp]: "member_ok N n (c\<lparr>elect := e\<rparr>) = member_ok N n c"
  by (simp add: member_ok_def)

lemma member_ok_finish [simp]: "member_ok N n (electLeader_finish c e) = member_ok N n c"
  by (simp add: member_ok_def electLeader_finish_def)

lemma majority:
  assumes "member_ok N n c" "finite N" "n \<in> N"
  shows "expectVotes c = int (card N div 2 + 1)"
proof -
  have "length (c_nodes c) = card (N - {n})"
    using assms(1) distinct_card [of "map fst (c_nodes c)"] by (simp add: member_ok_def)
  also have "\<dots> = card N - 1" using assms by simp
  finally have "int (length (c_nodes c)) + 1 = int (card N)"
    using assms by (metis Suc_pred' add.commute card_gt_0_iff emptyE of_nat_Suc)
  then show ?thesis by (simp add: expectVotes_def)
qed

definition inv_members :: "string set \<Rightarrow> cluster_state \<Rightarrow> bool" where
  "inv_members N s \<longleftrightarrow> finite N \<and> [] \<notin> N \<and> (\<forall>n \<in> N. member_ok N n (st s n))"

text \<open>A node votes once per term.\<close>

definition inv_grants :: "string set \<Rightarrow> cluster_state \<Rightarrow> bool" where
  "inv_grants N s \<longleftrightarrow>
     (\<forall>v t c. (v, t, c) \<in> grants s \<longrightarrow> v \<in> N \<and> t \<le> fo_term (st s v)) \<and>
     (\<forall>v t c c'. (v, t, c) \<in> grants s \<and> (v, t, c') \<in> grants s \<longrightarrow> c = c')"

text \<open>A request or reply under way is from a past or current election, and its voter is not yet
  counted there.\<close>

definition awaited :: "cluster_state \<Rightarrow> string \<Rightarrow> ClusterVoteRequest \<Rightarrow> bool" where
  "awaited s v req \<longleftrightarrow> vr_Term req \<le> fo_term (st s (vr_Node req)) \<and>
     (req = req_of (st s (vr_Node req)) \<longrightarrow> v \<notin> support s (vr_Node req))"

definition inv_messages :: "string set \<Rightarrow> cluster_state \<Rightarrow> bool" where
  "inv_messages N s \<longleftrightarrow>
     (\<forall>d req. (d, req) \<in> requests s \<longrightarrow>
        vr_Node req \<in> N \<and> awaited s d req \<and> (\<forall>resp. (d, req, resp) \<notin> replies s)) \<and>
     (\<forall>v req resp. (v, req, resp) \<in> replies s \<longrightarrow>
        vr_Node req \<in> N \<and> awaited s v req \<and>
        (vs_Result resp \<longrightarrow> (v, vr_Term req, vr_Node req) \<in> grants s) \<and>
        (\<forall>resp'. (v, req, resp') \<in> replies s \<longrightarrow> resp' = resp))"

text \<open>The votes counted in an election were given in it, and every winner had a majority.\<close>

definition inv_support :: "string set \<Rightarrow> cluster_state \<Rightarrow> bool" where
  "inv_support N s \<longleftrightarrow>
     (\<forall>n \<in> N. finite (support s n) \<and>
       (\<forall>e. elect (st s n) = Some e \<longrightarrow> snd e \<le> int (card (support s n)) \<and>
          (\<forall>v \<in> support s n. (v, fo_term (st s n), n) \<in> grants s)))"

definition voters :: "cluster_state \<Rightarrow> int \<Rightarrow> string \<Rightarrow> string set" where
  "voters s t l = {v. (v, t, l) \<in> grants s}"

definition inv_elected :: "string set \<Rightarrow> cluster_state \<Rightarrow> bool" where
  "inv_elected N s \<longleftrightarrow> (\<forall>l t. (l, t) \<in> elected s \<longrightarrow> card N < 2 * card (voters s t l))"

definition inv_leaders :: "string set \<Rightarrow> cluster_state \<Rightarrow> bool" where
  "inv_leaders N s \<longleftrightarrow>
     (\<forall>n \<in> N. fo_leader (st s n) \<noteq> [] \<longrightarrow> (fo_leader (st s n), fo_term (st s n)) \<in> elected s) \<and>
     (\<forall>d h. (d, h) \<in> healths s \<longrightarrow> (h_Leader h, h_Term h) \<in> elected s)"

lemma inv_members_step: "cstep N s s' \<Longrightarrow> inv_members N s \<Longrightarrow> inv_members N s'"
proof (induction rule: cstep.induct)
  case (tick_health n s failed c sent re)
  then show ?case using run_tick_health(1) member_ok_same by (fastforce simp: inv_members_def)
next
  case (tick_idle n s failed c)
  then show ?case using run_tick_idle(1) member_ok_same by (fastforce simp: inv_members_def)
next
  case (tick_elect n s failed c reqs)
  then show ?case using run_tick_elect(1) member_ok_same by (fastforce simp: inv_members_def)
next
  case (health n s h)
  then show ?case using run_health_frame(1) member_ok_same by (fastforce simp: inv_members_def)
next
  case (vote n s req c resp)
  then show ?case using run_vote_frame(1) member_ok_same by (fastforce simp: inv_members_def)
qed (auto simp: inv_members_def)

lemma inv_grants_step:
  "cstep N s s' \<Longrightarrow> inv_grants N s \<Longrightarrow> inv_members N s \<Longrightarrow> inv_grants N s'"
proof (induction rule: cstep.induct)
  case (tick_health n s failed c sent re)
  then show ?case using run_tick_health(2) by (fastforce simp: inv_grants_def)
next
  case (tick_idle n s failed c)
  then show ?case using run_tick_idle(2) by (fastforce simp: inv_grants_def)
next
  case (tick_elect n s failed c reqs)
  have t: "fo_term c = fo_term (st s n) + 1" using run_tick_elect(2) tick_elect.hyps(3) .
  have "(n, fo_term c, x) \<notin> grants s" for x
    using tick_elect.prems(1) t unfolding inv_grants_def by fastforce
  then show ?case using tick_elect.prems(1) tick_elect.hyps(1) t
    unfolding inv_grants_def by auto fastforce+
next
  case (elect_end n s e)
  then show ?case by (auto simp: inv_grants_def electLeader_finish_def)
next
  case (health n s h)
  then show ?case by (auto simp: inv_grants_def run_health_leader le_max_iff_disj)
next
  case (vote n s req c resp)
  note f = run_vote_frame [OF vote.hyps(4)]
  have "(n, vr_Term req, x) \<notin> grants s" if "vs_Result resp" for x
    using vote.prems(1) that f(5) unfolding inv_grants_def by fastforce
  then show ?case using vote.prems(1) vote.hyps(1) f(3)
    unfolding inv_grants_def by (auto simp: le_max_iff_disj)
qed (auto simp: inv_grants_def)

lemma req_of_simps [simp]: "vr_Node (req_of c) = thisNodeName c" "vr_Term (req_of c) = fo_term c"
  by (simp_all add: req_of_def)

text \<open>A change of one node that keeps its name and does not lower its term leaves the messages
  consistent: a request equal to the node's current one keeps its term.\<close>

lemma awaited_update:
  assumes "awaited s v req" "same_member (st s n) c" "fo_term c \<ge> fo_term (st s n)"
    "thisNodeName (st s n) = n"
  shows "awaited (s\<lparr>st := (st s)(n := c)\<rparr>) v req"
proof (cases "fo_term c = fo_term (st s n)")
  case True
  then have r: "req_of c = req_of (st s n)" using assms(2) by (simp add: req_of_def same_member_def)
  show ?thesis
    using assms(1) True by (cases "vr_Node req = n") (simp_all add: awaited_def r)
next
  case False
  then show ?thesis using assms by (auto simp: awaited_def)
qed

lemma awaited_cong:
  "st s' = st s \<Longrightarrow> support s' = support s \<Longrightarrow> awaited s' v req = awaited s v req"
  by (simp add: awaited_def)

lemma inv_messages_update:
  assumes "inv_messages N s" "same_member (st s n) c" "fo_term c \<ge> fo_term (st s n)"
    "thisNodeName (st s n) = n" "s' = s\<lparr>st := (st s)(n := c), healths := h, elected := l\<rparr>"
  shows "inv_messages N s'"
proof -
  have "awaited s' v req" if "awaited s v req" for v req
    using awaited_update [OF that assms(2-4)] by (simp add: assms(5) awaited_def)
  then show ?thesis using assms(1) by (auto simp: inv_messages_def assms(5))
qed

lemma inv_members_name: "inv_members N s \<Longrightarrow> n \<in> N \<Longrightarrow> thisNodeName (st s n) = n"
  by (simp add: inv_members_def member_ok_def)

lemma same_member_elect [simp]:
  "same_member c (c\<lparr>elect := e\<rparr>)" "same_member c (electLeader_finish c e')"
  by (simp_all add: same_member_def electLeader_finish_def)

lemma inv_messages_elect_reply:
  assumes "inv_messages N s" "thisNodeName (st s n) = n" "(v, req_of (st s n), resp) \<in> replies s"
  shows "inv_messages N (s\<lparr>st := (st s)(n := (st s n)\<lparr>elect := e\<rparr>),
    replies := replies s - {(v, req_of (st s n), resp)},
    support := (if b then (support s)(n := insert v (support s n)) else support s)\<rparr>)" (is "inv_messages N ?s")
proof -
  have r: "req_of ((st s n)\<lparr>elect := e\<rparr>) = req_of (st s n)" by (simp add: req_of_def)
  have A: "awaited ?s u req" if "awaited s u req" "(u, req) \<noteq> (v, req_of (st s n))" for u req
    using that assms(2) by (auto simp: awaited_def r)
  have old: "resp' = resp" if "(v, req_of (st s n), resp') \<in> replies s" for resp'
    using that assms(1,3) by (auto simp: inv_messages_def)
  have "awaited ?s d req" if "(d, req) \<in> requests s" for d req
    using A assms(1,3) that unfolding inv_messages_def by blast
  moreover have "awaited ?s u req" if "(u, req, resp') \<in> replies s - {(v, req_of (st s n), resp)}" for u req resp'
    using A assms(1) that old unfolding inv_messages_def by blast
  ultimately show ?thesis
    using assms(1) unfolding inv_messages_def by simp blast
qed

lemma inv_messages_tick_elect:
  assumes "inv_messages N s" "member_ok N n (st s n)" "n \<in> N"
    "run_tick failed (st s n) = TickElect c reqs"
  shows "inv_messages N (s\<lparr>st := (st s)(n := c), requests := requests s \<union> set reqs,
       grants := insert (n, fo_term c, n) (grants s), support := (support s)(n := {n})\<rparr>)"
    (is "inv_messages N ?s")
proof -
  note f = run_tick_elect [OF assms(4)]
  have n: "thisNodeName c = n" using f(1) assms(2) by (simp add: same_member_def member_ok_def)
  have A: "awaited ?s u req" if "awaited s u req" for u req
    using that f(2) by (auto simp: awaited_def)
  have R: "d \<noteq> n \<and> req = req_of c" if "(d, req) \<in> set reqs" for d req
    using that f(5) assms(2) by (auto simp: member_ok_def)
  have "(d, req_of c, resp) \<notin> replies s" for d resp
  proof
    assume "(d, req_of c, resp) \<in> replies s"
    then have "awaited s d (req_of c)" using assms(1) unfolding inv_messages_def by blast
    then show False using f(2) n by (simp add: awaited_def)
  qed
  moreover have "awaited ?s d (req_of c)" if "d \<noteq> n" for d
    using that n by (simp add: awaited_def)
  moreover have "vr_Node (req_of c) \<in> N" using n assms(3) by simp
  ultimately have "vr_Node req \<in> N \<and> awaited ?s d req \<and> (\<forall>resp. (d, req, resp) \<notin> replies s)"
    if "(d, req) \<in> set reqs" for d req
    using R [OF that] by blast
  then show ?thesis using assms(1) A unfolding inv_messages_def by simp
qed

lemma inv_messages_vote:
  assumes "inv_messages N s" "thisNodeName (st s n) = n" "(n, req) \<in> requests s"
    "run_vote req (st s n) = (c, resp)"
  shows "inv_messages N (s\<lparr>st := (st s)(n := c), requests := requests s - {(n, req)},
       replies := insert (n, req, resp) (replies s),
       grants := (if vs_Result resp then insert (n, vr_Term req, vr_Node req) (grants s)
                  else grants s)\<rparr>)" (is "inv_messages N ?s")
proof -
  note f = run_vote_frame [OF assms(4)]
  have A: "awaited ?s u r" if "awaited s u r" for u r
    using awaited_update [OF that f(1) _ assms(2)] f(3) by (simp add: awaited_def)
  show ?thesis using assms(1,3) A unfolding inv_messages_def by auto
qed

lemma inv_messages_step:
  "cstep N s s' \<Longrightarrow> inv_messages N s \<Longrightarrow> inv_members N s \<Longrightarrow> inv_messages N s'"
proof (induction rule: cstep.induct)
  case (tick_health n s failed c sent re)
  note f = run_tick_health [OF tick_health.hyps(3)]
  show ?case
    by (rule inv_messages_update [where h = "healths s \<union> set sent" and l = "elected s"])
      (use tick_health f in \<open>auto dest: inv_members_name\<close>)
next
  case (tick_idle n s failed c)
  note f = run_tick_idle [OF tick_idle.hyps(3)]
  show ?case
    by (rule inv_messages_update [where h = "healths s" and l = "elected s"])
      (use tick_idle f in \<open>auto dest: inv_members_name\<close>)
next
  case (health n s h)
  show ?case
    by (rule inv_messages_update [where h = "healths s" and l = "elected s"])
      (use health run_health_frame in \<open>auto dest: inv_members_name simp: run_health_leader\<close>)
next
  case (elect_other n s e ev e')
  show ?case
    by (rule inv_messages_update [where h = "healths s" and l = "elected s" and n = n and
          c = "(st s n)\<lparr>elect := Some e'\<rparr>"])
      (use elect_other in \<open>auto dest: inv_members_name\<close>)
next
  case (elect_end n s e)
  show ?case
    by (rule inv_messages_update [where h = "healths s" and n = n and
          c = "electLeader_finish (st s n) e" and
          l = "if snd e \<ge> expectVotes (st s n) then insert (n, fo_term (st s n)) (elected s)
               else elected s"])
      (use elect_end in \<open>auto dest: inv_members_name simp: electLeader_finish_def same_member_def\<close>)
next
  case (elect_reply n s e v resp e')
  then show ?case by (intro inv_messages_elect_reply) (auto dest: inv_members_name)
next
  case (tick_elect n s failed c reqs)
  then show ?case by (intro inv_messages_tick_elect) (auto simp: inv_members_def)
next
  case (vote n s req c resp)
  then show ?case by (intro inv_messages_vote) (auto dest: inv_members_name)
qed

lemma inv_supportD:
  assumes "inv_support N s" "n \<in> N"
  shows "finite (support s n)"
    "elect (st s n) = Some e \<Longrightarrow> snd e \<le> int (card (support s n))"
    "elect (st s n) = Some e \<Longrightarrow> \<forall>v \<in> support s n. (v, fo_term (st s n), n) \<in> grants s"
  using assms unfolding inv_support_def by blast+

lemma inv_support_step:
  "cstep N s s' \<Longrightarrow> inv_support N s \<Longrightarrow> inv_messages N s \<Longrightarrow> inv_members N s \<Longrightarrow> inv_support N s'"
proof (induction rule: cstep.induct)
  case (tick_health n s failed c sent re)
  then show ?case using run_tick_health [OF tick_health.hyps(3)] by (simp add: inv_support_def)
next
  case (tick_idle n s failed c)
  then show ?case using run_tick_idle [OF tick_idle.hyps(3)] by (simp add: inv_support_def)
next
  case (tick_elect n s failed c reqs)
  then show ?case using run_tick_elect [OF tick_elect.hyps(3)] by (simp add: inv_support_def)
next
  case (elect_reply n s e v resp e')
  have n: "thisNodeName (st s n) = n" using elect_reply by (simp add: inv_members_name)
  have "awaited s v (req_of (st s n)) \<and>
      (vs_Result resp \<longrightarrow> (v, vr_Term (req_of (st s n)), vr_Node (req_of (st s n))) \<in> grants s)"
    using elect_reply.prems(2) elect_reply.hyps(4) unfolding inv_messages_def by blast
  then have "v \<notin> support s n" and g: "vs_Result resp \<Longrightarrow> (v, fo_term (st s n), n) \<in> grants s"
    using n by (simp_all add: awaited_def)
  moreover have "finite (support s n)" "snd e \<le> int (card (support s n))"
      "\<forall>u \<in> support s n. (u, fo_term (st s n), n) \<in> grants s"
    using inv_supportD [OF elect_reply.prems(1) elect_reply.hyps(1)] elect_reply.hyps(2) by simp_all
  moreover have "snd e' \<le> snd e + (if vs_Result resp then 1 else 0) \<or> snd e' = 0"
    using elect_reply.hyps(5) by (auto simp: elect_event_def split: prod.splits if_splits)
  ultimately show ?case
    using elect_reply.prems(1) by (auto simp: inv_support_def)
next
  case (elect_other n s e ev e')
  have "snd e' = snd e"
    using elect_other.hyps(4,5) by (auto simp: elect_event_def split: prod.splits)
  then show ?case
    using inv_supportD [OF elect_other.prems(1) elect_other.hyps(1)] elect_other.prems(1)
      elect_other.hyps(2)
    by (auto simp: inv_support_def)
next
  case (elect_end n s e)
  then show ?case by (simp add: inv_support_def electLeader_finish_def)
next
  case (health n s h)
  then show ?case by (simp add: inv_support_def run_health_frame)
next
  case (vote n s req c resp)
  then show ?case using run_vote_frame [OF vote.hyps(4)] by (simp add: inv_support_def)
qed

lemma voters_finite: "inv_grants N s \<Longrightarrow> finite N \<Longrightarrow> finite (voters s t l)"
  by (rule finite_subset [of _ N]) (auto simp: voters_def inv_grants_def)

lemma inv_elected_mono:
  assumes "inv_elected N s" "inv_grants N s'" "finite N" "grants s \<subseteq> grants s'" "elected s' = elected s"
  shows "inv_elected N s'"
  unfolding inv_elected_def assms(5)
proof (intro allI impI)
  fix l t assume "(l, t) \<in> elected s"
  then have "card N < 2 * card (voters s t l)" using assms(1) by (simp add: inv_elected_def)
  also have "card (voters s t l) \<le> card (voters s' t l)"
    using assms(2-4) voters_finite by (intro card_mono) (auto simp: voters_def)
  finally show "card N < 2 * card (voters s' t l)" by simp
qed

lemma inv_elected_step:
  assumes "cstep N s s'" "inv_elected N s" "inv_support N s" "inv_grants N s" "inv_members N s"
  shows "inv_elected N s'"
proof -
  have fin: "finite N" using assms(5) by (simp add: inv_members_def)
  have g': "inv_grants N s'" using inv_grants_step assms by blast
  show ?thesis using assms(1)
  proof (cases rule: cstep.cases)
    case (elect_end n e)
    have "card N < 2 * card (voters s (fo_term (st s n)) n)" if "snd e \<ge> expectVotes (st s n)"
    proof -
      have "expectVotes (st s n) = int (card N div 2 + 1)"
        using majority assms(5) elect_end(2) fin by (auto simp: inv_members_def)
      moreover have "snd e \<le> int (card (support s n))"
        using inv_supportD(2) [OF assms(3)] elect_end(2,3) by blast
      ultimately have "card N div 2 + 1 \<le> card (support s n)" using that by linarith
      also have "\<dots> \<le> card (voters s (fo_term (st s n)) n)"
        using inv_supportD(3) [OF assms(3) elect_end(2,3)] voters_finite [OF assms(4) fin]
        by (intro card_mono) (auto simp: voters_def)
      finally show ?thesis by linarith
    qed
    then show ?thesis using assms(2) elect_end(1)
      by (auto simp: inv_elected_def voters_def)
  qed (use inv_elected_mono [OF assms(2) g' fin] in \<open>auto simp: subset_insertI\<close>)
qed

lemma inv_leaders_step:
  "cstep N s s' \<Longrightarrow> inv_leaders N s \<Longrightarrow> inv_members N s \<Longrightarrow> inv_leaders N s'"
proof (induction rule: cstep.induct)
  case (tick_health n s failed c sent re)
  note f = run_tick_health [OF tick_health.hyps(3)]
  have "fo_leader (st s n) \<noteq> []" "thisNodeName (st s n) = n"
    using tick_health f(5) by (auto simp: inv_members_def member_ok_def)
  then show ?case using tick_health f by (fastforce simp: inv_leaders_def)
next
  case (tick_idle n s failed c)
  then show ?case using run_tick_idle [OF tick_idle.hyps(3)] by (simp add: inv_leaders_def)
next
  case (tick_elect n s failed c reqs)
  then show ?case using run_tick_elect [OF tick_elect.hyps(3)] by (simp add: inv_leaders_def)
next
  case (elect_end n s e)
  then show ?case by (auto simp: inv_leaders_def electLeader_finish_def inv_members_name)
next
  case (health n s h)
  then show ?case by (auto simp: inv_leaders_def run_health_leader max_def)
next
  case (vote n s req c resp)
  then show ?case using run_vote_frame [OF vote.hyps(4)]
    by (auto simp: inv_leaders_def max_def split: if_splits)
qed (auto simp: inv_leaders_def)

definition cluster_inv :: "string set \<Rightarrow> cluster_state \<Rightarrow> bool" where
  "cluster_inv N s \<longleftrightarrow> inv_members N s \<and> inv_grants N s \<and> inv_messages N s \<and> inv_support N s \<and>
     inv_elected N s \<and> inv_leaders N s"

lemma failoverInit_done:
  assumes "failoverInit n names (Some cfg) rnd = InitDone c"
  shows "thisNodeName c = n \<and> map fst (c_nodes c) = names \<and> fo_leader c = [] \<and> elect c = None \<and>
    fo_term c = 0"
  using assms by (auto simp: failoverInit_def Let_def comp_def split: if_splits)

lemma cluster_inv_start:
  assumes "cluster_start N s"
  shows "cluster_inv N s"
proof -
  have "member_ok N n (st s n) \<and> fo_leader (st s n) = [] \<and> elect (st s n) = None" if "n \<in> N" for n
  proof -
    obtain names cfg rnd where i: "set names = N - {n}" "distinct names"
        "failoverInit n names (Some cfg) rnd = InitDone (st s n)"
      using assms \<open>n \<in> N\<close> unfolding cluster_start_def by blast
    then show ?thesis using failoverInit_done [OF i(3)] by (auto simp: member_ok_def)
  qed
  then show ?thesis using assms
    by (simp add: cluster_inv_def inv_members_def inv_grants_def inv_messages_def inv_support_def
        inv_elected_def inv_leaders_def cluster_start_def)
qed

lemma cluster_inv_step: "cstep N s s' \<Longrightarrow> cluster_inv N s \<Longrightarrow> cluster_inv N s'"
  unfolding cluster_inv_def
  using inv_members_step inv_grants_step inv_messages_step inv_support_step inv_elected_step
    inv_leaders_step by blast

lemma cluster_inv_reach: "creach N s \<Longrightarrow> cluster_inv N s"
  by (induction rule: creach.induct) (auto intro: cluster_inv_start cluster_inv_step)

lemma elected_unique:
  assumes "cluster_inv N s" "(a, t) \<in> elected s" "(b, t) \<in> elected s"
  shows "a = b"
proof -
  have fin: "finite N" and g: "inv_grants N s"
    using assms(1) by (auto simp: cluster_inv_def inv_members_def)
  have sub: "voters s t l \<subseteq> N" for l using g by (auto simp: voters_def inv_grants_def)
  have "card N < 2 * card (voters s t a)" "card N < 2 * card (voters s t b)"
    using assms by (auto simp: cluster_inv_def inv_elected_def)
  moreover have "card (voters s t a) + card (voters s t b) \<le> card N" if "voters s t a \<inter> voters s t b = {}"
    using that card_Un_disjoint [of "voters s t a" "voters s t b"] sub fin
    by (metis Un_least card_mono finite_subset)
  ultimately obtain v where "v \<in> voters s t a" "v \<in> voters s t b" by fastforce
  then show ?thesis using g unfolding voters_def inv_grants_def by blast
qed

section \<open>Leader safety\<close>

text \<open>C1. At most one leader per term: of the elections that were ever won, and of the nodes that
  consider themselves leader, no two with the same term have different winners.\<close>

theorem one_leader_per_term:
  assumes "creach N s"
  shows "(\<forall>a b t. (a, t) \<in> elected s \<and> (b, t) \<in> elected s \<longrightarrow> a = b) \<and>
    (\<forall>a \<in> N. \<forall>b \<in> N. fo_leader (st s a) = a \<and> fo_leader (st s b) = b \<and>
       fo_term (st s a) = fo_term (st s b) \<longrightarrow> a = b)"
proof -
  have inv: "cluster_inv N s" using cluster_inv_reach assms by blast
  have "(a, fo_term (st s a)) \<in> elected s" if "a \<in> N" "fo_leader (st s a) = a" for a
    using inv that unfolding cluster_inv_def inv_leaders_def inv_members_def by metis
  then show ?thesis using elected_unique [OF inv] by metis
qed

text \<open>The branch of \<open>run\<close> that reports a wrong leader as a bug is never taken: a health check
  that reaches a node in the node's own term names the leader the node knows, if it knows one.\<close>

theorem wrong_leader_unreachable:
  assumes "creach N s" "n \<in> N" "(n, h) \<in> healths s"
  shows "\<not> wrong_leader h (st s n)"
proof -
  have inv: "cluster_inv N s" using cluster_inv_reach assms(1) by blast
  then have "(h_Leader h, h_Term h) \<in> elected s"
      "fo_leader (st s n) \<noteq> [] \<Longrightarrow> (fo_leader (st s n), fo_term (st s n)) \<in> elected s"
    using assms(2,3) unfolding cluster_inv_def inv_leaders_def by blast+
  then show ?thesis using elected_unique [OF inv] by (auto simp: wrong_leader_def)
qed

lemma cstep_term_mono:
  assumes "cstep N s s'"
  shows "fo_term (st s n) \<le> fo_term (st s' n)"
  using assms
proof (induction rule: cstep.induct)
  case (tick_health n s failed c sent re)
  then show ?case using run_tick_health(2) by auto
next
  case (tick_idle n s failed c)
  then show ?case using run_tick_idle(2) by auto
next
  case (tick_elect n s failed c reqs)
  then show ?case using run_tick_elect(2) by auto
next
  case (health n s h)
  then show ?case by (simp add: run_health_leader)
next
  case (vote n s req c resp)
  then show ?case using run_vote_frame(3) by auto
qed (simp_all add: electLeader_finish_def)

section \<open>A run of three nodes\<close>

text \<open>Node \<open>a\<close> misses its first tick, is voted for by \<open>b\<close>, wins, and sends its first health
  check.\<close>

definition run_init :: "string \<Rightarrow> string list \<Rightarrow> cluster" where
  "run_init this names =
     (case failoverInit this names
        (Some \<lparr>cfg_Enabled = True, cfg_Heartbeat = 100, cfg_VoteAfter = 1, cfg_NodeFailAfter = 3\<rparr>) 0
      of InitDone c \<Rightarrow> c)"

definition run0 :: cluster_state where
  "run0 = \<lparr>st = (\<lambda>n. run_init n (filter (\<lambda>m. m \<noteq> n) [''a'', ''b'', ''c''])),
     requests = {}, replies = {}, healths = {}, grants = {}, support = (\<lambda>_. {}), elected = {}\<rparr>"

lemma failoverInit_run_init:
  "length names \<ge> 2 \<Longrightarrow> failoverInit this names
     (Some \<lparr>cfg_Enabled = True, cfg_Heartbeat = 100, cfg_VoteAfter = 1, cfg_NodeFailAfter = 3\<rparr>) 0 =
   InitDone (run_init this names)"
  by (simp add: run_init_def failoverInit_def Let_def)

lemma run_init_simps:
  "length names \<ge> 2 \<Longrightarrow> thisNodeName (run_init n names) = n \<and>
    c_nodes (run_init n names) = map (\<lambda>n. (n, 0)) names \<and>
    fo_leader (run_init n names) = [] \<and> fo_term (run_init n names) = 0 \<and>
    fo_voteTimeout (run_init n names) = 1 \<and> run_missed (run_init n names) = 0 \<and>
    elect (run_init n names) = None"
  by (simp add: run_init_def failoverInit_def Let_def)

lemma run0_start: "cluster_start {''a'', ''b'', ''c''} run0"
proof -
  have "\<exists>names cfg rnd. set names = {''a'', ''b'', ''c''} - {n} \<and> distinct names \<and>
      failoverInit n names (Some cfg) rnd = InitDone (st run0 n)" if "n \<in> {''a'', ''b'', ''c''}" for n
  proof (intro exI conjI)
    show "set (filter (\<lambda>m. m \<noteq> n) [''a'', ''b'', ''c'']) = {''a'', ''b'', ''c''} - {n}" by auto
    show "failoverInit n (filter (\<lambda>m. m \<noteq> n) [''a'', ''b'', ''c''])
       (Some \<lparr>cfg_Enabled = True, cfg_Heartbeat = 100, cfg_VoteAfter = 1, cfg_NodeFailAfter = 3\<rparr>) 0 =
       InitDone (st run0 n)"
      using that by (subst failoverInit_run_init) (auto simp: run0_def)
  qed simp
  then show ?thesis by (simp add: cluster_start_def run0_def)
qed

lemma run0_leads:
  "\<exists>s h. creach {''a'', ''b'', ''c''} s \<and> elected s = {(''a'', 1)} \<and> (''b'', h) \<in> healths s \<and>
     fo_leader (st s ''a'') = ''a'' \<and> fo_term (st s ''b'') = 1 \<and> h_Term h = 1"
proof -
  let ?N = "{''a'', ''b'', ''c''}" and ?req = "\<lparr>vr_Node = ''a'', vr_Term = 1\<rparr>"
  note i = run_init_simps [of "[''b'', ''c'']" "''a''"] run_init_simps [of "[''a'', ''c'']" "''b''"]
  note r0 = creach.start [OF run0_start]
  define a1 where "a1 = (st run0 ''a'')\<lparr>run_missed := 0, fo_term := 1, fo_leader := [], elect := Some (0, 1)\<rparr>"
  have "run_tick (\<lambda>_. False) (st run0 ''a'') = TickElect a1 [(''b'', ?req), (''c'', ?req)]"
    using i by (simp add: run0_def run_tick_def Let_def electLeader_start_def a1_def)
  note r1 = creach.step [OF r0 cstep.tick_elect [OF _ _ this]]
  define s1 where "s1 = run0\<lparr>st := (st run0)(''a'' := a1), requests := {(''b'', ?req), (''c'', ?req)},
      grants := {(''a'', 1, ''a'')}, support := (\<lambda>_. {})(''a'' := {''a''})\<rparr>"
  have r1: "creach ?N s1"
    using r1 i by (simp add: s1_def a1_def) (simp add: run0_def)
  define b2 where "b2 = (st run0 ''b'')\<lparr>fo_term := 1, fo_leader := []\<rparr>"
  define s2 where "s2 = s1\<lparr>st := (st s1)(''b'' := b2), requests := {(''c'', ?req)},
      replies := {(''b'', ?req, \<lparr>vs_Result = True, vs_Term = 1\<rparr>)},
      grants := {(''b'', 1, ''a''), (''a'', 1, ''a'')}\<rparr>"
  have "run_vote ?req (st s1 ''b'') = (b2, \<lparr>vs_Result = True, vs_Term = 1\<rparr>)"
    using i by (simp add: run_vote_def s1_def run0_def b2_def)
  note r2 = creach.step [OF r1 cstep.vote [OF _ _ _ this]]
  have r2: "creach ?N s2"
    using r2 i by (simp add: s1_def s2_def) (simp add: run0_def)
  define a3 where "a3 = a1\<lparr>elect := Some (1, 2)\<rparr>"
  define s3 where "s3 = s2\<lparr>st := (st s2)(''a'' := a3), replies := {},
      support := (support s2)(''a'' := {''b'', ''a''})\<rparr>"
  have a: "st s2 ''a'' = a1" "req_of a1 = ?req" "c_nodes a1 = [(''b'', 0), (''c'', 0)]" "fo_term a1 = 1"
      "elect a1 = Some (0, 1)" "thisNodeName a1 = ''a''"
    using i by (simp_all add: s2_def s1_def a1_def req_of_def) (simp_all add: run0_def)
  have rep: "(''b'', ?req, \<lparr>vs_Result = True, vs_Term = 1\<rparr>) \<in> replies s2" by (simp add: s2_def)
  have "cstep ?N s2 (s2\<lparr>st := (st s2)(''a'' := (st s2 ''a'')\<lparr>elect := Some (1, 2)\<rparr>),
       replies := replies s2 - {(''b'', req_of (st s2 ''a''), \<lparr>vs_Result = True, vs_Term = 1\<rparr>)},
       support := (if vs_Result \<lparr>vs_Result = True, vs_Term = 1\<rparr>
         then (support s2)(''a'' := insert ''b'' (support s2 ''a'')) else support s2)\<rparr>)"
    by (rule cstep.elect_reply [where e = "(0, 1)"])
      (use rep in \<open>simp_all add: a elect_continues_def expectVotes_def elect_event_def Let_def\<close>)
  note r3 = creach.step [OF r2 this]
  have r3: "creach ?N s3"
    using r3 unfolding a by (simp add: s3_def a3_def) (simp add: s2_def s1_def)
  define a4 where "a4 = a3\<lparr>fo_leader := ''a'', elect := None\<rparr>"
  define s4 where "s4 = s3\<lparr>st := (st s3)(''a'' := a4), elected := {(''a'', 1)}\<rparr>"
  have a3: "st s3 ''a'' = a3" "elect a3 = Some (1, 2)" "expectVotes a3 = 2" "fo_term a3 = 1"
      "electLeader_finish a3 (1, 2) = a4"
    using a by (simp_all add: s3_def a3_def expectVotes_def electLeader_finish_def a4_def)
  have "\<not> elect_continues (st s3 ''a'') (1, 2)" by (simp add: a3 elect_continues_def)
  note r4 = creach.step [OF r3 cstep.elect_end [OF _ _ this]]
  have "elected s3 = {}" by (simp add: s3_def s2_def s1_def run0_def)
  then have r4: "creach ?N s4" using r4 a3 by (simp add: s4_def)
  have a4: "st s4 ''a'' = a4" "fo_leader a4 = ''a''" "thisNodeName a4 = ''a''" "elect a4 = None"
      "c_nodes a4 = [(''b'', 0), (''c'', 0)]" "fo_term a4 = 1"
    using a by (simp_all add: s4_def a4_def a3_def)
  obtain c sent re where sh: "sendHealthChecks (\<lambda>_. False) a4 = (c, sent, re)"
    by (metis prod_cases3)
  then have tick: "run_tick (\<lambda>_. False) (st s4 ''a'') = TickHealth c sent re"
    using a4 by (simp add: run_tick_def)
  obtain h where h: "(''b'', h) \<in> set sent"
    using a4 sh by (auto simp: sendHealthChecks_def Let_def split: prod.splits if_splits)
  note f = run_tick_health [OF tick(1), unfolded a4(1)]
  let ?s = "s4\<lparr>st := (st s4)(''a'' := c), healths := healths s4 \<union> set sent\<rparr>"
  have "creach ?N ?s"
    using creach.step [OF r4 cstep.tick_health [OF _ _ tick(1)]] a4 by simp
  moreover have "elected ?s = {(''a'', 1)}" "(''b'', h) \<in> healths ?s" "fo_leader (st ?s ''a'') = ''a''"
    using h f a4 by (simp_all add: s4_def)
  moreover have "fo_term (st ?s ''b'') = 1" "h_Term h = 1"
    using f(6) [OF h] a4 by (simp_all add: s4_def s3_def s2_def b2_def)
  ultimately show ?thesis by blast
qed

theorem one_leader_per_term_witness:
  "\<exists>s. creach {''a'', ''b'', ''c''} s \<and> elected s = {(''a'', 1)} \<and>
     (\<forall>a b t. (a, t) \<in> elected s \<and> (b, t) \<in> elected s \<longrightarrow> a = b)"
proof -
  obtain s where "creach {''a'', ''b'', ''c''} s" "elected s = {(''a'', 1)}"
    using run0_leads by blast
  with one_leader_per_term [OF this(1)] show ?thesis by blast
qed

theorem wrong_leader_unreachable_witness:
  "\<exists>s h. creach {''a'', ''b'', ''c''} s \<and> (''b'', h) \<in> healths s \<and> h_Term h = fo_term (st s ''b'') \<and>
     \<not> wrong_leader h (st s ''b'')"
proof -
  obtain s h where "creach {''a'', ''b'', ''c''} s" "(''b'', h) \<in> healths s"
      "h_Term h = fo_term (st s ''b'')"
    using run0_leads by fastforce
  with wrong_leader_unreachable [OF this(1) _ this(2)] show ?thesis by blast
qed

section \<open>An election ends\<close>

definition is_yes :: "vote_event \<Rightarrow> bool" where
  "is_yes ev = (case ev of VoteReply r \<Rightarrow> vs_Result r | _ \<Rightarrow> False)"

lemma elect_loop_ends:
  assumes "int (length (c_nodes c)) - i \<le> int (length evs)"
  shows "\<exists>e. elect_loop c evs (i, vc) = Some e \<and>
    (\<not> elect_continues c e) \<and> snd e \<le> max 0 vc + int (length (filter is_yes evs)) \<and>
    (list_all is_yes evs \<longrightarrow> snd e \<ge> min (expectVotes c) (vc + int (length (c_nodes c)) - i))"
  using assms
proof (induction evs arbitrary: i vc)
  case Nil
  then show ?case by (auto simp: elect_loop.simps [of c "[]"] elect_continues_def)
next
  case (Cons ev evs)
  define e where "e = elect_event (int (length (c_nodes c))) (fo_term c) ev (i, vc)"
  show ?case
  proof (cases "elect_continues c (i, vc)")
    case False
    then show ?thesis
      by (auto simp: elect_loop.simps [of c "ev # evs"] elect_continues_def)
  next
    case True
    have e: "fst e \<ge> i + 1" "max 0 (snd e) \<le> max 0 vc + (if is_yes ev then 1 else 0)"
        "is_yes ev \<Longrightarrow> e = (i + 1, vc + 1)"
      using True by (auto simp: e_def elect_event_def is_yes_def elect_continues_def split: vote_event.splits)
    then have "int (length (c_nodes c)) - fst e \<le> int (length evs)" using Cons.prems by simp
    from Cons.IH [OF this, of "snd e"] obtain e' where e': "elect_loop c evs e = Some e'"
        "\<not> elect_continues c e'" "snd e' \<le> max 0 (snd e) + int (length (filter is_yes evs))"
        "list_all is_yes evs \<longrightarrow> snd e' \<ge> min (expectVotes c) (snd e + int (length (c_nodes c)) - fst e)"
      by auto
    moreover have "elect_loop c (ev # evs) (i, vc) = elect_loop c evs e"
      using True by (simp add: elect_loop.simps [of c "ev # evs"] e_def)
    ultimately show ?thesis using e by auto
  qed
qed

text \<open>An election ends: once every other node has answered or failed to, \<open>electLeader\<close>
  returns in the next term. It makes the node the leader only with the votes of a majority, and
  does so when all the answers are votes for it.\<close>

theorem election_ends:
  assumes "length (c_nodes c) \<le> length evs" "thisNodeName c \<noteq> []"
  shows "\<exists>c'. electLeader evs c = Some c' \<and> fo_term c' = fo_term c + 1 \<and> elect c' = None \<and>
    (fo_leader c' = thisNodeName c \<longrightarrow> expectVotes c \<le> 1 + int (length (filter is_yes evs))) \<and>
    (list_all is_yes evs \<longrightarrow> fo_leader c' = thisNodeName c)"
proof -
  let ?c1 = "fst (electLeader_start c)"
  have c1: "c_nodes ?c1 = c_nodes c" "thisNodeName ?c1 = thisNodeName c" "fo_leader ?c1 = []"
      "expectVotes ?c1 = expectVotes c" "fo_term ?c1 = fo_term c + 1"
    by (simp_all add: electLeader_start_def Let_def expectVotes_def)
  obtain e where e: "elect_loop ?c1 evs (0, 1) = Some e" "snd e \<le> 1 + int (length (filter is_yes evs))"
      "list_all is_yes evs \<longrightarrow> snd e \<ge> min (expectVotes c) (1 + int (length (c_nodes c)))"
    using elect_loop_ends [of ?c1 0 evs 1] assms(1) c1 by auto
  have "expectVotes c \<le> 1 + int (length (c_nodes c))" by (simp add: expectVotes_def)
  then show ?thesis using e c1 assms(2)
    by (auto simp: electLeader_def Let_def electLeader_finish_def)
qed

theorem election_ends_witness:
  "fo_leader (the (electLeader [VoteReply \<lparr>vs_Result = True, vs_Term = 1\<rparr>, VoteReply \<lparr>vs_Result = True, vs_Term = 1\<rparr>]
     (run_init ''a'' [''b'', ''c'']))) = ''a''"
  using election_ends [of "run_init ''a'' [''b'', ''c'']"
      "[VoteReply \<lparr>vs_Result = True, vs_Term = 1\<rparr>, VoteReply \<lparr>vs_Result = True, vs_Term = 1\<rparr>]"]
    run_init_simps [of "[''b'', ''c'']" "''a''"]
  by (auto simp: is_yes_def)

end
