(* ===== verification/Message.thy ===== *)
theory Message
  imports Uid "HOL-Library.List_Lexorder" "HOL-Library.Char_ord"
begin

text \<open>
  The stored message (\<^verbatim>\<open>server/store/types/message.go\<close>) and the keys derived from it. The
  values of the JSON fields are of an arbitrary type \<open>'c\<close>. The digest \<open>sha256.Sum256\<close>, a function
  from byte strings to byte strings, is an argument; nothing is assumed of it.
\<close>

record 'c message =
  m_Id :: uid
  m_CreatedAt :: go_time
  m_UpdatedAt :: go_time
  m_DelId :: int
  m_DeletedFor :: "(string \<times> int) list"
  m_SeqId :: int
  m_Topic :: string
  m_From :: string
  m_ClientId :: string
  m_ClientKey :: string
  m_ClusterId :: string
  m_ClusterEpoch :: int
  m_ClusterOwner :: string
  m_Head :: "string \<rightharpoonup> 'c"
  m_Content :: "'c option"
  m_SearchText :: string

definition MessageClientKey :: "(string \<Rightarrow> string) \<Rightarrow> uid \<Rightarrow> string \<Rightarrow> string" where
  "MessageClientKey sha from clientID =
     (if uid_IsZero from \<or> clientID = [] then []
      else b64_encode (sha (uid_MarshalBinary from @ clientID)))"

definition ClusterFenceKey :: "(string \<Rightarrow> string) \<Rightarrow> string \<Rightarrow> string" where
  "ClusterFenceKey sha clusterID = ''cluster.fence.'' @ b64_encode (sha clusterID)"

definition HasClusterFence :: "'c message \<Rightarrow> bool" where
  "HasClusterFence msg \<longleftrightarrow> m_ClusterId msg \<noteq> [] \<and> m_ClusterEpoch msg > 0 \<and> m_ClusterOwner msg \<noteq> []"

definition HasAnyClusterFenceField :: "'c message \<Rightarrow> bool" where
  "HasAnyClusterFenceField msg \<longleftrightarrow>
     m_ClusterId msg \<noteq> [] \<or> m_ClusterEpoch msg \<noteq> 0 \<or> m_ClusterOwner msg \<noteq> []"

definition InitClientKey :: "(string \<Rightarrow> string) \<Rightarrow> 'c message \<Rightarrow> 'c message" where
  "InitClientKey sha msg =
     (if m_ClientKey msg = []
      then msg\<lparr>m_ClientKey := MessageClientKey sha (ParseUid (m_From msg)) (m_ClientId msg)\<rparr>
      else msg)"

lemma InitClientKey_fence [simp]:
  "HasClusterFence (InitClientKey sha m) = HasClusterFence m"
  "HasAnyClusterFenceField (InitClientKey sha m) = HasAnyClusterFenceField m"
  "m_ClusterId (InitClientKey sha m) = m_ClusterId m"
  "m_ClusterEpoch (InitClientKey sha m) = m_ClusterEpoch m"
  "m_ClusterOwner (InitClientKey sha m) = m_ClusterOwner m"
  "m_Topic (InitClientKey sha m) = m_Topic m" "m_SeqId (InitClientKey sha m) = m_SeqId m"
  by (simp_all add: InitClientKey_def HasClusterFence_def HasAnyClusterFenceField_def)

end
