(* ===== verification/Fence.thy ===== *)
theory Fence
  imports Message RingHash
begin

text \<open>
  Fenced writes: the transaction that stores a message and the statement that advances the
  fencing epoch (\<^verbatim>\<open>server/db/mysql/messages.go\<close>), and the cluster functions that hand out
  write tokens and apply a new view (\<^verbatim>\<open>internal/server/cluster_membership.go\<close>).

  The database is a record of its tables. A row of \<open>kvmeta\<close> under a fence key holds the decimal
  text of an epoch and is represented by its time and that number. The argument \<open>fail\<close> gives the
  error of each statement that fails; a transaction that does not commit has no effect.
\<close>

section \<open>The tables\<close>

record topic_row =
  tr_seqid :: int
  tr_touchedat :: go_time
  tr_clusterowner :: string
  tr_clusterepoch :: int

record 'c msg_db =
  db_fence :: "string \<rightharpoonup> go_time \<times> int"
  db_topics :: "string \<rightharpoonup> topic_row"
  db_messages :: "'c message list"
  db_nextid :: nat

datatype db_stmt =
  BeginTx | SelectFence | UpdateTopic | RowsAffected | InsertMessage | CommitTx | UpsertFence

type_synonym db_faults = "db_stmt \<Rightarrow> store_error option"

text \<open>The unique indexes of \<open>messages\<close> and its reference to \<open>topics\<close>; an empty client key is
  stored as NULL, which the index does not compare.\<close>

definition insert_allowed :: "'c msg_db \<Rightarrow> 'c message \<Rightarrow> bool" where
  "insert_allowed db msg \<longleftrightarrow> db_topics db (m_Topic msg) \<noteq> None \<and>
     (\<forall>m \<in> set (db_messages db). m_Topic m = m_Topic msg \<longrightarrow>
        m_SeqId m \<noteq> m_SeqId msg \<and> (m_ClientKey msg \<noteq> [] \<longrightarrow> m_ClientKey m \<noteq> m_ClientKey msg))"

section \<open>Storing a message\<close>

definition fence_check :: "(string \<Rightarrow> string) \<Rightarrow> db_faults \<Rightarrow> 'c message \<Rightarrow> 'c msg_db \<Rightarrow> store_error option" where
  "fence_check sha fail msg db =
     (case fail SelectFence of
        Some e \<Rightarrow> Some e
      | None \<Rightarrow>
          (case db_fence db (ClusterFenceKey sha (m_ClusterId msg)) of
             None \<Rightarrow> Some ErrClusterFenced
           | Some (_, fenceEpoch) \<Rightarrow>
               if fenceEpoch \<noteq> m_ClusterEpoch msg then Some ErrClusterFenced else None))"

text \<open>The conditional update counts the rows it changes.\<close>

definition fenced_update :: "db_faults \<Rightarrow> 'c message \<Rightarrow> 'c msg_db \<Rightarrow> store_error + 'c msg_db" where
  "fenced_update fail msg db =
     (case fail UpdateTopic of
        Some e \<Rightarrow> Inl e
      | None \<Rightarrow>
          (case fail RowsAffected of
             Some e \<Rightarrow> Inl e
           | None \<Rightarrow>
               (case db_topics db (m_Topic msg) of
                  None \<Rightarrow> Inl ErrClusterFenced
                | Some row \<Rightarrow>
                    let row' = \<lparr>tr_seqid = m_SeqId msg, tr_touchedat = m_CreatedAt msg,
                          tr_clusterowner = m_ClusterOwner msg, tr_clusterepoch = m_ClusterEpoch msg\<rparr>
                    in if (tr_clusterepoch row < m_ClusterEpoch msg \<or>
                           tr_clusterepoch row = m_ClusterEpoch msg \<and>
                           tr_clusterowner row = m_ClusterOwner msg) \<and> row' \<noteq> row
                       then Inr (db\<lparr>db_topics := (db_topics db)(m_Topic msg \<mapsto> row')\<rparr>)
                       else Inl ErrClusterFenced)))"

definition plain_update :: "db_faults \<Rightarrow> 'c message \<Rightarrow> 'c msg_db \<Rightarrow> store_error + 'c msg_db" where
  "plain_update fail msg db =
     (case fail UpdateTopic of
        Some e \<Rightarrow> Inl e
      | None \<Rightarrow>
          (case db_topics db (m_Topic msg) of
             None \<Rightarrow> Inr db
           | Some row \<Rightarrow> Inr (db\<lparr>db_topics := (db_topics db)(m_Topic msg \<mapsto>
               row\<lparr>tr_seqid := m_SeqId msg, tr_touchedat := m_CreatedAt msg\<rparr>)\<rparr>)))"

definition insert_message :: "db_faults \<Rightarrow> 'c message \<Rightarrow> 'c msg_db \<Rightarrow> store_error + 'c msg_db" where
  "insert_message fail msg db =
     (case fail InsertMessage of
        Some e \<Rightarrow> Inl e
      | None \<Rightarrow>
          if insert_allowed db msg
          then Inr (db\<lparr>db_messages := db_messages db @ [msg], db_nextid := db_nextid db + 1\<rparr>)
          else Inl (ErrOther ''constraint violated''))"

definition MessageSaveAtomic ::
  "(string \<Rightarrow> string) \<Rightarrow> db_faults \<Rightarrow> 'c message \<Rightarrow> 'c msg_db \<Rightarrow>
   store_error option \<times> 'c message \<times> 'c msg_db" where
  "MessageSaveAtomic sha fail msg0 db =
     (let msg = InitClientKey sha msg0 in
      if HasAnyClusterFenceField msg \<and> \<not> HasClusterFence msg then (Some ErrMalformed, msg, db)
      else
        case fail BeginTx of Some e \<Rightarrow> (Some e, msg, db)
        | None \<Rightarrow>
          (case (if HasClusterFence msg then
                   (case fence_check sha fail msg db of
                      Some e \<Rightarrow> Inl e
                    | None \<Rightarrow> fenced_update fail msg db)
                 else plain_update fail msg db) of
             Inl e \<Rightarrow> (Some e, msg, db)
           | Inr db1 \<Rightarrow>
               (case insert_message fail msg db1 of
                  Inl e \<Rightarrow> (Some e, msg, db)
                | Inr db2 \<Rightarrow>
                    (case fail CommitTx of
                       Some e \<Rightarrow> (Some e, msg, db)
                     | None \<Rightarrow> (None, msg\<lparr>m_Id := of_nat (db_nextid db)\<rparr>, db2)))))"

section \<open>Advancing the fence\<close>

definition ClusterFenceAdvance ::
  "(string \<Rightarrow> string) \<Rightarrow> db_faults \<Rightarrow> go_time \<Rightarrow> string \<Rightarrow> int \<Rightarrow> 'c msg_db \<Rightarrow>
   store_error option \<times> 'c msg_db" where
  "ClusterFenceAdvance sha fail now clusterID epoch db =
     (if clusterID = [] \<or> epoch \<le> 0 then (Some ErrMalformed, db)
      else
        case fail UpsertFence of Some e \<Rightarrow> (Some e, db)
        | None \<Rightarrow>
          let key = ClusterFenceKey sha clusterID;
              row = (case db_fence db key of
                       None \<Rightarrow> (now, epoch)
                     | Some (createdat, v) \<Rightarrow> if v < epoch then (now, epoch) else (createdat, v));
              db1 = db\<lparr>db_fence := (db_fence db)(key \<mapsto> row)\<rparr>
          in case fail SelectFence of Some e \<Rightarrow> (Some e, db1)
             | None \<Rightarrow> if snd row \<noteq> epoch then (Some ErrClusterFenced, db1) else (None, db1))"

text \<open>The operations of all nodes on the shared database, in the order the database serialises
  them.\<close>

datatype 'c db_op =
    OpSave db_faults "'c message"
  | OpAdvance db_faults go_time string int

fun db_step :: "(string \<Rightarrow> string) \<Rightarrow> 'c db_op \<Rightarrow> 'c msg_db \<Rightarrow> 'c msg_db" where
  "db_step sha (OpSave fail msg) db = snd (snd (MessageSaveAtomic sha fail msg db))"
| "db_step sha (OpAdvance fail now cid epoch) db = snd (ClusterFenceAdvance sha fail now cid epoch db)"

section \<open>Write tokens and views\<close>

text \<open>What \<open>writeFenceToken\<close> reads of the cluster: whether the node's health allows writes, when
  health is tracked, and whether the control plane is ready, when there is one.\<close>

record member_node =
  mn_thisNodeName :: string
  mn_clusterID :: string
  mn_viewEpoch :: int
  mn_ring :: ring
  mn_allowsWrites :: "bool option"
  mn_controlPlaneReady :: "bool option"

definition writeFenceToken ::
  "member_node option \<Rightarrow> string \<Rightarrow> (string \<times> int \<times> string) \<times> store_error option" where
  "writeFenceToken node topic =
     (case node of
        None \<Rightarrow> (([], 0, []), None)
      | Some c \<Rightarrow>
          if mn_allowsWrites c = Some False
          then (([], 0, topicOwner (mn_ring c) topic), Some ErrClusterFenced)
          else
            (case mn_controlPlaneReady c of
               None \<Rightarrow> (([], 0, []), None)
             | Some False \<Rightarrow> (([], 0, []), Some ErrClusterFenced)
             | Some True \<Rightarrow>
                 let owner = topicOwner (mn_ring c) topic; epoch = mn_viewEpoch c in
                 if epoch \<le> 0 \<or> owner \<noteq> mn_thisNodeName c
                 then (([], 0, owner), Some ErrClusterFenced)
                 else ((mn_clusterID c, epoch, owner), None)))"

text \<open>\<open>applyControlPlaneView\<close> for a view with the given epoch and serving members; the hub is told
  afterwards and is not part of this state.\<close>

definition applyControlPlaneView ::
  "(string \<Rightarrow> string) \<Rightarrow> db_faults \<Rightarrow> go_time \<Rightarrow> bool \<Rightarrow> int \<Rightarrow> string list \<Rightarrow> member_node \<Rightarrow> 'c msg_db \<Rightarrow>
   store_error option \<times> member_node \<times> 'c msg_db" where
  "applyControlPlaneView sha fail now adapterReady epoch memberNames c db =
     (if \<not> adapterReady then (Some (ErrOther ''adapter''), c, db)
      else
        case ClusterFenceAdvance sha fail now (mn_clusterID c) epoch db of
          (Some e, db1) \<Rightarrow> (Some e, c, db1)
        | (None, db1) \<Rightarrow>
            (None, c\<lparr>mn_ring := fst (rehash [] (mn_thisNodeName c) (Some memberNames)),
                     mn_viewEpoch := epoch\<rparr>, db1))"

section \<open>The transaction\<close>

text \<open>A save either changes nothing or has passed every check.\<close>

lemma MessageSaveAtomic_cases:
  assumes "MessageSaveAtomic sha fail m db = (r, m', db')"
  obtains (fail) e where "r = Some e" "db' = db"
  | (fenced) row where "r = None" "HasClusterFence m"
      "\<exists>t. db_fence db (ClusterFenceKey sha (m_ClusterId m)) = Some (t, m_ClusterEpoch m)"
      "db_topics db (m_Topic m) = Some row"
      "tr_clusterepoch row < m_ClusterEpoch m \<or>
       tr_clusterepoch row = m_ClusterEpoch m \<and> tr_clusterowner row = m_ClusterOwner m"
      "insert_allowed db (InitClientKey sha m)"
      "db' = db\<lparr>db_topics := (db_topics db)(m_Topic m \<mapsto>
           \<lparr>tr_seqid = m_SeqId m, tr_touchedat = m_CreatedAt m,
            tr_clusterowner = m_ClusterOwner m, tr_clusterepoch = m_ClusterEpoch m\<rparr>),
         db_messages := db_messages db @ [InitClientKey sha m], db_nextid := db_nextid db + 1\<rparr>"
  | (plain) row where "r = None" "\<not> HasAnyClusterFenceField m" "db_topics db (m_Topic m) = Some row"
      "insert_allowed db (InitClientKey sha m)"
      "db' = db\<lparr>db_topics := (db_topics db)(m_Topic m \<mapsto>
           row\<lparr>tr_seqid := m_SeqId m, tr_touchedat := m_CreatedAt m\<rparr>),
         db_messages := db_messages db @ [InitClientKey sha m], db_nextid := db_nextid db + 1\<rparr>"
proof (cases r)
  case (Some e)
  then have "db' = db"
    using assms by (auto simp: MessageSaveAtomic_def Let_def split: option.splits sum.splits if_splits)
  then show thesis using Some that(1) by blast
next
  case None
  have at: "m_CreatedAt (InitClientKey sha m) = m_CreatedAt m" by (simp add: InitClientKey_def)
  show thesis
  proof (cases "HasClusterFence m")
    case True
    then obtain db1 db2 where s: "fence_check sha fail (InitClientKey sha m) db = None"
        "fenced_update fail (InitClientKey sha m) db = Inr db1"
        "insert_message fail (InitClientKey sha m) db1 = Inr db2" "db' = db2"
      using assms None
      by (auto simp: MessageSaveAtomic_def Let_def split: option.splits sum.splits if_splits)
    then obtain row where "db_topics db (m_Topic m) = Some row"
      by (auto simp: fenced_update_def split: option.splits)
    then show thesis using s True None at
      by (intro that(2)) (auto simp: fence_check_def fenced_update_def insert_message_def
          insert_allowed_def Let_def split: option.splits prod.splits if_splits)
  next
    case False
    then obtain db1 db2 where s: "\<not> HasAnyClusterFenceField m"
        "plain_update fail (InitClientKey sha m) db = Inr db1"
        "insert_message fail (InitClientKey sha m) db1 = Inr db2" "db' = db2"
      using assms None
      by (auto simp: MessageSaveAtomic_def Let_def split: option.splits sum.splits if_splits)
    then obtain row where "db_topics db (m_Topic m) = Some row"
      by (auto simp: plain_update_def insert_message_def insert_allowed_def split: option.splits if_splits)
    then show thesis using s None at
      by (intro that(3)) (auto simp: plain_update_def insert_message_def
          insert_allowed_def split: option.splits if_splits)
  qed
qed

text \<open>Every topic has messages with distinct numbers and distinct non-empty client keys.\<close>

definition db_wf :: "'c msg_db \<Rightarrow> bool" where
  "db_wf db \<longleftrightarrow> sorted_wrt (\<lambda>a b. m_Topic a = m_Topic b \<longrightarrow>
       m_SeqId a \<noteq> m_SeqId b \<and> (m_ClientKey b \<noteq> [] \<longrightarrow> m_ClientKey a \<noteq> m_ClientKey b)) (db_messages db)"

lemma sorted_wrt_snoc: "sorted_wrt P (xs @ [x]) \<longleftrightarrow> sorted_wrt P xs \<and> (\<forall>y \<in> set xs. P y x)"
  by (simp add: sorted_wrt_append)

section \<open>A concrete database\<close>

text \<open>One topic, written to under epoch 5 of the cluster \<open>c\<close>.\<close>

definition ex_msg :: "string \<Rightarrow> int \<Rightarrow> int \<Rightarrow> unit message" where
  "ex_msg owner epoch seq = \<lparr>m_Id = 0, m_CreatedAt = 1, m_UpdatedAt = 1, m_DelId = 0, m_DeletedFor = [],
     m_SeqId = seq, m_Topic = ''grpA'', m_From = [], m_ClientId = [], m_ClientKey = [],
     m_ClusterId = ''c'', m_ClusterEpoch = epoch, m_ClusterOwner = owner, m_Head = Map.empty,
     m_Content = None, m_SearchText = []\<rparr>"

definition ex_db :: "unit msg_db" where
  "ex_db = \<lparr>db_fence = [ClusterFenceKey id ''c'' \<mapsto> (1, 5)],
     db_topics = [''grpA'' \<mapsto> \<lparr>tr_seqid = 0, tr_touchedat = 0, tr_clusterowner = [], tr_clusterepoch = 0\<rparr>],
     db_messages = [], db_nextid = 1\<rparr>"

lemmas ex_simps = ex_msg_def ex_db_def MessageSaveAtomic_def InitClientKey_def MessageClientKey_def
  HasClusterFence_def HasAnyClusterFenceField_def fence_check_def fenced_update_def insert_message_def
  insert_allowed_def

lemma ex_save:
  "\<exists>m' db'. MessageSaveAtomic id (\<lambda>_. None) (ex_msg ''a'' 5 1) ex_db = (None, m', db') \<and>
     db_fence db' = db_fence ex_db \<and> length (db_messages db') = 1 \<and>
     (\<exists>m2 db2. MessageSaveAtomic id (\<lambda>_. None) (ex_msg ''a'' 5 2) db' = (None, m2, db2))"
  by (simp add: ex_simps)

lemma ex_fence: "HasClusterFence (ex_msg ''a'' 5 s)"
  by (simp add: ex_simps)

lemma ex_advance:
  "\<exists>db'. ClusterFenceAdvance id (\<lambda>_. None) 2 ''c'' 7 ex_db = (None, db')"
  by (simp add: ClusterFenceAdvance_def ex_db_def)

text \<open>C18. Saving a message is atomic: on an error the database is unchanged; otherwise exactly this
  message is added, the topic's cursor is its number, the message is the only one of its topic
  with this number and this client key, and a fenced one was written under the current epoch.\<close>

theorem save_atomic:
  assumes "MessageSaveAtomic sha fail m db = (r, m', db')" "db_wf db"
  shows "(r \<noteq> None \<longrightarrow> db' = db) \<and>
    (r = None \<longrightarrow> db_messages db' = db_messages db @ [InitClientKey sha m] \<and>
       map_option tr_seqid (db_topics db' (m_Topic m)) = Some (m_SeqId m) \<and>
       (HasClusterFence m \<longrightarrow>
          map_option snd (db_fence db (ClusterFenceKey sha (m_ClusterId m))) = Some (m_ClusterEpoch m))) \<and>
    db_wf db'"
  using assms(1)
proof (cases rule: MessageSaveAtomic_cases)
  case (fail e)
  then show ?thesis using assms(2) by simp
next
  case (fenced row)
  then show ?thesis using assms(2) by (auto simp: db_wf_def sorted_wrt_snoc insert_allowed_def)
next
  case (plain row)
  then show ?thesis using assms(2)
    by (auto simp: db_wf_def sorted_wrt_snoc insert_allowed_def HasClusterFence_def HasAnyClusterFenceField_def)
qed

theorem save_atomic_witness:
  "\<exists>m' db'. MessageSaveAtomic id (\<lambda>_. None) (ex_msg ''a'' 5 1) ex_db = (None, m', db') \<and>
     db_messages db' = db_messages ex_db @ [InitClientKey id (ex_msg ''a'' 5 1)] \<and> db_wf db'"
proof -
  obtain m' db' where s: "MessageSaveAtomic id (\<lambda>_. None) (ex_msg ''a'' 5 1) ex_db = (None, m', db')"
    using ex_save by blast
  moreover have "db_wf ex_db" by (simp add: db_wf_def ex_db_def)
  ultimately show ?thesis using save_atomic [OF s] by blast
qed

section \<open>Levels that only grow\<close>

definition fence_level :: "string \<Rightarrow> 'c msg_db \<Rightarrow> int" where
  "fence_level key db = (case db_fence db key of None \<Rightarrow> 0 | Some (_, v) \<Rightarrow> max 0 v)"

definition topic_level :: "string \<Rightarrow> 'c msg_db \<Rightarrow> int option" where
  "topic_level name db = map_option tr_clusterepoch (db_topics db name)"

lemma MessageSaveAtomic_fence:
  "MessageSaveAtomic sha fail m db = (r, m', db') \<Longrightarrow> db_fence db' = db_fence db"
  by (erule MessageSaveAtomic_cases) auto

lemma ClusterFenceAdvance_frame:
  "ClusterFenceAdvance sha fail now cid e db = (r, db') \<Longrightarrow>
     db_topics db' = db_topics db \<and> db_messages db' = db_messages db"
  by (auto simp: ClusterFenceAdvance_def Let_def split: option.splits if_splits)

lemma ClusterFenceAdvance_level:
  "ClusterFenceAdvance sha fail now cid e db = (r, db') \<Longrightarrow> fence_level key db \<le> fence_level key db'"
  by (auto simp: ClusterFenceAdvance_def Let_def fence_level_def split: option.splits if_splits prod.splits)

lemma db_step_fence_level: "fence_level key db \<le> fence_level key (db_step sha op db)"
proof (cases op)
  case (OpSave fail m)
  obtain r m' db' where s: "MessageSaveAtomic sha fail m db = (r, m', db')" by (metis prod_cases3)
  show ?thesis using MessageSaveAtomic_fence [OF s] by (simp add: OpSave s fence_level_def)
next
  case (OpAdvance fail now cid e)
  then show ?thesis
    using ClusterFenceAdvance_level by (cases "ClusterFenceAdvance sha fail now cid e db") auto
qed

interpretation fence_run: monotone_steps "db_step sha" "fence_level key" for sha key
  by unfold_locales (rule db_step_fence_level)

text \<open>The owner of a topic's epoch: while the epoch stays the same, so does the owner.\<close>

definition owner_level :: "string \<Rightarrow> 'c msg_db \<Rightarrow> (int \<times> string) option" where
  "owner_level name db = map_option (\<lambda>row. (tr_clusterepoch row, tr_clusterowner row)) (db_topics db name)"

definition owned_from :: "int \<Rightarrow> string \<Rightarrow> (int \<times> string) option \<Rightarrow> bool" where
  "owned_from e owner l \<longleftrightarrow> (\<exists>e' o'. l = Some (e', o') \<and> (e < e' \<or> e = e' \<and> owner = o'))"

lemma db_step_owned:
  assumes "owned_from e owner (owner_level name db)"
  shows "owned_from e owner (owner_level name (db_step sha op db))"
proof (cases op)
  case (OpSave fail m)
  obtain r m' db' where s: "MessageSaveAtomic sha fail m db = (r, m', db')" by (metis prod_cases3)
  then show ?thesis using assms
    by (cases rule: MessageSaveAtomic_cases)
      (auto simp: OpSave owner_level_def owned_from_def s)
next
  case (OpAdvance fail now cid e')
  obtain r db' where s: "ClusterFenceAdvance sha fail now cid e' db = (r, db')" by fastforce
  show ?thesis using assms ClusterFenceAdvance_frame [OF s] by (simp add: OpAdvance s owner_level_def)
qed

lemma fold_owned:
  "owned_from e owner (owner_level name db) \<Longrightarrow>
   owned_from e owner (owner_level name (fold (db_step sha) ops db))"
  by (induction ops arbitrary: db) (auto intro: db_step_owned)

text \<open>C2. Once a node has advanced the fence to an epoch, no later write under an older epoch of
  that cluster succeeds, whatever operations of other nodes come in between.\<close>

theorem stale_writer_fenced:
  assumes "ClusterFenceAdvance sha fail now cid e db = (None, db1)"
    "m_ClusterId m = cid" "m_ClusterEpoch m < e" "HasClusterFence m"
  shows "\<exists>err m'. MessageSaveAtomic sha fail' m (fold (db_step sha) ops db1) =
    (Some err, m', fold (db_step sha) ops db1)"
proof -
  let ?db = "fold (db_step sha) ops db1" and ?k = "ClusterFenceKey sha cid"
  have "e \<le> fence_level ?k db1"
    using assms(1) by (auto simp: ClusterFenceAdvance_def Let_def fence_level_def
        split: option.splits if_splits)
  then have l: "e \<le> fence_level ?k ?db" by (rule fence_run.run_above)
  obtain r m' db' where s: "MessageSaveAtomic sha fail' m ?db = (r, m', db')" by (metis prod_cases3)
  then show ?thesis
  proof (cases rule: MessageSaveAtomic_cases)
    case (fail err)
    then show ?thesis using s by auto
  next
    case (fenced row)
    then show ?thesis using l assms(2-4) by (auto simp: fence_level_def HasClusterFence_def)
  next
    case (plain row)
    then show ?thesis using assms(4) by (auto simp: HasClusterFence_def HasAnyClusterFenceField_def)
  qed
qed

theorem stale_writer_fenced_witness:
  "\<exists>db1 err m'. ClusterFenceAdvance id (\<lambda>_. None) 2 ''c'' 7 ex_db = (None, db1) \<and>
     MessageSaveAtomic id (\<lambda>_. None) (ex_msg ''a'' 5 1) db1 = (Some err, m', db1)"
proof -
  obtain db1 where a: "ClusterFenceAdvance id (\<lambda>_. None) 2 ''c'' 7 ex_db = (None, db1)"
    using ex_advance by blast
  have "m_ClusterId (ex_msg ''a'' 5 1) = ''c''" "m_ClusterEpoch (ex_msg ''a'' 5 1) < 7"
    by (simp_all add: ex_msg_def)
  from stale_writer_fenced [OF a this ex_fence, of _ "[]"] show ?thesis using a by auto
qed

text \<open>C19. Within an epoch a topic has one writer: two fenced saves of messages of the same topic and
  epoch that both succeed, with any operations in between, were made by the same owner.\<close>

theorem one_owner_per_epoch:
  assumes "MessageSaveAtomic sha fail m db = (None, m', db1)" "HasClusterFence m"
    "MessageSaveAtomic sha fail2 m2 (fold (db_step sha) ops db1) = (None, m2', db2)" "HasClusterFence m2"
    "m_Topic m2 = m_Topic m" "m_ClusterEpoch m2 = m_ClusterEpoch m"
  shows "m_ClusterOwner m2 = m_ClusterOwner m"
proof -
  have any: "HasAnyClusterFenceField x" if "HasClusterFence x" for x :: "'a message"
    using that by (simp add: HasClusterFence_def HasAnyClusterFenceField_def)
  from assms(1) have "owned_from (m_ClusterEpoch m) (m_ClusterOwner m) (owner_level (m_Topic m) db1)"
  proof (cases rule: MessageSaveAtomic_cases)
    case (fenced row)
    then show ?thesis by (simp add: owner_level_def owned_from_def)
  qed (use any [OF assms(2)] in simp_all)
  then have o: "owned_from (m_ClusterEpoch m) (m_ClusterOwner m)
      (owner_level (m_Topic m) (fold (db_step sha) ops db1))"
    by (rule fold_owned)
  from assms(3) show ?thesis
  proof (cases rule: MessageSaveAtomic_cases)
    case (fenced row)
    have "tr_clusterepoch row < m_ClusterEpoch m \<or> tr_clusterowner row = m_ClusterOwner m2"
      using fenced(5) assms(6) by auto
    moreover have "m_ClusterEpoch m < tr_clusterepoch row \<or>
        m_ClusterEpoch m = tr_clusterepoch row \<and> m_ClusterOwner m = tr_clusterowner row"
      using o fenced(4) assms(5) by (simp add: owner_level_def owned_from_def)
    moreover have "tr_clusterepoch row \<le> m_ClusterEpoch m" using fenced(5) assms(6) by auto
    ultimately show ?thesis by auto
  qed (use any [OF assms(4)] in simp_all)
qed

theorem one_owner_per_epoch_witness:
  "\<exists>m' db1 m2 db2. MessageSaveAtomic id (\<lambda>_. None) (ex_msg ''a'' 5 1) ex_db = (None, m', db1) \<and>
     MessageSaveAtomic id (\<lambda>_. None) (ex_msg ''a'' 5 2) db1 = (None, m2, db2) \<and>
     m_ClusterOwner (ex_msg ''a'' 5 2) = m_ClusterOwner (ex_msg ''a'' 5 1)"
proof -
  obtain m' db1 m2 db2 where s: "MessageSaveAtomic id (\<lambda>_. None) (ex_msg ''a'' 5 1) ex_db = (None, m', db1)"
      "MessageSaveAtomic id (\<lambda>_. None) (ex_msg ''a'' 5 2) (fold (db_step id) [] db1) = (None, m2, db2)"
    using ex_save by auto
  have "m_Topic (ex_msg ''a'' 5 2) = m_Topic (ex_msg ''a'' 5 1)"
      "m_ClusterEpoch (ex_msg ''a'' 5 2) = m_ClusterEpoch (ex_msg ''a'' 5 1)"
    by (simp_all add: ex_msg_def)
  from one_owner_per_epoch [OF s(1) ex_fence s(2) ex_fence this] s show ?thesis by auto
qed

section \<open>Tokens\<close>

lemma ClusterFenceAdvance_ok:
  "ClusterFenceAdvance sha fail now cid e db = (None, db') \<Longrightarrow>
     0 < e \<and> cid \<noteq> [] \<and> map_option snd (db_fence db' (ClusterFenceKey sha cid)) = Some e"
  by (auto simp: ClusterFenceAdvance_def Let_def split: option.splits if_splits)

text \<open>A view is applied only after the shared fence reached its epoch; on failure the ring and
  epoch of the node stay as they were. After it, a write token is given only to the owner of the
  topic, a serving member of the view, and carries the epoch of the fence.\<close>

theorem view_and_token:
  assumes "applyControlPlaneView sha fail now ready epoch members c db = (r, c', db')"
  shows "(r \<noteq> None \<longrightarrow> c' = c) \<and>
    (r = None \<longrightarrow>
       map_option snd (db_fence db' (ClusterFenceKey sha (mn_clusterID c))) = Some epoch \<and>
       (\<forall>topic cid e owner. members \<noteq> [] \<and> writeFenceToken (Some c') topic = ((cid, e, owner), None) \<longrightarrow>
          (cid, e, owner) = ([], 0, []) \<and> mn_controlPlaneReady c = None \<or>
          cid = mn_clusterID c \<and> e = epoch \<and> owner = mn_thisNodeName c \<and> owner \<in> set members))"
proof (cases r)
  case None
  then have adv: "ClusterFenceAdvance sha fail now (mn_clusterID c) epoch db = (None, db')"
      and c': "c' = c\<lparr>mn_ring := fst (rehash [] (mn_thisNodeName c) (Some members)), mn_viewEpoch := epoch\<rparr>"
    using assms by (auto simp: applyControlPlaneView_def split: if_splits prod.splits option.splits)
  have "mn_thisNodeName c \<in> set members"
    if "members \<noteq> []" "topicOwner (fst (rehash [] (mn_thisNodeName c) (Some members))) topic = mn_thisNodeName c"
    for topic
    using ring_Get_member [OF that(1), of clusterHashReplicas None topic] that(2)
    by (simp add: topicOwner_def rehash_def clusterHashReplicas_def)
  then show ?thesis using ClusterFenceAdvance_ok [OF adv] None
    by (auto simp: writeFenceToken_def c' Let_def split: if_splits option.splits bool.splits)
next
  case (Some e)
  then show ?thesis
    using assms by (auto simp: applyControlPlaneView_def split: if_splits prod.splits option.splits)
qed

theorem view_and_token_witness:
  "\<exists>c' db'. applyControlPlaneView id (\<lambda>_. None) 2 True 7 [''a'', ''b'']
       \<lparr>mn_thisNodeName = ''a'', mn_clusterID = ''c'', mn_viewEpoch = 0, mn_ring = ring_New 1 None,
        mn_allowsWrites = None, mn_controlPlaneReady = Some True\<rparr> ex_db = (None, c', db') \<and>
     map_option snd (db_fence db' (ClusterFenceKey id ''c'')) = Some 7"
proof -
  let ?c = "\<lparr>mn_thisNodeName = ''a'', mn_clusterID = ''c'', mn_viewEpoch = 0, mn_ring = ring_New 1 None,
        mn_allowsWrites = None, mn_controlPlaneReady = Some True\<rparr>"
  obtain db1 where "ClusterFenceAdvance id (\<lambda>_. None) 2 ''c'' 7 ex_db = (None, db1)"
    using ex_advance by blast
  then obtain c' where a: "applyControlPlaneView id (\<lambda>_. None) 2 True 7 [''a'', ''b''] ?c ex_db = (None, c', db1)"
    by (simp add: applyControlPlaneView_def)
  from view_and_token [OF this] show ?thesis using a by auto
qed

end
