(* ===== verification/Topology.thy ===== *)
theory Topology
  imports Prelude "HOL-Library.List_Lexorder" "HOL-Library.Char_ord"
begin

text \<open>
  The members and the committed topology of a cluster
  (\<^verbatim>\<open>internal/server/cluster_control_plane_topology.go\<close>). Decoding a member from the JSON value
  of its key is the argument \<open>json\<close>; the names and addresses of the configuration are the map
  \<open>expected\<close>; \<open>now\<close> is the time.
\<close>

section \<open>Data\<close>

record clusterMember =
  cm_Name :: string
  cm_Address :: string
  cm_InstanceID :: int
  cm_ProtocolVersion :: int
  cm_StartedAt :: go_time
  cm_Draining :: bool
  cm_Active :: bool

record clusterTopology =
  ct_ExpectedReplicas :: int
  ct_Members :: "string list"
  ct_UpdatedAt :: go_time

record clusterView =
  cv_Epoch :: int
  cv_ExpectedReplicas :: int
  cv_Members :: "clusterMember list"

record etcd_KeyValue =
  kv_Value :: string
  kv_ModRevision :: int

datatype topology_error =
    BadReplicas | MemberCount | UnknownMember string | DuplicateMember string
  | BadJSON | BadAddress string

definition serving :: "clusterMember \<Rightarrow> bool" where
  "serving m = (cm_Active m \<and> \<not> cm_Draining m)"

definition memberNames :: "clusterView \<Rightarrow> string list" where
  "memberNames view = map cm_Name (filter serving (cv_Members view))"

definition hasMember :: "clusterView \<Rightarrow> string \<Rightarrow> int \<Rightarrow> bool" where
  "hasMember view name instanceID =
     list_ex (\<lambda>m. cm_Name m = name \<and> cm_InstanceID m = instanceID) (cv_Members view)"

definition hasServingMember :: "clusterView \<Rightarrow> string \<Rightarrow> int \<Rightarrow> bool" where
  "hasServingMember view name instanceID =
     list_ex (\<lambda>m. cm_Name m = name \<and> cm_InstanceID m = instanceID \<and> cm_Active m \<and> \<not> cm_Draining m)
       (cv_Members view)"

definition servingMemberCount :: "clusterView \<Rightarrow> int" where
  "servingMemberCount view =
     foldl (\<lambda>count m. if cm_Active m \<and> \<not> cm_Draining m then count + 1 else count) 0 (cv_Members view)"

definition maxMemberRevision :: "etcd_KeyValue list \<Rightarrow> int" where
  "maxMemberRevision kvs =
     foldl (\<lambda>epoch kv. if kv_ModRevision kv > epoch then kv_ModRevision kv else epoch) 0 kvs"

section \<open>Validation\<close>

fun topology_loop :: "(string \<rightharpoonup> string) \<Rightarrow> string list \<Rightarrow> string list \<Rightarrow> topology_error + string list" where
  "topology_loop expected seen [] = Inr seen"
| "topology_loop expected seen (rawName # names) =
     (let name = TrimSpace rawName in
      if expected name = None then Inl (UnknownMember name)
      else if name \<in> set seen then Inl (DuplicateMember name)
      else topology_loop expected (seen @ [name]) names)"

definition normalizeClusterTopology ::
  "go_time \<Rightarrow> clusterTopology \<Rightarrow> (string \<rightharpoonup> string) \<Rightarrow> topology_error + clusterTopology" where
  "normalizeClusterTopology now topology expected =
     (if ct_ExpectedReplicas topology < 3 \<or> ct_ExpectedReplicas topology mod 2 = 0 then Inl BadReplicas
      else if int (length (ct_Members topology)) \<noteq> ct_ExpectedReplicas topology then Inl MemberCount
      else
        case topology_loop expected [] (ct_Members topology) of
          Inl e \<Rightarrow> Inl e
        | Inr members \<Rightarrow>
            Inr \<lparr>ct_ExpectedReplicas = ct_ExpectedReplicas topology, ct_Members = sort members,
                 ct_UpdatedAt = (if ct_UpdatedAt topology = 0 then now else ct_UpdatedAt topology)\<rparr>)"

definition decodeClusterTopology ::
  "(string \<Rightarrow> clusterTopology option) \<Rightarrow> go_time \<Rightarrow> string \<Rightarrow> (string \<rightharpoonup> string) \<Rightarrow>
   topology_error + clusterTopology" where
  "decodeClusterTopology json now payload expected =
     (case json payload of
        None \<Rightarrow> Inl BadJSON
      | Some topology \<Rightarrow> normalizeClusterTopology now topology expected)"

text \<open>The checks that \<open>buildClusterView\<close> and \<open>decodeRegisteredMembers\<close> make of each key; \<open>seen\<close>
  has the members accepted so far.\<close>

fun members_loop ::
  "(string \<Rightarrow> clusterMember option) \<Rightarrow> (string \<rightharpoonup> string) \<Rightarrow> clusterMember list \<Rightarrow> etcd_KeyValue list \<Rightarrow>
   topology_error + clusterMember list" where
  "members_loop json expected seen [] = Inr seen"
| "members_loop json expected seen (kv # kvs) =
     (case json (kv_Value kv) of
        None \<Rightarrow> Inl BadJSON
      | Some member \<Rightarrow>
          (case expected (cm_Name member) of
             None \<Rightarrow> Inl (UnknownMember (cm_Name member))
           | Some expectedAddress \<Rightarrow>
               if cm_Address member \<noteq> expectedAddress then Inl (BadAddress (cm_Name member))
               else if cm_Name member \<in> cm_Name ` set seen then Inl (DuplicateMember (cm_Name member))
               else members_loop json expected (seen @ [member]) kvs))"

text \<open>The names are distinct, so sorting by name has one result.\<close>

definition buildClusterView ::
  "(string \<Rightarrow> clusterMember option) \<Rightarrow> go_time \<Rightarrow> int \<Rightarrow> etcd_KeyValue list \<Rightarrow> (string \<rightharpoonup> string) \<Rightarrow>
   clusterTopology \<Rightarrow> topology_error + clusterView" where
  "buildClusterView json now epoch kvs expected topology0 =
     (case normalizeClusterTopology now topology0 expected of
        Inl e \<Rightarrow> Inl e
      | Inr topology \<Rightarrow>
          (case members_loop json expected [] kvs of
             Inl e \<Rightarrow> Inl e
           | Inr members \<Rightarrow>
               Inr \<lparr>cv_Epoch = epoch, cv_ExpectedReplicas = ct_ExpectedReplicas topology,
                 cv_Members = sort_key cm_Name
                   (map (\<lambda>m. m\<lparr>cm_Active := (cm_Name m \<in> set (ct_Members topology))\<rparr>) members)\<rparr>))"

definition decodeRegisteredMembers ::
  "(string \<Rightarrow> clusterMember option) \<Rightarrow> etcd_KeyValue list \<Rightarrow> (string \<rightharpoonup> string) \<Rightarrow>
   topology_error + (string \<rightharpoonup> clusterMember)" where
  "decodeRegisteredMembers json kvs expected =
     (case members_loop json expected [] kvs of
        Inl e \<Rightarrow> Inl e
      | Inr members \<Rightarrow> Inr (map_of (map (\<lambda>m. (cm_Name m, m)) members)))"

definition isStringSubset :: "string list \<Rightarrow> string list \<Rightarrow> bool" where
  "isStringSubset sub super = list_all (\<lambda>v. v \<in> set super) sub"

definition equalStringSlices :: "string list \<Rightarrow> string list \<Rightarrow> bool" where
  "equalStringSlices left right =
     (length left = length right \<and> list_all (\<lambda>i. left ! i = right ! i) [0..<length left])"

section \<open>Normal topologies\<close>

definition trimmed :: "string \<Rightarrow> bool" where
  "trimmed s \<longleftrightarrow> TrimSpace s = s"

lemma trimmed_TrimSpace [simp]: "trimmed (TrimSpace s)"
  by (simp add: trimmed_def)

definition topology_ok :: "(string \<rightharpoonup> string) \<Rightarrow> clusterTopology \<Rightarrow> bool" where
  "topology_ok expected t \<longleftrightarrow>
     ct_ExpectedReplicas t \<ge> 3 \<and> odd (ct_ExpectedReplicas t) \<and>
     int (length (ct_Members t)) = ct_ExpectedReplicas t \<and> distinct (ct_Members t) \<and>
     sorted (ct_Members t) \<and> set (ct_Members t) \<subseteq> dom expected \<and>
     (\<forall>n \<in> set (ct_Members t). trimmed n)"

lemma topology_loop_ok:
  assumes "topology_loop expected seen names = Inr out" "distinct seen" "set seen \<subseteq> dom expected"
    "\<forall>n \<in> set seen. trimmed n"
  shows "out = seen @ map TrimSpace names \<and> distinct out \<and> set out \<subseteq> dom expected \<and>
    (\<forall>n \<in> set out. trimmed n)"
  using assms
proof (induction names arbitrary: seen)
  case Nil
  then show ?case by simp
next
  case (Cons r names)
  let ?n = "TrimSpace r"
  have c: "expected ?n \<noteq> None" "?n \<notin> set seen" "topology_loop expected (seen @ [?n]) names = Inr out"
    using Cons.prems(1) by (auto simp: Let_def split: if_splits)
  have "distinct (seen @ [?n])" "set (seen @ [?n]) \<subseteq> dom expected"
    using Cons.prems(2,3) c by auto
  moreover have "\<forall>n \<in> set (seen @ [?n]). trimmed n" using Cons.prems(4) by simp
  ultimately have ih: "out = (seen @ [?n]) @ map TrimSpace names \<and> distinct out \<and>
      set out \<subseteq> dom expected \<and> (\<forall>n \<in> set out. trimmed n)"
    by (rule Cons.IH [OF c(3)])
  have "(seen @ [?n]) @ map TrimSpace names = seen @ map TrimSpace (r # names)" by simp
  with ih show ?case by (elim conjE) (intro conjI; assumption?; erule trans; assumption)
qed

lemma topology_loop_id:
  "distinct (seen @ names) \<Longrightarrow> set names \<subseteq> dom expected \<Longrightarrow> \<forall>n \<in> set names. trimmed n \<Longrightarrow>
   topology_loop expected seen names = Inr (seen @ names)"
  by (induction names arbitrary: seen) (auto simp: Let_def trimmed_def)

lemma normalize_ok:
  assumes "normalizeClusterTopology now t expected = Inr t'"
  shows "topology_ok expected t'" "set (ct_Members t') = TrimSpace ` set (ct_Members t)"
    "ct_ExpectedReplicas t' = ct_ExpectedReplicas t"
proof -
  obtain ms where c: "\<not> ct_ExpectedReplicas t < 3" "ct_ExpectedReplicas t mod 2 \<noteq> 0"
      "int (length (ct_Members t)) = ct_ExpectedReplicas t"
      "topology_loop expected [] (ct_Members t) = Inr ms"
      "t' = \<lparr>ct_ExpectedReplicas = ct_ExpectedReplicas t, ct_Members = sort ms,
         ct_UpdatedAt = (if ct_UpdatedAt t = 0 then now else ct_UpdatedAt t)\<rparr>"
    using assms by (auto simp: normalizeClusterTopology_def split: if_splits sum.splits)
  have "ms = [] @ map TrimSpace (ct_Members t) \<and> distinct ms \<and> set ms \<subseteq> dom expected \<and>
      (\<forall>n \<in> set ms. trimmed n)"
    by (rule topology_loop_ok [OF c(4)]) simp_all
  then have l: "ms = map TrimSpace (ct_Members t)" "distinct ms" "set ms \<subseteq> dom expected"
      "\<forall>n \<in> set ms. trimmed n"
    unfolding append_Nil by blast+
  have "odd (ct_ExpectedReplicas t)" using c(2) by presburger
  moreover have "length ms = length (ct_Members t)" by (simp add: l(1))
  ultimately show "topology_ok expected t'"
    using c(1,3,5) l(2-4) unfolding topology_ok_def by simp
  show "set (ct_Members t') = TrimSpace ` set (ct_Members t)"
    unfolding c(5) clusterTopology.select_convs set_sort by (simp only: l(1) set_map)
  show "ct_ExpectedReplicas t' = ct_ExpectedReplicas t" by (simp add: c(5))
qed

text \<open>A topology that passes the check has an odd number of at least three replicas, exactly that
  many distinct members, all configured, in order; checking it again changes nothing.\<close>

theorem topology_normalized:
  assumes "normalizeClusterTopology now t expected = Inr t'"
  shows "topology_ok expected t' \<and> set (ct_Members t') = TrimSpace ` set (ct_Members t) \<and>
    (ct_UpdatedAt t' \<noteq> 0 \<longrightarrow> normalizeClusterTopology later t' expected = Inr t')"
proof -
  note ok = normalize_ok [OF assms]
  have "topology_loop expected [] (ct_Members t') = Inr (ct_Members t')"
    using ok(1) topology_loop_id [of "[]" "ct_Members t'" expected] by (auto simp: topology_ok_def)
  then have "ct_UpdatedAt t' \<noteq> 0 \<longrightarrow> normalizeClusterTopology later t' expected = Inr t'"
    using ok(1) by (auto simp: normalizeClusterTopology_def topology_ok_def odd_iff_mod_2_eq_one sorted_sort_id)
  then show ?thesis using ok by blast
qed

theorem topology_normalized_witness:
  "topology_ok [''a'' \<mapsto> ''h1'', ''b'' \<mapsto> ''h2'', ''c'' \<mapsto> ''h3'']
     \<lparr>ct_ExpectedReplicas = 3, ct_Members = [''a'', ''b'', ''c''], ct_UpdatedAt = 5\<rparr>"
proof -
  have "normalizeClusterTopology 5 \<lparr>ct_ExpectedReplicas = 3, ct_Members = ['' c'', ''a'', ''b ''], ct_UpdatedAt = 0\<rparr>
      [''a'' \<mapsto> ''h1'', ''b'' \<mapsto> ''h2'', ''c'' \<mapsto> ''h3''] =
    Inr \<lparr>ct_ExpectedReplicas = 3, ct_Members = [''a'', ''b'', ''c''], ct_UpdatedAt = 5\<rparr>"
    by (simp add: normalizeClusterTopology_def TrimSpace_def is_space_def Let_def less_char_def)
  from topology_normalized [OF this] show ?thesis by blast
qed

section \<open>Views\<close>

lemma members_loop_ok:
  assumes "members_loop json expected seen kvs = Inr out" "distinct (map cm_Name seen)"
    "\<forall>m \<in> set seen. expected (cm_Name m) = Some (cm_Address m)"
  shows "distinct (map cm_Name out) \<and> (\<forall>m \<in> set out. expected (cm_Name m) = Some (cm_Address m)) \<and>
    length out = length seen + length kvs"
  using assms
  by (induction json expected seen kvs rule: members_loop.induct) (auto split: option.splits if_splits)

lemma servingMemberCount_filter: "servingMemberCount v = int (length (filter serving (cv_Members v)))"
proof -
  have "foldl (\<lambda>count m. if cm_Active m \<and> \<not> cm_Draining m then count + 1 else count) n ms =
      n + int (length (filter serving ms))" for n ms
    by (induction ms arbitrary: n) (auto simp: serving_def)
  then show ?thesis by (simp add: servingMemberCount_def)
qed

text \<open>In a view every member is configured under its address and appears once; the serving
  members, on which the hash ring is built, are distinct, sorted, members of the topology, and
  not more than its replicas.\<close>

theorem view_members:
  assumes "buildClusterView json now epoch kvs expected t = Inr v"
  shows "distinct (map cm_Name (cv_Members v)) \<and>
    (\<forall>m \<in> set (cv_Members v). expected (cm_Name m) = Some (cm_Address m)) \<and>
    sorted (memberNames v) \<and> distinct (memberNames v) \<and>
    set (memberNames v) \<subseteq> TrimSpace ` set (ct_Members t) \<and>
    servingMemberCount v \<le> cv_ExpectedReplicas v"
proof -
  obtain t' ms where n: "normalizeClusterTopology now t expected = Inr t'"
      "members_loop json expected [] kvs = Inr ms"
      "v = \<lparr>cv_Epoch = epoch, cv_ExpectedReplicas = ct_ExpectedReplicas t',
         cv_Members = sort_key cm_Name (map (\<lambda>m. m\<lparr>cm_Active := (cm_Name m \<in> set (ct_Members t'))\<rparr>) ms)\<rparr>"
    using assms by (auto simp: buildClusterView_def split: sum.splits)
  note ok = normalize_ok [OF n(1)] and mo = members_loop_ok [OF n(2)]
  let ?ms = "map (\<lambda>m. m\<lparr>cm_Active := (cm_Name m \<in> set (ct_Members t'))\<rparr>) ms"
  have names: "map cm_Name ?ms = map cm_Name ms" by simp
  have "distinct (map cm_Name ?ms)" unfolding names using mo by simp
  then have d: "distinct (map cm_Name (cv_Members v))"
    by (simp only: n(3) clusterView.select_convs distinct_map distinct_sort set_sort)
  have s: "sorted (map cm_Name (cv_Members v))" using n(3) by simp
  have sub: "set (memberNames v) \<subseteq> set (ct_Members t')"
    by (auto simp: memberNames_def n(3) serving_def)
  have "distinct (memberNames v)" "sorted (memberNames v)"
    using d s distinct_map_filter sorted_filter unfolding memberNames_def by blast+
  moreover from this(1) have "servingMemberCount v \<le> cv_ExpectedReplicas v"
  proof -
    have "length (memberNames v) = card (set (memberNames v))"
      using \<open>distinct (memberNames v)\<close> by (simp add: distinct_card)
    also have "\<dots> \<le> card (set (ct_Members t'))" using sub by (intro card_mono) auto
    also have "\<dots> = length (ct_Members t')" using ok(1) by (simp add: topology_ok_def distinct_card)
    finally show ?thesis
      using ok(1) n(3) by (simp add: servingMemberCount_filter memberNames_def topology_ok_def)
  qed
  moreover have "\<forall>m \<in> set (cv_Members v). expected (cm_Name m) = Some (cm_Address m)"
    using mo n(3) by auto
  ultimately show ?thesis using d sub ok(2) by blast
qed

theorem view_members_witness:
  "\<exists>v. buildClusterView (\<lambda>s. Some \<lparr>cm_Name = s, cm_Address = ''h'', cm_InstanceID = 1, cm_ProtocolVersion = 1,
       cm_StartedAt = 0, cm_Draining = False, cm_Active = False\<rparr>) 5 9
       [\<lparr>kv_Value = ''b'', kv_ModRevision = 9\<rparr>, \<lparr>kv_Value = ''a'', kv_ModRevision = 8\<rparr>]
       [''a'' \<mapsto> ''h'', ''b'' \<mapsto> ''h'', ''c'' \<mapsto> ''h'']
       \<lparr>ct_ExpectedReplicas = 3, ct_Members = [''a'', ''b'', ''c''], ct_UpdatedAt = 1\<rparr> = Inr v \<and>
     sorted (memberNames v) \<and> servingMemberCount v \<le> cv_ExpectedReplicas v"
proof -
  obtain v where v: "buildClusterView (\<lambda>s. Some \<lparr>cm_Name = s, cm_Address = ''h'', cm_InstanceID = 1,
       cm_ProtocolVersion = 1, cm_StartedAt = 0, cm_Draining = False, cm_Active = False\<rparr>) 5 9
       [\<lparr>kv_Value = ''b'', kv_ModRevision = 9\<rparr>, \<lparr>kv_Value = ''a'', kv_ModRevision = 8\<rparr>]
       [''a'' \<mapsto> ''h'', ''b'' \<mapsto> ''h'', ''c'' \<mapsto> ''h'']
       \<lparr>ct_ExpectedReplicas = 3, ct_Members = [''a'', ''b'', ''c''], ct_UpdatedAt = 1\<rparr> = Inr v"
    by (simp add: buildClusterView_def normalizeClusterTopology_def TrimSpace_def is_space_def Let_def)
  from view_members [OF this] show ?thesis using v by blast
qed

end
