(* ===== verification/Dedupe.thy ===== *)
theory Dedupe
  imports Prelude "HOL-Library.AList"
begin

text \<open>
  The window that executes a cluster request at most once
  (\<^verbatim>\<open>internal/server/cluster_transport_dedupe.go\<close>).

  \<open>Execute\<close> holds the lock twice: to look the request up and reserve an entry, and to record the
  result of the dispatched function. These two critical sections are \<open>dedupe_begin\<close> and
  \<open>dedupe_complete\<close>; between them other calls may run. The entries are an association list with
  distinct keys. A Go map is walked in an arbitrary order, which is the argument \<open>order\<close>. The
  digest \<open>sha\<close> of a payload is an argument too.
\<close>

section \<open>The cache\<close>

record dedupe_entry =
  de_kind :: int
  de_digest :: string
  de_response :: string
  de_errorText :: string
  de_completed :: bool
  de_expiresAt :: go_time

record dedupe_cache =
  dc_entries :: "(string \<times> dedupe_entry) list"
  dc_capacity :: int
  dc_ttl :: int

definition newClusterDedupeCache :: "int \<Rightarrow> int \<Rightarrow> dedupe_cache" where
  "newClusterDedupeCache capacity ttl = \<lparr>dc_entries = [], dc_capacity = capacity, dc_ttl = ttl\<rparr>"

definition entry_expired :: "go_time \<Rightarrow> dedupe_entry \<Rightarrow> bool" where
  "entry_expired now e = (de_completed e \<and> \<not> de_expiresAt e > now)"

fun evict_loop :: "go_time \<Rightarrow> string list \<Rightarrow> (string \<times> dedupe_entry) list \<Rightarrow> (string \<times> dedupe_entry) list option" where
  "evict_loop now [] entries = None"
| "evict_loop now (k # order) entries =
     (case map_of entries k of
        None \<Rightarrow> evict_loop now order entries
      | Some e \<Rightarrow>
          if \<not> de_completed e then evict_loop now order entries
          else if \<not> de_expiresAt e > now then Some (AList.delete k entries)
          else evict_loop now order entries)"

definition evictOneCompletedLocked :: "go_time \<Rightarrow> string list \<Rightarrow> dedupe_cache \<Rightarrow> bool \<times> dedupe_cache" where
  "evictOneCompletedLocked now order cache =
     (case evict_loop now order (dc_entries cache) of
        None \<Rightarrow> (False, cache)
      | Some entries \<Rightarrow> (True, cache\<lparr>dc_entries := entries\<rparr>))"

text \<open>The error of a replayed business failure carries the recorded text behind a fixed prefix.\<close>

datatype dedupe_error = WindowFull | RequestIDCollision | Replayed string

definition cloneClusterDedupeResult :: "dedupe_entry \<Rightarrow> string \<times> dedupe_error option" where
  "cloneClusterDedupeResult e =
     (de_response e, if de_errorText e \<noteq> [] then Some (Replayed (de_errorText e)) else None)"

section \<open>The two critical sections\<close>

datatype dedupe_result = Refused dedupe_error | Hit | Dispatch

definition dedupe_reserve ::
  "go_time \<Rightarrow> string list \<Rightarrow> string \<Rightarrow> int \<Rightarrow> string \<Rightarrow> dedupe_cache \<Rightarrow> dedupe_result \<times> dedupe_cache" where
  "dedupe_reserve now order k kind digest cache =
     (let full = (int (length (dc_entries cache)) \<ge> dc_capacity cache);
          (evicted, cache') = (if full then evictOneCompletedLocked now order cache else (False, cache))
      in if full \<and> \<not> evicted then (Refused WindowFull, cache)
         else (Dispatch, cache'\<lparr>dc_entries := AList.update k
           \<lparr>de_kind = kind, de_digest = digest, de_response = [], de_errorText = [],
            de_completed = False, de_expiresAt = 0\<rparr> (dc_entries cache')\<rparr>))"

definition dedupe_begin ::
  "(string \<Rightarrow> string) \<Rightarrow> go_time \<Rightarrow> string list \<Rightarrow> string \<Rightarrow> int \<Rightarrow> string \<Rightarrow> dedupe_cache \<Rightarrow>
   dedupe_result \<times> dedupe_cache" where
  "dedupe_begin sha now order k kind payload cache =
     (let digest = sha payload in
      case map_of (dc_entries cache) k of
        None \<Rightarrow> dedupe_reserve now order k kind digest cache
      | Some e \<Rightarrow>
          if de_kind e \<noteq> kind \<or> de_digest e \<noteq> digest then (Refused RequestIDCollision, cache)
          else if de_completed e \<and> \<not> de_expiresAt e > now
          then dedupe_reserve now order k kind digest
                 (cache\<lparr>dc_entries := AList.delete k (dc_entries cache)\<rparr>)
          else (Hit, cache))"

text \<open>A caller that hits an entry waits until it is completed and then gets its result.\<close>

definition dedupe_complete ::
  "go_time \<Rightarrow> string \<Rightarrow> string \<Rightarrow> string option \<Rightarrow> dedupe_cache \<Rightarrow> dedupe_cache" where
  "dedupe_complete now k response err cache =
     (case map_of (dc_entries cache) k of
        None \<Rightarrow> cache
      | Some e \<Rightarrow>
          cache\<lparr>dc_entries := AList.update k
            (e\<lparr>de_response := response,
               de_errorText := (case err of None \<Rightarrow> de_errorText e | Some text \<Rightarrow> text),
               de_completed := True, de_expiresAt := now + dc_ttl cache\<rparr>) (dc_entries cache)\<rparr>)"

definition dedupe_wait :: "string \<Rightarrow> dedupe_cache \<Rightarrow> (string \<times> dedupe_error option) option" where
  "dedupe_wait k cache =
     (case map_of (dc_entries cache) k of
        Some e \<Rightarrow> if de_completed e then Some (cloneClusterDedupeResult e) else None
      | None \<Rightarrow> None)"

datatype dedupe_event =
    EvBegin go_time "string list" string int string
  | EvComplete go_time string string "string option"

fun dedupe_step :: "(string \<Rightarrow> string) \<Rightarrow> dedupe_event \<Rightarrow> dedupe_cache \<Rightarrow> dedupe_cache" where
  "dedupe_step sha (EvBegin now order k kind payload) c = snd (dedupe_begin sha now order k kind payload c)"
| "dedupe_step sha (EvComplete now k response err) c = dedupe_complete now k response err c"

fun ev_time :: "dedupe_event \<Rightarrow> go_time" where
  "ev_time (EvBegin now order k kind payload) = now"
| "ev_time (EvComplete now k response err) = now"

section \<open>Size of the window\<close>

definition dedupe_wf :: "dedupe_cache \<Rightarrow> bool" where
  "dedupe_wf c \<longleftrightarrow> distinct (map fst (dc_entries c)) \<and> int (length (dc_entries c)) \<le> max 0 (dc_capacity c)"

lemma length_delete:
  "distinct (map fst xs) \<Longrightarrow> map_of xs k \<noteq> None \<Longrightarrow> length (AList.delete k xs) + 1 = length xs"
proof (induction xs)
  case (Cons x xs)
  show ?case
  proof (cases "fst x = k")
    case True
    then have "map_of xs k = None" using Cons.prems by (auto simp: map_of_eq_None_iff)
    then have "AList.delete k xs = xs" by (simp add: AList.delete_id map_of_eq_None_iff)
    then show ?thesis using True by (cases x) (simp add: AList.delete_eq)
  next
    case False
    then show ?thesis using Cons by (cases x) (simp add: AList.delete_eq split: if_splits)
  qed
qed simp

lemma length_update: "length (AList.update k v xs) = (if map_of xs k = None then length xs + 1 else length xs)"
  by (induction xs) auto

lemma evict_loop_Some:
  assumes "evict_loop now order entries = Some entries'"
  obtains k e where "map_of entries k = Some e" "entry_expired now e" "entries' = AList.delete k entries"
  using assms by (induction now order entries rule: evict_loop.induct)
    (auto simp: entry_expired_def split: option.splits if_splits)

lemma evictOne_cases:
  assumes "evictOneCompletedLocked now order c = (b, c')"
  obtains (no) "\<not> b" "c' = c"
  | (yes) k e where b "map_of (dc_entries c) k = Some e" "entry_expired now e"
      "c' = c\<lparr>dc_entries := AList.delete k (dc_entries c)\<rparr>"
proof (cases "evict_loop now order (dc_entries c)")
  case None
  then show thesis using assms that(1) by (simp add: evictOneCompletedLocked_def)
next
  case (Some es)
  then obtain k e where "map_of (dc_entries c) k = Some e" "entry_expired now e"
      "es = AList.delete k (dc_entries c)" by (rule evict_loop_Some)
  then show thesis using Some assms that(2) [of k e] by (simp add: evictOneCompletedLocked_def)
qed

lemma dedupe_reserve_cases:
  assumes "dedupe_reserve now order k kind digest c = (r, c')"
  obtains (full) "r = Refused WindowFull" "c' = c"
  | (room) e where "r = Dispatch" "\<not> de_completed e" "int (length (dc_entries c)) < dc_capacity c"
      "c' = c\<lparr>dc_entries := AList.update k e (dc_entries c)\<rparr>"
  | (evict) e k' e' where "r = Dispatch" "\<not> de_completed e" "map_of (dc_entries c) k' = Some e'"
      "entry_expired now e'" "c' = c\<lparr>dc_entries := AList.update k e (AList.delete k' (dc_entries c))\<rparr>"
proof (cases "int (length (dc_entries c)) \<ge> dc_capacity c")
  case False
  then show thesis using assms
    by (intro that(2) [of "\<lparr>de_kind = kind, de_digest = digest, de_response = [], de_errorText = [],
          de_completed = False, de_expiresAt = 0\<rparr>"]) (auto simp: dedupe_reserve_def Let_def)
next
  case True
  obtain b c1 where ev: "evictOneCompletedLocked now order c = (b, c1)" by fastforce
  then show thesis
  proof (cases rule: evictOne_cases)
    case no
    then show thesis using assms True ev that(1) by (auto simp: dedupe_reserve_def Let_def)
  next
    case (yes k' e')
    then show thesis using assms True ev
      by (intro that(3) [of "\<lparr>de_kind = kind, de_digest = digest, de_response = [], de_errorText = [],
          de_completed = False, de_expiresAt = 0\<rparr>", OF _ _ yes(2,3)]) (auto simp: dedupe_reserve_def Let_def)
  qed
qed

lemma dedupe_reserve_wf:
  assumes "dedupe_reserve now order k kind digest c = (r, c')" "dedupe_wf c"
  shows "dedupe_wf c'"
  using assms(1)
proof (cases rule: dedupe_reserve_cases)
  case (evict e k' e')
  have "length (AList.delete k' (dc_entries c)) + 1 = length (dc_entries c)"
    using length_delete [of "dc_entries c" k'] evict(3) assms(2) unfolding dedupe_wf_def by simp
  then show ?thesis using evict assms(2)
    by (auto simp: dedupe_wf_def length_update distinct_update distinct_delete)
qed (use assms(2) in \<open>auto simp: dedupe_wf_def length_update distinct_update\<close>)

lemma dedupe_wf_delete: "dedupe_wf c \<Longrightarrow> dedupe_wf (c\<lparr>dc_entries := AList.delete k (dc_entries c)\<rparr>)"
  using length_delete_le [of k "dc_entries c"] by (auto simp: dedupe_wf_def distinct_delete)

lemma dedupe_begin_wf:
  "dedupe_wf c \<Longrightarrow> dedupe_wf (snd (dedupe_begin sha now order k kind payload c))"
  using dedupe_reserve_wf dedupe_wf_delete
  by (auto simp: dedupe_begin_def Let_def split: option.splits) (metis prod.collapse)+

lemma dedupe_complete_wf: "dedupe_wf c \<Longrightarrow> dedupe_wf (dedupe_complete now k response err c)"
  by (auto simp: dedupe_complete_def dedupe_wf_def length_update distinct_update split: option.splits)

lemma dedupe_step_wf: "dedupe_wf c \<Longrightarrow> dedupe_wf (dedupe_step sha ev c)"
  by (cases ev) (simp_all add: dedupe_begin_wf dedupe_complete_wf)

text \<open>The window is bounded: whatever requests arrive and complete, it never holds more entries
  than its capacity, and one per key.\<close>

theorem dedupe_bounded:
  "dedupe_wf (fold (dedupe_step sha) evs (newClusterDedupeCache capacity ttl))"
proof -
  have "dedupe_wf c \<Longrightarrow> dedupe_wf (fold (dedupe_step sha) evs c)" for c
    by (induction evs arbitrary: c) (simp_all add: dedupe_step_wf)
  then show ?thesis by (simp add: dedupe_wf_def newClusterDedupeCache_def)
qed

section \<open>At most once\<close>

text \<open>The key has an entry that no call made before \<open>T\<close> can remove.\<close>

definition protected :: "string \<Rightarrow> go_time \<Rightarrow> dedupe_cache \<Rightarrow> bool" where
  "protected k T c \<longleftrightarrow> (\<exists>e. map_of (dc_entries c) k = Some e \<and> (de_completed e \<longrightarrow> T \<le> de_expiresAt e))"

lemma protected_not_expired:
  "protected k T c \<Longrightarrow> now < T \<Longrightarrow> map_of (dc_entries c) k' = Some e \<Longrightarrow> entry_expired now e \<Longrightarrow> k' \<noteq> k"
  by (auto simp: protected_def entry_expired_def)

lemma protected_begin:
  assumes "protected k T c" "now < T" "dedupe_begin sha now order k' kind payload c = (r, c')"
  shows "protected k T c'" and "k' = k \<Longrightarrow> r \<noteq> Dispatch"
proof -
  have res: "protected k T c'" if "k' \<noteq> k" "protected k T c1"
      "dedupe_reserve now order k' kind (sha payload) c1 = (r, c')" for c1
    using that(3)
  proof (cases rule: dedupe_reserve_cases)
    case (evict e k2 e2)
    then have "k2 \<noteq> k" using protected_not_expired that(2) assms(2) by metis
    then show ?thesis using that evict by (simp add: protected_def update_conv' delete_conv')
  qed (use that in \<open>auto simp: protected_def update_conv'\<close>)
  have del: "protected k T (c\<lparr>dc_entries := AList.delete k' (dc_entries c)\<rparr>)" if "k' \<noteq> k"
    using assms(1) that by (simp add: protected_def delete_conv')
  show "protected k T c'"
  proof (cases "k' = k")
    case True
    then show ?thesis using assms
      by (auto simp: dedupe_begin_def Let_def protected_def split: option.splits if_splits)
  next
    case False
    then show ?thesis using assms(1,3) res [OF False] del [OF False]
      by (auto simp: dedupe_begin_def Let_def split: option.splits if_splits)
  qed
  show "r \<noteq> Dispatch" if "k' = k"
    using assms that by (auto simp: dedupe_begin_def Let_def protected_def split: option.splits if_splits)
qed

lemma protected_complete:
  assumes "protected k T c" "T \<le> now + dc_ttl c"
  shows "protected k T (dedupe_complete now k' response err c)"
  using assms by (auto simp: protected_def dedupe_complete_def update_conv' split: option.splits)

lemma dedupe_begin_ttl:
  "dedupe_begin sha now order k kind payload c = (r, c') \<Longrightarrow> dc_ttl c' = dc_ttl c"
proof -
  have "dedupe_reserve now order k kind d c1 = (r, c') \<Longrightarrow> dc_ttl c' = dc_ttl c1" for d c1
    by (erule dedupe_reserve_cases) auto
  then show "dedupe_begin sha now order k kind payload c = (r, c') \<Longrightarrow> dc_ttl c' = dc_ttl c"
    by (fastforce simp: dedupe_begin_def Let_def split: option.splits if_splits)
qed

lemma dedupe_step_protected:
  assumes "protected k T c" "ev_time ev < T" "T \<le> ev_time ev + dc_ttl c"
  shows "protected k T (dedupe_step sha ev c) \<and> dc_ttl (dedupe_step sha ev c) = dc_ttl c"
proof (cases ev)
  case (EvBegin now order k' kind payload)
  obtain r c' where b: "dedupe_begin sha now order k' kind payload c = (r, c')" by fastforce
  then show ?thesis using protected_begin(1) [OF assms(1) _ b] dedupe_begin_ttl [OF b] assms(2) EvBegin by simp
next
  case (EvComplete now k' response err)
  moreover have "dc_ttl (dedupe_complete now k' response err c) = dc_ttl c"
    by (simp add: dedupe_complete_def split: option.splits)
  ultimately show ?thesis using protected_complete [OF assms(1)] assms(3) by simp
qed

text \<open>C17. A request is dispatched at most once in its window: after a call that dispatches a key at
  time \<open>t0\<close>, no call with that key made before \<open>t0 + ttl\<close> dispatches again, whatever other calls
  and completions happen in that time.\<close>

theorem dedupe_at_most_once:
  assumes "dedupe_begin sha t0 order k kind payload c = (Dispatch, c1)"
    "\<forall>ev \<in> set evs. t0 \<le> ev_time ev \<and> ev_time ev < t0 + dc_ttl c"
    "t0 \<le> now" "now < t0 + dc_ttl c"
  shows "fst (dedupe_begin sha now order' k kind' payload' (fold (dedupe_step sha) evs c1)) \<noteq> Dispatch"
proof -
  have start: "protected k (t0 + dc_ttl c) c1"
  proof -
    have "protected k T c1" if "dedupe_reserve t0 order k kind d c0 = (Dispatch, c1)" for c0 d T
      using that by (cases rule: dedupe_reserve_cases) (auto simp: protected_def update_conv')
    then show ?thesis using assms(1)
      by (fastforce simp: dedupe_begin_def Let_def split: option.splits if_splits)
  qed
  have "protected k (t0 + dc_ttl c) (fold (dedupe_step sha) evs c1)"
    using start dedupe_begin_ttl [OF assms(1)] assms(2)
  proof (induction evs arbitrary: c1)
    case (Cons ev evs)
    then have "protected k (t0 + dc_ttl c) (dedupe_step sha ev c1) \<and> dc_ttl (dedupe_step sha ev c1) = dc_ttl c"
      using dedupe_step_protected [of k "t0 + dc_ttl c" c1 ev sha] by auto
    then show ?case using Cons by simp
  qed simp
  from protected_begin(2) [OF this assms(4)] show ?thesis by (metis prod.collapse)
qed

theorem dedupe_at_most_once_witness:
  "fst (dedupe_begin id 10 [] ''k'' 1 ''p'' (newClusterDedupeCache 8 60)) = Dispatch \<and>
   fst (dedupe_begin id 20 [] ''k'' 1 ''p'' (fold (dedupe_step id) [EvComplete 15 ''k'' ''ok'' None]
     (snd (dedupe_begin id 10 [] ''k'' 1 ''p'' (newClusterDedupeCache 8 60))))) \<noteq> Dispatch"
proof -
  have d: "fst (dedupe_begin id 10 [] ''k'' 1 ''p'' (newClusterDedupeCache 8 60)) = Dispatch"
    by (simp add: dedupe_begin_def dedupe_reserve_def newClusterDedupeCache_def)
  then have "dedupe_begin id 10 [] ''k'' 1 ''p'' (newClusterDedupeCache 8 60) =
      (Dispatch, snd (dedupe_begin id 10 [] ''k'' 1 ''p'' (newClusterDedupeCache 8 60)))"
    by (metis prod.collapse)
  from dedupe_at_most_once [OF this, of "[EvComplete 15 ''k'' ''ok'' None]" 20] show ?thesis
    using d by (simp add: newClusterDedupeCache_def)
qed

text \<open>A repeated request gets the recorded response, and an error exactly when the first call
  failed with a non-empty text; a request with the same key and another payload is refused.\<close>

theorem dedupe_replay:
  assumes "map_of (dc_entries c) k = Some e" "\<not> de_completed e" "de_errorText e = []"
    "now < done + dc_ttl c"
  shows "dedupe_wait k (dedupe_complete done k response err c) =
      Some (response, case err of Some text \<Rightarrow> if text = [] then None else Some (Replayed text) | None \<Rightarrow> None) \<and>
    fst (dedupe_begin sha now order k kind payload (dedupe_complete done k response err c)) =
      (if kind = de_kind e \<and> sha payload = de_digest e then Hit else Refused RequestIDCollision)"
  using assms
  by (auto simp: dedupe_wait_def dedupe_complete_def update_conv' cloneClusterDedupeResult_def
      dedupe_begin_def Let_def split: option.splits)

theorem dedupe_replay_witness:
  "dedupe_wait ''k'' (dedupe_complete 15 ''k'' ''r'' (Some ''bad'')
     (snd (dedupe_begin id 10 [] ''k'' 1 ''p'' (newClusterDedupeCache 8 60)))) =
   Some (''r'', Some (Replayed ''bad''))"
proof -
  let ?c = "snd (dedupe_begin id 10 [] ''k'' 1 ''p'' (newClusterDedupeCache 8 60))"
  obtain e where e: "map_of (dc_entries ?c) ''k'' = Some e" "\<not> de_completed e" "de_errorText e = []"
    by (simp add: dedupe_begin_def dedupe_reserve_def newClusterDedupeCache_def)
  have "0 < 15 + dc_ttl ?c" by (simp add: dedupe_begin_def dedupe_reserve_def newClusterDedupeCache_def)
  from dedupe_replay [OF e this] show ?thesis by simp
qed

end
