(* ===== verification/SessionQueue.thy ===== *)
theory SessionQueue
  imports Prelude
begin

text \<open>
  The outgoing queue of a client session (\<^verbatim>\<open>internal/server/session_queue.go\<close>), the framing of
  batches (\<^verbatim>\<open>internal/server/session_serialize.go\<close>) and client versions
  (\<^verbatim>\<open>internal/server/utils.go\<close>).

  Messages are of an arbitrary type \<open>'m\<close>. Their encodings come from the JSON and Protobuf
  packages; the record \<open>codec\<close> has the JSON text of a message and the Protobuf sizes and bytes.
\<close>

section \<open>Versions\<close>

definition is_digit :: "char \<Rightarrow> bool" where
  "is_digit c = (48 \<le> (of_char c :: nat) \<and> (of_char c :: nat) \<le> 57)"

definition digits_value :: "string \<Rightarrow> int" where
  "digits_value s = foldl (\<lambda>n c. 10 * n + (of_char c - 48)) 0 s"

text \<open>ASCII only: the part up to the first byte that is not a digit. A value that does not fit an
  \<open>int\<close> is out of range in either case.\<close>

definition parseVersionPart :: "string \<Rightarrow> int" where
  "parseVersionPart vers =
     (let d = takeWhile is_digit vers; t = digits_value d in
      if d = [] \<or> t > 0x1fff \<or> t \<le> 0 then 0 else t)"

text \<open>\<open>strings.SplitN(vers, ".", n)\<close> for a positive \<open>n\<close>.\<close>

fun SplitN :: "string \<Rightarrow> nat \<Rightarrow> string list" where
  "SplitN vers (Suc (Suc n)) =
     (case dropWhile (\<lambda>c. c \<noteq> CHR ''.'') vers of
        [] \<Rightarrow> [vers]
      | _ # rest \<Rightarrow> takeWhile (\<lambda>c. c \<noteq> CHR ''.'') vers # SplitN rest (Suc n))"
| "SplitN vers n = [vers]"

definition parseVersion :: "string \<Rightarrow> int" where
  "parseVersion vers0 =
     (let parts = SplitN (TrimPrefix vers0 ''v'') 3;
          part = (\<lambda>i. if i < length parts then parseVersionPart (parts ! i) else 0)
      in or (or (push_bit 16 (part 0)) (push_bit 8 (part 1))) (part 2))"

definition versionCompare :: "int \<Rightarrow> int \<Rightarrow> int" where
  "versionCompare v1 v2 = drop_bit 8 v1 - drop_bit 8 v2"

definition minBatchVersionValue :: int where "minBatchVersionValue = parseVersion ''0.32''"
definition minProtobufWebSocketVersionValue :: int where
  "minProtobufWebSocketVersionValue = parseVersion ''0.33''"

section \<open>Framing\<close>

record 'm codec =
  json_of :: "'m \<Rightarrow> string"
  proto_size1 :: "'m \<Rightarrow> int"
  proto_size :: "'m list \<Rightarrow> int"
  proto_marshal :: "'m list \<Rightarrow> string option"

definition maxJSONBatchFrameSize :: nat where "maxJSONBatchFrameSize = 262144"

definition batch_prefix :: string where "batch_prefix = [CHR ''{'', CHR 0x22, CHR ''b'', CHR ''a'', CHR ''t'',
  CHR ''c'', CHR ''h'', CHR 0x22, CHR '':'', CHR ''['']"
definition batch_suffix :: string where "batch_suffix = [CHR '']'', CHR ''}'']"

text \<open>The loop of \<open>serializeBatchAndUpdateStats\<close>: the frames written so far, the buffer with its
  prefix, and the number of messages in it.\<close>

definition batch_flush :: "string list \<times> string \<times> nat \<Rightarrow> string list \<times> string \<times> nat" where
  "batch_flush s = (case s of (frames, buffer, count) \<Rightarrow>
     if count = 0 then s else (frames @ [buffer @ batch_suffix], batch_prefix, 0))"

fun batch_loop :: "string list \<Rightarrow> string list \<times> string \<times> nat \<Rightarrow> string list \<times> string \<times> nat" where
  "batch_loop [] s = s"
| "batch_loop (raw # raws) s =
     (if raw = [] then batch_loop raws s
      else
        let (frames, buffer, count) = s;
            separatorSize = (if count > 0 then 1 else 0);
            (frames, buffer, count) =
              (if count > 0 \<and> length buffer + separatorSize + length raw + length batch_suffix
                   > maxJSONBatchFrameSize
               then batch_flush s else s);
            buffer = (if count > 0 then buffer @ '','' else buffer)
        in batch_loop raws (frames, buffer @ raw, count + 1))"

definition serializeJSONBatch :: "'m codec \<Rightarrow> 'm list \<Rightarrow> string list" where
  "serializeJSONBatch cd msgs =
     (if msgs = [] then []
      else fst (batch_flush (batch_loop (map (json_of cd) msgs) ([], batch_prefix, 0))))"

definition proto_flush :: "'m codec \<Rightarrow> string list \<times> 'm list \<Rightarrow> string list \<times> 'm list" where
  "proto_flush cd s = (case s of (frames, batch) \<Rightarrow>
     if batch = [] then s
     else (case proto_marshal cd batch of None \<Rightarrow> frames | Some frame \<Rightarrow> frames @ [frame], []))"

fun proto_loop :: "'m codec \<Rightarrow> 'm list \<Rightarrow> string list \<times> 'm list \<Rightarrow> string list \<times> 'm list" where
  "proto_loop cd [] s = s"
| "proto_loop cd (m # ms) s =
     (let (frames, batch) = s; batch1 = batch @ [m] in
      if length batch1 > 1 \<and> proto_size cd batch1 > int maxJSONBatchFrameSize
      then (let (frames', _) = proto_flush cd (frames, butlast batch1) in proto_loop cd ms (frames', [m]))
      else proto_loop cd ms (frames, batch1))"

definition serializeProtobufBatchAndUpdateStats :: "'m codec \<Rightarrow> 'm list \<Rightarrow> string list" where
  "serializeProtobufBatchAndUpdateStats cd msgs = fst (proto_flush cd (proto_loop cd msgs ([], [])))"

section \<open>Sizes of queued items\<close>

datatype session_proto = NONE | WEBSOCK | LPOLL | GRPC | PROXY | MULTIPLEX

datatype 'm qitem = QNil | QBytes string | QString string | QMsg 'm | QBatch "'m list" | QOther

record 'm session_core =
  s_proto :: session_proto
  s_wsBinary :: bool
  s_ver :: int
  s_terminating :: bool
  s_pending :: int
  s_send :: "'m qitem list"
  s_sendcap :: nat

record 'm session = "'m session_core" +
  s_multi :: "'m session_core option"

definition sendQueueLimit :: nat where "sendQueueLimit = 128"
definition sendQueueByteLimit :: int where "sendQueueByteLimit = push_bit 20 8"

definition isMultiplex :: "('m, 'z) session_core_scheme \<Rightarrow> bool" where
  "isMultiplex s = (s_proto s = MULTIPLEX)"

definition supportsMessageBatching :: "('m, 'z) session_core_scheme \<Rightarrow> bool" where
  "supportsMessageBatching s = (s_proto s = WEBSOCK \<and> versionCompare (s_ver s) minBatchVersionValue \<ge> 0)"

definition supportsProtobufWebSocket :: "('m, 'z) session_core_scheme \<Rightarrow> bool" where
  "supportsProtobufWebSocket s =
     (s_proto s = WEBSOCK \<and> s_wsBinary s \<and> versionCompare (s_ver s) minProtobufWebSocketVersionValue \<ge> 0)"

definition protobufQueueSize :: "'m codec \<Rightarrow> ('m, 'z) session_core_scheme \<Rightarrow> 'm list \<Rightarrow> int" where
  "protobufQueueSize cd s messages =
     (if messages = [] then 0
      else if s_proto s = GRPC \<or> isMultiplex s then foldl (\<lambda>tot m. tot + proto_size1 cd m) 0 messages
      else proto_size cd messages)"

fun json_size_loop :: "'m codec \<Rightarrow> 'm list \<Rightarrow> int \<Rightarrow> int \<Rightarrow> nat \<Rightarrow> int" where
  "json_size_loop cd [] tot current count =
     (if count > 0 then tot + (int (length batch_prefix) + current + int (length batch_suffix)) else tot)"
| "json_size_loop cd (m # ms) tot current count =
     (let size = int (length (json_of cd m));
          separator = (if count > 0 then 1 else 0)
      in if count > 0 \<and> int (length batch_prefix) + current + separator + size + int (length batch_suffix)
              > int maxJSONBatchFrameSize
         then json_size_loop cd ms (tot + (int (length batch_prefix) + current + int (length batch_suffix)))
                (0 + (0 + size)) 1
         else json_size_loop cd ms tot (current + (separator + size)) (count + 1))"

definition jsonBatchQueueSize :: "'m codec \<Rightarrow> 'm list \<Rightarrow> bool \<Rightarrow> int" where
  "jsonBatchQueueSize cd messages batched =
     (if \<not> batched then foldl (\<lambda>tot m. tot + int (length (json_of cd m))) 0 messages
      else json_size_loop cd messages 0 0 0)"

definition outboundQueueSize :: "'m codec \<Rightarrow> ('m, 'z) session_core_scheme \<Rightarrow> 'm qitem \<Rightarrow> int" where
  "outboundQueueSize cd s v =
     (case v of
        QNil \<Rightarrow> 0
      | QBytes b \<Rightarrow> int (length b)
      | QString b \<Rightarrow> int (length b)
      | QMsg m \<Rightarrow>
          if supportsProtobufWebSocket s \<or> s_proto s = GRPC \<or> isMultiplex s then protobufQueueSize cd s [m]
          else if supportsMessageBatching s then jsonBatchQueueSize cd [m] True
          else int (length (json_of cd m))
      | QBatch ms \<Rightarrow>
          if supportsProtobufWebSocket s \<or> s_proto s = GRPC \<or> isMultiplex s then protobufQueueSize cd s ms
          else jsonBatchQueueSize cd ms (supportsMessageBatching s)
      | QOther \<Rightarrow> 256)"

section \<open>The queue\<close>

text \<open>The loops around \<open>CompareAndSwap\<close> repeat until the swap succeeds, so each is one atomic
  change of the counter.\<close>

definition item_size :: "'m codec \<Rightarrow> ('m, 'z) session_core_scheme \<Rightarrow> 'm qitem \<Rightarrow> int" where
  "item_size cd s v = (let size = outboundQueueSize cd s v in if size \<le> 0 then 1 else size)"

definition reserveOutbound ::
  "'m codec \<Rightarrow> 'm qitem \<Rightarrow> ('m, 'z) session_core_scheme \<Rightarrow> bool \<times> ('m, 'z) session_core_scheme" where
  "reserveOutbound cd v s =
     (let size = item_size cd s v in
      if size > sendQueueByteLimit - s_pending s then (False, s)
      else (True, s\<lparr>s_pending := s_pending s + size\<rparr>))"

definition releaseOutbound ::
  "'m codec \<Rightarrow> 'm qitem \<Rightarrow> ('m, 'z) session_core_scheme \<Rightarrow> ('m, 'z) session_core_scheme" where
  "releaseOutbound cd v s =
     (if s_pending s \<le> 0 then s
      else let nxt = s_pending s - item_size cd s v in s\<lparr>s_pending := (if nxt < 0 then 0 else nxt)\<rparr>)"

text \<open>A send on the buffered channel that does not block.\<close>

definition chan_send :: "'m qitem \<Rightarrow> ('m, 'z) session_core_scheme \<Rightarrow> bool \<times> ('m, 'z) session_core_scheme" where
  "chan_send v s =
     (if length (s_send s) < s_sendcap s then (True, s\<lparr>s_send := s_send s @ [v]\<rparr>) else (False, s))"

definition enqueue ::
  "'m codec \<Rightarrow> 'm qitem \<Rightarrow> ('m, 'z) session_core_scheme \<Rightarrow> bool \<times> ('m, 'z) session_core_scheme" where
  "enqueue cd v s =
     (case reserveOutbound cd v s of
        (False, s1) \<Rightarrow> (False, s1)
      | (True, s1) \<Rightarrow>
          (case chan_send v s1 of
             (True, s2) \<Rightarrow> (True, s2)
           | (False, s2) \<Rightarrow> (False, releaseOutbound cd v s2)))"

definition queueOut_core :: "'m codec \<Rightarrow> 'm \<Rightarrow> ('m, 'z) session_core_scheme \<Rightarrow> bool \<times> ('m, 'z) session_core_scheme" where
  "queueOut_core cd msg s = (if s_terminating s then (True, s) else enqueue cd (QMsg msg) s)"

fun queueOut_each :: "'m codec \<Rightarrow> 'm list \<Rightarrow> ('m, 'z) session_core_scheme \<Rightarrow> bool \<times> ('m, 'z) session_core_scheme" where
  "queueOut_each cd [] s = (True, s)"
| "queueOut_each cd (m # ms) s =
     (case queueOut_core cd m s of (False, s1) \<Rightarrow> (False, s1) | (True, s1) \<Rightarrow> queueOut_each cd ms s1)"

definition queueOutBatch_core ::
  "'m codec \<Rightarrow> 'm list \<Rightarrow> ('m, 'z) session_core_scheme \<Rightarrow> bool \<times> ('m, 'z) session_core_scheme" where
  "queueOutBatch_core cd msgs s =
     (if s_terminating s then (True, s)
      else if s_proto s = WEBSOCK \<or> s_proto s = GRPC then enqueue cd (QBatch msgs) s
      else queueOut_each cd msgs s)"

text \<open>A session that is multiplexed over another one passes its messages to that one, which has no
  further one.\<close>

definition queueOut :: "'m codec \<Rightarrow> 'm \<Rightarrow> 'm session \<Rightarrow> bool \<times> 'm session" where
  "queueOut cd msg s =
     (if s_terminating s then (True, s)
      else
        case s_multi s of
          Some multi \<Rightarrow> (let (ok, m) = queueOut_core cd msg multi in (ok, s\<lparr>s_multi := Some m\<rparr>))
        | None \<Rightarrow> queueOut_core cd msg s)"

definition queueOutBatch :: "'m codec \<Rightarrow> 'm list \<Rightarrow> 'm session \<Rightarrow> bool \<times> 'm session" where
  "queueOutBatch cd msgs s =
     (if s_terminating s then (True, s)
      else
        case s_multi s of
          Some multi \<Rightarrow> (let (ok, m) = queueOutBatch_core cd msgs multi in (ok, s\<lparr>s_multi := Some m\<rparr>))
        | None \<Rightarrow> queueOutBatch_core cd msgs s)"

definition queueOutBytes ::
  "'m codec \<Rightarrow> string \<Rightarrow> ('m, 'z) session_core_scheme \<Rightarrow> bool \<times> ('m, 'z) session_core_scheme" where
  "queueOutBytes cd b s = (if s_terminating s then (True, s) else enqueue cd (QBytes b) s)"

text \<open>The part of \<open>purgeChannels\<close> that concerns the queue.\<close>

fun purge_loop :: "'m codec \<Rightarrow> 'm qitem list \<Rightarrow> ('m, 'z) session_core_scheme \<Rightarrow> ('m, 'z) session_core_scheme" where
  "purge_loop cd [] s = s\<lparr>s_send := []\<rparr>"
| "purge_loop cd (v # vs) s = purge_loop cd vs (releaseOutbound cd v s)"

definition purgeChannels :: "'m codec \<Rightarrow> ('m, 'z) session_core_scheme \<Rightarrow> ('m, 'z) session_core_scheme" where
  "purgeChannels cd s = purge_loop cd (s_send s) s"

section \<open>Packing into frames\<close>

text \<open>
  Both framings are instances of one packing: a message joins the current group unless the group
  is not empty and would become too large with it.
\<close>

fun pack :: "('a list \<Rightarrow> bool) \<Rightarrow> 'a list \<Rightarrow> 'a list \<Rightarrow> 'a list list" where
  "pack over cur [] = (if cur = [] then [] else [cur])"
| "pack over cur (x # xs) =
     (if cur \<noteq> [] \<and> over (cur @ [x]) then cur # pack over [x] xs else pack over (cur @ [x]) xs)"

lemma concat_pack: "concat (pack over cur xs) = cur @ xs"
  by (induction over cur xs rule: pack.induct) auto

lemma pack_nonempty: "g \<in> set (pack over cur xs) \<Longrightarrow> g \<noteq> []"
  by (induction over cur xs rule: pack.induct) (auto split: if_splits)

lemma pack_fits:
  "(length cur > 1 \<Longrightarrow> \<not> over cur) \<Longrightarrow> g \<in> set (pack over cur xs) \<Longrightarrow> length g > 1 \<Longrightarrow> \<not> over g"
proof (induction over cur xs rule: pack.induct)
  case (1 over cur)
  then show ?case by (auto split: if_splits)
next
  case (2 over cur x xs)
  then show ?case by (cases "cur = []") (auto split: if_splits)
qed

lemma pack_groups: "g \<in> set (pack over [] xs) \<Longrightarrow> g \<noteq> [] \<and> (length g = 1 \<or> \<not> over g)"
  using pack_fits [of "[]" over g xs] pack_nonempty [of g over "[]" xs] by (cases g) fastforce+

fun join_comma :: "string list \<Rightarrow> string" where
  "join_comma [] = []"
| "join_comma [r] = r"
| "join_comma (r # rs) = r @ '','' @ join_comma rs"

lemma join_comma_snoc: "join_comma (rs @ [r]) = (if rs = [] then r else join_comma rs @ '','' @ r)"
  by (induction rs rule: join_comma.induct) auto

definition json_frame :: "string list \<Rightarrow> string" where
  "json_frame g = batch_prefix @ join_comma g @ batch_suffix"

definition json_over :: "string list \<Rightarrow> bool" where
  "json_over g \<longleftrightarrow> length (json_frame g) > maxJSONBatchFrameSize"

lemma json_over_snoc:
  "cur \<noteq> [] \<Longrightarrow> json_over (cur @ [raw]) \<longleftrightarrow>
     length (batch_prefix @ join_comma cur) + 1 + length raw + length batch_suffix > maxJSONBatchFrameSize"
  by (auto simp: json_over_def json_frame_def join_comma_snoc)

lemma batch_loop_pack:
  "batch_flush (batch_loop raws (frames, batch_prefix @ join_comma cur, length cur)) =
     (frames @ map json_frame (pack json_over cur (filter (\<lambda>r. r \<noteq> []) raws)), batch_prefix, 0)"
proof (induction raws arbitrary: frames cur)
  case Nil
  then show ?case by (auto simp: batch_flush_def json_frame_def)
next
  case (Cons raw raws)
  show ?case
  proof (cases "raw \<noteq> [] \<and> cur \<noteq> [] \<and> json_over (cur @ [raw])")
    case True
    then have "batch_loop (raw # raws) (frames, batch_prefix @ join_comma cur, length cur) =
        batch_loop raws (frames @ [json_frame cur], batch_prefix @ join_comma [raw], length [raw])"
      using json_over_snoc [of cur raw] by (simp add: Let_def batch_flush_def json_frame_def)
    then show ?thesis using True Cons.IH [of "frames @ [json_frame cur]" "[raw]"]
      by (simp del: batch_loop.simps)
  next
    case False
    show ?thesis
    proof (cases "raw = []")
      case True
      then show ?thesis using Cons by simp
    next
      case ne: False
      then have "batch_loop (raw # raws) (frames, batch_prefix @ join_comma cur, length cur) =
          batch_loop raws (frames, batch_prefix @ join_comma (cur @ [raw]), length (cur @ [raw]))"
        using False json_over_snoc [of cur raw] by (auto simp: Let_def join_comma_snoc)
      then show ?thesis using False ne Cons.IH [of frames "cur @ [raw]"]
        by (auto simp del: batch_loop.simps)
    qed
  qed
qed

lemma serializeJSONBatch_pack:
  "serializeJSONBatch cd msgs =
     map json_frame (pack json_over [] (filter (\<lambda>r. r \<noteq> []) (map (json_of cd) msgs)))"
  using batch_loop_pack [of "map (json_of cd) msgs" "[]" "[]"] by (auto simp: serializeJSONBatch_def)

text \<open>The batch writer loses and reorders nothing: its frames carry the encoded messages in their
  order, and a frame is larger than the limit only when it holds a single message.\<close>

theorem json_batch_frames:
  "\<exists>groups. serializeJSONBatch cd msgs = map json_frame groups \<and>
     concat groups = filter (\<lambda>r. r \<noteq> []) (map (json_of cd) msgs) \<and>
     list_all (\<lambda>g. g \<noteq> [] \<and> (length g = 1 \<or> length (json_frame g) \<le> maxJSONBatchFrameSize)) groups"
proof (intro exI conjI)
  let ?g = "pack json_over [] (filter (\<lambda>r. r \<noteq> []) (map (json_of cd) msgs))"
  show "serializeJSONBatch cd msgs = map json_frame ?g" by (rule serializeJSONBatch_pack)
  show "concat ?g = filter (\<lambda>r. r \<noteq> []) (map (json_of cd) msgs)" by (simp add: concat_pack)
  show "list_all (\<lambda>g. g \<noteq> [] \<and> (length g = 1 \<or> length (json_frame g) \<le> maxJSONBatchFrameSize)) ?g"
    unfolding list_all_iff using pack_groups [of _ json_over] by (metis json_over_def not_less)
qed

lemma json_size_loop_pack:
  assumes "\<forall>m \<in> set ms. json_of cd m \<noteq> []"
  shows "json_size_loop cd ms tot (int (length (join_comma cur))) (length cur) =
    tot + sum_list (map (\<lambda>g. int (length (json_frame g))) (pack json_over cur (map (json_of cd) ms)))"
  using assms
proof (induction ms arbitrary: tot cur)
  case Nil
  then show ?case by (simp add: json_frame_def)
next
  case (Cons m ms)
  let ?r = "json_of cd m"
  show ?case
  proof (cases "cur \<noteq> [] \<and> json_over (cur @ [?r])")
    case True
    then show ?thesis
      using Cons.IH [of "tot + int (length (json_frame cur))" "[?r]"] Cons.prems json_over_snoc [of cur ?r]
      by (simp add: Let_def json_frame_def add.assoc)
  next
    case False
    then show ?thesis
      using Cons.IH [of tot "cur @ [?r]"] Cons.prems json_over_snoc [of cur ?r]
      by (auto simp: Let_def join_comma_snoc add.assoc add.commute add.left_commute)
  qed
qed

text \<open>The size reserved for a batch is exact: it is the number of bytes of the frames the writer
  makes of it.\<close>

theorem batch_size_exact:
  assumes "\<forall>m \<in> set msgs. json_of cd m \<noteq> []"
  shows "jsonBatchQueueSize cd msgs True = sum_list (map (\<lambda>f. int (length f)) (serializeJSONBatch cd msgs))"
proof -
  have "filter (\<lambda>r. r \<noteq> []) (map (json_of cd) msgs) = map (json_of cd) msgs"
    using assms by (auto simp: filter_id_conv)
  then show ?thesis
    using json_size_loop_pack [OF assms, of 0 "[]"]
    by (simp add: jsonBatchQueueSize_def serializeJSONBatch_pack comp_def)
qed

theorem batch_size_exact_witness:
  "jsonBatchQueueSize \<lparr>json_of = (\<lambda>n. replicate n CHR ''x''), proto_size1 = (\<lambda>_. 0), proto_size = (\<lambda>_. 0),
     proto_marshal = (\<lambda>_. None)\<rparr> [1, 2] True =
   sum_list (map (\<lambda>f. int (length f)) (serializeJSONBatch
     \<lparr>json_of = (\<lambda>n. replicate n CHR ''x''), proto_size1 = (\<lambda>_. 0), proto_size = (\<lambda>_. 0),
      proto_marshal = (\<lambda>_. None)\<rparr> [1, 2]))"
  by (rule batch_size_exact) simp

lemma proto_loop_pack:
  assumes "\<forall>g. proto_marshal cd g \<noteq> None"
  shows "proto_flush cd (proto_loop cd ms (frames, cur)) =
    (frames @ map (\<lambda>g. the (proto_marshal cd g))
       (pack (\<lambda>g. proto_size cd g > int maxJSONBatchFrameSize) cur ms), [])"
proof (induction ms arbitrary: frames cur)
  case Nil
  then show ?case using assms [rule_format, of cur] by (auto simp: proto_flush_def)
next
  case (Cons m ms)
  let ?over = "\<lambda>g. proto_size cd g > int maxJSONBatchFrameSize"
  show ?case
  proof (cases "cur \<noteq> [] \<and> ?over (cur @ [m])")
    case True
    then have "proto_loop cd (m # ms) (frames, cur) =
        proto_loop cd ms (frames @ [the (proto_marshal cd cur)], [m])"
      using assms [rule_format, of cur] by (auto simp: Let_def proto_flush_def)
    then show ?thesis using Cons.IH True by simp
  next
    case False
    then have "proto_loop cd (m # ms) (frames, cur) = proto_loop cd ms (frames, cur @ [m])"
      by (auto simp: Let_def)
    then show ?thesis using Cons.IH False by auto
  qed
qed

text \<open>The same for Protobuf batches, when encoding succeeds: the frames encode consecutive groups
  of the messages, none empty, each within the limit unless it has one message.\<close>

theorem proto_batch_frames:
  assumes "\<forall>g. proto_marshal cd g \<noteq> None"
  shows "\<exists>groups. serializeProtobufBatchAndUpdateStats cd msgs = map (\<lambda>g. the (proto_marshal cd g)) groups \<and>
    concat groups = msgs \<and>
    list_all (\<lambda>g. g \<noteq> [] \<and> (length g = 1 \<or> proto_size cd g \<le> int maxJSONBatchFrameSize)) groups"
proof (intro exI conjI)
  let ?over = "\<lambda>g. proto_size cd g > int maxJSONBatchFrameSize"
  let ?g = "pack ?over [] msgs"
  show "serializeProtobufBatchAndUpdateStats cd msgs = map (\<lambda>g. the (proto_marshal cd g)) ?g"
    using proto_loop_pack [OF assms, of msgs "[]" "[]"]
    by (simp add: serializeProtobufBatchAndUpdateStats_def)
  show "concat ?g = msgs" by (simp add: concat_pack)
  show "list_all (\<lambda>g. g \<noteq> [] \<and> (length g = 1 \<or> proto_size cd g \<le> int maxJSONBatchFrameSize)) ?g"
    unfolding list_all_iff using pack_groups [of _ ?over] by (metis not_less)
qed

theorem proto_batch_frames_witness:
  "\<exists>groups. serializeProtobufBatchAndUpdateStats \<lparr>json_of = (\<lambda>_. []), proto_size1 = (\<lambda>n. n),
       proto_size = sum_list, proto_marshal = (\<lambda>g. Some (replicate (length g) CHR ''x''))\<rparr> [200000, 100000, 7 :: int] =
     map (\<lambda>g. replicate (length g) CHR ''x'') groups \<and> concat groups = [200000, 100000, 7 :: int]"
  using proto_batch_frames [of "\<lparr>json_of = (\<lambda>_. []), proto_size1 = (\<lambda>n. n),
       proto_size = sum_list, proto_marshal = (\<lambda>g. Some (replicate (length g) CHR ''x''))\<rparr>" "[200000, 100000, 7 :: int]"]
  by auto

section \<open>Accounting of queued bytes\<close>

text \<open>
  Producers and the writer of a session run concurrently. Between its reservation and its send a
  message belongs to a producer, between its receive and its release to the writer; these are
  \<open>q_reserved\<close> and \<open>q_taken\<close>. The transport and version of the session are fixed.
\<close>

record 'm qsys =
  q_sess :: "'m session_core"
  q_reserved :: "'m qitem list"
  q_taken :: "'m qitem list"

inductive qstep :: "'m codec \<Rightarrow> 'm qsys \<Rightarrow> 'm qsys \<Rightarrow> bool" for cd where
  reserve: "reserveOutbound cd v (q_sess s) = (True, c) \<Longrightarrow>
    qstep cd s (s\<lparr>q_sess := c, q_reserved := v # q_reserved s\<rparr>)"
| push: "v \<in> set (q_reserved s) \<Longrightarrow> chan_send v (q_sess s) = (True, c) \<Longrightarrow>
    qstep cd s (s\<lparr>q_sess := c, q_reserved := remove1 v (q_reserved s)\<rparr>)"
| push_full: "v \<in> set (q_reserved s) \<Longrightarrow> chan_send v (q_sess s) = (False, c) \<Longrightarrow>
    qstep cd s (s\<lparr>q_sess := releaseOutbound cd v c, q_reserved := remove1 v (q_reserved s)\<rparr>)"
| take: "s_send (q_sess s) = v # rest \<Longrightarrow>
    qstep cd s (s\<lparr>q_sess := (q_sess s)\<lparr>s_send := rest\<rparr>, q_taken := v # q_taken s\<rparr>)"
| release: "v \<in> set (q_taken s) \<Longrightarrow>
    qstep cd s (s\<lparr>q_sess := releaseOutbound cd v (q_sess s), q_taken := remove1 v (q_taken s)\<rparr>)"

definition qsum :: "'m codec \<Rightarrow> ('m, 'z) session_core_scheme \<Rightarrow> 'm qitem list \<Rightarrow> int" where
  "qsum cd s vs = sum_list (map (item_size cd s) vs)"

definition q_inv :: "'m codec \<Rightarrow> 'm qsys \<Rightarrow> bool" where
  "q_inv cd s \<longleftrightarrow>
     s_pending (q_sess s) = qsum cd (q_sess s) (s_send (q_sess s) @ q_reserved s @ q_taken s) \<and>
     s_pending (q_sess s) \<le> sendQueueByteLimit \<and> length (s_send (q_sess s)) \<le> s_sendcap (q_sess s)"

lemma item_size_pos: "item_size cd s v > 0"
  by (simp add: item_size_def Let_def)

lemma item_size_cong [simp]:
  "item_size cd (s\<lparr>s_pending := p\<rparr>) = item_size cd s" "item_size cd (s\<lparr>s_send := q\<rparr>) = item_size cd s"
proof -
  have mode: "supportsProtobufWebSocket (s\<lparr>s_pending := p\<rparr>) = supportsProtobufWebSocket s"
    "supportsMessageBatching (s\<lparr>s_pending := p\<rparr>) = supportsMessageBatching s"
    "isMultiplex (s\<lparr>s_pending := p\<rparr>) = isMultiplex s"
    "supportsProtobufWebSocket (s\<lparr>s_send := q\<rparr>) = supportsProtobufWebSocket s"
    "supportsMessageBatching (s\<lparr>s_send := q\<rparr>) = supportsMessageBatching s"
    "isMultiplex (s\<lparr>s_send := q\<rparr>) = isMultiplex s"
    by (simp_all add: supportsProtobufWebSocket_def isMultiplex_def supportsMessageBatching_def)
  have "outboundQueueSize cd (s\<lparr>s_pending := p\<rparr>) v = outboundQueueSize cd s v"
    "outboundQueueSize cd (s\<lparr>s_send := q\<rparr>) v = outboundQueueSize cd s v" for v
    by (cases v; simp add: outboundQueueSize_def protobufQueueSize_def mode)+
  then show "item_size cd (s\<lparr>s_pending := p\<rparr>) = item_size cd s" "item_size cd (s\<lparr>s_send := q\<rparr>) = item_size cd s"
    by (simp_all add: item_size_def fun_eq_iff)
qed

lemma qsum_cong [simp]:
  "qsum cd (s\<lparr>s_pending := p\<rparr>) = qsum cd s" "qsum cd (s\<lparr>s_send := q\<rparr>) = qsum cd s"
  by (simp_all add: qsum_def fun_eq_iff)

lemma qsum_simps [simp]:
  "qsum cd s [] = 0" "qsum cd s (v # vs) = item_size cd s v + qsum cd s vs"
  "qsum cd s (vs @ ws) = qsum cd s vs + qsum cd s ws"
  by (simp_all add: qsum_def)

lemma qsum_nonneg: "qsum cd s vs \<ge> 0"
proof (induction vs)
  case (Cons v vs)
  then show ?case using item_size_pos [of cd s v] by simp
qed simp

lemma qsum_remove1: "v \<in> set vs \<Longrightarrow> qsum cd s (remove1 v vs) = qsum cd s vs - item_size cd s v"
  by (induction vs) auto

lemma releaseOutbound_exact:
  assumes "item_size cd s v \<le> s_pending s"
  shows "releaseOutbound cd v s = s\<lparr>s_pending := s_pending s - item_size cd s v\<rparr>"
  using assms item_size_pos [of cd s v] by (simp add: releaseOutbound_def Let_def)

lemma q_inv_owned:
  assumes "q_inv cd s" "v \<in> set (s_send (q_sess s) @ q_reserved s @ q_taken s)"
  shows "item_size cd (q_sess s) v \<le> s_pending (q_sess s)"
proof -
  let ?all = "s_send (q_sess s) @ q_reserved s @ q_taken s"
  have "0 \<le> qsum cd (q_sess s) (remove1 v ?all)" by (rule qsum_nonneg)
  then show ?thesis using qsum_remove1 [OF assms(2), of cd "q_sess s"] assms(1) by (simp add: q_inv_def)
qed

lemma q_inv_step: "qstep cd s s' \<Longrightarrow> q_inv cd s \<Longrightarrow> q_inv cd s'"
proof (induction rule: qstep.induct)
  case (reserve v s c)
  then show ?case by (auto simp: reserveOutbound_def Let_def q_inv_def split: if_splits)
next
  case (push v s c)
  then show ?case by (auto simp: chan_send_def q_inv_def qsum_remove1 split: if_splits)
next
  case (push_full v s c)
  then have "c = q_sess s" by (auto simp: chan_send_def split: if_splits)
  then show ?case
    using push_full releaseOutbound_exact [OF q_inv_owned [OF push_full.prems, of v]] item_size_pos [of cd "q_sess s" v]
    by (simp add: q_inv_def qsum_remove1)
next
  case (take s v rest)
  then show ?case by (auto simp: q_inv_def)
next
  case (release v s)
  then show ?case
    using releaseOutbound_exact [OF q_inv_owned [OF release.prems, of v]] item_size_pos [of cd "q_sess s" v]
    by (simp add: q_inv_def qsum_remove1)
qed

inductive qreach :: "'m codec \<Rightarrow> 'm qsys \<Rightarrow> bool" for cd where
  start: "s_pending (q_sess s) = 0 \<Longrightarrow> s_send (q_sess s) = [] \<Longrightarrow> q_reserved s = [] \<Longrightarrow> q_taken s = [] \<Longrightarrow>
    qreach cd s"
| step: "qreach cd s \<Longrightarrow> qstep cd s s' \<Longrightarrow> qreach cd s'"

lemma q_inv_reach: "qreach cd s \<Longrightarrow> q_inv cd s"
proof (induction rule: qreach.induct)
  case (start s)
  then show ?case by (simp add: q_inv_def sendQueueByteLimit_def)
next
  case (step s s')
  then show ?case using q_inv_step by blast
qed


definition ex_codec :: "string codec" where
  "ex_codec = \<lparr>json_of = id, proto_size1 = (\<lambda>_. 0), proto_size = (\<lambda>_. 0), proto_marshal = (\<lambda>_. None)\<rparr>"

definition ex_session :: "string session_core" where
  "ex_session = \<lparr>s_proto = LPOLL, s_wsBinary = False, s_ver = 0, s_terminating = False, s_pending = 0,
     s_send = [], s_sendcap = 160\<rparr>"


lemma enqueue_result:
  assumes "0 \<le> s_pending s" "enqueue cd v s = (ok, s')"
  shows "if ok then s' = s\<lparr>s_pending := s_pending s + item_size cd s v, s_send := s_send s @ [v]\<rparr> else s' = s"
  using assms item_size_pos [of cd s v]
  by (auto simp: enqueue_def reserveOutbound_def chan_send_def releaseOutbound_def Let_def split: if_splits)

text \<open>A message that is not accepted leaves the session exactly as it was, so the reservation is
  undone completely; an accepted one is appended. A terminating session accepts and drops.\<close>

theorem queue_out_result:
  assumes "0 \<le> s_pending s" "s_multi s = None" "queueOut cd msg s = (ok, s')"
  shows "if s_terminating s then ok \<and> s' = s
    else if ok then s_send s' = s_send s @ [QMsg msg] \<and> s_pending s' = s_pending s + item_size cd s (QMsg msg)
    else s' = s"
  using assms enqueue_result [OF assms(1), of cd "QMsg msg" ok s']
  by (auto simp: queueOut_def queueOut_core_def split: if_splits)

theorem queue_out_result_witness:
  "\<exists>s'. queueOut ex_codec ''hi'' \<lparr>s_proto = LPOLL, s_wsBinary = False, s_ver = 0, s_terminating = False,
     s_pending = 0, s_send = [], s_sendcap = 0, s_multi = None\<rparr> = (False, s') \<and>
   s' = \<lparr>s_proto = LPOLL, s_wsBinary = False, s_ver = 0, s_terminating = False,
     s_pending = 0, s_send = [], s_sendcap = 0, s_multi = None\<rparr>"
proof -
  let ?s = "\<lparr>s_proto = LPOLL, s_wsBinary = False, s_ver = 0, s_terminating = False,
     s_pending = 0, s_send = [], s_sendcap = 0, s_multi = None\<rparr> :: string session"
  obtain s' where q: "queueOut ex_codec ''hi'' ?s = (False, s')"
    by (simp add: queueOut_def queueOut_core_def enqueue_def reserveOutbound_def chan_send_def Let_def
        item_size_def outboundQueueSize_def ex_codec_def
        supportsProtobufWebSocket_def supportsMessageBatching_def isMultiplex_def sendQueueByteLimit_def)
  have "0 \<le> s_pending ?s" "s_multi ?s = None" by simp_all
  from queue_out_result [OF this q] show ?thesis using q by simp
qed

section \<open>Version numbers overlap\<close>

text \<open>A minor version of 256 or more, which \<open>parseVersionPart\<close> lets pass, runs into the bits of the
  major version.\<close>

lemma version_parts_overlap: "parseVersion ''0.300'' = parseVersion ''1.44''"
  by code_simp

end
