(* ===== verification/PCache.thy ===== *)
theory PCache
  imports Prelude "HOL-Library.AList"
begin

text \<open>
  The persistent cache (\<^verbatim>\<open>server/db/mysql/cache.go\<close>): the table \<open>kvmeta\<close> of keys with a time and
  a value, used by the push outbox, by group invitations and by the administration documents.

  The table is an association list with distinct keys. Every operation has the error of its
  statement, if it fails, as its first argument. Keys and values are compared byte by byte.
\<close>

type_synonym pcache = "(string \<times> go_time \<times> string) list"

text \<open>The SQL operator \<open>LIKE\<close>: a percent sign matches any text, an underscore any byte, a backslash
  takes the next byte as it is.\<close>

fun sql_like :: "string \<Rightarrow> string \<Rightarrow> bool" where
  "sql_like [] s = (s = [])"
| "sql_like (p # ps) s =
     (if p = CHR ''%'' then sql_like ps s \<or> (case s of [] \<Rightarrow> False | _ # s' \<Rightarrow> sql_like (p # ps) s')
      else if p = CHR ''_'' then (case s of [] \<Rightarrow> False | _ # s' \<Rightarrow> sql_like ps s')
      else if p = CHR 0x5c \<and> ps \<noteq> [] then (case s of [] \<Rightarrow> False | c # s' \<Rightarrow> c = hd ps \<and> sql_like (tl ps) s')
      else (case s of [] \<Rightarrow> False | c # s' \<Rightarrow> c = p \<and> sql_like ps s'))"

definition PCacheGet :: "db_err \<Rightarrow> string \<Rightarrow> pcache \<Rightarrow> store_error + string" where
  "PCacheGet f k kv =
     (case f of
        Some e \<Rightarrow> Inl e
      | None \<Rightarrow> (case map_of kv k of None \<Rightarrow> Inl ErrNotFound | Some (_, v) \<Rightarrow> Inr v))"

definition PCacheUpsert :: "db_err \<Rightarrow> go_time \<Rightarrow> string \<Rightarrow> string \<Rightarrow> bool \<Rightarrow> pcache \<Rightarrow> db_err \<times> pcache" where
  "PCacheUpsert f now k v failOnDuplicate kv =
     (if CHR ''%'' \<in> set k then (Some ErrMalformed, kv)
      else
        case f of
          Some e \<Rightarrow> (Some e, kv)
        | None \<Rightarrow>
            if failOnDuplicate \<and> map_of kv k \<noteq> None then (Some ErrDuplicate, kv)
            else (None, AList.update k (now, v) kv))"

definition PCacheDelete :: "db_err \<Rightarrow> string \<Rightarrow> pcache \<Rightarrow> db_err \<times> pcache" where
  "PCacheDelete f k kv = (case f of Some e \<Rightarrow> (Some e, kv) | None \<Rightarrow> (None, AList.delete k kv))"

definition PCacheExpire :: "db_err \<Rightarrow> string \<Rightarrow> go_time \<Rightarrow> pcache \<Rightarrow> db_err \<times> pcache" where
  "PCacheExpire f keyPrefix olderThan kv =
     (if keyPrefix = [] then (Some ErrMalformed, kv)
      else
        case f of
          Some e \<Rightarrow> (Some e, kv)
        | None \<Rightarrow> (None, filter (\<lambda>(k, createdat, _).
            \<not> (sql_like (keyPrefix @ ''%'') k \<and> createdat < olderThan)) kv))"

definition PCacheList :: "db_err \<Rightarrow> string \<Rightarrow> int \<Rightarrow> pcache \<Rightarrow> store_error + (string \<times> string) list" where
  "PCacheList f keyPrefix limit kv =
     (if keyPrefix = [] \<or> CHR ''%'' \<in> set keyPrefix \<or> CHR ''_'' \<in> set keyPrefix \<or> limit \<le> 0
      then Inl ErrMalformed
      else
        case f of
          Some e \<Rightarrow> Inl e
        | None \<Rightarrow> Inr (map (\<lambda>(k, _, v). (k, v)) (take (nat limit)
            (sort_key (\<lambda>(_, createdat, _). createdat)
              (filter (\<lambda>(k, _). sql_like (keyPrefix @ ''%'') k) kv)))))"

text \<open>The update counts the rows it changes.\<close>

definition PCacheCompareAndSwap ::
  "db_err \<Rightarrow> go_time \<Rightarrow> string \<Rightarrow> string \<Rightarrow> string \<Rightarrow> pcache \<Rightarrow> (store_error + bool) \<times> pcache" where
  "PCacheCompareAndSwap f now k oldValue newValue kv =
     (case f of
        Some e \<Rightarrow> (Inl e, kv)
      | None \<Rightarrow>
          (case map_of kv k of
             None \<Rightarrow> (Inr False, kv)
           | Some (createdat, v) \<Rightarrow>
               if v = oldValue
               then (Inr ((now, newValue) \<noteq> (createdat, v)), AList.update k (now, newValue) kv)
               else (Inr False, kv)))"

definition pc_value :: "pcache \<Rightarrow> string \<Rightarrow> string option" where
  "pc_value kv k = map_option snd (map_of kv k)"

section \<open>The contract of the cache\<close>

text \<open>
  What the clients rely on: \<open>lookup\<close> sees every change, an insertion is refused exactly when the
  key is taken, and a swap changes the value exactly when it reports success or the new value is
  the old one.
\<close>

locale kv_store =
  fixes key_ok :: "'k \<Rightarrow> bool"
    and lookup :: "'s \<Rightarrow> 'k \<Rightarrow> 'v option"
    and put :: "'k \<Rightarrow> 'v \<Rightarrow> 's \<Rightarrow> 's"
    and add :: "'k \<Rightarrow> 'v \<Rightarrow> 's \<Rightarrow> 's option"
    and remove :: "'k \<Rightarrow> 's \<Rightarrow> 's"
    and swap :: "'k \<Rightarrow> 'v \<Rightarrow> 'v \<Rightarrow> 's \<Rightarrow> bool \<times> 's"
  assumes lookup_put: "key_ok k \<Longrightarrow> lookup (put k v s) = (lookup s)(k \<mapsto> v)"
    and add_iff: "key_ok k \<Longrightarrow> add k v s = (if lookup s k = None then Some (put k v s) else None)"
    and lookup_remove: "lookup (remove k s) = (lookup s)(k := None)"
    and swap_miss: "lookup s k \<noteq> Some old \<Longrightarrow> swap k old new s = (False, s)"
    and swap_hit: "lookup s k = Some old \<Longrightarrow> lookup (snd (swap k old new s)) = (lookup s)(k \<mapsto> new)"
    and swap_hit_new: "lookup s k = Some old \<Longrightarrow> old \<noteq> new \<Longrightarrow> fst (swap k old new s)"
begin

lemma swap_value: "swap k old new s = (True, s1) \<Longrightarrow> lookup s k = Some old \<and> lookup s1 k = Some new"
  using swap_miss [of s k old new] swap_hit [of s k old new] by fastforce

text \<open>Of two swaps from the same old value to values other than it, only the first succeeds, whatever
  happens to other keys in between.\<close>

lemma swap_exclusive:
  assumes "swap k old new s = (True, s1)" "old \<noteq> new" "lookup s2 k = lookup s1 k"
  shows "swap k old new' s2 = (False, s2)"
  using swap_value [OF assms(1)] swap_miss assms(2,3) by simp

lemma add_remove:
  assumes "key_ok k" "add k v s = Some s1"
  shows "lookup (remove k s1) = lookup s"
  using assms by (auto simp: add_iff lookup_remove lookup_put split: if_splits)

lemma swap_other: "k' \<noteq> k \<Longrightarrow> lookup (snd (swap k old new s)) k' = lookup s k'"
  using swap_miss [of s k old new] swap_hit [of s k old new] by (cases "lookup s k = Some old") auto

end

lemma pc_value_update [simp]: "pc_value (AList.update k (t, v) kv) = (pc_value kv)(k \<mapsto> v)"
  by (auto simp: pc_value_def update_conv' fun_eq_iff)

lemma pc_value_delete [simp]: "pc_value (AList.delete k kv) = (pc_value kv)(k := None)"
  by (auto simp: pc_value_def delete_conv' fun_eq_iff)

lemma pc_value_None: "map_of kv k = None \<longleftrightarrow> pc_value kv k = None"
  by (simp add: pc_value_def)

text \<open>The table keeps the contract for keys without a percent sign when no statement fails; \<open>now\<close> is
  the time of the operations.\<close>

definition pc_key_ok :: "string \<Rightarrow> bool" where
  "pc_key_ok k \<longleftrightarrow> CHR ''%'' \<notin> set k"

definition pc_put :: "go_time \<Rightarrow> string \<Rightarrow> string \<Rightarrow> pcache \<Rightarrow> pcache" where
  "pc_put now k v kv = snd (PCacheUpsert None now k v False kv)"

definition pc_add :: "go_time \<Rightarrow> string \<Rightarrow> string \<Rightarrow> pcache \<Rightarrow> pcache option" where
  "pc_add now k v kv = (case PCacheUpsert None now k v True kv of (None, kv') \<Rightarrow> Some kv' | _ \<Rightarrow> None)"

definition pc_remove :: "string \<Rightarrow> pcache \<Rightarrow> pcache" where
  "pc_remove k kv = snd (PCacheDelete None k kv)"

definition pc_swap :: "go_time \<Rightarrow> string \<Rightarrow> string \<Rightarrow> string \<Rightarrow> pcache \<Rightarrow> bool \<times> pcache" where
  "pc_swap now k old new kv =
     (case PCacheCompareAndSwap None now k old new kv of (r, kv') \<Rightarrow> (r = Inr True, kv'))"

lemma pc_value_Some: "pc_value kv k = Some v \<longleftrightarrow> (\<exists>t. map_of kv k = Some (t, v))"
  by (auto simp: pc_value_def)

interpretation pc: kv_store pc_key_ok pc_value "pc_put now" "pc_add now" pc_remove "pc_swap now" for now
proof unfold_locales
  show "pc_value (pc_put now k v s) = (pc_value s)(k \<mapsto> v)" if "pc_key_ok k" for k v s
    using that by (simp add: pc_put_def PCacheUpsert_def pc_key_ok_def)
  show "pc_add now k v s = (if pc_value s k = None then Some (pc_put now k v s) else None)"
    if "pc_key_ok k" for k v s
    using that by (simp add: pc_add_def pc_put_def PCacheUpsert_def pc_key_ok_def pc_value_None)
  show "pc_value (pc_remove k s) = (pc_value s)(k := None)" for k s
    by (simp add: pc_remove_def PCacheDelete_def)
  show "pc_swap now k old new s = (False, s)" if "pc_value s k \<noteq> Some old" for s k old new
    using that by (auto simp: pc_swap_def PCacheCompareAndSwap_def pc_value_def split: option.splits)
  show "pc_value (snd (pc_swap now k old new s)) = (pc_value s)(k \<mapsto> new)"
    if "pc_value s k = Some old" for s k old new
    using that by (auto simp: pc_swap_def PCacheCompareAndSwap_def pc_value_Some)
  show "fst (pc_swap now k old new s)" if "pc_value s k = Some old" "old \<noteq> new" for s k old new
    using that by (auto simp: pc_swap_def PCacheCompareAndSwap_def pc_value_Some)
qed

section \<open>Operations with failures\<close>

lemma PCacheUpsert_value:
  "PCacheUpsert f now k v d kv = (r, kv') \<Longrightarrow>
     if r = None then pc_value kv' = (pc_value kv)(k \<mapsto> v) \<and> (d \<longrightarrow> pc_value kv k = None) else kv' = kv"
  by (auto simp: PCacheUpsert_def pc_value_None split: if_splits option.splits)

lemma PCacheDelete_value:
  "PCacheDelete f k kv = (r, kv') \<Longrightarrow>
     if r = None then pc_value kv' = (pc_value kv)(k := None) else kv' = kv"
  by (auto simp: PCacheDelete_def split: option.splits)

lemma PCacheCompareAndSwap_value:
  assumes "PCacheCompareAndSwap f now k old new kv = (r, kv')"
  shows "if f = None \<and> pc_value kv k = Some old then pc_value kv' = (pc_value kv)(k \<mapsto> new) \<and> (old \<noteq> new \<longrightarrow> r = Inr True)
    else kv' = kv \<and> r \<noteq> Inr True"
  using assms by (auto simp: PCacheCompareAndSwap_def pc_value_Some pc_value_def split: option.splits if_splits)

text \<open>A listing returns entries of the table whose key starts with the prefix.\<close>

lemma sql_like_percent: "sql_like ''%'' s"
  by (induction s) simp_all

lemma sql_like_prefix:
  assumes "CHR ''%'' \<notin> set p" "CHR ''_'' \<notin> set p" "CHR 0x5c \<notin> set p"
  shows "sql_like (p @ ''%'') s \<longleftrightarrow> HasPrefix s p"
  using assms
proof (induction p arbitrary: s)
  case Nil
  then show ?case using sql_like_percent by (simp add: HasPrefix_def)
next
  case (Cons c p)
  then show ?case by (cases s) (auto simp: HasPrefix_def)
qed

lemma PCacheList_sound:
  assumes "PCacheList f p limit kv = Inr es" "(k, v) \<in> set es" "CHR 0x5c \<notin> set p" "distinct (map fst kv)"
  shows "HasPrefix k p \<and> pc_value kv k = Some v"
proof -
  from assms(1,2) obtain t where m: "(k, t, v) \<in> set kv" "sql_like (p @ ''%'') k"
    by (auto simp: PCacheList_def split: if_splits option.splits dest!: in_set_takeD)
  have "CHR ''%'' \<notin> set p" "CHR ''_'' \<notin> set p"
    using assms(1) by (auto simp: PCacheList_def split: if_splits)
  then show ?thesis using m assms(3,4) sql_like_prefix by (auto simp: pc_value_def)
qed

lemma PCacheList_underscore: "CHR ''_'' \<in> set p \<Longrightarrow> PCacheList f p limit kv = Inl ErrMalformed"
  by (simp add: PCacheList_def)

end
