(* ===== verification/FieldCodec.thy ===== *)
theory FieldCodec
  imports Prelude
begin

text \<open>
  A small reversible encoding of strings, numbers and flags, one after the other. It stands for the
  JSON package wherever a theorem that is stated for every decodable encoding is applied to a
  concrete one.
\<close>

fun put_str :: "string \<Rightarrow> string" where
  "put_str [] = ''e''"
| "put_str (c # s) = CHR ''s'' # c # put_str s"

fun get_str :: "string \<Rightarrow> (string \<times> string) option" where
  "get_str (m # r) =
     (if m = CHR ''e'' then Some ([], r)
      else (case r of [] \<Rightarrow> None
            | c # r' \<Rightarrow> (case get_str r' of None \<Rightarrow> None | Some (s, t) \<Rightarrow> Some (c # s, t))))"
| "get_str [] = None"

lemma get_put_str [simp]: "get_str (put_str s @ r) = Some (s, r)"
  by (induction s) auto

definition put_int :: "int \<Rightarrow> string" where
  "put_int i = put_str ((if i < 0 then ''n'' else ''p'') @ replicate (nat \<bar>i\<bar>) CHR ''1'')"

definition get_int :: "string \<Rightarrow> (int \<times> string) option" where
  "get_int r =
     (case get_str r of
        None \<Rightarrow> None
      | Some (s, t) \<Rightarrow>
          (case s of [] \<Rightarrow> None
           | m # ds \<Rightarrow> Some (if m = CHR ''n'' then - int (length ds) else int (length ds), t)))"

lemma get_put_int [simp]: "get_int (put_int i @ r) = Some (i, r)"
  by (simp add: put_int_def get_int_def)

definition put_bool :: "bool \<Rightarrow> string" where
  "put_bool b = (if b then ''t'' else ''f'')"

definition get_bool :: "string \<Rightarrow> (bool \<times> string) option" where
  "get_bool r = (case r of [] \<Rightarrow> None | c # t \<Rightarrow> Some (c = CHR ''t'', t))"

lemma get_put_bool [simp]: "get_bool (put_bool b @ r) = Some (b, r)"
  by (simp add: put_bool_def get_bool_def)

lemma put_str_nonempty [simp]: "put_str s \<noteq> []"
  by (cases s) auto

lemma put_int_nonempty [simp]: "put_int i \<noteq> []"
  by (simp add: put_int_def)

end
