(* ===== verification/Invites.thy ===== *)
theory Invites
  imports PCache Encoding FieldCodec
begin

text \<open>
  Invitations to group topics (\<^verbatim>\<open>internal/server/topic_invites.go\<close>): signed tokens, and the state
  kept in the persistent cache for invitations that can be revoked or used a limited number of
  times. Times are in nanoseconds.

  The HMAC and the JSON codec of the two structs are the record \<open>invite_codec\<close>; the theorems that
  need it assume that decoding inverts encoding, \<open>codec_ok\<close>. Between the read and the swap of an
  attempt other nodes may change the cache: this is the argument \<open>other\<close>.
\<close>

section \<open>Data\<close>

definition topicInviteTokenVersion :: int where "topicInviteTokenVersion = 1"
definition defaultTopicInviteTTL :: int where "defaultTopicInviteTTL = 30 * 24 * 3600 * 1000000000"
definition maxTopicInviteTTL :: int where "maxTopicInviteTTL = 365 * 24 * 3600 * 1000000000"
definition topicInviteStatePrefix :: string where "topicInviteStatePrefix = ''official-topic:invite:''"

record topicInvitePayload =
  ip_Version :: int
  ip_Topic :: string
  ip_Expires :: int
  ip_ID :: string

record topicInviteState =
  is_ID :: string
  is_Topic :: string
  is_ExpiresAt :: go_time
  is_MaxUses :: int
  is_Uses :: int
  is_Active :: bool
  is_CreatedAt :: go_time
  is_CreatedBy :: string

record invite_codec =
  ic_hmac :: "string \<Rightarrow> string \<Rightarrow> string"
  ic_salt :: string
  ic_encPayload :: "topicInvitePayload \<Rightarrow> string"
  ic_decPayload :: "string \<Rightarrow> topicInvitePayload option"
  ic_encState :: "topicInviteState \<Rightarrow> string"
  ic_decState :: "string \<Rightarrow> topicInviteState option"

definition codec_ok :: "invite_codec \<Rightarrow> bool" where
  "codec_ok cd \<longleftrightarrow> (\<forall>p. ic_decPayload cd (ic_encPayload cd p) = Some p) \<and>
     (\<forall>s. ic_decState cd (ic_encState cd s) = Some s) \<and> (\<forall>p. ic_encPayload cd p \<noteq> []) \<and>
     (\<forall>k m. ic_hmac cd k m \<noteq> [])"

definition Unix :: "go_time \<Rightarrow> int" where
  "Unix t = t div 1000000000"

section \<open>Tokens\<close>

definition topicInviteSigningKey :: "invite_codec \<Rightarrow> string option" where
  "topicInviteSigningKey cd =
     (if ic_salt cd = [] then None else Some (ic_hmac cd (ic_salt cd) ''server-chat/topic-invite/v1''))"

definition signTopicInvite :: "invite_codec \<Rightarrow> string \<Rightarrow> go_time \<Rightarrow> string \<Rightarrow> string option" where
  "signTopicInvite cd topicName expiresAt inviteID =
     (case topicInviteSigningKey cd of
        None \<Rightarrow> None
      | Some k \<Rightarrow>
          let encodedPayload = b64_encode (ic_encPayload cd
                \<lparr>ip_Version = topicInviteTokenVersion, ip_Topic = topicName,
                 ip_Expires = Unix expiresAt, ip_ID = inviteID\<rparr>)
          in Some (encodedPayload @ ''.'' @ b64_encode (ic_hmac cd k encodedPayload)))"

definition issueTopicInvite :: "invite_codec \<Rightarrow> string \<Rightarrow> go_time \<Rightarrow> string option" where
  "issueTopicInvite cd topicName expiresAt = signTopicInvite cd topicName expiresAt []"

text \<open>\<open>strings.Split(token, ".")\<close>.\<close>

fun split_dot :: "string \<Rightarrow> string list" where
  "split_dot [] = [[]]"
| "split_dot (c # s) =
     (if c = CHR ''.'' then [] # split_dot s
      else (case split_dot s of [] \<Rightarrow> [[c]] | p # ps \<Rightarrow> (c # p) # ps))"

definition parseTopicInvite ::
  "invite_codec \<Rightarrow> string \<Rightarrow> string \<Rightarrow> go_time \<Rightarrow> topicInvitePayload option \<times> bool" where
  "parseTopicInvite cd token topicName now =
     (case split_dot token of
        [p0, p1] \<Rightarrow>
          if p0 = [] \<or> p1 = [] then (None, False)
          else
            (case topicInviteSigningKey cd of
               None \<Rightarrow> (None, False)
             | Some k \<Rightarrow>
                 let (sig, bad) = b64_decode p1 in
                 if bad then (None, False)
                 else if sig \<noteq> ic_hmac cd k p0 then (None, False)
                 else
                   let (bytes, bad) = b64_decode p0 in
                   if bad then (None, False)
                   else
                     (case ic_decPayload cd bytes of
                        None \<Rightarrow> (None, False)
                      | Some payload \<Rightarrow>
                          (Some payload, ip_Version payload = topicInviteTokenVersion \<and>
                             ip_Topic payload = topicName \<and> ip_Expires payload > Unix now)))
      | _ \<Rightarrow> (None, False))"

section \<open>State in the cache\<close>

definition topicInviteStateKey :: "string \<Rightarrow> string \<Rightarrow> string" where
  "topicInviteStateKey topicName inviteID = topicInviteStatePrefix @ topicName @ '':'' @ inviteID"

text \<open>\<open>fresh\<close> is the hexadecimal text of the random bytes, \<^term>\<open>None\<close> when there are none.\<close>

definition issueManagedTopicInvite ::
  "invite_codec \<Rightarrow> db_err \<Rightarrow> string option \<Rightarrow> string \<Rightarrow> string \<Rightarrow> go_time \<Rightarrow> int \<Rightarrow> go_time \<Rightarrow> pcache \<Rightarrow>
   (store_error + string \<times> topicInviteState) \<times> pcache" where
  "issueManagedTopicInvite cd f fresh topicName createdBy expiresAt maxUses now kv =
     (if maxUses < 0 \<or> maxUses > 100000 \<or> \<not> expiresAt > now then (Inl ErrMalformed, kv)
      else
        case fresh of
          None \<Rightarrow> (Inl (ErrOther ''rand''), kv)
        | Some iid \<Rightarrow>
            let state = \<lparr>is_ID = iid, is_Topic = topicName, is_ExpiresAt = expiresAt, is_MaxUses = maxUses,
                  is_Uses = 0, is_Active = True, is_CreatedAt = now, is_CreatedBy = createdBy\<rparr>
            in case PCacheUpsert f now (topicInviteStateKey topicName iid) (ic_encState cd state) True kv of
                 (Some e, kv1) \<Rightarrow> (Inl e, kv1)
               | (None, kv1) \<Rightarrow>
                   (case signTopicInvite cd topicName expiresAt iid of
                      None \<Rightarrow> (Inl (ErrOther ''sign''),
                        snd (PCacheDelete None (topicInviteStateKey topicName iid) kv1))
                    | Some token \<Rightarrow> (Inr (token, state), kv1)))"

definition loadTopicInviteState ::
  "invite_codec \<Rightarrow> db_err \<Rightarrow> string \<Rightarrow> string \<Rightarrow> pcache \<Rightarrow> store_error + topicInviteState \<times> string" where
  "loadTopicInviteState cd f topicName inviteID kv =
     (case PCacheGet f (topicInviteStateKey topicName inviteID) kv of
        Inl e \<Rightarrow> Inl e
      | Inr raw \<Rightarrow>
          (case ic_decState cd raw of None \<Rightarrow> Inl (ErrOther ''json'') | Some state \<Rightarrow> Inr (state, raw)))"

definition validateTopicInvite ::
  "invite_codec \<Rightarrow> db_err \<Rightarrow> string \<Rightarrow> string \<Rightarrow> go_time \<Rightarrow> pcache \<Rightarrow> bool" where
  "validateTopicInvite cd f token topicName now kv =
     (case parseTopicInvite cd token topicName now of
        (Some payload, True) \<Rightarrow>
          if ip_ID payload = [] then True
          else
            (case loadTopicInviteState cd f topicName (ip_ID payload) kv of
               Inl _ \<Rightarrow> False
             | Inr (state, _) \<Rightarrow>
                 is_Active state \<and> is_ExpiresAt state > now \<and>
                 (is_MaxUses state = 0 \<or> is_Uses state < is_MaxUses state))
      | _ \<Rightarrow> False)"

text \<open>What an attempt does with the state it has read: refuse, accept without a change, or try to
  store the state with one more use.\<close>

datatype attempt = Refuse | Accept | Swap topicInviteState

definition consume_decide :: "go_time \<Rightarrow> topicInviteState \<Rightarrow> attempt" where
  "consume_decide now state =
     (if \<not> is_Active state \<or> \<not> is_ExpiresAt state > now \<or>
         (is_MaxUses state > 0 \<and> is_Uses state \<ge> is_MaxUses state) then Refuse
      else if is_MaxUses state = 0 then Accept
      else Swap (state\<lparr>is_Uses := is_Uses state + 1\<rparr>))"

text \<open>The loop: \<open>None\<close> is returned when an attempt lost its race and another one follows.\<close>

fun consume_loop ::
  "nat \<Rightarrow> (nat \<Rightarrow> pcache \<Rightarrow> pcache) \<Rightarrow> invite_codec \<Rightarrow> db_err \<Rightarrow> string \<Rightarrow> string \<Rightarrow> go_time \<Rightarrow> pcache \<Rightarrow>
   bool \<times> pcache" where
  "consume_loop 0 other cd f topicName iid now kv = (False, kv)"
| "consume_loop (Suc n) other cd f topicName iid now kv =
     (case loadTopicInviteState cd f topicName iid kv of
        Inl _ \<Rightarrow> (False, kv)
      | Inr (state, oldRaw) \<Rightarrow>
          (case consume_decide now state of
             Refuse \<Rightarrow> (False, kv)
           | Accept \<Rightarrow> (True, kv)
           | Swap state' \<Rightarrow>
               (case PCacheCompareAndSwap f now (topicInviteStateKey topicName iid) oldRaw
                       (ic_encState cd state') (other n kv) of
                  (Inl _, kv1) \<Rightarrow> (False, kv1)
                | (Inr True, kv1) \<Rightarrow> (True, kv1)
                | (Inr False, kv1) \<Rightarrow> consume_loop n other cd f topicName iid now kv1)))"

definition consumeTopicInvite ::
  "(nat \<Rightarrow> pcache \<Rightarrow> pcache) \<Rightarrow> invite_codec \<Rightarrow> db_err \<Rightarrow> string \<Rightarrow> string \<Rightarrow> go_time \<Rightarrow> pcache \<Rightarrow> bool \<times> pcache" where
  "consumeTopicInvite other cd f token topicName now kv =
     (case parseTopicInvite cd token topicName now of
        (payload, ok) \<Rightarrow>
          (case payload of
             None \<Rightarrow> (ok, kv)
           | Some p \<Rightarrow> if \<not> ok \<or> ip_ID p = [] then (ok, kv)
                       else consume_loop 8 other cd f topicName (ip_ID p) now kv))"

definition listTopicInvites ::
  "invite_codec \<Rightarrow> db_err \<Rightarrow> string \<Rightarrow> int \<Rightarrow> pcache \<Rightarrow> store_error + topicInviteState list" where
  "listTopicInvites cd f topicName limit0 kv =
     (let limit = (if limit0 \<le> 0 \<or> limit0 > 500 then 100 else limit0) in
      case PCacheList f (topicInviteStatePrefix @ topicName @ '':'') (limit * 2) kv of
        Inl e \<Rightarrow> Inl e
      | Inr entries \<Rightarrow>
          let states = List.map_filter (\<lambda>(_, raw). case ic_decState cd raw of
                 Some s \<Rightarrow> if is_Topic s = topicName then Some s else None | None \<Rightarrow> None) entries
          in Inr (take (nat limit) (sort_key (\<lambda>s. - is_CreatedAt s) states)))"

fun revoke_loop ::
  "nat \<Rightarrow> (nat \<Rightarrow> pcache \<Rightarrow> pcache) \<Rightarrow> invite_codec \<Rightarrow> db_err \<Rightarrow> go_time \<Rightarrow> string \<Rightarrow> string \<Rightarrow> pcache \<Rightarrow>
   store_error option \<times> pcache" where
  "revoke_loop 0 other cd f now topicName iid kv = (Some (ErrOther ''invite revocation conflicted''), kv)"
| "revoke_loop (Suc n) other cd f now topicName iid kv =
     (case loadTopicInviteState cd f topicName iid kv of
        Inl e \<Rightarrow> (Some e, kv)
      | Inr (state, oldRaw) \<Rightarrow>
          if \<not> is_Active state then (None, kv)
          else
            (case PCacheCompareAndSwap f now (topicInviteStateKey topicName iid) oldRaw
                    (ic_encState cd (state\<lparr>is_Active := False\<rparr>)) (other n kv) of
               (Inl e, kv1) \<Rightarrow> (Some e, kv1)
             | (Inr True, kv1) \<Rightarrow> (None, kv1)
             | (Inr False, kv1) \<Rightarrow> revoke_loop n other cd f now topicName iid kv1))"

definition revokeTopicInvite ::
  "(nat \<Rightarrow> pcache \<Rightarrow> pcache) \<Rightarrow> invite_codec \<Rightarrow> db_err \<Rightarrow> go_time \<Rightarrow> string \<Rightarrow> string \<Rightarrow> pcache \<Rightarrow>
   store_error option \<times> pcache" where
  "revokeTopicInvite other cd f now topicName iid kv = revoke_loop 8 other cd f now topicName iid kv"

definition topicInviteExpiry :: "int option \<Rightarrow> go_time \<Rightarrow> go_time" where
  "topicInviteExpiry expiresIn now =
     (let maxSeconds = maxTopicInviteTTL div 1000000000;
          ttl = (case expiresIn of
                   None \<Rightarrow> defaultTopicInviteTTL
                 | Some secs \<Rightarrow>
                     if secs > 0 then (if secs < maxSeconds then secs * 1000000000 else maxTopicInviteTTL)
                     else defaultTopicInviteTTL)
      in now + ttl)"

section \<open>Tokens are signed\<close>

lemma enc64_no_dot: "enc64 n \<noteq> CHR ''.''"
proof -
  have "\<forall>i \<in> set [0..<64]. b64_alphabet ! i \<noteq> CHR ''.''" by code_simp
  then show ?thesis by (simp add: enc64_def)
qed

lemma b64_no_dot: "CHR ''.'' \<notin> set (b64_encode s)"
  by (induction s rule: b64_encode.induct) (auto simp: Let_def enc64_no_dot [symmetric])

lemma split_dot_single: "CHR ''.'' \<notin> set s \<Longrightarrow> split_dot s = [s]"
  by (induction s) auto

lemma split_dot_append: "CHR ''.'' \<notin> set s \<Longrightarrow> split_dot (s @ ''.'' @ t) = s # split_dot t"
  by (induction s) auto

lemma b64_encode_nonempty: "b64_encode s = [] \<longleftrightarrow> s = []"
  by (cases s rule: b64_encode.cases) (auto simp: Let_def)

lemma parse_signed:
  assumes "codec_ok cd" "signTopicInvite cd topic expiresAt iid = Some token"
  shows "parseTopicInvite cd token topic' now =
      (Some \<lparr>ip_Version = 1, ip_Topic = topic, ip_Expires = Unix expiresAt, ip_ID = iid\<rparr>,
       topic = topic' \<and> Unix expiresAt > Unix now)"
proof -
  obtain k where k: "topicInviteSigningKey cd = Some k"
    using assms(2) by (auto simp: signTopicInvite_def split: option.splits)
  define p where "p = \<lparr>ip_Version = 1, ip_Topic = topic, ip_Expires = Unix expiresAt, ip_ID = iid\<rparr>"
  define e where "e = b64_encode (ic_encPayload cd p)"
  have t: "token = e @ ''.'' @ b64_encode (ic_hmac cd k e)"
    using assms(2) by (simp add: signTopicInvite_def k e_def p_def topicInviteTokenVersion_def Let_def)
  have "split_dot token = [e, b64_encode (ic_hmac cd k e)]"
    unfolding t e_def using b64_no_dot split_dot_append split_dot_single by simp
  moreover have "e \<noteq> []" "b64_encode (ic_hmac cd k e) \<noteq> []"
    using assms(1) by (simp_all add: codec_ok_def e_def b64_encode_nonempty)
  ultimately have "parseTopicInvite cd token topic' now =
      (Some p, topic = topic' \<and> Unix expiresAt > Unix now)"
    using assms(1) by (simp add: parseTopicInvite_def k b64_roundtrip codec_ok_def)
      (simp add: e_def b64_roundtrip p_def topicInviteTokenVersion_def)
  then show ?thesis by (simp add: p_def)
qed

text \<open>A token that was signed for a topic is read back with the same payload and is valid exactly
  until it expires and only for that topic; and whatever token is accepted carries the HMAC of its
  first part under the server's key.\<close>

theorem invite_token:
  assumes "codec_ok cd" "signTopicInvite cd topic expiresAt iid = Some token"
  shows "parseTopicInvite cd token topic' now =
      (Some \<lparr>ip_Version = 1, ip_Topic = topic, ip_Expires = Unix expiresAt, ip_ID = iid\<rparr>,
       topic = topic' \<and> Unix expiresAt > Unix now) \<and>
    (\<forall>forged p. parseTopicInvite cd forged topic' now = (Some p, True) \<longrightarrow>
       (\<exists>p0 p1 k. split_dot forged = [p0, p1] \<and> topicInviteSigningKey cd = Some k \<and>
          b64_decode p1 = (ic_hmac cd k p0, False)))"
  using parse_signed [OF assms]
  by (auto simp: parseTopicInvite_def Let_def split: list.splits option.splits prod.splits if_splits)

text \<open>A concrete codec.\<close>

definition ex_decPayload :: "string \<Rightarrow> topicInvitePayload option" where
  "ex_decPayload r =
     (case get_int r of None \<Rightarrow> None | Some (v, r) \<Rightarrow>
      (case get_str r of None \<Rightarrow> None | Some (t, r) \<Rightarrow>
       (case get_int r of None \<Rightarrow> None | Some (e, r) \<Rightarrow>
        (case get_str r of None \<Rightarrow> None | Some (i, r) \<Rightarrow>
          Some \<lparr>ip_Version = v, ip_Topic = t, ip_Expires = e, ip_ID = i\<rparr>))))"

definition ex_decState :: "string \<Rightarrow> topicInviteState option" where
  "ex_decState r =
     (case get_str r of None \<Rightarrow> None | Some (i, r) \<Rightarrow>
      (case get_str r of None \<Rightarrow> None | Some (t, r) \<Rightarrow>
       (case get_int r of None \<Rightarrow> None | Some (e, r) \<Rightarrow>
        (case get_int r of None \<Rightarrow> None | Some (m, r) \<Rightarrow>
         (case get_int r of None \<Rightarrow> None | Some (u, r) \<Rightarrow>
          (case get_bool r of None \<Rightarrow> None | Some (a, r) \<Rightarrow>
           (case get_int r of None \<Rightarrow> None | Some (c, r) \<Rightarrow>
            (case get_str r of None \<Rightarrow> None | Some (b, r) \<Rightarrow>
              Some \<lparr>is_ID = i, is_Topic = t, is_ExpiresAt = e, is_MaxUses = m, is_Uses = u,
                is_Active = a, is_CreatedAt = c, is_CreatedBy = b\<rparr>))))))))"

definition ex_invite_codec :: invite_codec where
  "ex_invite_codec = \<lparr>ic_hmac = (\<lambda>k m. CHR ''h'' # m), ic_salt = ''salt'',
     ic_encPayload = (\<lambda>p. put_int (ip_Version p) @ put_str (ip_Topic p) @ put_int (ip_Expires p) @ put_str (ip_ID p) @ []),
     ic_decPayload = ex_decPayload,
     ic_encState = (\<lambda>s. put_str (is_ID s) @ put_str (is_Topic s) @ put_int (is_ExpiresAt s) @ put_int (is_MaxUses s) @
        put_int (is_Uses s) @ put_bool (is_Active s) @ put_int (is_CreatedAt s) @ put_str (is_CreatedBy s) @ []),
     ic_decState = ex_decState\<rparr>"

lemma ex_codec_ok: "codec_ok ex_invite_codec"
  by (simp add: codec_ok_def ex_invite_codec_def ex_decPayload_def ex_decState_def del: append_Nil2)

theorem invite_token_witness:
  "\<exists>token. signTopicInvite ex_invite_codec ''grpA'' 5000000000 ''id1'' = Some token \<and>
     snd (parseTopicInvite ex_invite_codec token ''grpA'' 1000000000) \<and>
     \<not> snd (parseTopicInvite ex_invite_codec token ''grpB'' 1000000000)"
proof -
  obtain token where s: "signTopicInvite ex_invite_codec ''grpA'' 5000000000 ''id1'' = Some token"
    by (simp add: signTopicInvite_def topicInviteSigningKey_def ex_invite_codec_def Let_def)
  note t = conjunct1 [OF invite_token [OF ex_codec_ok s]]
  show ?thesis using s t [of "''grpA''" 1000000000] t [of "''grpB''" 1000000000] by (simp add: Unix_def)
qed

section \<open>What the nodes do with an invitation\<close>

text \<open>
  The abstract behaviour: the nodes together took \<open>n\<close> uses between two states of the cache. A use
  is one atomic change from a state that allows it; a revocation switches the state off; anything
  else leaves the entry alone.
\<close>

inductive invite_run :: "invite_codec \<Rightarrow> string \<Rightarrow> pcache \<Rightarrow> nat \<Rightarrow> pcache \<Rightarrow> bool" for cd k where
  none: "pc_value kv' k = pc_value kv k \<Longrightarrow> invite_run cd k kv 0 kv'"
| use: "\<lbrakk>invite_run cd k kv n kv1; pc_value kv1 k = Some (ic_encState cd state);
    consume_decide now state = Swap state'; pc_value kv2 k = Some (ic_encState cd state')\<rbrakk> \<Longrightarrow>
    invite_run cd k kv (Suc n) kv2"
| revoke: "\<lbrakk>invite_run cd k kv n kv1; pc_value kv1 k = Some (ic_encState cd state);
    pc_value kv2 k = Some (ic_encState cd (state\<lparr>is_Active := False\<rparr>))\<rbrakk> \<Longrightarrow>
    invite_run cd k kv n kv2"

lemma invite_run_state:
  assumes "invite_run cd k kv n kv'" "codec_ok cd" "pc_value kv k = Some (ic_encState cd st)"
    "0 < is_MaxUses st" "is_Uses st \<le> is_MaxUses st"
  shows "\<exists>st'. pc_value kv' k = Some (ic_encState cd st') \<and> is_MaxUses st' = is_MaxUses st \<and>
    is_Uses st' = is_Uses st + int n \<and> is_Uses st' \<le> is_MaxUses st \<and>
    (is_Active st' \<longrightarrow> is_Active st) \<and> (\<not> is_Active st \<longrightarrow> n = 0)"
  using assms
proof (induction rule: invite_run.induct)
  case (none kv' kv)
  then show ?case by auto
next
  case (use kv n kv1 state now state' kv2)
  have inj: "ic_encState cd a = ic_encState cd b \<Longrightarrow> a = b" for a b
    using use.prems(1) by (metis codec_ok_def option.inject)
  obtain st' where "pc_value kv1 k = Some (ic_encState cd st')" "is_MaxUses st' = is_MaxUses st"
      "is_Uses st' = is_Uses st + int n" "is_Active st' \<longrightarrow> is_Active st" "\<not> is_Active st \<longrightarrow> n = 0"
    using use by blast
  moreover from this have "st' = state" using use.hyps(2) inj by simp
  ultimately show ?case using use.hyps(3,4) use.prems(3)
    by (auto simp: consume_decide_def split: if_splits)
next
  case (revoke kv n kv1 state kv2)
  have inj: "ic_encState cd a = ic_encState cd b \<Longrightarrow> a = b" for a b
    using revoke.prems(1) by (metis codec_ok_def option.inject)
  obtain st' where "pc_value kv1 k = Some (ic_encState cd st')" "is_MaxUses st' = is_MaxUses st"
      "is_Uses st' = is_Uses st + int n" "is_Uses st' \<le> is_MaxUses st" "is_Active st' \<longrightarrow> is_Active st"
      "\<not> is_Active st \<longrightarrow> n = 0"
    using revoke by blast
  moreover from this have "st' = state" using revoke.hyps(2) inj by simp
  ultimately show ?case using revoke.hyps(3) by auto
qed

lemma invite_run_trans: "invite_run cd k b m c \<Longrightarrow> invite_run cd k a n b \<Longrightarrow> invite_run cd k a (n + m) c"
proof (induction rule: invite_run.induct)
  case (none kv' kv)
  from none(2) show ?case
  proof (cases rule: invite_run.cases)
    case none
    then show ?thesis using \<open>pc_value kv' k = pc_value kv k\<close> by (simp add: invite_run.none)
  next
    case (use n' kv1 state now state')
    then show ?thesis using \<open>pc_value kv' k = pc_value kv k\<close> invite_run.use by simp
  next
    case (revoke kv1 state)
    then show ?thesis using \<open>pc_value kv' k = pc_value kv k\<close> invite_run.revoke by simp
  qed
next
  case (use kv n' kv1 state now state' kv2)
  then show ?case using invite_run.use by (metis add_Suc_right)
next
  case (revoke kv n' kv1 state kv2)
  then show ?case using invite_run.revoke by metis
qed


text \<open>The loop that takes a use is one atomic use of that behaviour.\<close>

lemma load_Inr:
  "loadTopicInviteState cd f topic iid kv = Inr (state, raw) \<longleftrightarrow>
     f = None \<and> pc_value kv (topicInviteStateKey topic iid) = Some raw \<and> ic_decState cd raw = Some state"
  by (auto simp: loadTopicInviteState_def PCacheGet_def pc_value_def split: option.splits)

lemma consume_loop_run:
  assumes "\<And>i kv. \<exists>m. invite_run cd (topicInviteStateKey topic iid) kv m (other i kv)"
    "codec_ok cd" "consume_loop n other cd f topic iid now kv = (b, kv')"
    "pc_value kv (topicInviteStateKey topic iid) = Some (ic_encState cd st)"
    "0 < is_MaxUses st" "is_Uses st \<le> is_MaxUses st"
  shows "\<exists>m. invite_run cd (topicInviteStateKey topic iid) kv (m + (if b then 1 else 0)) kv'"
  using assms(3-6)
proof (induction n arbitrary: kv st)
  case 0
  then show ?case using invite_run.none by fastforce
next
  case (Suc n)
  let ?k = "topicInviteStateKey topic iid"
  let ?load = "loadTopicInviteState cd f topic iid kv"
  have same: "\<exists>m. invite_run cd ?k kv (m + 0) kv" using invite_run.none by fastforce
  show ?case
  proof (cases "?load")
    case (Inl e)
    then show ?thesis using Suc.prems(1) same by auto
  next
    case (Inr sr)
    obtain state raw where sr: "?load = Inr (state, raw)" using Inr by (cases sr) auto
    then have raw: "f = None" "raw = ic_encState cd state" and st: "state = st"
      using Suc.prems(2) assms(2) by (auto simp: load_Inr codec_ok_def)
    show ?thesis
    proof (cases "consume_decide now state")
      case Refuse
      then show ?thesis using Suc.prems(1) sr same by auto
    next
      case Accept
      then show ?thesis using Suc.prems(3) st by (auto simp: consume_decide_def split: if_splits)
    next
      case (Swap state')
      obtain m where m: "invite_run cd ?k kv m (other n kv)" using assms(1) by blast
      obtain r kv1 where cas: "PCacheCompareAndSwap f now ?k raw (ic_encState cd state') (other n kv) = (r, kv1)"
        by fastforce
      note v = PCacheCompareAndSwap_value [OF cas]
      have "is_Uses state' \<noteq> is_Uses state"
        using Swap by (auto simp: consume_decide_def split: if_splits)
      then have ne: "raw \<noteq> ic_encState cd state'"
        using raw(2) assms(2) by (metis codec_ok_def option.inject)
      show ?thesis
      proof (cases "pc_value (other n kv) ?k = Some raw")
        case True
        then have "r = Inr True" "pc_value kv1 ?k = Some (ic_encState cd state')"
          using v raw(1) ne by auto
        moreover from this have "b" "kv' = kv1" using Suc.prems(1) sr Swap cas by auto
        ultimately show ?thesis using invite_run.use [OF m _ Swap] True raw(2) by auto
      next
        case False
        then have "kv1 = other n kv" "r = Inr False"
          using v raw(1) cas by (auto simp: PCacheCompareAndSwap_def split: option.splits if_splits)
        then have rec: "consume_loop n other cd f topic iid now (other n kv) = (b, kv')"
          using Suc.prems(1) sr Swap cas by simp
        obtain st' where st': "pc_value (other n kv) ?k = Some (ic_encState cd st')"
            "is_MaxUses st' = is_MaxUses st" "is_Uses st' \<le> is_MaxUses st"
          using invite_run_state [OF m assms(2) Suc.prems(2-4)] by blast
        then obtain m' where "invite_run cd ?k (other n kv) (m' + (if b then 1 else 0)) kv'"
          using Suc.IH [OF rec st'(1)] Suc.prems(3) st'(2,3) by auto
        from invite_run_trans [OF this m] show ?thesis by (metis add.assoc)
      qed
    qed
  qed
qed

text \<open>The loop that consumes an invitation implements the atomic behaviour: whatever the other
  nodes do between its reads and swaps, its effect is that of their uses followed, when it reports
  success, by exactly one use of its own.\<close>

theorem consume_refines_use:
  assumes "\<forall>i kv. \<exists>m. invite_run cd (topicInviteStateKey topic iid) kv m (other i kv)" "codec_ok cd"
    "parseTopicInvite cd token topic now = (Some p, True)" "ip_ID p = iid" "iid \<noteq> []"
    "pc_value kv (topicInviteStateKey topic iid) = Some (ic_encState cd st)"
    "0 < is_MaxUses st" "is_Uses st \<le> is_MaxUses st"
    "consumeTopicInvite other cd f token topic now kv = (b, kv')"
  shows "\<exists>m. invite_run cd (topicInviteStateKey topic iid) kv (m + (if b then 1 else 0)) kv'"
proof -
  have "consume_loop 8 other cd f topic iid now kv = (b, kv')"
    using assms(3-5,9) by (simp add: consumeTopicInvite_def)
  from consume_loop_run [OF _ assms(2) this assms(6-8)] assms(1) show ?thesis by blast
qed

definition ex_state :: topicInviteState where
  "ex_state = \<lparr>is_ID = ''id1'', is_Topic = ''grpA'', is_ExpiresAt = 9000000000, is_MaxUses = 1, is_Uses = 0,
     is_Active = True, is_CreatedAt = 0, is_CreatedBy = []\<rparr>"

definition ex_cache :: pcache where
  "ex_cache = [(topicInviteStateKey ''grpA'' ''id1'', 0, ic_encState ex_invite_codec ex_state)]"

lemma ex_cache_value:
  "pc_value ex_cache (topicInviteStateKey ''grpA'' ''id1'') = Some (ic_encState ex_invite_codec ex_state)"
  by (simp add: ex_cache_def pc_value_def)

theorem consume_refines_use_witness:
  "\<exists>token m b kv'. consumeTopicInvite (\<lambda>_ kv. kv) ex_invite_codec None token ''grpA'' 1000000000 ex_cache = (b, kv') \<and>
     invite_run ex_invite_codec (topicInviteStateKey ''grpA'' ''id1'') ex_cache (m + (if b then 1 else 0)) kv'"
proof -
  obtain token where s: "signTopicInvite ex_invite_codec ''grpA'' 5000000000 ''id1'' = Some token"
    by (simp add: signTopicInvite_def topicInviteSigningKey_def ex_invite_codec_def Let_def)
  let ?p = "\<lparr>ip_Version = 1, ip_Topic = ''grpA'', ip_Expires = 5, ip_ID = ''id1''\<rparr>"
  have "parseTopicInvite ex_invite_codec token ''grpA'' 1000000000 = (Some ?p, True)"
    using parse_signed [OF ex_codec_ok s, of "''grpA''" 1000000000] by (simp add: Unix_def)
  note parsed = this
  obtain b kv' where c: "consumeTopicInvite (\<lambda>_ kv. kv) ex_invite_codec None token ''grpA'' 1000000000 ex_cache = (b, kv')"
    by fastforce
  have "\<forall>(i::nat) kv. \<exists>m. invite_run ex_invite_codec (topicInviteStateKey ''grpA'' ''id1'') kv m kv"
    using invite_run.none by blast
  moreover have "ip_ID ?p = ''id1''" "''id1'' \<noteq> []" by simp_all
  moreover have "0 < is_MaxUses ex_state" "is_Uses ex_state \<le> is_MaxUses ex_state"
    by (simp_all add: ex_state_def)
  ultimately show ?thesis
    using consume_refines_use [OF _ ex_codec_ok parsed _ _ ex_cache_value _ _ c] c by blast
qed


text \<open>Listing the invitations of a topic whose name contains an underscore always fails: topic
  names are made of URL-safe base64, which has the underscore, and the cache refuses it in a
  prefix.\<close>

theorem list_invites_underscore:
  assumes "CHR ''_'' \<in> set topic"
  shows "listTopicInvites cd f topic limit kv = Inl ErrMalformed"
  using assms by (simp add: listTopicInvites_def Let_def PCacheList_underscore)

theorem list_invites_underscore_witness:
  "listTopicInvites ex_invite_codec None ''grpA_b'' 10 ex_cache = Inl ErrMalformed"
  by (rule list_invites_underscore) simp

end
