(* ===== verification/Outbox.thy ===== *)
theory Outbox
  imports PCache Uid AccessMode FieldCodec "HOL-Library.Multiset"
begin

text \<open>
  The durable outbox of push notifications (\<^verbatim>\<open>server/push/outbox.go\<close>) over the persistent cache:
  receipts are split into jobs that fit a cache value, a worker claims a job by a swap, delivers it
  and completes, retries or buries it.

  Maps from users to recipients are association lists, in the order they are walked. The JSON codec
  of a job is \<open>enc\<close> and \<open>dec\<close>; the content of a message has an arbitrary type \<open>'c\<close>. Clock
  readings and random ids are numbered in the order they are drawn. The field
  \<open>ShouldIncrementUnreadCountInCache\<close>, which JSON leaves out, is not part of a recipient here.
\<close>

section \<open>Data\<close>

definition durableOutboxPrefix :: string where "durableOutboxPrefix = ''pushoutbox:''"
definition durableDLQPrefix :: string where "durableDLQPrefix = ''pushdlq:''"
definition durableJobMaxBytes :: nat where "durableJobMaxBytes = 57344"

record durableOutboxConfig =
  oc_BatchSize :: int
  oc_RecipientChunk :: int
  oc_MaxAttempts :: int
  oc_RetryBase :: int
  oc_MaxRetry :: int
  oc_Lease :: int

definition defaultDurableOutboxConfig :: durableOutboxConfig where
  "defaultDurableOutboxConfig = \<lparr>oc_BatchSize = 100, oc_RecipientChunk = 40, oc_MaxAttempts = 8,
     oc_RetryBase = 2000000000, oc_MaxRetry = 3600000000000, oc_Lease = 300000000000\<rparr>"

record recipient =
  rc_Delivered :: int
  rc_Devices :: "string list"
  rc_Unread :: int

record 'c push_payload =
  pl_What :: string
  pl_Silent :: bool
  pl_Topic :: string
  pl_Timestamp :: go_time
  pl_From :: string
  pl_SeqId :: int
  pl_ContentType :: string
  pl_Content :: "'c option"
  pl_Webrtc :: string
  pl_AudioOnly :: bool
  pl_Replace :: string
  pl_ModeWant :: access_mode
  pl_ModeGiven :: access_mode

record 'c receipt =
  r_To :: "(uid \<times> recipient) list"
  r_Channel :: string
  r_Payload :: "'c push_payload"

record 'c durableReceipt =
  dr_To :: "(string \<times> recipient) list"
  dr_Channel :: string
  dr_Payload :: "'c push_payload"

record 'c durableOutboxJob =
  j_Version :: int
  j_Provider :: string
  j_Receipt :: "'c durableReceipt option"
  j_Status :: string
  j_Attempts :: int
  j_CreatedAt :: go_time
  j_NextAttemptAt :: go_time
  j_LeaseOwner :: string
  j_LeaseUntil :: go_time
  j_LastError :: string

record durableOutbox =
  ob_provider :: string
  ob_config :: durableOutboxConfig
  ob_owner :: string

record 'c job_codec =
  enc :: "'c durableOutboxJob \<Rightarrow> string option"
  dec :: "string \<Rightarrow> 'c durableOutboxJob option"

definition job_codec_ok :: "'c job_codec \<Rightarrow> bool" where
  "job_codec_ok cd \<longleftrightarrow> (\<forall>j raw. enc cd j = Some raw \<longrightarrow> dec cd raw = Some j)"

definition newDurableReceipt :: "'c receipt \<Rightarrow> 'c durableReceipt" where
  "newDurableReceipt r = \<lparr>dr_To = map (\<lambda>(u, rc). (uid_String u, rc)) (r_To r),
     dr_Channel = r_Channel r, dr_Payload = r_Payload r\<rparr>"

fun runtime_to :: "(string \<times> recipient) list \<Rightarrow> (uid \<times> recipient) list \<Rightarrow> (uid \<times> recipient) list option" where
  "runtime_to [] acc = Some acc"
| "runtime_to ((encoded, rc) # rest) acc =
     (case uid_UnmarshalText ZeroUid encoded of
        (e, u) \<Rightarrow> if e \<noteq> None \<or> uid_IsZero u then None
                 else runtime_to rest (AList.update u rc acc))"

definition runtimeReceipt :: "'c durableReceipt \<Rightarrow> 'c receipt option" where
  "runtimeReceipt dr =
     (case runtime_to (dr_To dr) [] of
        None \<Rightarrow> None
      | Some to \<Rightarrow> Some \<lparr>r_To = to, r_Channel = dr_Channel dr, r_Payload = dr_Payload dr\<rparr>)"

definition newDurableOutbox :: "string \<Rightarrow> durableOutboxConfig \<Rightarrow> string \<Rightarrow> durableOutbox" where
  "newDurableOutbox provider0 config randomID =
     (let provider = ToLower (TrimSpace provider0) in
      \<lparr>ob_provider = provider, ob_config = config, ob_owner = provider @ ''-'' @ randomID\<rparr>)"

definition cloneReceiptForUsers :: "'c receipt \<Rightarrow> uid list \<Rightarrow> 'c receipt" where
  "cloneReceiptForUsers source uids =
     source\<lparr>r_To := map (\<lambda>u. (u, case map_of (r_To source) u of Some rc \<Rightarrow> rc
        | None \<Rightarrow> \<lparr>rc_Delivered = 0, rc_Devices = [], rc_Unread = 0\<rparr>)) uids\<rparr>"

section \<open>Enqueueing\<close>

text \<open>The clock and the random ids, and the error of the upsert of each key.\<close>

record outbox_env =
  clk :: "nat \<Rightarrow> go_time"
  rnd :: "nat \<Rightarrow> string"
  stamp :: "go_time \<Rightarrow> string"
  upfail :: "string \<Rightarrow> db_err"
  delfail :: "string \<Rightarrow> db_err"

definition outbox_key :: "durableOutbox \<Rightarrow> outbox_env \<Rightarrow> nat \<Rightarrow> string" where
  "outbox_key ob ev n =
     durableOutboxPrefix @ ob_provider ob @ '':'' @ stamp ev (clk ev n) @ '':'' @ rnd ev n"

definition delete_keys :: "outbox_env \<Rightarrow> string list \<Rightarrow> pcache \<Rightarrow> pcache" where
  "delete_keys ev ks kv = foldl (\<lambda>kv k. snd (PCacheDelete (delfail ev k) k kv)) kv ks"

definition new_job :: "durableOutbox \<Rightarrow> go_time \<Rightarrow> 'c receipt \<Rightarrow> 'c durableOutboxJob" where
  "new_job ob now r = \<lparr>j_Version = 1, j_Provider = ob_provider ob, j_Receipt = Some (newDurableReceipt r),
     j_Status = ''queued'', j_Attempts = 0, j_CreatedAt = now, j_NextAttemptAt = now,
     j_LeaseOwner = [], j_LeaseUntil = 0, j_LastError = []\<rparr>"

definition drop_content :: "'c durableOutboxJob \<Rightarrow> 'c durableOutboxJob" where
  "drop_content job = job\<lparr>j_Receipt := map_option
     (\<lambda>dr. dr\<lparr>dr_Payload := (dr_Payload dr)\<lparr>pl_Content := None\<rparr>\<rparr>) (j_Receipt job)\<rparr>"

text \<open>The encoded job, without the content when it is too long with it.\<close>

definition encode_job :: "'c job_codec \<Rightarrow> 'c durableOutboxJob \<Rightarrow> string option" where
  "encode_job cd job =
     (case enc cd job of
        None \<Rightarrow> None
      | Some raw \<Rightarrow> if length raw > durableJobMaxBytes then enc cd (drop_content job) else Some raw)"

type_synonym persist_result = "(store_error option \<times> string list) \<times> nat \<times> pcache"

function persistReceipt ::
  "'c job_codec \<Rightarrow> durableOutbox \<Rightarrow> outbox_env \<Rightarrow> 'c receipt \<Rightarrow> nat \<Rightarrow> pcache \<Rightarrow> persist_result" where
  "persistReceipt cd ob ev r n kv =
     (case encode_job cd (new_job ob (clk ev n) r) of
        None \<Rightarrow> ((Some (ErrOther ''json''), []), n + 1, kv)
      | Some raw \<Rightarrow>
          if length raw > durableJobMaxBytes \<and> length (r_To r) > 1 then
            (let uids = sort (map fst (r_To r));
                 middle = length uids div 2;
                 left = persistReceipt cd ob ev (cloneReceiptForUsers r (take middle uids)) (n + 1) kv
             in case left of ((leftErr, leftKeys), n1, kv1) \<Rightarrow>
                  if leftErr \<noteq> None then ((leftErr, leftKeys), n1, kv1)
                  else
                    (case persistReceipt cd ob ev (cloneReceiptForUsers r (drop middle uids)) n1 kv1 of
                       ((rightErr, rightKeys), n2, kv2) \<Rightarrow>
                         if rightErr \<noteq> None then ((rightErr, rightKeys), n2, delete_keys ev leftKeys kv2)
                         else ((None, leftKeys @ rightKeys), n2, kv2)))
          else if length raw > durableJobMaxBytes then ((Some (ErrOther ''too large''), []), n + 1, kv)
          else
            (let k = outbox_key ob ev n in
             case PCacheUpsert (upfail ev k) (clk ev n) k raw True kv of
               (Some e, kv1) \<Rightarrow> ((Some e, []), n + 1, kv1)
             | (None, kv1) \<Rightarrow> ((None, [k]), n + 1, kv1)))"
  by pat_completeness auto
termination
  by (relation "measure (\<lambda>(cd, ob, ev, r, n, kv). length (r_To r))")
    (auto simp: cloneReceiptForUsers_def)

declare persistReceipt.simps [simp del]

fun enqueue_chunks ::
  "nat \<Rightarrow> 'c job_codec \<Rightarrow> durableOutbox \<Rightarrow> outbox_env \<Rightarrow> 'c receipt \<Rightarrow> uid list \<Rightarrow> string list \<Rightarrow> nat \<Rightarrow> pcache \<Rightarrow>
   store_error option \<times> string list \<times> pcache" where
  "enqueue_chunks chunkSize cd ob ev r uids created n kv =
     (if uids = [] \<or> chunkSize = 0 then (None, created, kv)
      else
        case persistReceipt cd ob ev (cloneReceiptForUsers r (take chunkSize uids)) n kv of
          ((err, ks), n1, kv1) \<Rightarrow>
            if err \<noteq> None then (err, [], delete_keys ev (created @ ks) kv1)
            else enqueue_chunks chunkSize cd ob ev r (drop chunkSize uids) (created @ ks) n1 kv1)"

declare enqueue_chunks.simps [simp del]

definition Enqueue ::
  "'c job_codec \<Rightarrow> durableOutbox \<Rightarrow> outbox_env \<Rightarrow> 'c receipt \<Rightarrow> pcache \<Rightarrow> store_error option \<times> string list \<times> pcache" where
  "Enqueue cd ob ev r kv =
     (if ob_provider ob = [] then (Some (ErrOther ''push outbox is not initialized''), [], kv)
      else if r_To r = [] \<and> r_Channel r = [] then (None, [], kv)
      else if r_To r = [] then
        (case persistReceipt cd ob ev (cloneReceiptForUsers r []) 0 kv of
           ((err, ks), _, kv1) \<Rightarrow> (err, ks, kv1))
      else
        let uids = sort (map fst (r_To r));
            chunk = oc_RecipientChunk (ob_config ob);
            chunkSize = nat (if chunk \<le> 0 then 40 else chunk)
        in enqueue_chunks chunkSize cd ob ev r uids [] 0 kv)"

section \<open>Delivery\<close>

text \<open>The errors of the statements of one pass.\<close>

datatype outbox_call = CallDelete | CallBury | CallBuryDelete | CallClaim | CallFinish

type_synonym call_faults = "outbox_call \<Rightarrow> db_err"

text \<open>An error of the provider: its text and whether retrying cannot help.\<close>

record delivery_error =
  de_text :: string
  de_permanent :: bool

definition dlq_key :: "string \<Rightarrow> string \<Rightarrow> string" where
  "dlq_key provider k =
     durableDLQPrefix @ provider @ '':'' @ TrimPrefix k (durableOutboxPrefix @ provider @ '':'')"

definition movePushDeadLetter ::
  "call_faults \<Rightarrow> go_time \<Rightarrow> string \<Rightarrow> string \<Rightarrow> string \<Rightarrow> pcache \<Rightarrow> db_err \<times> pcache" where
  "movePushDeadLetter f now provider k raw kv =
     (case PCacheUpsert (f CallBury) now (dlq_key provider k) raw False kv of
        (Some e, kv1) \<Rightarrow> (Some e, kv1)
      | (None, kv1) \<Rightarrow> PCacheDelete (f CallBuryDelete) k kv1)"

definition truncatePushError :: "string \<Rightarrow> string" where
  "truncatePushError value = (if length value \<le> 2048 then value else take 2048 value)"

fun retry_loop :: "nat \<Rightarrow> int \<Rightarrow> int \<Rightarrow> int" where
  "retry_loop 0 maxRetry delay = delay"
| "retry_loop (Suc n) maxRetry delay =
     (if delay < maxRetry then retry_loop n maxRetry (delay * 2) else delay)"

text \<open>The counter of the loop is the number of turns left, \<open>attempt - current\<close>.\<close>

definition retryDelay :: "durableOutboxConfig \<Rightarrow> int \<Rightarrow> int" where
  "retryDelay config attempt =
     (let delay = retry_loop (nat (attempt - 1)) (oc_MaxRetry config) (oc_RetryBase config) in
      if delay > oc_MaxRetry config then oc_MaxRetry config else delay)"

definition finishDelivery ::
  "'c job_codec \<Rightarrow> durableOutbox \<Rightarrow> call_faults \<Rightarrow> go_time \<Rightarrow> string \<Rightarrow> string \<Rightarrow> 'c durableOutboxJob \<Rightarrow>
   delivery_error option \<Rightarrow> pcache \<Rightarrow> (bool \<times> db_err) \<times> pcache" where
  "finishDelivery cd ob f now k claimedRaw claimed deliveryErr kv =
     (case deliveryErr of
        None \<Rightarrow>
          (case enc cd (claimed\<lparr>j_Status := ''completed'', j_LeaseOwner := [], j_LeaseUntil := 0\<rparr>) of
             None \<Rightarrow> ((True, Some (ErrOther ''json'')), kv)
           | Some completedRaw \<Rightarrow>
               (case PCacheCompareAndSwap (f CallFinish) now k claimedRaw completedRaw kv of
                  (Inl e, kv1) \<Rightarrow> ((True, Some e), kv1)
                | (Inr False, kv1) \<Rightarrow> ((True, None), kv1)
                | (Inr True, kv1) \<Rightarrow> (case PCacheDelete (f CallDelete) k kv1 of (e, kv2) \<Rightarrow> ((True, e), kv2))))
      | Some err \<Rightarrow>
          let c = claimed\<lparr>j_LastError := truncatePushError (de_text err), j_LeaseOwner := [], j_LeaseUntil := 0\<rparr> in
          if de_permanent err \<or> j_Attempts c \<ge> oc_MaxAttempts (ob_config ob) then
            (case enc cd (c\<lparr>j_Status := ''dead''\<rparr>) of
               None \<Rightarrow> ((True, Some (ErrOther ''json'')), kv)
             | Some deadRaw \<Rightarrow>
                 (case PCacheCompareAndSwap (f CallFinish) now k claimedRaw deadRaw kv of
                    (Inl e, kv1) \<Rightarrow> ((True, Some e), kv1)
                  | (Inr False, kv1) \<Rightarrow> ((True, None), kv1)
                  | (Inr True, kv1) \<Rightarrow>
                      (case movePushDeadLetter f now (ob_provider ob) k deadRaw kv1 of
                         (e, kv2) \<Rightarrow> ((True, e), kv2))))
          else
            (case enc cd (c\<lparr>j_Status := ''queued'', j_NextAttemptAt := now + retryDelay (ob_config ob) (j_Attempts c)\<rparr>) of
               None \<Rightarrow> ((True, Some (ErrOther ''json'')), kv)
             | Some retryRaw \<Rightarrow>
                 (case PCacheCompareAndSwap (f CallFinish) now k claimedRaw retryRaw kv of
                    (Inl e, kv1) \<Rightarrow> ((True, Some e), kv1)
                  | (Inr _, kv1) \<Rightarrow> ((True, None), kv1))))"

text \<open>The first half of \<open>processEntry\<close>: it either settles the entry or claims it.\<close>

datatype 'c claim = Settled "bool \<times> db_err" | Claimed "'c durableOutboxJob" "'c durableReceipt" string

definition claimEntry ::
  "'c job_codec \<Rightarrow> durableOutbox \<Rightarrow> call_faults \<Rightarrow> go_time \<Rightarrow> string \<Rightarrow> string \<Rightarrow> pcache \<Rightarrow> 'c claim \<times> pcache" where
  "claimEntry cd ob f now k raw kv =
     (case dec cd raw of
        None \<Rightarrow> (case movePushDeadLetter f now (ob_provider ob) k raw kv of
                  (e, kv1) \<Rightarrow> (Settled (e = None, e), kv1))
      | Some job \<Rightarrow>
          (case j_Receipt job of
             None \<Rightarrow> (case movePushDeadLetter f now (ob_provider ob) k raw kv of
                       (e, kv1) \<Rightarrow> (Settled (e = None, e), kv1))
           | Some dr \<Rightarrow>
               if j_Status job = ''completed'' then
                 (case PCacheDelete (f CallDelete) k kv of (e, kv1) \<Rightarrow> (Settled (True, e), kv1))
               else if j_Status job = ''dead'' then
                 (case movePushDeadLetter f now (ob_provider ob) k raw kv of
                    (e, kv1) \<Rightarrow> (Settled (True, e), kv1))
               else if j_NextAttemptAt job > now \<or> (j_Status job = ''leased'' \<and> j_LeaseUntil job > now)
               then (Settled (False, None), kv)
               else
                 let claimed = job\<lparr>j_Status := ''leased'', j_Attempts := j_Attempts job + 1,
                       j_LeaseOwner := ob_owner ob, j_LeaseUntil := now + oc_Lease (ob_config ob)\<rparr>
                 in case enc cd claimed of
                      None \<Rightarrow> (Settled (False, Some (ErrOther ''json'')), kv)
                    | Some claimedRaw \<Rightarrow>
                        (case PCacheCompareAndSwap (f CallClaim) now k raw claimedRaw kv of
                           (Inl e, kv1) \<Rightarrow> (Settled (False, Some e), kv1)
                         | (Inr False, kv1) \<Rightarrow> (Settled (False, None), kv1)
                         | (Inr True, kv1) \<Rightarrow> (Claimed claimed dr claimedRaw, kv1))))"

text \<open>\<open>deliver\<close> is the provider's function; \<open>other\<close> is what other nodes do to the cache while it runs.\<close>

definition processEntry ::
  "'c job_codec \<Rightarrow> durableOutbox \<Rightarrow> call_faults \<Rightarrow> ('c receipt \<Rightarrow> delivery_error option) \<Rightarrow> (pcache \<Rightarrow> pcache) \<Rightarrow>
   go_time \<Rightarrow> string \<Rightarrow> string \<Rightarrow> pcache \<Rightarrow> (bool \<times> db_err) \<times> pcache" where
  "processEntry cd ob f deliver other now k raw kv =
     (case claimEntry cd ob f now k raw kv of
        (Settled res, kv1) \<Rightarrow> (res, kv1)
      | (Claimed claimed dr claimedRaw, kv1) \<Rightarrow>
          let deliveryErr = (case runtimeReceipt dr of
                None \<Rightarrow> Some \<lparr>de_text = ''invalid durable push uid'', de_permanent = True\<rparr>
              | Some r \<Rightarrow> deliver r)
          in finishDelivery cd ob f now k claimedRaw claimed deliveryErr (other kv1))"

fun process_loop ::
  "'c job_codec \<Rightarrow> durableOutbox \<Rightarrow> call_faults \<Rightarrow> ('c receipt \<Rightarrow> delivery_error option) \<Rightarrow> (pcache \<Rightarrow> pcache) \<Rightarrow>
   go_time \<Rightarrow> (string \<times> string) list \<Rightarrow> int \<Rightarrow> pcache \<Rightarrow> int \<times> pcache" where
  "process_loop cd ob f deliver other now [] processed kv = (processed, kv)"
| "process_loop cd ob f deliver other now ((k, raw) # es) processed kv =
     (case processEntry cd ob f deliver other now k raw kv of
        ((didProcess, err), kv1) \<Rightarrow>
          process_loop cd ob f deliver other now es
            (if err = None \<and> didProcess then processed + 1 else processed) kv1)"

definition processAvailable ::
  "'c job_codec \<Rightarrow> durableOutbox \<Rightarrow> call_faults \<Rightarrow> db_err \<Rightarrow> ('c receipt \<Rightarrow> delivery_error option) \<Rightarrow> (pcache \<Rightarrow> pcache) \<Rightarrow>
   go_time \<Rightarrow> pcache \<Rightarrow> (store_error + int) \<times> pcache" where
  "processAvailable cd ob f listErr deliver other now kv =
     (case PCacheList listErr (durableOutboxPrefix @ ob_provider ob @ '':'') (oc_BatchSize (ob_config ob)) kv of
        Inl e \<Rightarrow> (Inl e, kv)
      | Inr entries \<Rightarrow>
          (case process_loop cd ob f deliver other now entries 0 kv of (n, kv1) \<Rightarrow> (Inr n, kv1)))"

section \<open>Administration of dead letters\<close>

definition provider_char_ok :: "char \<Rightarrow> bool" where
  "provider_char_ok c = (let n = (of_char c :: nat) in
     (97 \<le> n \<and> n \<le> 122) \<or> (48 \<le> n \<and> n \<le> 57) \<or> c = CHR ''-'' \<or> c = CHR ''_'')"

definition normalizeDurableProvider :: "string \<Rightarrow> string option" where
  "normalizeDurableProvider provider0 =
     (let provider = ToLower (TrimSpace provider0) in
      if provider = [] \<or> length provider > 32 then None
      else if list_all provider_char_ok provider then Some provider else None)"

fun has_dotdot :: "string \<Rightarrow> bool" where
  "has_dotdot (a # b # s) = (a = CHR ''.'' \<and> b = CHR ''.'' \<or> has_dotdot (b # s))"
| "has_dotdot s = False"

definition durableDeadLetterKeys :: "string \<Rightarrow> string \<Rightarrow> (string \<times> string) option" where
  "durableDeadLetterKeys provider id0 =
     (let i = TrimSpace id0 in
      if i = [] \<or> CHR ''/'' \<in> set i \<or> CHR 0x5c \<in> set i \<or> has_dotdot i then None
      else Some (durableDLQPrefix @ provider @ '':'' @ i, durableOutboxPrefix @ provider @ '':'' @ i))"

record durableDeadLetter =
  dl_ID :: string
  dl_Provider :: string
  dl_Status :: string
  dl_Attempts :: int
  dl_CreatedAt :: go_time
  dl_LastError :: string
  dl_What :: string
  dl_Topic :: string
  dl_Channel :: string
  dl_Recipients :: int

definition durableDeadLetterFromRaw :: "'c job_codec \<Rightarrow> string \<Rightarrow> string \<Rightarrow> string \<Rightarrow> durableDeadLetter option" where
  "durableDeadLetterFromRaw cd provider k raw =
     (case dec cd raw of
        None \<Rightarrow> None
      | Some job \<Rightarrow>
          (case j_Receipt job of
             None \<Rightarrow> None
           | Some dr \<Rightarrow> Some \<lparr>dl_ID = TrimPrefix k (durableDLQPrefix @ provider @ '':''), dl_Provider = provider,
               dl_Status = j_Status job, dl_Attempts = j_Attempts job, dl_CreatedAt = j_CreatedAt job,
               dl_LastError = j_LastError job, dl_What = pl_What (dr_Payload dr),
               dl_Topic = pl_Topic (dr_Payload dr), dl_Channel = dr_Channel dr,
               dl_Recipients = int (length (dr_To dr))\<rparr>))"

definition ListDurableDeadLetters ::
  "'c job_codec \<Rightarrow> db_err \<Rightarrow> string \<Rightarrow> int \<Rightarrow> pcache \<Rightarrow> store_error + durableDeadLetter list" where
  "ListDurableDeadLetters cd f provider0 limit0 kv =
     (case normalizeDurableProvider provider0 of
        None \<Rightarrow> Inl (ErrOther ''invalid push provider'')
      | Some provider \<Rightarrow>
          let limit = (if limit0 \<le> 0 then 100 else limit0); limit = (if limit > 500 then 500 else limit) in
          case PCacheList f (durableDLQPrefix @ provider @ '':'') limit kv of
            Inl e \<Rightarrow> Inl e
          | Inr entries \<Rightarrow>
              let letters = map (\<lambda>(k, raw). case durableDeadLetterFromRaw cd provider k raw of
                    Some letter \<Rightarrow> letter
                  | None \<Rightarrow> \<lparr>dl_ID = TrimPrefix k (durableDLQPrefix @ provider @ '':''), dl_Provider = provider,
                      dl_Status = ''corrupt'', dl_Attempts = 0, dl_CreatedAt = 0,
                      dl_LastError = ''corrupt push dead letter'', dl_What = [], dl_Topic = [], dl_Channel = [],
                      dl_Recipients = 0\<rparr>) entries
              in Inr (sort_key (\<lambda>l. - dl_CreatedAt l) letters))"

record durableOutboxStats =
  os_Provider :: string
  os_Queued :: int
  os_Leased :: int
  os_Dead :: int
  os_Total :: int
  os_DLQ :: int
  os_Alert :: string
  os_OldestDLQ :: "go_time option"
  os_Truncated :: bool

definition GetDurableOutboxStats ::
  "'c job_codec \<Rightarrow> db_err \<Rightarrow> db_err \<Rightarrow> string \<Rightarrow> pcache \<Rightarrow> store_error + durableOutboxStats" where
  "GetDurableOutboxStats cd f1 f2 provider0 kv =
     (let provider = ToLower (TrimSpace provider0); limit = 10000 in
      case PCacheList f1 (durableOutboxPrefix @ provider @ '':'') limit kv of
        Inl e \<Rightarrow> Inl e
      | Inr entries \<Rightarrow>
          let status = (\<lambda>raw. case dec cd raw of None \<Rightarrow> ''dead'' | Some job \<Rightarrow> j_Status job);
              leased = filter (\<lambda>(_, raw). status raw = ''leased'') entries;
              dead = filter (\<lambda>(_, raw). status raw = ''dead'') entries;
              queued = filter (\<lambda>(_, raw). status raw \<noteq> ''leased'' \<and> status raw \<noteq> ''dead'') entries
          in case PCacheList f2 (durableDLQPrefix @ provider @ '':'') limit kv of
               Inl e \<Rightarrow> Inl e
             | Inr dlq \<Rightarrow>
                 let times = filter (\<lambda>t. t \<noteq> 0) (List.map_filter (\<lambda>(_, raw). map_option j_CreatedAt (dec cd raw)) dlq)
                 in Inr \<lparr>os_Provider = provider, os_Queued = int (length queued), os_Leased = int (length leased),
                   os_Dead = int (length dead), os_Total = int (length entries), os_DLQ = int (length dlq),
                   os_Alert = (if length dlq \<ge> 100 then ''critical'' else if length dlq > 0 then ''warning'' else ''ok''),
                   os_OldestDLQ = (case times of [] \<Rightarrow> None | t # ts \<Rightarrow> Some (foldl min t ts)),
                   os_Truncated = (int (length entries) = limit \<or> int (length dlq) = limit)\<rparr>)"

datatype replay_call = ReplayGet | ReplayUpsert | ReplayDelete

definition ReplayDurableDeadLetter ::
  "'c job_codec \<Rightarrow> (replay_call \<Rightarrow> db_err) \<Rightarrow> go_time \<Rightarrow> string \<Rightarrow> string \<Rightarrow> pcache \<Rightarrow>
   (store_error + durableDeadLetter) \<times> pcache" where
  "ReplayDurableDeadLetter cd f now provider0 id0 kv =
     (case normalizeDurableProvider provider0 of
        None \<Rightarrow> (Inl (ErrOther ''invalid push provider''), kv)
      | Some provider \<Rightarrow>
          (case durableDeadLetterKeys provider id0 of
             None \<Rightarrow> (Inl (ErrOther ''invalid push dead letter id''), kv)
           | Some (dlqKey, outboxKey) \<Rightarrow>
               (case PCacheGet (f ReplayGet) dlqKey kv of
                  Inl e \<Rightarrow> (Inl e, kv)
                | Inr raw \<Rightarrow>
                    (case (durableDeadLetterFromRaw cd provider dlqKey raw, dec cd raw) of
                       (Some letter, Some job) \<Rightarrow>
                         (case enc cd (job\<lparr>j_Status := ''queued'', j_Attempts := 0, j_NextAttemptAt := now,
                                 j_LeaseOwner := [], j_LeaseUntil := 0, j_LastError := []\<rparr>) of
                            None \<Rightarrow> (Inl (ErrOther ''json''), kv)
                          | Some replayed \<Rightarrow>
                              (case PCacheUpsert (f ReplayUpsert) now outboxKey replayed True kv of
                                 (e1, kv1) \<Rightarrow>
                                   if e1 \<noteq> None \<and> e1 \<noteq> Some ErrDuplicate then (Inl (the e1), kv1)
                                   else
                                     (case PCacheDelete (f ReplayDelete) dlqKey kv1 of
                                        (Some e, kv2) \<Rightarrow> (Inl e, kv2)
                                      | (None, kv2) \<Rightarrow> (Inr letter, kv2))))
                     | _ \<Rightarrow> (Inl (ErrOther ''corrupt push dead letter''), kv)))))"

definition DeleteDurableDeadLetter ::
  "(replay_call \<Rightarrow> db_err) \<Rightarrow> string \<Rightarrow> string \<Rightarrow> pcache \<Rightarrow> store_error option \<times> pcache" where
  "DeleteDurableDeadLetter f provider0 id0 kv =
     (case normalizeDurableProvider provider0 of
        None \<Rightarrow> (Some (ErrOther ''invalid push provider''), kv)
      | Some provider \<Rightarrow>
          (case durableDeadLetterKeys provider id0 of
             None \<Rightarrow> (Some (ErrOther ''invalid push dead letter id''), kv)
           | Some (dlqKey, _) \<Rightarrow>
               (case PCacheGet (f ReplayGet) dlqKey kv of
                  Inl e \<Rightarrow> (Some e, kv)
                | Inr _ \<Rightarrow> PCacheDelete (f ReplayDelete) dlqKey kv)))"


section \<open>Receipts survive their encoding\<close>

lemma update_fresh: "k \<notin> fst ` set acc \<Longrightarrow> AList.update k v acc = acc @ [(k, v)]"
  by (induction acc) auto

lemma runtime_to_roundtrip:
  assumes "distinct (map fst to)" "ZeroUid \<notin> fst ` set to" "fst ` set to \<inter> fst ` set acc = {}"
  shows "runtime_to (map (\<lambda>(u, rc). (uid_String u, rc)) to) acc = Some (acc @ to)"
  using assms
proof (induction to arbitrary: acc)
  case (Cons x to)
  obtain u rc where x: "x = (u, rc)" by (cases x)
  have "uid_UnmarshalText ZeroUid (uid_String u) = (None, u)"
    using Cons.prems(2) x UnmarshalText_uid_MarshalText by (auto simp: uid_String_def ZeroUid_def)
  then show ?case using Cons x
    by (simp add: uid_IsZero_def update_fresh image_iff) (auto simp: image_iff)
qed simp

lemma runtimeReceipt_roundtrip:
  assumes "distinct (map fst (r_To r))" "ZeroUid \<notin> fst ` set (r_To r)"
  shows "runtimeReceipt (newDurableReceipt r) = Some r"
  using runtime_to_roundtrip [OF assms, of "[]"] by (simp add: runtimeReceipt_def newDurableReceipt_def)

section \<open>Enqueueing is complete and atomic\<close>

definition job_users :: "'c job_codec \<Rightarrow> pcache \<Rightarrow> string \<Rightarrow> string list" where
  "job_users cd kv k =
     (case pc_value kv k of None \<Rightarrow> [] | Some raw \<Rightarrow>
      (case dec cd raw of None \<Rightarrow> [] | Some job \<Rightarrow>
       (case j_Receipt job of None \<Rightarrow> [] | Some dr \<Rightarrow> map fst (dr_To dr))))"

text \<open>The keys \<open>ks\<close> are new queued jobs of allowed size, nothing else changed, and together they are
  addressed to the users \<open>us\<close>, each once.\<close>

definition persisted :: "'c job_codec \<Rightarrow> pcache \<Rightarrow> pcache \<Rightarrow> string list \<Rightarrow> uid list \<Rightarrow> bool" where
  "persisted cd kv kv' ks us \<longleftrightarrow> distinct ks \<and>
     (\<forall>k \<in> set ks. pc_value kv k = None \<and> (\<exists>raw job. pc_value kv' k = Some raw \<and>
        length raw \<le> durableJobMaxBytes \<and> dec cd raw = Some job \<and> j_Status job = ''queued'')) \<and>
     (\<forall>k. k \<notin> set ks \<longrightarrow> pc_value kv' k = pc_value kv k) \<and>
     mset (concat (map (job_users cd kv') ks)) = mset (map uid_String us)"

lemma persisted_refl: "persisted cd kv kv [] []"
  by (simp add: persisted_def)

lemma persistedD:
  assumes "persisted cd kv kv' ks us"
  shows "distinct ks" "k \<in> set ks \<Longrightarrow> pc_value kv k = None"
    "k \<in> set ks \<Longrightarrow> \<exists>raw job. pc_value kv' k = Some raw \<and> length raw \<le> durableJobMaxBytes \<and>
       dec cd raw = Some job \<and> j_Status job = ''queued''"
    "k \<notin> set ks \<Longrightarrow> pc_value kv' k = pc_value kv k"
    "mset (concat (map (job_users cd kv') ks)) = mset (map uid_String us)"
  using assms unfolding persisted_def by blast+

lemma persisted_trans:
  assumes "persisted cd kv kv1 ks us" "persisted cd kv1 kv2 ks' us'"
  shows "persisted cd kv kv2 (ks @ ks') (us @ us')"
proof -
  note a = persistedD [OF assms(1)] and b = persistedD [OF assms(2)]
  have dis: "k \<notin> set ks'" if "k \<in> set ks" for k
    using a(3) [OF that] b(2) [of k] by auto
  then have keep: "pc_value kv2 k = pc_value kv1 k" if "k \<in> set ks" for k
    using b(4) that by blast
  show ?thesis unfolding persisted_def
  proof (intro conjI ballI allI impI)
    show "distinct (ks @ ks')" using a(1) b(1) dis by auto
    show "pc_value kv k = None" if "k \<in> set (ks @ ks')" for k
      using that a(2) a(4) [of k] b(2) [of k] by (cases "k \<in> set ks") auto
    show "\<exists>raw job. pc_value kv2 k = Some raw \<and> length raw \<le> durableJobMaxBytes \<and>
        dec cd raw = Some job \<and> j_Status job = ''queued''" if "k \<in> set (ks @ ks')" for k
      using that a(3) [of k] keep [of k] b(3) [of k] by (cases "k \<in> set ks") auto
    show "pc_value kv2 k = pc_value kv k" if "k \<notin> set (ks @ ks')" for k
      using that a(4) b(4) by simp
    have "map (job_users cd kv2) ks = map (job_users cd kv1) ks" using keep by (simp add: job_users_def)
    then show "mset (concat (map (job_users cd kv2) (ks @ ks'))) = mset (map uid_String (us @ us'))"
      using a(5) b(5) by (simp only: map_append concat_append mset_append)
  qed
qed

lemma delete_keys_value:
  assumes "\<forall>k. delfail ev k = None"
  shows "pc_value (delete_keys ev ks kv) = (\<lambda>k. if k \<in> set ks then None else pc_value kv k)"
  using assms by (induction ks arbitrary: kv) (auto simp: delete_keys_def PCacheDelete_def fun_eq_iff)

lemma delete_persisted:
  assumes "persisted cd kv kv1 ks us" "\<forall>k. delfail ev k = None" "pc_value kv2 = pc_value kv1"
  shows "pc_value (delete_keys ev ks kv2) = pc_value kv"
  using assms by (auto simp: delete_keys_value persisted_def fun_eq_iff)

lemma encode_job_dec:
  assumes "job_codec_ok cd" "encode_job cd (new_job ob now r) = Some raw"
  shows "\<exists>job. dec cd raw = Some job \<and> j_Status job = ''queued'' \<and>
    (\<exists>dr. j_Receipt job = Some dr \<and> map fst (dr_To dr) = map uid_String (map fst (r_To r)))"
proof -
  have u: "map fst (dr_To (newDurableReceipt r)) = map uid_String (map fst (r_To r))"
    by (auto simp: newDurableReceipt_def)
  have "dec cd raw = Some (new_job ob now r) \<or> dec cd raw = Some (drop_content (new_job ob now r))"
    using assms by (auto simp: encode_job_def job_codec_ok_def split: option.splits if_splits)
  then show ?thesis using u by (auto simp: new_job_def drop_content_def)
qed

definition persist_spec ::
  "'c job_codec \<Rightarrow> outbox_env \<Rightarrow> pcache \<Rightarrow> uid list \<Rightarrow> store_error option \<Rightarrow> string list \<Rightarrow> pcache \<Rightarrow> bool" where
  "persist_spec cd ev kv us err ks kv' \<longleftrightarrow>
     (err = None \<longrightarrow> persisted cd kv kv' ks us) \<and>
     (err \<noteq> None \<longrightarrow> ks = [] \<and> ((\<forall>k. delfail ev k = None) \<longrightarrow> pc_value kv' = pc_value kv))"

lemma fst_clone [simp]: "map fst (r_To (cloneReceiptForUsers r us)) = us"
  by (simp add: cloneReceiptForUsers_def comp_def)

lemma persistReceipt_leaf:
  assumes "job_codec_ok cd" "encode_job cd (new_job ob (clk ev n) r) = Some raw"
    "length raw \<le> durableJobMaxBytes" "persistReceipt cd ob ev r n kv = ((err, ks), n', kv')"
  shows "persist_spec cd ev kv (map fst (r_To r)) err ks kv'"
proof -
  let ?k = "outbox_key ob ev n"
  obtain e kv1 where up: "PCacheUpsert (upfail ev ?k) (clk ev n) ?k raw True kv = (e, kv1)" by fastforce
  have out: "(err, ks) = (e, if e = None then [?k] else []) \<and> kv' = kv1"
    using assms(2-4) up by (auto simp: persistReceipt.simps [of cd ob ev r] Let_def split: option.splits)
  obtain job dr where j: "dec cd raw = Some job" "j_Status job = ''queued''" "j_Receipt job = Some dr"
      "map fst (dr_To dr) = map uid_String (map fst (r_To r))"
    using encode_job_dec [OF assms(1,2)] by blast
  show ?thesis using out PCacheUpsert_value [OF up] j assms(3)
    by (cases e) (auto simp: persist_spec_def persisted_def job_users_def)
qed

lemma persist_exhaust:
  fixes x :: persist_result
  obtains e k n kv where "x = ((e, k), n, kv)"
  by (cases x) auto

lemma persistReceipt_spec:
  assumes "job_codec_ok cd" "persistReceipt cd ob ev r n kv = ((err, ks), n', kv')"
  shows "persist_spec cd ev kv (sort (map fst (r_To r))) err ks kv'"
  using assms(2)
proof (induction "length (r_To r)" arbitrary: r n kv err ks n' kv' rule: less_induct)
  case less
  let ?us = "sort (map fst (r_To r))"
  show ?case
  proof (cases "encode_job cd (new_job ob (clk ev n) r)")
    case None
    then show ?thesis using less.prems
      by (auto simp: persistReceipt.simps [of cd ob ev r] persist_spec_def)
  next
    case (Some raw)
    consider "length raw \<le> durableJobMaxBytes"
      | "length raw > durableJobMaxBytes" "length (r_To r) \<le> 1"
      | "length raw > durableJobMaxBytes" "length (r_To r) > 1" by linarith
    then show ?thesis
    proof cases
      case 1
      then show ?thesis using persistReceipt_leaf [OF assms(1) Some _ less.prems]
        by (simp add: persist_spec_def persisted_def multiset.map_comp)
    next
      case 2
      then show ?thesis using less.prems Some
        by (auto simp: persistReceipt.simps [of cd ob ev r] persist_spec_def)
    next
      case 3
      define m where "m = length ?us div 2"
      let ?l = "cloneReceiptForUsers r (take m ?us)" and ?r = "cloneReceiptForUsers r (drop m ?us)"
      obtain e1 k1 n1 kv1 where l: "persistReceipt cd ob ev ?l (n + 1) kv = ((e1, k1), n1, kv1)"
        by (rule persist_exhaust)
      obtain e2 k2 n2 kv2 where rt: "persistReceipt cd ob ev ?r n1 kv1 = ((e2, k2), n2, kv2)"
        by (rule persist_exhaust)
      have len: "length (r_To ?l) < length (r_To r)" "length (r_To ?r) < length (r_To r)"
        using 3(2) by (auto simp: cloneReceiptForUsers_def m_def)
      have sl: "persist_spec cd ev kv (take m ?us) e1 k1 kv1"
        using less.hyps [OF len(1) l] by (simp add: sorted_sort_id sorted_wrt_take)
      have sr: "persist_spec cd ev kv1 (drop m ?us) e2 k2 kv2"
        using less.hyps [OF len(2) rt] by (simp add: sorted_sort_id sorted_wrt_drop)
      have res: "((err, ks), n', kv') =
          (if e1 \<noteq> None then ((e1, k1), n1, kv1)
           else if e2 \<noteq> None then ((e2, k2), n2, delete_keys ev k1 kv2)
           else ((None, k1 @ k2), n2, kv2))"
        using less.prems Some 3 l rt unfolding m_def
        by (auto simp: persistReceipt.simps [of cd ob ev r] Let_def split: if_splits)
      show ?thesis
      proof (cases "e1 = None \<and> e2 = None")
        case True
        then have "persisted cd kv kv2 (k1 @ k2) (take m ?us @ drop m ?us)"
          using sl sr persisted_trans unfolding persist_spec_def by blast
        then show ?thesis using res True by (simp add: persist_spec_def)
      next
        case False
        then show ?thesis using res sl sr delete_persisted [of cd kv kv1 k1 "take m ?us" ev kv2]
          by (auto simp: persist_spec_def split: if_splits)
      qed
    qed
  qed
qed

lemma enqueue_chunks_spec:
  assumes "job_codec_ok cd" "sorted (us @ uids)" "persisted cd kv0 kv created us" "chunkSize \<noteq> 0"
    "enqueue_chunks chunkSize cd ob ev r uids created n kv = (err, ks, kv')"
  shows "persist_spec cd ev kv0 (us @ uids) err ks kv'"
  using assms(2,3,5)
proof (induction "length uids" arbitrary: uids created n kv us rule: less_induct)
  case less
  show ?case
  proof (cases "uids = []")
    case True
    then show ?thesis using less.prems(2,3) assms(4)
      by (simp add: enqueue_chunks.simps [of chunkSize] persist_spec_def)
  next
    case False
    let ?c = "cloneReceiptForUsers r (take chunkSize uids)"
    obtain e1 k1 n1 kv1 where p: "persistReceipt cd ob ev ?c n kv = ((e1, k1), n1, kv1)"
      by (rule persist_exhaust)
    have "sorted (take chunkSize uids)" using less.prems(1) by (simp add: sorted_append sorted_wrt_take)
    then have s: "persist_spec cd ev kv (take chunkSize uids) e1 k1 kv1"
      using persistReceipt_spec [OF assms(1) p] by (simp add: sorted_sort_id)
    show ?thesis
    proof (cases "e1 = None")
      case True
      then have "persisted cd kv0 kv1 (created @ k1) (us @ take chunkSize uids)"
        using s less.prems(2) persisted_trans unfolding persist_spec_def by blast
      moreover have "enqueue_chunks chunkSize cd ob ev r (drop chunkSize uids) (created @ k1) n1 kv1 = (err, ks, kv')"
        using less.prems(3) p True False assms(4) by (simp add: enqueue_chunks.simps [of chunkSize cd ob ev r uids])
      moreover have "length (drop chunkSize uids) < length uids" using False assms(4) by (cases uids) auto
      moreover have "sorted ((us @ take chunkSize uids) @ drop chunkSize uids)" using less.prems(1) by simp
      ultimately show ?thesis using less.hyps [of "drop chunkSize uids" "us @ take chunkSize uids"] by simp
    next
      case e: False
      then have "k1 = []" using s by (simp add: persist_spec_def)
      then have "err = e1" "ks = []" "kv' = delete_keys ev created kv1"
        using less.prems(3) p e False assms(4) by (simp_all add: enqueue_chunks.simps [of chunkSize cd ob ev r uids])
      then show ?thesis using e s delete_persisted [OF less.prems(2), of ev kv1]
        by (auto simp: persist_spec_def)
    qed
  qed
qed

text \<open>Enqueueing a receipt is all or nothing: on success the new jobs, each queued and small enough
  for the cache, are addressed to exactly the users of the receipt, each in one job; on failure
  the cache holds what it held before, provided the clean-up statements succeed.\<close>

theorem enqueue_partition:
  assumes "job_codec_ok cd" "ob_provider ob \<noteq> []" "r_To r \<noteq> []" "Enqueue cd ob ev r kv = (err, ks, kv')"
  shows "if err = None then persisted cd kv kv' ks (sort (map fst (r_To r)))
    else (\<forall>k. delfail ev k = None) \<longrightarrow> pc_value kv' = pc_value kv"
proof -
  let ?us = "sort (map fst (r_To r))"
  let ?n = "nat (if oc_RecipientChunk (ob_config ob) \<le> 0 then 40 else oc_RecipientChunk (ob_config ob))"
  have "enqueue_chunks ?n cd ob ev r ?us [] 0 kv = (err, ks, kv')"
    using assms(2-4) by (simp add: Enqueue_def Let_def)
  from enqueue_chunks_spec [where us = "[]", OF assms(1) _ persisted_refl _ this]
  have "persist_spec cd ev kv ?us err ks kv'" by simp
  then show ?thesis by (auto simp: persist_spec_def)
qed

section \<open>No job is lost\<close>

lemma movePushDeadLetter_value:
  assumes "movePushDeadLetter f now provider k raw kv = (e, kv')" "dlq_key provider k \<noteq> k"
  shows "pc_value kv' k = None \<Longrightarrow> pc_value kv k \<noteq> None \<Longrightarrow> pc_value kv' (dlq_key provider k) = Some raw"
proof -
  assume gone: "pc_value kv' k = None" and there: "pc_value kv k \<noteq> None"
  obtain e1 kv1 where up: "PCacheUpsert (f CallBury) now (dlq_key provider k) raw False kv = (e1, kv1)"
    by fastforce
  show ?thesis
  proof (cases e1)
    case (Some err)
    then show ?thesis using assms(1) up PCacheUpsert_value [OF up] gone there
      by (simp add: movePushDeadLetter_def)
  next
    case None
    then have d: "PCacheDelete (f CallBuryDelete) k kv1 = (e, kv')"
      using assms(1) up by (simp add: movePushDeadLetter_def)
    show ?thesis
      using PCacheUpsert_value [OF up] PCacheDelete_value [OF d] None assms(2) gone there
      by (auto split: if_splits)
  qed
qed

lemma cas_keeps: "PCacheCompareAndSwap f now k old new kv = (r, kv') \<Longrightarrow> pc_value kv k' \<noteq> None \<Longrightarrow> pc_value kv' k' \<noteq> None"
  using PCacheCompareAndSwap_value [of f now k old new kv r kv'] by (auto split: if_splits)

lemma claimEntry_no_loss:
  assumes "claimEntry cd ob f now k raw kv = (c, kv')" "pc_value kv k \<noteq> None" "pc_value kv' k = None"
    "dlq_key (ob_provider ob) k \<noteq> k"
  shows "(\<exists>job. dec cd raw = Some job \<and> j_Status job = ''completed'') \<or>
    pc_value kv' (dlq_key (ob_provider ob) k) = Some raw"
  using assms movePushDeadLetter_value [of f now "ob_provider ob" k raw kv _ kv'] cas_keeps [of _ now k raw _ kv _ kv' k]
  by (auto simp: claimEntry_def Let_def split: option.splits if_splits prod.splits sum.splits bool.splits)

lemma finishDelivery_no_loss:
  assumes "finishDelivery cd ob f now k claimedRaw claimed deliveryErr kv = (res, kv')"
    "pc_value kv k \<noteq> None" "pc_value kv' k = None" "dlq_key (ob_provider ob) k \<noteq> k" "deliveryErr \<noteq> None"
  shows "pc_value kv' (dlq_key (ob_provider ob) k) \<noteq> None"
proof -
  obtain err where e: "deliveryErr = Some err" using assms(5) by blast
  define c where "c = claimed\<lparr>j_LastError := truncatePushError (de_text err), j_LeaseOwner := [], j_LeaseUntil := 0\<rparr>"
  have keep: False if "PCacheCompareAndSwap (f CallFinish) now k claimedRaw x kv = (r, kv')" for x r
    using cas_keeps [OF that assms(2)] assms(3) by blast
  show ?thesis
  proof (cases "de_permanent err \<or> j_Attempts c \<ge> oc_MaxAttempts (ob_config ob)")
    case True
    then obtain deadRaw r kv1 where d: "enc cd (c\<lparr>j_Status := ''dead''\<rparr>) = Some deadRaw"
        "PCacheCompareAndSwap (f CallFinish) now k claimedRaw deadRaw kv = (r, kv1)"
      using assms(1-3) e by (auto simp: finishDelivery_def Let_def c_def split: option.splits)
        (metis surj_pair)+
    then obtain e2 where m: "movePushDeadLetter f now (ob_provider ob) k deadRaw kv1 = (e2, kv')"
      using assms(1) e True keep
      by (auto simp: finishDelivery_def Let_def c_def split: sum.splits bool.splits prod.splits)
    then show ?thesis
      using movePushDeadLetter_value [OF m assms(4) assms(3)] cas_keeps [OF d(2) assms(2)] by simp
  next
    case False
    then show ?thesis using assms(1-3) e keep
      by (auto simp: finishDelivery_def Let_def c_def split: option.splits sum.splits prod.splits)
  qed
qed

text \<open>C6. No notification is lost: when an entry is gone from the outbox after a pass of the worker,
  it had been completed before, the provider accepted it in this pass, or it is in the dead letter
  queue; whichever statements failed, and whatever other nodes did short of deleting it.\<close>

theorem outbox_no_loss:
  assumes "processEntry cd ob f deliver other now k raw kv = (res, kv')" "pc_value kv k \<noteq> None"
    "pc_value kv' k = None" "dlq_key (ob_provider ob) k \<noteq> k"
    "\<forall>kv. pc_value kv k \<noteq> None \<longrightarrow> pc_value (other kv) k \<noteq> None"
  shows "(\<exists>job. dec cd raw = Some job \<and> j_Status job = ''completed'') \<or>
    (\<exists>job dr r. dec cd raw = Some job \<and> j_Receipt job = Some dr \<and> runtimeReceipt dr = Some r \<and> deliver r = None) \<or>
    pc_value kv' (dlq_key (ob_provider ob) k) \<noteq> None"
proof -
  obtain c kv1 where cl: "claimEntry cd ob f now k raw kv = (c, kv1)" by fastforce
  show ?thesis
  proof (cases c)
    case (Settled x)
    then have "kv' = kv1" using assms(1) cl by (simp add: processEntry_def)
    then show ?thesis using claimEntry_no_loss [OF cl assms(2) _ assms(4)] assms(3) by auto
  next
    case (Claimed claimed dr claimedRaw)
    define de where "de = (case runtimeReceipt dr of
        None \<Rightarrow> Some \<lparr>de_text = ''invalid durable push uid'', de_permanent = True\<rparr> | Some r \<Rightarrow> deliver r)"
    have fin: "finishDelivery cd ob f now k claimedRaw claimed de (other kv1) = (res, kv')"
      using assms(1) cl Claimed by (simp add: processEntry_def de_def)
    have job: "\<exists>job. dec cd raw = Some job \<and> j_Receipt job = Some dr" and
        cas: "\<exists>r x. PCacheCompareAndSwap (f CallClaim) now k raw x kv = (r, kv1)"
      using cl Claimed
      by (auto simp: claimEntry_def Let_def split: option.splits if_splits prod.splits sum.splits bool.splits)
    then have "pc_value kv1 k \<noteq> None" using cas_keeps assms(2) by metis
    then have "pc_value (other kv1) k \<noteq> None" using assms(5) by blast
    then show ?thesis
      using finishDelivery_no_loss [OF fin _ assms(3,4)] job
      by (cases "runtimeReceipt dr") (auto simp: de_def)
  qed
qed

section \<open>Claims are exclusive\<close>

lemma claimEntry_miss:
  assumes "pc_value kv k \<noteq> Some raw"
  shows "\<exists>res. fst (claimEntry cd ob f now k raw kv) = Settled res"
proof -
  have "PCacheCompareAndSwap (f CallClaim) now k raw x kv \<noteq> (Inr True, y)" for x y
    using PCacheCompareAndSwap_value [of "f CallClaim" now k raw x kv "Inr True" y] assms by auto
  then show ?thesis
    by (auto simp: claimEntry_def Let_def split: option.splits prod.splits sum.splits bool.splits)
qed

text \<open>C29. Two workers that read the same entry do not both deliver it: after one has claimed it, a
  claim by another from what it had read does not succeed, whatever happened to other entries.\<close>

theorem claim_exclusive:
  assumes "job_codec_ok cd" "claimEntry cd ob f now k raw kv = (Claimed job dr claimedRaw, kv1)"
    "pc_value kv2 k = pc_value kv1 k"
  shows "\<exists>res. fst (claimEntry cd ob' f' now' k raw kv2) = Settled res"
proof -
  obtain j where j: "dec cd raw = Some j" "enc cd job = Some claimedRaw" "j_Attempts job = j_Attempts j + 1"
      "PCacheCompareAndSwap (f CallClaim) now k raw claimedRaw kv = (Inr True, kv1)"
    using assms(2)
    by (auto simp: claimEntry_def Let_def split: option.splits if_splits prod.splits sum.splits bool.splits)
  have ne: "raw \<noteq> claimedRaw" using j(1-3) assms(1) by (auto simp: job_codec_ok_def)
  have "pc_swap now k raw claimedRaw kv = (True, kv1)"
    using j(4) by (auto simp: pc_swap_def PCacheCompareAndSwap_def split: option.splits)
  then have "pc_value kv1 k = Some claimedRaw" using pc.swap_value by blast
  then have "pc_value kv2 k \<noteq> Some raw" using ne assms(3) by simp
  then show ?thesis by (rule claimEntry_miss)
qed

section \<open>Back-off\<close>

lemma retry_loop_min:
  assumes "0 < delay"
  shows "min maxRetry (retry_loop n maxRetry delay) = min maxRetry (delay * 2 ^ n)"
  using assms
proof (induction n arbitrary: delay)
  case (Suc n)
  show ?case
  proof (cases "delay < maxRetry")
    case True
    then show ?thesis using Suc by (simp add: mult.assoc)
  next
    case False
    have "delay * 1 \<le> delay * 2 ^ Suc n" using Suc.prems one_le_power [of "2::int" "Suc n"]
      by (intro mult_left_mono) (simp_all del: power_Suc)
    then show ?thesis using False by simp
  qed
qed simp

text \<open>The delay before a retry doubles with each attempt up to the maximum.\<close>

theorem retry_backoff:
  assumes "0 < oc_RetryBase config" "1 \<le> attempt"
  shows "retryDelay config attempt = min (oc_MaxRetry config) (oc_RetryBase config * 2 ^ nat (attempt - 1))"
  using retry_loop_min [OF assms(1), of "oc_MaxRetry config" "nat (attempt - 1)"]
  by (auto simp: retryDelay_def Let_def min_def split: if_splits)

theorem retry_backoff_witness:
  "0 < oc_RetryBase defaultDurableOutboxConfig \<and>
   retryDelay defaultDurableOutboxConfig 4 = min 3600000000000 (2000000000 * 2 ^ 3)"
  using retry_backoff [of defaultDurableOutboxConfig 4] by (simp add: defaultDurableOutboxConfig_def)

section \<open>A concrete outbox\<close>

definition ex_receipt :: "unit receipt" where
  "ex_receipt = \<lparr>r_To = [(1, \<lparr>rc_Delivered = 0, rc_Devices = [], rc_Unread = 1\<rparr>)], r_Channel = [],
     r_Payload = \<lparr>pl_What = ''msg'', pl_Silent = False, pl_Topic = ''grpA'', pl_Timestamp = 1, pl_From = [],
       pl_SeqId = 1, pl_ContentType = [], pl_Content = None, pl_Webrtc = [], pl_AudioOnly = False,
       pl_Replace = [], pl_ModeWant = 0, pl_ModeGiven = 0\<rparr>\<rparr>"

definition ex_outbox :: durableOutbox where
  "ex_outbox = \<lparr>ob_provider = ''fcm'', ob_config = defaultDurableOutboxConfig, ob_owner = ''fcm-1''\<rparr>"

definition ex_job :: "string \<Rightarrow> int \<Rightarrow> string \<Rightarrow> go_time \<Rightarrow> unit durableOutboxJob" where
  "ex_job status attempts owner until = (new_job ex_outbox 5 ex_receipt)\<lparr>j_Status := status,
     j_Attempts := attempts, j_LeaseOwner := owner, j_LeaseUntil := until\<rparr>"

definition ex_jobs :: "(string \<times> unit durableOutboxJob) list" where
  "ex_jobs = [(''q'', ex_job ''queued'' 0 [] 0), (''l'', ex_job ''leased'' 1 ''fcm-1'' 300000000005),
     (''c'', ex_job ''completed'' 1 [] 0)]"

definition ex_jcodec :: "unit job_codec" where
  "ex_jcodec = \<lparr>enc = (\<lambda>j. map_option fst (find (\<lambda>(_, j'). j' = j) ex_jobs)), dec = map_of ex_jobs\<rparr>"

lemma ex_jcodec_ok: "job_codec_ok ex_jcodec"
  by (auto simp: job_codec_ok_def ex_jcodec_def ex_jobs_def split: if_splits)

definition ex_kv :: pcache where "ex_kv = [(''pushoutbox:fcm:1'', 5, ''q'')]"

lemmas ex_outbox_simps = ex_jcodec_def ex_jobs_def ex_job_def new_job_def ex_outbox_def
  defaultDurableOutboxConfig_def ex_kv_def Let_def

lemma ex_claim:
  "claimEntry ex_jcodec ex_outbox (\<lambda>_. None) 5 ''pushoutbox:fcm:1'' ''q'' ex_kv =
     (Claimed (ex_job ''leased'' 1 ''fcm-1'' 300000000005) (newDurableReceipt ex_receipt) ''l'',
      [(''pushoutbox:fcm:1'', 5, ''l'')])"
  by (simp add: claimEntry_def ex_outbox_simps PCacheCompareAndSwap_def)

theorem claim_exclusive_witness:
  "\<exists>res. fst (claimEntry ex_jcodec ex_outbox (\<lambda>_. None) 6 ''pushoutbox:fcm:1'' ''q''
     [(''pushoutbox:fcm:1'', 5, ''l'')]) = Settled res"
  by (rule claim_exclusive [OF ex_jcodec_ok ex_claim]) simp

lemma ex_process:
  "processEntry ex_jcodec ex_outbox (\<lambda>_. None) (\<lambda>_. None) id 5 ''pushoutbox:fcm:1'' ''q'' ex_kv =
     ((True, None), [])"
proof -
  have "runtimeReceipt (newDurableReceipt ex_receipt) = Some ex_receipt"
    by (rule runtimeReceipt_roundtrip) (simp_all add: ex_receipt_def ZeroUid_def)
  then show ?thesis
    by (simp add: processEntry_def ex_claim) (simp add: finishDelivery_def ex_outbox_simps
        PCacheCompareAndSwap_def PCacheDelete_def AList.delete_eq)
qed

theorem outbox_no_loss_witness:
  "(\<exists>job. dec ex_jcodec ''q'' = Some job \<and> j_Status job = ''completed'') \<or>
    (\<exists>job dr r. dec ex_jcodec ''q'' = Some job \<and> j_Receipt job = Some dr \<and> runtimeReceipt dr = Some r \<and>
       (\<lambda>_. None :: delivery_error option) r = None) \<or>
    pc_value [] (dlq_key (ob_provider ex_outbox) ''pushoutbox:fcm:1'') \<noteq> None"
  by (rule outbox_no_loss [OF ex_process])
    (simp_all add: pc_value_def ex_kv_def dlq_key_def durableDLQPrefix_def)

definition ex_env :: outbox_env where
  "ex_env = \<lparr>clk = (\<lambda>_. 5), rnd = (\<lambda>_. ''r''), stamp = (\<lambda>_. ''5''), upfail = (\<lambda>_. None), delfail = (\<lambda>_. None)\<rparr>"

theorem enqueue_partition_witness:
  "\<exists>ks kv'. Enqueue ex_jcodec ex_outbox ex_env ex_receipt [] = (None, ks, kv') \<and>
     persisted ex_jcodec [] kv' ks (sort (map fst (r_To ex_receipt)))"
proof -
  have c: "cloneReceiptForUsers ex_receipt [1] = ex_receipt"
    by (simp add: cloneReceiptForUsers_def ex_receipt_def)
  have j: "encode_job ex_jcodec (new_job ex_outbox 5 ex_receipt) = Some ''q''"
    by (simp add: encode_job_def ex_jcodec_def ex_jobs_def ex_job_def new_job_def durableJobMaxBytes_def)
  have "Enqueue ex_jcodec ex_outbox ex_env ex_receipt [] =
      (None, [outbox_key ex_outbox ex_env 0], [(outbox_key ex_outbox ex_env 0, 5, ''q'')])"
    using c j
    by (simp add: Enqueue_def enqueue_chunks.simps persistReceipt.simps [of ex_jcodec ex_outbox ex_env ex_receipt]
        PCacheUpsert_def ex_env_def durableJobMaxBytes_def Let_def)
      (simp add: ex_outbox_def ex_receipt_def defaultDurableOutboxConfig_def enqueue_chunks.simps
        outbox_key_def durableOutboxPrefix_def PCacheUpsert_def ex_env_def durableJobMaxBytes_def
        persistReceipt.simps Let_def)
  from enqueue_partition [OF ex_jcodec_ok _ _ this] this show ?thesis
    by (auto simp: ex_outbox_def ex_receipt_def)
qed

end
