(* ===== verification/Utf8.thy ===== *)
theory Utf8
  imports Prelude
begin

text \<open>
  The part of Go's \<^verbatim>\<open>unicode/utf8\<close> the server uses on byte strings: the width of the first rune,
  as \<open>DecodeRuneInString\<close> reports it, and the number of runes. A byte that starts no valid
  sequence is a rune of width one.
\<close>

definition byte_in :: "char \<Rightarrow> nat \<Rightarrow> nat \<Rightarrow> bool" where
  "byte_in c lo hi = (lo \<le> of_char c \<and> of_char c \<le> hi)"

text \<open>The bounds of the second byte and the length of the sequence, by its first byte.\<close>

definition lead_byte :: "char \<Rightarrow> (nat \<times> nat \<times> nat) option" where
  "lead_byte c =
     (if byte_in c 0xC2 0xDF then Some (2, 0x80, 0xBF)
      else if byte_in c 0xE0 0xE0 then Some (3, 0xA0, 0xBF)
      else if byte_in c 0xE1 0xEC \<or> byte_in c 0xEE 0xEF then Some (3, 0x80, 0xBF)
      else if byte_in c 0xED 0xED then Some (3, 0x80, 0x9F)
      else if byte_in c 0xF0 0xF0 then Some (4, 0x90, 0xBF)
      else if byte_in c 0xF1 0xF3 then Some (4, 0x80, 0xBF)
      else if byte_in c 0xF4 0xF4 then Some (4, 0x80, 0x8F)
      else None)"

definition rune_width :: "string \<Rightarrow> nat" where
  "rune_width s =
     (case s of
        [] \<Rightarrow> 0
      | c # cs \<Rightarrow>
          (case lead_byte c of
             None \<Rightarrow> 1
           | Some (n, lo, hi) \<Rightarrow>
               if n \<le> length s \<and> byte_in (hd cs) lo hi \<and>
                  (\<forall>b \<in> set (take (n - 2) (tl cs)). byte_in b 0x80 0xBF)
               then n else 1))"

lemma rune_width_Nil [simp]: "rune_width [] = 0"
  by (simp add: rune_width_def)

lemma lead_byte_len: "lead_byte c = Some (n, lo, hi) \<Longrightarrow> 2 \<le> n"
  unfolding lead_byte_def by (auto split: if_splits)

lemma rune_width_pos [simp]: "s \<noteq> [] \<Longrightarrow> 0 < rune_width s"
  using lead_byte_len by (fastforce simp: rune_width_def split: list.split option.split)

lemma rune_width_le: "rune_width s \<le> length s"
  by (auto simp: rune_width_def split: list.split option.split)

lemma rune_width_zero [simp]: "rune_width s = 0 \<longleftrightarrow> s = []"
  using rune_width_pos by (cases "s = []") auto

text \<open>\<open>len([]rune(s))\<close>\<close>

function rune_count :: "string \<Rightarrow> nat" where
  "rune_count s = (if s = [] then 0 else Suc (rune_count (drop (rune_width s) s)))"
  by auto
termination
  by (relation "measure length") auto

declare rune_count.simps [simp del]

lemma rune_count_le: "rune_count s \<le> length s"
proof (induction s rule: rune_count.induct)
  case (1 s)
  show ?case
  proof (cases "s = []")
    case False
    then have "rune_count (drop (rune_width s) s) < length s"
      using "1.IH" [OF False] rune_width_pos [OF False] by (auto simp: le_diff_conv intro: le_less_trans)
    then show ?thesis using False by (simp add: rune_count.simps [of s])
  qed (simp add: rune_count.simps)
qed

text \<open>On ASCII text every byte is a rune.\<close>

definition ascii :: "char \<Rightarrow> bool" where
  "ascii c = (of_char c < (128::nat))"

lemma rune_width_ascii: "ascii c \<Longrightarrow> rune_width (c # s) = 1"
  by (auto simp: rune_width_def lead_byte_def byte_in_def ascii_def split: option.split if_splits)

lemma rune_count_ascii: "(\<forall>c \<in> set s. ascii c) \<Longrightarrow> rune_count s = length s"
  by (induction s) (simp_all add: rune_count.simps rune_width_ascii)

end
