(* ===== verification/TranslateSettings.thy ===== *)
theory TranslateSettings
  imports Prelude "HOL-Library.AList" "HOL-Library.List_Lexorder" "HOL-Library.Char_ord"
begin

text \<open>
  The configuration of machine translation (\<^verbatim>\<open>server/translate/settings.go\<close>): defaults, validation
  and the conversion to the router's configuration. A slice that may be \<open>nil\<close> is an option.
  \<open>url.Parse\<close> and \<open>filepath.Clean\<close> are the fields of \<open>go_lib\<close>.
\<close>

section \<open>Data\<close>

record ProviderSettings =
  pv_ID :: string
  pv_Type :: string
  pv_Enabled :: bool
  pv_Priority :: int
  pv_Endpoint :: string
  pv_Region :: string
  pv_CredentialFile :: string
  pv_ProjectID :: string
  pv_TimeoutMS :: int
  pv_MonthlyCharacterLimit :: int
  pv_FailureThreshold :: int
  pv_OpenSeconds :: int
  pv_GlossaryID :: string

record RouteSettings =
  rt_Source :: string
  rt_Target :: string
  rt_Providers :: "string list"

record TranslationSettings =
  tr_Enabled :: bool
  tr_StaffLanguage :: string
  tr_CustomerLanguage :: string
  tr_KeepOriginal :: bool
  tr_FailurePolicy :: string
  tr_DefaultTimeoutMS :: int
  tr_MaxAttempts :: int
  tr_Providers :: "ProviderSettings list option"
  tr_Routes :: "RouteSettings list option"

definition slice :: "'a list option \<Rightarrow> 'a list" where
  "slice xs = (case xs of None \<Rightarrow> [] | Some ys \<Rightarrow> ys)"

datatype translate_error =
    ErrNoProvider | ErrInvalidConfig string | ErrSecretNotFound string | ErrProvider string
  | ErrContext | ErrJoined "translate_error list"

record url =
  u_Scheme :: string
  u_Host :: string
  u_HasUser :: bool
  u_RawQuery :: string
  u_Fragment :: string

record go_lib =
  url_Parse :: "string \<Rightarrow> url option"
  path_Clean :: "string \<Rightarrow> string"

section \<open>Defaults\<close>

definition TrimRightSlash :: "string \<Rightarrow> string" where
  "TrimRightSlash s = rev (dropWhile (\<lambda>c. c = CHR ''/'') (rev s))"

definition NormalizeProvider :: "int \<Rightarrow> ProviderSettings \<Rightarrow> ProviderSettings" where
  "NormalizeProvider defaultTimeoutMS p =
     p\<lparr>pv_ID := TrimSpace (pv_ID p),
       pv_Type := ToLower (TrimSpace (pv_Type p)),
       pv_Endpoint := TrimRightSlash (TrimSpace (pv_Endpoint p)),
       pv_Region := TrimSpace (pv_Region p),
       pv_CredentialFile := TrimSpace (pv_CredentialFile p),
       pv_TimeoutMS := (if pv_TimeoutMS p = 0 then defaultTimeoutMS else pv_TimeoutMS p),
       pv_FailureThreshold := (if pv_FailureThreshold p = 0 then 3 else pv_FailureThreshold p),
       pv_OpenSeconds := (if pv_OpenSeconds p = 0 then 30 else pv_OpenSeconds p)\<rparr>"

definition NormalizeSettings :: "TranslationSettings \<Rightarrow> TranslationSettings" where
  "NormalizeSettings s =
     (let timeout = (if tr_DefaultTimeoutMS s = 0 then 5000 else tr_DefaultTimeoutMS s) in
      s\<lparr>tr_FailurePolicy := (if tr_FailurePolicy s = [] then ''hold'' else tr_FailurePolicy s),
        tr_DefaultTimeoutMS := timeout,
        tr_MaxAttempts := (if tr_MaxAttempts s = 0 then 3 else tr_MaxAttempts s),
        tr_Providers := Some (map (NormalizeProvider timeout) (slice (tr_Providers s))),
        tr_Routes := Some (slice (tr_Routes s))\<rparr>)"

section \<open>Languages, files and addresses\<close>

definition is_lower :: "char \<Rightarrow> bool" where
  "is_lower c = (CHR ''a'' \<le> c \<and> c \<le> CHR ''z'')"

definition is_upper :: "char \<Rightarrow> bool" where
  "is_upper c = (CHR ''A'' \<le> c \<and> c \<le> CHR ''Z'')"

definition is_digit :: "char \<Rightarrow> bool" where
  "is_digit c = (CHR ''0'' \<le> c \<and> c \<le> CHR ''9'')"

text \<open>The pattern \<^verbatim>\<open>^[a-z][a-z0-9_-]{1,63}$\<close>, which the control plane uses as well.\<close>

definition idPattern :: "string \<Rightarrow> bool" where
  "idPattern s =
     (case s of
        [] \<Rightarrow> False
      | c # cs \<Rightarrow> is_lower c \<and> 1 \<le> length cs \<and> length cs \<le> 63 \<and>
          list_all (\<lambda>d. is_lower d \<or> is_digit d \<or> d = CHR ''_'' \<or> d = CHR ''-'') cs)"

fun split_lang :: "string \<Rightarrow> string list" where
  "split_lang [] = [[]]"
| "split_lang (c # cs) =
     (if c = CHR ''-'' \<or> c = CHR ''_'' then [] # split_lang cs
      else case split_lang cs of [] \<Rightarrow> [[c]] | w # ws \<Rightarrow> (c # w) # ws)"

text \<open>The pattern \<^verbatim>\<open>^(?:\*|[A-Za-z]{2,8}(?:[-_][A-Za-z0-9]{1,8})*)$\<close>.\<close>

definition languagePattern :: "string \<Rightarrow> bool" where
  "languagePattern s =
     (s = ''*'' \<or>
      (case split_lang s of
         [] \<Rightarrow> False
       | w # ws \<Rightarrow>
           2 \<le> length w \<and> length w \<le> 8 \<and> list_all (\<lambda>c. is_lower c \<or> is_upper c) w \<and>
           list_all (\<lambda>v. 1 \<le> length v \<and> length v \<le> 8 \<and>
             list_all (\<lambda>c. is_lower c \<or> is_upper c \<or> is_digit c) v) ws))"

definition validSettingsLanguage :: "string \<Rightarrow> bool \<Rightarrow> bool" where
  "validSettingsLanguage language wildcard =
     (if language = [] then wildcard
      else if language = ''*'' \<and> \<not> wildcard then False
      else languagePattern language)"

definition validCredentialFile :: "go_lib \<Rightarrow> string \<Rightarrow> bool" where
  "validCredentialFile lib path =
     (path \<noteq> [] \<and> HasPrefix path ''/'' \<and> path_Clean lib path = path \<and> char_of (0::nat) \<notin> set path)"

definition url_ok :: "url \<Rightarrow> bool" where
  "url_ok u = ((u_Scheme u = ''http'' \<or> u_Scheme u = ''https'') \<and> u_Host u \<noteq> [] \<and>
     \<not> u_HasUser u \<and> u_RawQuery u = [] \<and> u_Fragment u = [])"

definition validSettingsEndpoint :: "go_lib \<Rightarrow> string \<Rightarrow> bool" where
  "validSettingsEndpoint lib endpoint =
     (endpoint = [] \<or> (case url_Parse lib endpoint of None \<Rightarrow> False | Some u \<Rightarrow> url_ok u))"

text \<open>\<open>strings.ReplaceAll(s, "_", "-")\<close>, and what stands before the first hyphen.\<close>

definition hyphens :: "string \<Rightarrow> string" where
  "hyphens s = map (\<lambda>c. if c = CHR ''_'' then CHR ''-'' else c) s"

definition primaryLanguage :: "string \<Rightarrow> string" where
  "primaryLanguage language = takeWhile (\<lambda>c. c \<noteq> CHR ''-'') language"

definition normalizeLanguage :: "string \<Rightarrow> string" where
  "normalizeLanguage language = ToLower (hyphens (TrimSpace language))"

definition settingsLanguageBase :: "string \<Rightarrow> string" where
  "settingsLanguageBase language = primaryLanguage (ToLower (hyphens (TrimSpace language)))"

section \<open>Validation\<close>

definition provider_type_ok :: "string \<Rightarrow> bool" where
  "provider_type_ok t = (t \<in> {''azure'', ''google'', ''aws'', ''deepl'', ''libretranslate''})"

definition provider_bounds_ok :: "ProviderSettings \<Rightarrow> bool" where
  "provider_bounds_ok p =
     (\<not> (pv_Priority p < 0 \<or> pv_Priority p > 10000 \<or>
         pv_TimeoutMS p < 100 \<or> pv_TimeoutMS p > 30000 \<or>
         pv_MonthlyCharacterLimit p < 0 \<or>
         pv_FailureThreshold p < 1 \<or> pv_FailureThreshold p > 20 \<or>
         pv_OpenSeconds p < 1 \<or> pv_OpenSeconds p > 3600 \<or>
         length (pv_Region p) > 64 \<or> length (pv_ProjectID p) > 128 \<or>
         length (pv_GlossaryID p) > 256 \<or> length (pv_CredentialFile p) > 1024))"

text \<open>The body of the loop over the providers, up to the bookkeeping.\<close>

definition validate_provider ::
  "go_lib \<Rightarrow> (string \<times> ProviderSettings) list \<Rightarrow> ProviderSettings \<Rightarrow> translate_error option" where
  "validate_provider lib providers p =
     (if \<not> provider_type_ok (pv_Type p) then Some (ErrInvalidConfig ''unsupported provider type'')
      else if \<not> idPattern (pv_ID p) then Some (ErrInvalidConfig ''invalid provider id'')
      else if map_of providers (pv_ID p) \<noteq> None then Some (ErrInvalidConfig ''duplicate provider id'')
      else if \<not> provider_bounds_ok p then Some (ErrInvalidConfig [])
      else if pv_Type p \<noteq> ''libretranslate'' \<and> \<not> validCredentialFile lib (pv_CredentialFile p)
      then Some (ErrInvalidConfig ''credential file required'')
      else if pv_CredentialFile p \<noteq> [] \<and> \<not> validCredentialFile lib (pv_CredentialFile p)
      then Some (ErrInvalidConfig ''invalid credential file'')
      else if pv_Type p = ''aws'' \<and> pv_Region p = [] \<or>
              pv_Type p = ''libretranslate'' \<and> pv_Endpoint p = [] \<or>
              \<not> validSettingsEndpoint lib (pv_Endpoint p)
      then Some (ErrInvalidConfig [])
      else None)"

fun validate_providers ::
  "go_lib \<Rightarrow> ProviderSettings list \<Rightarrow> (string \<times> ProviderSettings) list \<Rightarrow> nat \<Rightarrow>
   translate_error + (string \<times> ProviderSettings) list \<times> nat" where
  "validate_providers lib [] providers enabled = Inr (providers, enabled)"
| "validate_providers lib (p # ps) providers enabled =
     (case validate_provider lib providers p of
        Some e \<Rightarrow> Inl e
      | None \<Rightarrow> validate_providers lib ps (AList.update (pv_ID p) p providers)
          (if pv_Enabled p then enabled + 1 else enabled))"

fun validate_route_ids :: "(string \<times> ProviderSettings) list \<Rightarrow> string list \<Rightarrow> string list \<Rightarrow> bool" where
  "validate_route_ids providers [] seen = True"
| "validate_route_ids providers (pid # ids) seen =
     (case map_of providers pid of
        None \<Rightarrow> False
      | Some p \<Rightarrow> pv_Enabled p \<and> pid \<notin> set seen \<and> validate_route_ids providers ids (pid # seen))"

definition validate_route ::
  "(string \<times> ProviderSettings) list \<Rightarrow> nat \<Rightarrow> RouteSettings \<Rightarrow> bool" where
  "validate_route providers count r =
     (validSettingsLanguage (rt_Source r) True \<and> validSettingsLanguage (rt_Target r) True \<and>
      length (rt_Providers r) \<noteq> 0 \<and> \<not> length (rt_Providers r) > count \<and>
      validate_route_ids providers (rt_Providers r) [])"

definition ValidateSettings :: "go_lib \<Rightarrow> TranslationSettings \<Rightarrow> translate_error option" where
  "ValidateSettings lib s =
     (if tr_FailurePolicy s \<noteq> ''hold'' \<and> tr_FailurePolicy s \<noteq> ''original'' \<or>
         tr_DefaultTimeoutMS s < 100 \<or> tr_DefaultTimeoutMS s > 30000 \<or>
         tr_MaxAttempts s < 1 \<or> tr_MaxAttempts s > 10 \<or>
         length (slice (tr_Providers s)) > 20 \<or> length (slice (tr_Routes s)) > 100 \<or>
         tr_StaffLanguage s \<noteq> [] \<and> \<not> validSettingsLanguage (tr_StaffLanguage s) False \<or>
         tr_CustomerLanguage s \<noteq> [] \<and> \<not> validSettingsLanguage (tr_CustomerLanguage s) False
      then Some (ErrInvalidConfig [])
      else
        case validate_providers lib (slice (tr_Providers s)) [] 0 of
          Inl e \<Rightarrow> Some e
        | Inr (providers, enabled) \<Rightarrow>
            if \<not> list_all (validate_route providers (length (slice (tr_Providers s)))) (slice (tr_Routes s))
            then Some (ErrInvalidConfig [])
            else if tr_Enabled s \<and>
              (enabled = 0 \<or> tr_StaffLanguage s = [] \<or> tr_CustomerLanguage s = [] \<or>
               settingsLanguageBase (tr_StaffLanguage s) = settingsLanguageBase (tr_CustomerLanguage s))
            then Some (ErrInvalidConfig [])
            else None)"

section \<open>What validation guarantees\<close>

lemma validate_providers_Inr:
  assumes "validate_providers lib ps m n = Inr (m', n')" and "distinct (map fst m)"
  shows "distinct (map fst m')"
    and "distinct (map pv_ID ps)"
    and "\<forall>p \<in> set ps. pv_ID p \<notin> fst ` set m \<and> idPattern (pv_ID p) \<and> provider_bounds_ok p"
    and "map_of m' = map_of m ++ map_of (map (\<lambda>p. (pv_ID p, p)) ps)"
    and "n' = n + length (filter pv_Enabled ps)"
proof -
  have "distinct (map fst m') \<and> distinct (map pv_ID ps) \<and>
      (\<forall>p \<in> set ps. pv_ID p \<notin> fst ` set m \<and> idPattern (pv_ID p) \<and> provider_bounds_ok p) \<and>
      map_of m' = map_of m ++ map_of (map (\<lambda>p. (pv_ID p, p)) ps) \<and>
      n' = n + length (filter pv_Enabled ps)"
    using assms
  proof (induction ps arbitrary: m n)
    case Nil
    then show ?case by simp
  next
    case (Cons p ps)
    have new: "validate_provider lib m p = None"
      using Cons.prems(1) by (auto split: option.splits)
    then have p: "idPattern (pv_ID p)" "provider_bounds_ok p" "pv_ID p \<notin> fst ` set m"
      by (auto simp: validate_provider_def map_of_eq_None_iff split: if_splits)
    let ?m = "AList.update (pv_ID p) p m"
    have d: "distinct (map fst ?m)" using Cons.prems(2) by (rule AList.distinct_update)
    have keys: "fst ` set ?m = insert (pv_ID p) (fst ` set m)" by (simp add: dom_update)
    have rest: "validate_providers lib ps ?m (if pv_Enabled p then n + 1 else n) = Inr (m', n')"
      using Cons.prems(1) new by simp
    note IH = Cons.IH [OF rest d]
    have "pv_ID p \<notin> pv_ID ` set ps" using IH keys by fastforce
    moreover from this have "map_of (map (\<lambda>p. (pv_ID p, p)) ps) (pv_ID p) = None"
      by (auto simp: map_of_eq_None_iff image_image)
    then have "map_of ?m ++ map_of (map (\<lambda>p. (pv_ID p, p)) ps) =
        map_of m ++ map_of (map (\<lambda>p. (pv_ID p, p)) (p # ps))"
      by (auto simp: update_conv' map_add_def fun_eq_iff split: option.split)
    then have "map_of m' = map_of m ++ map_of (map (\<lambda>p. (pv_ID p, p)) (p # ps))"
      using IH by (metis (no_types))
    ultimately show ?case using IH keys p by (auto simp del: map_of.simps)
  qed
  then show "distinct (map fst m')" "distinct (map pv_ID ps)"
    "\<forall>p \<in> set ps. pv_ID p \<notin> fst ` set m \<and> idPattern (pv_ID p) \<and> provider_bounds_ok p"
    "map_of m' = map_of m ++ map_of (map (\<lambda>p. (pv_ID p, p)) ps)"
    "n' = n + length (filter pv_Enabled ps)" by blast+
qed

lemma validate_route_ids_iff:
  "validate_route_ids m ids seen \<longleftrightarrow>
     distinct ids \<and> set ids \<inter> set seen = {} \<and> (\<forall>pid \<in> set ids. \<exists>p. map_of m pid = Some p \<and> pv_Enabled p)"
  by (induction ids arbitrary: seen) (auto split: option.split)

definition provider_by_id :: "TranslationSettings \<Rightarrow> string \<Rightarrow> ProviderSettings option" where
  "provider_by_id s = map_of (map (\<lambda>p. (pv_ID p, p)) (slice (tr_Providers s)))"

lemma ValidateSettings_None:
  assumes "ValidateSettings lib s = None"
  shows "distinct (map pv_ID (slice (tr_Providers s)))"
    and "\<forall>p \<in> set (slice (tr_Providers s)). idPattern (pv_ID p) \<and> provider_bounds_ok p"
    and "1 \<le> tr_MaxAttempts s" "tr_MaxAttempts s \<le> 10"
    and "\<forall>r \<in> set (slice (tr_Routes s)). rt_Providers r \<noteq> [] \<and> distinct (rt_Providers r) \<and>
           (\<forall>pid \<in> set (rt_Providers r). \<exists>p. provider_by_id s pid = Some p \<and> pv_Enabled p)"
    and "tr_Enabled s \<Longrightarrow> \<exists>p \<in> set (slice (tr_Providers s)). pv_Enabled p"
    and "tr_Enabled s \<Longrightarrow>
           settingsLanguageBase (tr_StaffLanguage s) \<noteq> settingsLanguageBase (tr_CustomerLanguage s)"
proof -
  obtain m n where vp: "validate_providers lib (slice (tr_Providers s)) [] 0 = Inr (m, n)"
    and routes: "list_all (validate_route m (length (slice (tr_Providers s)))) (slice (tr_Routes s))"
    and en: "tr_Enabled s \<Longrightarrow> n \<noteq> 0 \<and>
      settingsLanguageBase (tr_StaffLanguage s) \<noteq> settingsLanguageBase (tr_CustomerLanguage s)"
    and ma: "1 \<le> tr_MaxAttempts s" "tr_MaxAttempts s \<le> 10"
    using assms unfolding ValidateSettings_def by (fastforce split: if_splits sum.splits)
  note v = validate_providers_Inr [OF vp]
  show "distinct (map pv_ID (slice (tr_Providers s)))"
    and "\<forall>p \<in> set (slice (tr_Providers s)). idPattern (pv_ID p) \<and> provider_bounds_ok p"
    using v(2,3) by auto
  show "1 \<le> tr_MaxAttempts s" "tr_MaxAttempts s \<le> 10" by (fact ma)+
  have "map_of m = provider_by_id s" using v(4) by (simp add: provider_by_id_def)
  then show "\<forall>r \<in> set (slice (tr_Routes s)). rt_Providers r \<noteq> [] \<and> distinct (rt_Providers r) \<and>
      (\<forall>pid \<in> set (rt_Providers r). \<exists>p. provider_by_id s pid = Some p \<and> pv_Enabled p)"
    using routes by (auto simp: list_all_iff validate_route_def validate_route_ids_iff)
  show "\<exists>p \<in> set (slice (tr_Providers s)). pv_Enabled p" if "tr_Enabled s"
    using en [OF that] v(5) by (auto simp: filter_empty_conv)
  show "settingsLanguageBase (tr_StaffLanguage s) \<noteq> settingsLanguageBase (tr_CustomerLanguage s)"
    if "tr_Enabled s" using en [OF that] by blast
qed

lemma idPattern_no_space:
  assumes "idPattern s"
  shows "s \<noteq> []" and "TrimSpace s = s"
proof -
  show "s \<noteq> []" using assms by (auto simp: idPattern_def)
  have "\<forall>c \<in> set s. is_lower c \<or> is_digit c \<or> c = CHR ''_'' \<or> c = CHR ''-''"
    using assms by (auto simp: idPattern_def list_all_iff split: list.splits)
  moreover have "\<not> is_space c" if "is_lower c \<or> is_digit c \<or> c = CHR ''_'' \<or> c = CHR ''-''" for c
    using that by (auto simp: is_space_def is_lower_def is_digit_def less_eq_char_def)
  ultimately show "TrimSpace s = s" by (blast intro: TrimSpace_id)
qed

end
