(* ===== verification/Placeholders.thy ===== *)
theory Placeholders
  imports TranslateSettings Utf8 "HOL-Library.Sublist"
begin

text \<open>
  The placeholders that protect code, addresses, mentions and amounts while a text is translated
  (\<open>protectText\<close> and \<open>restoreText\<close> of \<^verbatim>\<open>server/translate/translate.go\<close>). The matches of the
  pattern are an argument; replacing is written out, with the template expansion of Go's
  \<^verbatim>\<open>regexp\<close> package.
\<close>

section \<open>Protected text\<close>

text \<open>The matches of the pattern cut a text into plain and protected segments.\<close>

datatype segment = Plain string | Protected string

fun segment_text :: "segment \<Rightarrow> string" where
  "segment_text (Plain s) = s"
| "segment_text (Protected v) = v"

record textPlaceholder =
  tp_token :: string
  tp_value :: string

definition placeholder_token :: "nat \<Rightarrow> string" where
  "placeholder_token i = ''XIM'' @ Itoa (int i) @ ''X''"

fun protect_loop :: "nat \<Rightarrow> segment list \<Rightarrow> string \<times> textPlaceholder list" where
  "protect_loop i [] = ([], [])"
| "protect_loop i (Plain s # segs) = (let (text, ps) = protect_loop i segs in (s @ text, ps))"
| "protect_loop i (Protected v # segs) =
     (let token = placeholder_token i; (text, ps) = protect_loop (Suc i) segs
      in (token @ text, \<lparr>tp_token = token, tp_value = v\<rparr> # ps))"

definition protectText :: "(string \<Rightarrow> segment list) \<Rightarrow> string \<Rightarrow> string \<times> textPlaceholder list" where
  "protectText matches text = protect_loop 0 (matches text)"

text \<open>\<open>strings.Count\<close> and \<open>strings.Replace\<close> with \<open>n = 1\<close>, for a text to look for that is not empty.\<close>

function count_sub :: "string \<Rightarrow> string \<Rightarrow> nat" where
  "count_sub s sub =
     (if s = [] \<or> sub = [] then 0
      else if HasPrefix s sub then Suc (count_sub (drop (length sub) s) sub)
      else count_sub (tl s) sub)"
  by auto
termination
  by (relation "measure (\<lambda>(s, _). length s)") auto

declare count_sub.simps [simp del]

fun replace_first :: "string \<Rightarrow> string \<Rightarrow> string \<Rightarrow> string" where
  "replace_first [] sub new = []"
| "replace_first (c # s) sub new =
     (if HasPrefix (c # s) sub then new @ drop (length sub) (c # s) else c # replace_first s sub new)"

text \<open>
  \<open>Regexp.ReplaceAllString\<close> expands the replacement: \<^verbatim>\<open>$name\<close> and \<^verbatim>\<open>${name}\<close> stand for a group of
  the pattern, \<^verbatim>\<open>$$\<close> for a dollar sign. The pattern has no groups, so the name 0 is the whole match
  and every other name the empty text. \<open>letter\<close> tells which runes of several bytes are letters
  or digits.
\<close>

function name_length :: "(string \<Rightarrow> bool) \<Rightarrow> string \<Rightarrow> nat" where
  "name_length letter s =
     (if s = [] then 0
      else
        let w = rune_width s; r = take w s in
        if (if w = 1 \<and> ascii (hd s) then is_lower (hd s) \<or> is_upper (hd s) \<or> is_digit (hd s) \<or> hd s = CHR ''_''
            else letter r)
        then w + name_length letter (drop w s)
        else 0)"
  by auto
termination
  by (relation "measure (\<lambda>(_, s). length s)") (auto simp: Let_def)

declare name_length.simps [simp del]

definition extract_name :: "(string \<Rightarrow> bool) \<Rightarrow> string \<Rightarrow> (string \<times> string) option" where
  "extract_name letter s =
     (let brace = (s \<noteq> [] \<and> hd s = CHR ''{'');
          s1 = (if brace then tl s else s);
          i = name_length letter s1
      in if i = 0 then None
         else if brace then
           (if i \<ge> length s1 \<or> s1 ! i \<noteq> CHR ''}'' then None else Some (take i s1, drop (i + 1) s1))
         else Some (take i s1, drop i s1))"

lemma extract_name_shorter: "extract_name letter s = Some (nm, rest) \<Longrightarrow> length rest < length s"
  by (cases s) (auto simp: extract_name_def Let_def name_length.simps [of letter "[]"] split: if_splits)

function expand_template :: "(string \<Rightarrow> bool) \<Rightarrow> string \<Rightarrow> string \<Rightarrow> string" where
  "expand_template letter match [] = []"
| "expand_template letter match (c # s) =
     (if c \<noteq> CHR ''$'' then c # expand_template letter match s
      else if s \<noteq> [] \<and> hd s = CHR ''$'' then CHR ''$'' # expand_template letter match (tl s)
      else
        case extract_name letter s of
          None \<Rightarrow> CHR ''$'' # expand_template letter match s
        | Some (nm, rest) \<Rightarrow> (if nm = ''0'' then match else []) @ expand_template letter match rest)"
  by pat_completeness auto
termination
  by (relation "measure (\<lambda>(_, _, s). length s)") (auto dest: extract_name_shorter)

text \<open>Matching without regard to case; the tokens are of ASCII letters and digits.\<close>

function replace_all_fold :: "(string \<Rightarrow> bool) \<Rightarrow> string \<Rightarrow> string \<Rightarrow> string \<Rightarrow> string" where
  "replace_all_fold letter sub new s =
     (if s = [] \<or> sub = [] then s
      else if HasPrefix (ToLower s) (ToLower sub) then
        expand_template letter (take (length sub) s) new @
        replace_all_fold letter sub new (drop (length sub) s)
      else hd s # replace_all_fold letter sub new (tl s))"
  by auto
termination
  by (relation "measure (\<lambda>(_, _, _, s). length s)") auto

declare replace_all_fold.simps [simp del]

fun restoreText :: "(string \<Rightarrow> bool) \<Rightarrow> string \<Rightarrow> textPlaceholder list \<Rightarrow> translate_error + string" where
  "restoreText letter text [] = Inr text"
| "restoreText letter text (p # ps) =
     (if count_sub text (tp_token p) = 1
      then restoreText letter (replace_first text (tp_token p) (tp_value p)) ps
      else if count_sub (ToLower text) (ToLower (tp_token p)) = 1
      then restoreText letter (replace_all_fold letter (tp_token p) (tp_value p) text) ps
      else Inl (ErrProvider ''protected placeholder was changed''))"

section \<open>Protected text comes back\<close>

lemma count_sub_absent: "sub \<noteq> [] \<Longrightarrow> \<not> sublist sub s \<Longrightarrow> count_sub s sub = 0"
proof (induction s)
  case (Cons c s)
  then have "\<not> HasPrefix (c # s) sub" and "\<not> sublist sub s"
    by (metis HasPrefix_iff sublist_append_rightI, metis sublist_Cons_right)
  then show ?case using Cons by (simp add: count_sub.simps [of "c # s"])
qed (simp add: count_sub.simps)

lemma count_replace_skip:
  assumes "\<forall>i < length a. \<not> HasPrefix (drop i (a @ t)) sub" "sub \<noteq> []"
  shows "count_sub (a @ t) sub = count_sub t sub \<and> replace_first (a @ t) sub new = a @ replace_first t sub new"
  using assms(1)
proof (induction a)
  case (Cons c a)
  have "\<not> HasPrefix (c # a @ t) sub" using Cons.prems by (metis append_Cons drop0 length_greater_0_conv list.discI)
  moreover have "\<forall>i < length a. \<not> HasPrefix (drop i (a @ t)) sub"
    using Cons.prems by (metis Suc_mono append_Cons drop_Suc_Cons length_Cons)
  ultimately show ?case using Cons.IH assms(2) by (simp add: count_sub.simps [of "c # a @ t"])
qed simp

lemma count_replace_here:
  assumes "sub \<noteq> []"
  shows "count_sub (sub @ t) sub = Suc (count_sub t sub)" and "replace_first (sub @ t) sub new = new @ t"
proof -
  obtain c cs where "sub = c # cs" using assms by (cases sub) auto
  then show "replace_first (sub @ t) sub new = new @ t" using HasPrefix_append [of sub t] by simp
  show "count_sub (sub @ t) sub = Suc (count_sub t sub)" using assms by (simp add: count_sub.simps [of "sub @ t"])
qed

text \<open>Decimal numbers.\<close>

definition digits_value :: "string \<Rightarrow> nat" where
  "digits_value = foldl (\<lambda>n c. 10 * n + (of_char c - 48)) 0"

lemma Itoa_digits_value: "digits_value (Itoa_digits n) = n"
proof (induction n rule: Itoa_digits.induct)
  case (1 n)
  have "n < 10 \<Longrightarrow> of_char (char_of (48 + n) :: char) = 48 + n" for n :: nat by simp
  then show ?case using 1 by (auto simp: Itoa_digits.simps [of n] digits_value_def)
qed

lemma Itoa_digits_digit: "Itoa_digits n \<noteq> [] \<and> (\<forall>c \<in> set (Itoa_digits n). is_digit c)"
proof (induction n rule: Itoa_digits.induct)
  case (1 n)
  have "is_digit (char_of (48 + n))" if "n < 10" for n :: nat
    using that by (simp add: is_digit_def less_eq_char_def)
  then show ?case using 1 by (auto simp: Itoa_digits.simps [of n])
qed

lemma placeholder_token_eq: "placeholder_token k = ''XIM'' @ Itoa_digits k @ ''X''"
  by (simp add: placeholder_token_def Itoa_def)

lemma not_digit [simp]: "\<not> is_digit CHR ''X''" "\<not> is_digit CHR ''I''" "\<not> is_digit CHR ''M''"
  by (simp_all add: is_digit_def less_eq_char_def)

definition plain_ok :: "segment list \<Rightarrow> bool" where
  "plain_ok segs = (\<forall>t. Plain t \<in> set segs \<longrightarrow> (\<forall>c \<in> set t. \<not> is_digit c))"

lemma plain_ok_simps [simp]:
  "plain_ok []" "plain_ok (Protected v # segs) = plain_ok segs"
  "plain_ok (Plain t # segs) = ((\<forall>c \<in> set t. \<not> is_digit c) \<and> plain_ok segs)"
  by (auto simp: plain_ok_def)

lemma protect_start: "plain_ok segs \<Longrightarrow> fst (protect_loop k segs) = c # t \<Longrightarrow> \<not> is_digit c"
proof (induction segs arbitrary: k)
  case (Cons seg segs)
  then show ?case
    by (cases seg) (auto simp: placeholder_token_eq Let_def case_prod_unfold Cons_eq_append_conv append_eq_Cons_conv)
qed simp

lemma digit_run:
  assumes "ds @ CHR ''X'' # w = ds' @ CHR ''X'' # w'" "\<forall>c \<in> set ds. is_digit c" "\<forall>c \<in> set ds'. is_digit c"
  shows "ds = ds'"
proof -
  have "takeWhile is_digit (es @ CHR ''X'' # v) = es" if "\<forall>c \<in> set es. is_digit c" for es v
    using that by (induction es) auto
  then show ?thesis using assms by metis
qed

lemma protect_numbers:
  assumes "plain_ok segs" "fst (protect_loop k segs) = u @ CHR ''M'' # ds @ CHR ''X'' # w"
    and "ds \<noteq> []" "\<forall>c \<in> set ds. is_digit c"
  shows "\<exists>j \<ge> k. ds = Itoa_digits j"
  using assms(1,2)
proof (induction segs arbitrary: k u)
  case (Cons seg segs)
  show ?case
  proof (cases seg)
    case (Plain t)
    let ?B = "fst (protect_loop k segs)"
    have eq: "t @ ?B = u @ CHR ''M'' # ds @ CHR ''X'' # w" and nd: "\<forall>c \<in> set t. \<not> is_digit c"
      and ok: "plain_ok segs" using Cons.prems Plain by (auto simp: case_prod_unfold Let_def)
    from eq consider v where "u = t @ v" "?B = v @ CHR ''M'' # ds @ CHR ''X'' # w"
      | v where "t = u @ CHR ''M'' # v" "v @ ?B = ds @ CHR ''X'' # w"
      by (auto simp: append_eq_append_conv2 append_eq_Cons_conv)
    then show ?thesis
    proof cases
      case 1
      then show ?thesis using Cons.IH ok by blast
    next
      case 2
      obtain d es where ds: "ds = d # es" using assms(3) by (cases ds) auto
      have "v = []" using 2 nd assms(4) ds by (cases v) auto
      then have "?B = d # es @ CHR ''X'' # w" using 2 ds by simp
      then show ?thesis using protect_start [OF ok] assms(4) ds by auto
    qed
  next
    case (Protected v)
    let ?B = "fst (protect_loop (Suc k) segs)" and ?D = "Itoa_digits k"
    have eq: "''XIM'' @ ?D @ CHR ''X'' # ?B = u @ CHR ''M'' # ds @ CHR ''X'' # w" and ok: "plain_ok segs"
      using Cons.prems Protected by (auto simp: case_prod_unfold Let_def placeholder_token_eq)
    have D: "\<forall>c \<in> set ?D. is_digit c" using Itoa_digits_digit by blast
    have noM: "CHR ''M'' \<notin> set ?D" using D by auto
    from eq consider "u = ''XI''" "?D @ CHR ''X'' # ?B = ds @ CHR ''X'' # w"
      | u' where "u = ''XIM'' @ ?D @ ''X'' @ u'" "?B = u' @ CHR ''M'' # ds @ CHR ''X'' # w"
      using noM by (auto simp: Cons_eq_append_conv append_eq_append_conv2 append_eq_Cons_conv)
    then show ?thesis
    proof cases
      case 1
      then show ?thesis using digit_run [OF 1(2) D assms(4)] by auto
    next
      case 2
      then obtain j where "Suc k \<le> j" "ds = Itoa_digits j" using Cons.IH [OF ok] by blast
      then show ?thesis by (auto intro: Suc_leD)
    qed
  qed
qed simp

lemma token_absent_later:
  assumes "plain_ok segs"
  shows "\<not> sublist (placeholder_token k) (fst (protect_loop (Suc k) segs))"
proof
  assume "sublist (placeholder_token k) (fst (protect_loop (Suc k) segs))"
  then obtain u w where "fst (protect_loop (Suc k) segs) = (u @ ''XI'') @ CHR ''M'' # Itoa_digits k @ CHR ''X'' # w"
    by (auto simp: sublist_def placeholder_token_eq)
  then obtain j where "Suc k \<le> j" "Itoa_digits k = Itoa_digits j"
    using protect_numbers [OF assms] Itoa_digits_digit by blast
  then show False by (metis Itoa_digits_value Suc_n_not_le_n)
qed

lemma token_not_before:
  assumes "\<not> sublist ''XIM'' a" "i < length a"
  shows "\<not> HasPrefix (drop i (a @ placeholder_token k @ b)) (placeholder_token k)"
proof
  assume *: "HasPrefix (drop i (a @ placeholder_token k @ b)) (placeholder_token k)"
  obtain a1 a2 where a: "a = a1 @ a2" "length a1 = i" "a2 \<noteq> []"
    using assms(2) by (metis append_take_drop_id drop_eq_Nil length_take min.absorb4 not_less)
  then have "a2 @ placeholder_token k @ b = placeholder_token k @ z \<Longrightarrow> False" for z
    using assms(1) by (cases a2 rule: list.exhaust; simp add: placeholder_token_eq)
      (auto simp: sublist_def Cons_eq_append_conv append_eq_Cons_conv)
  then show False using * a by (auto simp: HasPrefix_iff)
qed

lemma restore_protected:
  assumes "plain_ok segs" "\<not> sublist ''XIM'' (a @ concat (map segment_text segs))"
  shows "restoreText letter (a @ fst (protect_loop k segs)) (snd (protect_loop k segs)) =
           Inr (a @ concat (map segment_text segs))"
  using assms
proof (induction segs arbitrary: a k)
  case (Cons seg segs)
  show ?case
  proof (cases seg)
    case (Plain t)
    then show ?thesis using Cons.IH [of "a @ t" k] Cons.prems by (auto simp: case_prod_unfold Let_def)
  next
    case (Protected v)
    let ?tok = "placeholder_token k" and ?B = "fst (protect_loop (Suc k) segs)"
    have ok: "plain_ok segs" using Cons.prems Protected by simp
    have "\<not> sublist ''XIM'' a" using Cons.prems(2) by (auto simp: sublist_append)
    then have skip: "count_sub (a @ ?tok @ ?B) ?tok = count_sub (?tok @ ?B) ?tok"
      "replace_first (a @ ?tok @ ?B) ?tok v = a @ replace_first (?tok @ ?B) ?tok v"
      using count_replace_skip [of a "?tok @ ?B" ?tok v] token_not_before
      by (auto simp: placeholder_token_eq)
    have ne: "?tok \<noteq> []" by (simp add: placeholder_token_eq)
    have "count_sub (a @ ?tok @ ?B) ?tok = 1"
      using skip(1) count_replace_here(1) [OF ne] count_sub_absent [OF ne token_absent_later [OF ok]] by simp
    moreover have "replace_first (a @ ?tok @ ?B) ?tok v = (a @ v) @ ?B"
      using skip(2) count_replace_here(2) [OF ne] by simp
    ultimately show ?thesis
      using Cons.IH [OF ok, of "a @ v" "Suc k"] Cons.prems(2) Protected
      by (simp add: case_prod_unfold Let_def)
  qed
qed simp

text \<open>Protecting a text and restoring it gives the text back, when the provider keeps the
  placeholders and the text has no \<open>XIM\<close> of its own. All digits are inside matches of the pattern.\<close>

theorem protect_restore:
  assumes "concat (map segment_text (matches text)) = text" "plain_ok (matches text)"
    and "\<not> sublist ''XIM'' text"
  shows "restoreText letter (fst (protectText matches text)) (snd (protectText matches text)) = Inr text"
  using restore_protected [OF assms(2), of "[]" letter 0] assms by (simp add: protectText_def)

theorem protect_restore_witness:
  "restoreText (\<lambda>_. False) (fst (protectText (\<lambda>_. [Plain ''pay '', Protected ''$5'', Plain '' to '', Protected ''@bob'']) ''pay $5 to @bob''))
     (snd (protectText (\<lambda>_. [Plain ''pay '', Protected ''$5'', Plain '' to '', Protected ''@bob'']) ''pay $5 to @bob'')) =
   Inr ''pay $5 to @bob''"
  by (rule protect_restore)
     (auto simp: is_digit_def less_eq_char_def sublist_def append_eq_Cons_conv Cons_eq_append_conv)

lemma name_length_digits: "(\<forall>c \<in> set ds. is_digit c) \<Longrightarrow> name_length letter ds = length ds"
proof (induction ds)
  case (Cons d ds)
  then have "ascii d" by (auto simp: ascii_def is_digit_def less_eq_char_def)
  then show ?case using Cons by (simp add: name_length.simps [of letter "d # ds"] rune_width_ascii)
qed (simp add: name_length.simps)

text \<open>When a provider changes the case of a placeholder, the value that is put back is expanded
  as a template: an amount in dollars disappears from the translation.\<close>

theorem restore_loses_dollars:
  assumes "\<forall>c \<in> set ds. is_digit c" "ds \<noteq> []" "ds \<noteq> ''0''"
  shows "restoreText letter ''xim0x'' [\<lparr>tp_token = placeholder_token 0, tp_value = CHR ''$'' # ds\<rparr>] = Inr []"
proof -
  have tok: "placeholder_token 0 = ''XIM0X''" by code_simp
  obtain d es where ds: "ds = d # es" using assms(2) by (cases ds) auto
  have "d \<noteq> CHR ''$''" "d \<noteq> CHR ''{''" using assms(1) ds by (auto simp: is_digit_def less_eq_char_def)
  moreover have "extract_name letter ds = Some (ds, [])"
    using name_length_digits [OF assms(1)] ds \<open>d \<noteq> CHR ''{''\<close> by (simp add: extract_name_def)
  ultimately have "expand_template letter m (CHR ''$'' # ds) = []" for m
    using assms(3) ds by auto
  moreover have low: "ToLower ''xim0x'' = ''xim0x''" "ToLower ''XIM0X'' = ''xim0x''"
    by code_simp+
  moreover have "count_sub ''xim0x'' ''XIM0X'' = 0" "count_sub ''xim0x'' ''xim0x'' = 1"
    by (simp_all add: count_sub.simps HasPrefix_def)
  ultimately show ?thesis
    by (simp add: tok replace_all_fold.simps HasPrefix_def)
qed

theorem restore_loses_dollars_witness:
  "restoreText (\<lambda>_. False) ''xim0x'' [\<lparr>tp_token = placeholder_token 0, tp_value = ''$25''\<rparr>] = Inr []"
  using restore_loses_dollars [of "''25''" "\<lambda>_. False"] by (simp add: is_digit_def less_eq_char_def)

text \<open>A text with a placeholder of its own is refused: its digit is protected, and putting it back
  recreates the token of the next placeholder.\<close>

lemma restore_refuses_own_token:
  "restoreText letter (fst (protectText (\<lambda>_. [Plain ''XIM'', Protected ''1'', Plain ''X and '', Protected ''7'']) ''XIM1X and 7''))
     (snd (protectText (\<lambda>_. [Plain ''XIM'', Protected ''1'', Plain ''X and '', Protected ''7'']) ''XIM1X and 7'')) =
   Inl (ErrProvider ''protected placeholder was changed'')"
  by code_simp

end
