(* ===== verification/TranslateRouter.thy ===== *)
theory TranslateRouter
  imports TranslateSettings Placeholders "HOL-Library.Product_Lexorder" "HOL-Library.Sublist" "HOL-Library.Multiset"
begin

text \<open>
  The router of translation requests (\<^verbatim>\<open>server/translate/translate.go\<close>): which providers are tried
  and in which order, and the monthly quota and the circuit breaker of each.

  The providers' HTTP calls, the clock, the file system and the JSON decoder are arguments. The
  three critical sections \<open>reserve\<close>, \<open>succeeded\<close> and \<open>failed\<close> are functions on the router; what
  other requests do between them is an arbitrary function. Durations are in nanoseconds.
\<close>

section \<open>Data\<close>

record Request =
  rq_Text :: string
  rq_SourceLanguage :: string
  rq_TargetLanguage :: string

record Result =
  rs_Text :: string
  rs_DetectedSourceLanguage :: string
  rs_Provider :: string

record ProviderConfig =
  pcf_ID :: string
  pcf_Type :: string
  pcf_Enabled :: bool
  pcf_Priority :: int
  pcf_Endpoint :: string
  pcf_Region :: string
  pcf_CredentialFile :: string
  pcf_ProjectID :: string
  pcf_Timeout :: int
  pcf_MonthlyCharacterLimit :: int
  pcf_FailureThreshold :: int
  pcf_OpenDuration :: int
  pcf_GlossaryID :: string

record Route =
  ru_Source :: string
  ru_Target :: string
  ru_Providers :: "string list"

record Config =
  co_Providers :: "ProviderConfig list"
  co_Routes :: "Route list"
  co_MaxAttempts :: int

record credentials =
  cr_APIKey :: string
  cr_AccessKeyID :: string
  cr_SecretAccessKey :: string
  cr_SessionToken :: string

datatype client =
    azureProvider url string string
  | googleProvider url string string
  | deepLProvider url string string
  | libreProvider url string
  | awsProvider url string string string string

record providerState =
  ps_config :: ProviderConfig
  ps_client :: client
  ps_failures :: int
  ps_openUntil :: go_time
  ps_usageMonth :: string
  ps_usageChars :: int

record Router =
  ro_providers :: "(string \<times> providerState) list"
  ro_configured :: "string list"
  ro_unavailable :: "(string \<times> translate_error) list"
  ro_ordered :: "string list"
  ro_routes :: "Route list"
  ro_maxAttempts :: int

definition defaultTimeout :: int where "defaultTimeout = 5000 * 1000000"
definition defaultFailureThreshold :: int where "defaultFailureThreshold = 3"
definition defaultOpenDuration :: int where "defaultOpenDuration = 30 * 1000000000"
definition defaultMaxAttempts :: int where "defaultMaxAttempts = 3"

definition RouterConfig :: "TranslationSettings \<Rightarrow> Config" where
  "RouterConfig s =
     \<lparr>co_Providers = map (\<lambda>p. \<lparr>pcf_ID = pv_ID p, pcf_Type = pv_Type p, pcf_Enabled = pv_Enabled p,
          pcf_Priority = pv_Priority p, pcf_Endpoint = pv_Endpoint p, pcf_Region = pv_Region p,
          pcf_CredentialFile = pv_CredentialFile p, pcf_ProjectID = pv_ProjectID p,
          pcf_Timeout = pv_TimeoutMS p * 1000000,
          pcf_MonthlyCharacterLimit = pv_MonthlyCharacterLimit p,
          pcf_FailureThreshold = pv_FailureThreshold p,
          pcf_OpenDuration = pv_OpenSeconds p * 1000000000,
          pcf_GlossaryID = pv_GlossaryID p\<rparr>) (slice (tr_Providers s)),
      co_Routes = map (\<lambda>r. \<lparr>ru_Source = rt_Source r, ru_Target = rt_Target r,
          ru_Providers = rt_Providers r\<rparr>) (slice (tr_Routes s)),
      co_MaxAttempts = tr_MaxAttempts s\<rparr>"

section \<open>Clients\<close>

definition FileSecretResolver :: "(string \<Rightarrow> string option) \<Rightarrow> string \<Rightarrow> translate_error + string" where
  "FileSecretResolver read path =
     (case read path of
        None \<Rightarrow> Inl (ErrSecretNotFound path)
      | Some value \<Rightarrow>
          if length value = 0 \<or> length value > 65536 then Inl (ErrSecretNotFound path)
          else
            let value = TrimSpace value in
            if length value = 0 then Inl (ErrSecretNotFound path) else Inr value)"

definition no_credentials :: credentials where
  "no_credentials = \<lparr>cr_APIKey = [], cr_AccessKeyID = [], cr_SecretAccessKey = [], cr_SessionToken = []\<rparr>"

definition resolveCredentials ::
  "(string \<Rightarrow> credentials option) \<Rightarrow> (string \<Rightarrow> translate_error + string) \<Rightarrow> string \<Rightarrow>
   translate_error + credentials" where
  "resolveCredentials json resolve ref =
     (if TrimSpace ref = [] then Inl (ErrInvalidConfig ''credential_file is required'')
      else
        case resolve ref of
          Inl e \<Rightarrow> Inl e
        | Inr raw \<Rightarrow>
            if raw \<noteq> [] \<and> hd raw = CHR ''{'' then
              (case json raw of
                 None \<Rightarrow> Inl (ErrInvalidConfig ''malformed credential JSON'')
               | Some value \<Rightarrow> Inr value)
            else Inr (no_credentials\<lparr>cr_APIKey := raw\<rparr>))"

definition endpointURL :: "go_lib \<Rightarrow> string \<Rightarrow> string \<Rightarrow> translate_error + url" where
  "endpointURL lib raw0 fallback =
     (let raw = (if TrimSpace raw0 = [] then fallback else raw0) in
      if raw = [] then Inl (ErrInvalidConfig ''endpoint is required'')
      else
        case url_Parse lib raw of
          None \<Rightarrow> Inl (ErrInvalidConfig ''invalid endpoint'')
        | Some u \<Rightarrow> if url_ok u then Inr u else Inl (ErrInvalidConfig ''invalid endpoint''))"

definition newProvider ::
  "go_lib \<Rightarrow> (string \<Rightarrow> credentials option) \<Rightarrow> (string \<Rightarrow> translate_error + string) \<Rightarrow> ProviderConfig \<Rightarrow>
   translate_error + client" where
  "newProvider lib json resolve config =
     (case (if pcf_CredentialFile config \<noteq> [] then resolveCredentials json resolve (pcf_CredentialFile config)
            else Inr no_credentials) of
        Inl e \<Rightarrow> Inl e
      | Inr credential \<Rightarrow>
          if pcf_Type config = ''azure'' then
            (if cr_APIKey credential = [] then Inl (ErrInvalidConfig ''api_key is required'')
             else map_sum id (\<lambda>u. azureProvider u (cr_APIKey credential) (pcf_Region config))
               (endpointURL lib (pcf_Endpoint config) ''https://api.cognitive.microsofttranslator.com''))
          else if pcf_Type config = ''google'' then
            (if cr_APIKey credential = [] then Inl (ErrInvalidConfig ''api_key is required'')
             else map_sum id (\<lambda>u. googleProvider u (cr_APIKey credential) (pcf_ProjectID config))
               (endpointURL lib (pcf_Endpoint config) ''https://translation.googleapis.com''))
          else if pcf_Type config = ''deepl'' then
            (if cr_APIKey credential = [] then Inl (ErrInvalidConfig ''api_key is required'')
             else map_sum id (\<lambda>u. deepLProvider u (cr_APIKey credential) (pcf_GlossaryID config))
               (endpointURL lib (pcf_Endpoint config) ''https://api-free.deepl.com''))
          else if pcf_Type config = ''libretranslate'' then
            map_sum id (\<lambda>u. libreProvider u (cr_APIKey credential))
              (endpointURL lib (pcf_Endpoint config) [])
          else if pcf_Type config = ''aws'' then
            (if cr_AccessKeyID credential = [] \<or> cr_SecretAccessKey credential = [] \<or> pcf_Region config = []
             then Inl (ErrInvalidConfig ''AWS access keys and region are required'')
             else map_sum id (\<lambda>u. awsProvider u (pcf_Region config) (cr_AccessKeyID credential)
                 (cr_SecretAccessKey credential) (cr_SessionToken credential))
               (endpointURL lib (pcf_Endpoint config)
                  (''https://translate.'' @ pcf_Region config @ ''.amazonaws.com'')))
          else Inl (ErrInvalidConfig ''unsupported provider type''))"

section \<open>Construction\<close>

definition with_defaults :: "ProviderConfig \<Rightarrow> ProviderConfig" where
  "with_defaults item =
     item\<lparr>pcf_Timeout := (if pcf_Timeout item \<le> 0 then defaultTimeout else pcf_Timeout item),
          pcf_FailureThreshold :=
            (if pcf_FailureThreshold item \<le> 0 then defaultFailureThreshold else pcf_FailureThreshold item),
          pcf_OpenDuration :=
            (if pcf_OpenDuration item \<le> 0 then defaultOpenDuration else pcf_OpenDuration item)\<rparr>"

definition new_state :: "ProviderConfig \<Rightarrow> client \<Rightarrow> providerState" where
  "new_state item cl = \<lparr>ps_config = item, ps_client = cl, ps_failures = 0, ps_openUntil = 0,
     ps_usageMonth = [], ps_usageChars = 0\<rparr>"

definition add_provider ::
  "(ProviderConfig \<Rightarrow> translate_error + client) \<Rightarrow> ProviderConfig \<Rightarrow> Router \<Rightarrow> translate_error + Router" where
  "add_provider mk item0 router =
     (let item = item0\<lparr>pcf_ID := TrimSpace (pcf_ID item0), pcf_Type := ToLower (TrimSpace (pcf_Type item0))\<rparr> in
      if pcf_ID item = [] then Inl (ErrInvalidConfig ''provider id is required'')
      else if pcf_ID item \<in> set (ro_configured router) then Inl (ErrInvalidConfig ''duplicate provider'')
      else
        let router1 = router\<lparr>ro_configured := pcf_ID item # ro_configured router\<rparr> in
        if \<not> pcf_Enabled item then Inr router1
        else
          let item = with_defaults item in
          case mk item of
            Inl e \<Rightarrow> Inr (router1\<lparr>ro_unavailable := AList.update (pcf_ID item) e (ro_unavailable router1)\<rparr>)
          | Inr cl \<Rightarrow>
              Inr (router1\<lparr>ro_providers := AList.update (pcf_ID item) (new_state item cl) (ro_providers router1),
                           ro_ordered := ro_ordered router1 @ [pcf_ID item]\<rparr>))"

fun add_providers ::
  "(ProviderConfig \<Rightarrow> translate_error + client) \<Rightarrow> ProviderConfig list \<Rightarrow> Router \<Rightarrow> translate_error + Router" where
  "add_providers mk [] router = Inr router"
| "add_providers mk (item # items) router =
     (case add_provider mk item router of
        Inl e \<Rightarrow> Inl e
      | Inr router1 \<Rightarrow> add_providers mk items router1)"

definition route_error :: "string list \<Rightarrow> Route \<Rightarrow> translate_error option" where
  "route_error configured route =
     (if length (ru_Providers route) = 0 then Some (ErrInvalidConfig ''route has no providers'')
      else if list_ex (\<lambda>pid. pid \<notin> set configured) (ru_Providers route)
      then Some (ErrInvalidConfig ''route references provider'')
      else None)"

fun route_errors :: "string list \<Rightarrow> Route list \<Rightarrow> translate_error option" where
  "route_errors configured [] = None"
| "route_errors configured (route # routes) =
     (case route_error configured route of Some e \<Rightarrow> Some e | None \<Rightarrow> route_errors configured routes)"

definition provider_rank :: "Router \<Rightarrow> string \<Rightarrow> int \<times> string" where
  "provider_rank router pid =
     (case map_of (ro_providers router) pid of
        None \<Rightarrow> (0, [])
      | Some st \<Rightarrow> (pcf_Priority (ps_config st), pcf_ID (ps_config st)))"

definition NewRouter ::
  "(ProviderConfig \<Rightarrow> translate_error + client) \<Rightarrow> Config \<Rightarrow> translate_error + Router" where
  "NewRouter mk config =
     (let maxAttempts = (if co_MaxAttempts config \<le> 0 then defaultMaxAttempts else co_MaxAttempts config) in
      case add_providers mk (co_Providers config)
             \<lparr>ro_providers = [], ro_configured = [], ro_unavailable = [], ro_ordered = [],
              ro_routes = co_Routes config, ro_maxAttempts = maxAttempts\<rparr> of
        Inl e \<Rightarrow> Inl e
      | Inr router \<Rightarrow>
          let router1 = router\<lparr>ro_ordered := sort_key (provider_rank router) (ro_ordered router)\<rparr> in
          (case route_errors (ro_configured router1) (ro_routes router1) of
             Some e \<Rightarrow> Inl e
           | None \<Rightarrow> Inr router1))"

section \<open>Candidates\<close>

definition languageMatches :: "string \<Rightarrow> string \<Rightarrow> bool" where
  "languageMatches pattern0 language =
     (let pattern = normalizeLanguage pattern0 in
      if pattern = [] \<or> pattern = ''*'' then True
      else if pattern = language then True
      else primaryLanguage pattern = primaryLanguage language)"

fun unique_loop :: "string list \<Rightarrow> string list \<Rightarrow> string list" where
  "unique_loop seen [] = []"
| "unique_loop seen (value # values) =
     (if value \<in> set seen then unique_loop seen values else value # unique_loop (value # seen) values)"

definition unique :: "string list \<Rightarrow> string list" where
  "unique values = unique_loop [] values"

fun route_candidates :: "string \<Rightarrow> string \<Rightarrow> string list \<Rightarrow> Route list \<Rightarrow> string list" where
  "route_candidates source target ordered [] = ordered"
| "route_candidates source target ordered (route # routes) =
     (if languageMatches (ru_Source route) source \<and> languageMatches (ru_Target route) target
      then unique (ru_Providers route)
      else route_candidates source target ordered routes)"

definition candidates :: "string \<Rightarrow> string \<Rightarrow> Router \<Rightarrow> string list" where
  "candidates source target router =
     route_candidates (normalizeLanguage source) (normalizeLanguage target) (ro_ordered router) (ro_routes router)"

section \<open>Quota and circuit breaker\<close>

definition set_state :: "string \<Rightarrow> providerState \<Rightarrow> Router \<Rightarrow> Router" where
  "set_state pid st router = router\<lparr>ro_providers := AList.update pid st (ro_providers router)\<rparr>"

definition this_month :: "string \<Rightarrow> providerState \<Rightarrow> providerState" where
  "this_month m st = (if ps_usageMonth st \<noteq> m then st\<lparr>ps_usageMonth := m, ps_usageChars := 0\<rparr> else st)"

definition over_limit :: "providerState \<Rightarrow> int \<Rightarrow> bool" where
  "over_limit st characters =
     (pcf_MonthlyCharacterLimit (ps_config st) > 0 \<and>
      ps_usageChars st + characters > pcf_MonthlyCharacterLimit (ps_config st))"

definition reserve ::
  "(go_time \<Rightarrow> string) \<Rightarrow> go_time \<Rightarrow> string \<Rightarrow> int \<Rightarrow> Router \<Rightarrow> providerState option \<times> Router" where
  "reserve month now pid characters router =
     (case map_of (ro_providers router) pid of
        None \<Rightarrow> (None, router)
      | Some st \<Rightarrow>
          if now < ps_openUntil st then (None, router)
          else
            let st1 = this_month (month now) st in
            if over_limit st1 characters then (None, set_state pid st1 router)
            else
              let st2 = st1\<lparr>ps_usageChars := ps_usageChars st1 + characters\<rparr> in
              (Some st2, set_state pid st2 router))"

definition succeeded :: "string \<Rightarrow> Router \<Rightarrow> Router" where
  "succeeded pid router =
     (case map_of (ro_providers router) pid of
        None \<Rightarrow> router
      | Some st \<Rightarrow> set_state pid (st\<lparr>ps_failures := 0, ps_openUntil := 0\<rparr>) router)"

definition failed :: "go_time \<Rightarrow> string \<Rightarrow> Router \<Rightarrow> Router" where
  "failed now pid router =
     (case map_of (ro_providers router) pid of
        None \<Rightarrow> router
      | Some st0 \<Rightarrow>
          let st = st0\<lparr>ps_failures := ps_failures st0 + 1\<rparr> in
          set_state pid
            (if ps_failures st \<ge> pcf_FailureThreshold (ps_config st)
             then st\<lparr>ps_failures := 0, ps_openUntil := now + pcf_OpenDuration (ps_config st)\<rparr>
             else st) router)"

section \<open>Translating\<close>

text \<open>What surrounds the attempt with one provider: the clock when it is reserved and when it has
  failed, the provider's answer, whether the request was cancelled by then, and what other requests
  did to the states of the providers in the meantime.\<close>

record call_env =
  ce_reserveNow :: go_time
  ce_answer :: "Request \<Rightarrow> translate_error + Result"
  ce_other :: "(string \<times> providerState) list \<Rightarrow> (string \<times> providerState) list"
  ce_failNow :: go_time
  ce_cancelled :: bool

definition checked_answer ::
  "(string \<Rightarrow> bool) \<Rightarrow> textPlaceholder list \<Rightarrow> translate_error + Result \<Rightarrow> translate_error + Result" where
  "checked_answer letter placeholders answer =
     (case answer of
        Inl e \<Rightarrow> Inl e
      | Inr result \<Rightarrow>
          if TrimSpace (rs_Text result) = [] then Inl (ErrProvider ''provider returned empty text'')
          else
            case restoreText letter (rs_Text result) placeholders of
              Inl e \<Rightarrow> Inl e
            | Inr text \<Rightarrow> Inr (result\<lparr>rs_Text := text\<rparr>))"

text \<open>The loop over the candidates. The list in the result records what became of each candidate
  that was considered.\<close>

datatype verdict = Unavailable string | NotReserved string | Called string

fun verdict_id :: "verdict \<Rightarrow> string" where
  "verdict_id (Unavailable pid) = pid"
| "verdict_id (NotReserved pid) = pid"
| "verdict_id (Called pid) = pid"

definition no_success :: "translate_error list \<Rightarrow> translate_error" where
  "no_success failures = (if failures = [] then ErrNoProvider else ErrJoined failures)"

fun translate_loop ::
  "(go_time \<Rightarrow> string) \<Rightarrow> (string \<Rightarrow> bool) \<Rightarrow> (string \<Rightarrow> call_env) \<Rightarrow> int \<Rightarrow> Request \<Rightarrow> textPlaceholder list \<Rightarrow>
   string list \<Rightarrow> int \<Rightarrow> translate_error list \<Rightarrow> Router \<Rightarrow>
   (translate_error + Result) \<times> verdict list \<times> Router" where
  "translate_loop month letter env characters req placeholders [] attempts failures router =
     (Inl (no_success failures), [], router)"
| "translate_loop month letter env characters req placeholders (pid # pids) attempts failures router =
     (if attempts \<ge> ro_maxAttempts router then (Inl (no_success failures), [], router)
      else
        case map_of (ro_unavailable router) pid of
          Some e \<Rightarrow>
            (let (res, vs, router') =
               translate_loop month letter env characters req placeholders pids attempts (failures @ [e]) router
             in (res, Unavailable pid # vs, router'))
        | None \<Rightarrow>
            (case reserve month (ce_reserveNow (env pid)) pid characters router of
               (None, router1) \<Rightarrow>
                 (let (res, vs, router') =
                    translate_loop month letter env characters req placeholders pids attempts failures router1
                  in (res, NotReserved pid # vs, router'))
             | (Some _, router1) \<Rightarrow>
                 (let router2 = router1\<lparr>ro_providers := ce_other (env pid) (ro_providers router1)\<rparr> in
                  case checked_answer letter placeholders (ce_answer (env pid) req) of
                    Inr result \<Rightarrow>
                      (Inr (result\<lparr>rs_Provider := pid\<rparr>), [Called pid], succeeded pid router2)
                  | Inl e \<Rightarrow>
                      (let router3 = failed (ce_failNow (env pid)) pid router2 in
                       if ce_cancelled (env pid) then (Inl ErrContext, [Called pid], router3)
                       else
                         let (res, vs, router') =
                           translate_loop month letter env characters req placeholders pids (attempts + 1)
                             (failures @ [e]) router3
                         in (res, Called pid # vs, router')))))"

definition Translate ::
  "(go_time \<Rightarrow> string) \<Rightarrow> (string \<Rightarrow> segment list) \<Rightarrow> (string \<Rightarrow> bool) \<Rightarrow> (string \<Rightarrow> call_env) \<Rightarrow> Request \<Rightarrow>
   Router \<Rightarrow> (translate_error + Result) \<times> verdict list \<times> Router" where
  "Translate month matches letter env request router =
     (if TrimSpace (rq_Text request) = [] \<or> normalizeLanguage (rq_TargetLanguage request) = []
      then (Inl (ErrInvalidConfig ''text and target language are required''), [], router)
      else
        let cs = candidates (rq_SourceLanguage request) (rq_TargetLanguage request) router in
        if length cs = 0 then (Inl ErrNoProvider, [], router)
        else
          let (protectedText, placeholders) = protectText matches (rq_Text request) in
          translate_loop month letter env (int (rune_count (rq_Text request)))
            (request\<lparr>rq_Text := protectedText\<rparr>) placeholders cs 0 [] router)"

definition TranslateWithProvider ::
  "(string \<Rightarrow> segment list) \<Rightarrow> (string \<Rightarrow> bool) \<Rightarrow> (Request \<Rightarrow> translate_error + Result) \<Rightarrow> string \<Rightarrow> Request \<Rightarrow>
   Router \<Rightarrow> translate_error + Result" where
  "TranslateWithProvider matches letter answer pid request router =
     (case map_of (ro_providers router) pid of
        None \<Rightarrow>
          (case map_of (ro_unavailable router) pid of
             Some e \<Rightarrow> Inl e
           | None \<Rightarrow> Inl ErrNoProvider)
      | Some st \<Rightarrow>
          let (protectedText, placeholders) = protectText matches (rq_Text request) in
          map_sum id (\<lambda>result. result\<lparr>rs_Provider := pid\<rparr>)
            (checked_answer letter placeholders (answer (request\<lparr>rq_Text := protectedText\<rparr>))))"

section \<open>Candidates are distinct\<close>

lemma unique_loop_props:
  "distinct (unique_loop seen xs) \<and> set (unique_loop seen xs) = set xs - set seen \<and> subseq (unique_loop seen xs) xs"
  by (induction xs arbitrary: seen) auto

lemma unique_props [simp]: "distinct (unique xs)" "set (unique xs) = set xs" "subseq (unique xs) xs"
  using unique_loop_props [of "[]" xs] by (auto simp: unique_def)

text \<open>The states, the order and the unavailable providers of a new router.\<close>

definition fresh_state :: "string \<Rightarrow> providerState \<Rightarrow> bool" where
  "fresh_state pid st = (ps_failures st = 0 \<and> ps_openUntil st = 0 \<and> ps_usageChars st = 0 \<and>
     ps_usageMonth st = [] \<and> pcf_ID (ps_config st) = pid \<and> 0 < pcf_FailureThreshold (ps_config st) \<and>
     0 < pcf_OpenDuration (ps_config st))"

definition fresh_router :: "Router \<Rightarrow> bool" where
  "fresh_router r = (distinct (ro_ordered r) \<and> set (ro_ordered r) \<subseteq> set (ro_configured r) \<and>
     (\<forall>pid. map_of (ro_providers r) pid = None \<longleftrightarrow> pid \<notin> set (ro_ordered r)) \<and>
     (\<forall>pid st. map_of (ro_providers r) pid = Some st \<longrightarrow> fresh_state pid st))"

lemma fresh_state_new: "fresh_state (pcf_ID item) (new_state (with_defaults item) cl)"
  by (simp add: fresh_state_def new_state_def with_defaults_def defaultFailureThreshold_def defaultOpenDuration_def)

lemma add_provider_cases:
  assumes "add_provider mk item0 r = Inr r'"
  obtains item where "pcf_ID item \<notin> set (ro_configured r)"
    and "(\<exists>u. r' = r\<lparr>ro_configured := pcf_ID item # ro_configured r, ro_unavailable := u\<rparr>) \<or>
         (\<exists>cl. r' = r\<lparr>ro_configured := pcf_ID item # ro_configured r,
             ro_providers := AList.update (pcf_ID item) (new_state (with_defaults item) cl) (ro_providers r),
             ro_ordered := ro_ordered r @ [pcf_ID item]\<rparr>)"
proof -
  let ?item = "item0\<lparr>pcf_ID := TrimSpace (pcf_ID item0), pcf_Type := ToLower (TrimSpace (pcf_Type item0))\<rparr>"
  have [simp]: "pcf_ID (with_defaults c) = pcf_ID c" for c by (simp add: with_defaults_def)
  show ?thesis
  proof (rule that [of ?item])
    show "pcf_ID ?item \<notin> set (ro_configured r)"
      using assms by (auto simp: add_provider_def Let_def split: if_splits)
    have "r = r\<lparr>ro_unavailable := ro_unavailable r\<rparr>" by simp
    then have "\<exists>u. r\<lparr>ro_configured := k\<rparr> = r\<lparr>ro_configured := k, ro_unavailable := u\<rparr>" for k
      by (rule_tac x = "ro_unavailable r" in exI) simp
    then show "(\<exists>u. r' = r\<lparr>ro_configured := pcf_ID ?item # ro_configured r, ro_unavailable := u\<rparr>) \<or>
         (\<exists>cl. r' = r\<lparr>ro_configured := pcf_ID ?item # ro_configured r,
             ro_providers := AList.update (pcf_ID ?item) (new_state (with_defaults ?item) cl) (ro_providers r),
             ro_ordered := ro_ordered r @ [pcf_ID ?item]\<rparr>)"
      using assms unfolding add_provider_def Let_def
      by (cases "pcf_Enabled item0"; cases "mk (with_defaults ?item)") (auto split: if_splits)
  qed
qed

lemma add_provider_fresh:
  assumes "fresh_router r" and "add_provider mk item r = Inr r'"
  shows "fresh_router r'"
  using assms(2)
proof (rule add_provider_cases)
  fix item :: ProviderConfig
  assume new: "pcf_ID item \<notin> set (ro_configured r)"
  assume "(\<exists>u. r' = r\<lparr>ro_configured := pcf_ID item # ro_configured r, ro_unavailable := u\<rparr>) \<or>
         (\<exists>cl. r' = r\<lparr>ro_configured := pcf_ID item # ro_configured r,
             ro_providers := AList.update (pcf_ID item) (new_state (with_defaults item) cl) (ro_providers r),
             ro_ordered := ro_ordered r @ [pcf_ID item]\<rparr>)"
  then show ?thesis
    using assms(1) new fresh_state_new by (auto simp: fresh_router_def update_conv' split: if_splits)
qed

lemma add_providers_fresh: "fresh_router r \<Longrightarrow> add_providers mk items r = Inr r' \<Longrightarrow> fresh_router r'"
  by (induction items arbitrary: r) (auto split: sum.splits intro: add_provider_fresh)

lemma NewRouter_fresh:
  assumes "NewRouter mk config = Inr r"
  shows "fresh_router r"
proof -
  obtain r1 where "add_providers mk (co_Providers config)
             \<lparr>ro_providers = [], ro_configured = [], ro_unavailable = [], ro_ordered = [],
              ro_routes = co_Routes config,
              ro_maxAttempts = (if co_MaxAttempts config \<le> 0 then defaultMaxAttempts else co_MaxAttempts config)\<rparr>
      = Inr r1"
    and r: "r = r1\<lparr>ro_ordered := sort_key (provider_rank r1) (ro_ordered r1)\<rparr>"
    using assms by (auto simp: NewRouter_def Let_def split: sum.splits option.splits)
  then have "fresh_router r1" by (elim add_providers_fresh [rotated]) (simp add: fresh_router_def)
  then show ?thesis by (simp add: r fresh_router_def)
qed

section \<open>Valid settings make a router\<close>

lemma add_provider_valid:
  assumes "pcf_ID item \<noteq> []" "TrimSpace (pcf_ID item) = pcf_ID item" "pcf_ID item \<notin> set (ro_configured r)"
  shows "\<exists>r'. add_provider mk item r = Inr r' \<and> set (ro_configured r') = insert (pcf_ID item) (set (ro_configured r)) \<and>
           ro_routes r' = ro_routes r \<and> ro_maxAttempts r' = ro_maxAttempts r"
  using assms by (auto simp: add_provider_def Let_def with_defaults_def split: sum.split)

lemma add_providers_valid:
  assumes "\<forall>c \<in> set items. pcf_ID c \<noteq> [] \<and> TrimSpace (pcf_ID c) = pcf_ID c"
    and "distinct (map pcf_ID items)" and "set (map pcf_ID items) \<inter> set (ro_configured r) = {}"
  shows "\<exists>r'. add_providers mk items r = Inr r' \<and>
           set (ro_configured r') = set (ro_configured r) \<union> set (map pcf_ID items) \<and>
           ro_routes r' = ro_routes r \<and> ro_maxAttempts r' = ro_maxAttempts r"
  using assms
proof (induction items arbitrary: r)
  case (Cons item items)
  then obtain q where q: "add_provider mk item r = Inr q" "ro_routes q = ro_routes r"
    "set (ro_configured q) = insert (pcf_ID item) (set (ro_configured r))" "ro_maxAttempts q = ro_maxAttempts r"
    using add_provider_valid [of item r mk] by auto
  have "set (map pcf_ID items) \<inter> set (ro_configured q) = {}" using Cons.prems(2,3) q(3) by auto
  from Cons.IH [OF _ _ this] show ?case using Cons.prems q by auto
qed simp

lemma route_errors_None:
  "route_errors configured routes = None \<longleftrightarrow>
     (\<forall>r \<in> set routes. ru_Providers r \<noteq> [] \<and> set (ru_Providers r) \<subseteq> set configured)"
  by (induction routes) (auto simp: route_error_def list_ex_iff split: option.split)

text \<open>Settings that pass validation always give a router: whatever clients can be built, the
  constructor returns, with every provider configured and the attempts that were set.\<close>

theorem valid_settings_build_router:
  assumes "ValidateSettings lib s = None"
  shows "\<exists>r. NewRouter mk (RouterConfig s) = Inr r \<and> ro_maxAttempts r = tr_MaxAttempts s \<and>
             set (ro_configured r) = pv_ID ` set (slice (tr_Providers s))"
proof -
  note v = ValidateSettings_None [OF assms]
  let ?items = "co_Providers (RouterConfig s)"
  let ?r = "\<lparr>ro_providers = [], ro_configured = [], ro_unavailable = [], ro_ordered = [],
    ro_routes = co_Routes (RouterConfig s), ro_maxAttempts = tr_MaxAttempts s\<rparr>"
  have ids: "map pcf_ID ?items = map pv_ID (slice (tr_Providers s))"
    by (simp add: RouterConfig_def)
  have "\<forall>c \<in> set ?items. pcf_ID c \<noteq> [] \<and> TrimSpace (pcf_ID c) = pcf_ID c"
    using v(2) idPattern_no_space by (auto simp: RouterConfig_def)
  moreover have "distinct (map pcf_ID ?items)" using v(1) ids by simp
  ultimately obtain r' where r': "add_providers mk ?items ?r = Inr r'"
    "set (ro_configured r') = set (map pcf_ID ?items)" "ro_routes r' = co_Routes (RouterConfig s)"
    "ro_maxAttempts r' = tr_MaxAttempts s"
    using add_providers_valid [of ?items ?r mk] by auto
  have "set (rt_Providers q) \<subseteq> pv_ID ` set (slice (tr_Providers s))" if "q \<in> set (slice (tr_Routes s))" for q
    using v(5) that by (fastforce simp: provider_by_id_def dest: map_of_SomeD)
  then have "route_errors (ro_configured r') (ro_routes r') = None"
    using v(5) r'(2,3) ids by (force simp: route_errors_None RouterConfig_def)
  moreover have "\<not> co_MaxAttempts (RouterConfig s) \<le> 0" "co_MaxAttempts (RouterConfig s) = tr_MaxAttempts s"
    using v(3) by (simp_all add: RouterConfig_def)
  ultimately show ?thesis
    using r' ids by (simp add: NewRouter_def Let_def)
qed

section \<open>Runs of the critical sections\<close>

text \<open>Requests run concurrently; a run is the sequence in which their critical sections take the
  lock.\<close>

datatype router_op =
    OpReserve go_time string int
  | OpSucceeded string
  | OpFailed go_time string

fun router_step :: "(go_time \<Rightarrow> string) \<Rightarrow> router_op \<Rightarrow> Router \<Rightarrow> Router" where
  "router_step month (OpReserve now pid characters) r = snd (reserve month now pid characters r)"
| "router_step month (OpSucceeded pid) r = succeeded pid r"
| "router_step month (OpFailed now pid) r = failed now pid r"

definition router_run :: "(go_time \<Rightarrow> string) \<Rightarrow> router_op list \<Rightarrow> Router \<Rightarrow> Router" where
  "router_run month ops r = fold (router_step month) ops r"

definition state_of :: "Router \<Rightarrow> string \<Rightarrow> providerState option" where
  "state_of r pid = map_of (ro_providers r) pid"

text \<open>What each section does to the state of one provider.\<close>

definition reserved_state :: "(go_time \<Rightarrow> string) \<Rightarrow> go_time \<Rightarrow> int \<Rightarrow> providerState \<Rightarrow> providerState" where
  "reserved_state month now characters st =
     (if now < ps_openUntil st then st
      else let st1 = this_month (month now) st in
        if over_limit st1 characters then st1 else st1\<lparr>ps_usageChars := ps_usageChars st1 + characters\<rparr>)"

definition failed_state :: "go_time \<Rightarrow> providerState \<Rightarrow> providerState" where
  "failed_state now st =
     (if ps_failures st + 1 \<ge> pcf_FailureThreshold (ps_config st)
      then st\<lparr>ps_failures := 0, ps_openUntil := now + pcf_OpenDuration (ps_config st)\<rparr>
      else st\<lparr>ps_failures := ps_failures st + 1\<rparr>)"

lemma state_of_set_state [simp]: "state_of (set_state p st r) pid = (if pid = p then Some st else state_of r pid)"
  by (auto simp: state_of_def set_state_def update_conv')

lemma state_of_reserve [simp]:
  "state_of (snd (reserve month now p characters r)) pid =
     (if pid = p then map_option (reserved_state month now characters) (state_of r pid) else state_of r pid)"
  by (auto simp: reserve_def reserved_state_def Let_def state_of_def [symmetric] split: option.split)

lemma fst_reserve_Some:
  "fst (reserve month now p characters r) \<noteq> None \<longleftrightarrow>
     (\<exists>st. state_of r p = Some st \<and> \<not> now < ps_openUntil st \<and> \<not> over_limit (this_month (month now) st) characters)"
  by (auto simp: reserve_def Let_def state_of_def split: option.split)

lemma state_of_succeeded [simp]:
  "state_of (succeeded p r) pid =
     (if pid = p then map_option (\<lambda>st. st\<lparr>ps_failures := 0, ps_openUntil := 0\<rparr>) (state_of r pid) else state_of r pid)"
  by (auto simp: succeeded_def state_of_def [symmetric] split: option.split)

lemma state_of_failed [simp]:
  "state_of (failed now p r) pid =
     (if pid = p then map_option (failed_state now) (state_of r pid) else state_of r pid)"
  by (auto simp: failed_def failed_state_def Let_def state_of_def [symmetric] split: option.split)

lemma this_month_simps [simp]:
  "ps_config (this_month m st) = ps_config st" "ps_usageMonth (this_month m st) = m"
  "ps_openUntil (this_month m st) = ps_openUntil st" "ps_failures (this_month m st) = ps_failures st"
  "ps_usageChars (this_month m st) = (if ps_usageMonth st = m then ps_usageChars st else 0)"
  by (auto simp: this_month_def)

lemma reserved_state_simps [simp]:
  "ps_config (reserved_state month now n st) = ps_config st"
  "ps_openUntil (reserved_state month now n st) = ps_openUntil st"
  "ps_failures (reserved_state month now n st) = ps_failures st"
  by (auto simp: reserved_state_def Let_def)

lemma usageMonth_reserved_state [simp]:
  "ps_usageMonth (reserved_state month now n st) =
     (if now < ps_openUntil st then ps_usageMonth st else month now)"
  by (auto simp: reserved_state_def Let_def)

lemma openUntil_failed_state [simp]:
  "ps_openUntil (failed_state now st) =
     (if ps_failures st + 1 \<ge> pcf_FailureThreshold (ps_config st)
      then now + pcf_OpenDuration (ps_config st) else ps_openUntil st)"
  by (auto simp: failed_state_def)

lemma failed_state_simps [simp]:
  "ps_config (failed_state now st) = ps_config st" "ps_usageMonth (failed_state now st) = ps_usageMonth st"
  "ps_usageChars (failed_state now st) = ps_usageChars st"
  by (auto simp: failed_state_def)

fun op_state :: "(go_time \<Rightarrow> string) \<Rightarrow> string \<Rightarrow> router_op \<Rightarrow> providerState \<Rightarrow> providerState" where
  "op_state month pid (OpReserve now p n) st = (if pid = p then reserved_state month now n st else st)"
| "op_state month pid (OpSucceeded p) st = (if pid = p then st\<lparr>ps_failures := 0, ps_openUntil := 0\<rparr> else st)"
| "op_state month pid (OpFailed now p) st = (if pid = p then failed_state now st else st)"

lemma state_of_step: "state_of (router_step month op r) pid = map_option (op_state month pid op) (state_of r pid)"
  by (cases op; cases "state_of r pid") auto

section \<open>Quota\<close>

text \<open>The characters granted to a provider within a month, and the times of the reservations.\<close>

fun granted :: "(go_time \<Rightarrow> string) \<Rightarrow> string \<Rightarrow> string \<Rightarrow> router_op list \<Rightarrow> Router \<Rightarrow> int" where
  "granted month pid m [] r = 0"
| "granted month pid m (op # ops) r =
     (case op of
        OpReserve now p characters \<Rightarrow>
          if p = pid \<and> month now = m \<and> fst (reserve month now p characters r) \<noteq> None then characters else 0
      | _ \<Rightarrow> 0) + granted month pid m ops (router_step month op r)"

fun reserve_times :: "router_op list \<Rightarrow> go_time list" where
  "reserve_times [] = []"
| "reserve_times (OpReserve now p characters # ops) = now # reserve_times ops"
| "reserve_times (OpSucceeded p # ops) = reserve_times ops"
| "reserve_times (OpFailed now p # ops) = reserve_times ops"

fun reserved_chars :: "router_op \<Rightarrow> int" where
  "reserved_chars (OpReserve now p characters) = characters"
| "reserved_chars _ = 0"

definition months_are_intervals :: "(go_time \<Rightarrow> string) \<Rightarrow> bool" where
  "months_are_intervals month = (\<forall>a b c. a \<le> b \<longrightarrow> b \<le> c \<longrightarrow> month a = month c \<longrightarrow> month b = month a)"

lemma granted_other_month:
  "m \<notin> month ` set (reserve_times ops) \<Longrightarrow> granted month pid m ops r = 0"
  by (induction ops arbitrary: r rule: reserve_times.induct) auto

lemma granted_bound:
  assumes "months_are_intervals month" "sorted (reserve_times ops)" "\<forall>op \<in> set ops. 0 \<le> reserved_chars op"
    and "state_of r pid = Some st" and "pcf_MonthlyCharacterLimit (ps_config st) = limit" "0 < limit"
  shows "(ps_usageMonth st \<noteq> m \<longrightarrow> granted month pid m ops r \<le> limit) \<and>
    (ps_usageMonth st = m \<longrightarrow> ps_usageChars st \<le> limit \<longrightarrow>
       (\<exists>t. month t = m \<and> (\<forall>u \<in> set (reserve_times ops). t \<le> u)) \<longrightarrow>
       granted month pid m ops r \<le> limit - ps_usageChars st)"
  using assms(2-)
proof (induction ops arbitrary: r st rule: reserve_times.induct)
  case (2 now p characters ops)
  let ?r = "snd (reserve month now p characters r)"
  have sorted: "sorted (reserve_times ops)" and later: "\<forall>u \<in> set (reserve_times ops). now \<le> u"
    and chars: "\<forall>op \<in> set ops. 0 \<le> reserved_chars op" "0 \<le> characters"
    using "2.prems"(1,2) by auto
  show ?case
  proof (cases "p = pid")
    case False
    then have "state_of ?r pid = Some st" using "2.prems"(3) by simp
    from "2.IH" [OF sorted chars(1) this "2.prems"(4,5)] show ?thesis using False by auto
  next
    case True
    let ?st = "reserved_state month now characters st"
    have st: "state_of ?r pid = Some ?st" using "2.prems"(3) True by simp
    have lim: "pcf_MonthlyCharacterLimit (ps_config ?st) = limit" using "2.prems"(4) by simp
    note IH = "2.IH" [OF sorted chars(1) st lim "2.prems"(5)]
    have gone: "granted month pid m ops ?r = 0" if "month t = m" "t \<le> now" "month now \<noteq> m" for t
    proof (rule granted_other_month)
      show "m \<notin> month ` set (reserve_times ops)"
        using that later assms(1) unfolding months_are_intervals_def by fastforce
    qed
    show ?thesis
    proof (cases "month now = m")
      case same: True
      have "\<exists>t. month t = m \<and> (\<forall>u \<in> set (reserve_times ops). t \<le> u)" using same later by blast
      note IH = IH [THEN conjunct2, rule_format, OF _ _ this]
      show ?thesis
      proof (cases "now < ps_openUntil st")
        case True
        then show ?thesis
          using \<open>p = pid\<close> "2.IH" [OF sorted chars(1) st lim "2.prems"(5)] "2.prems"(3) same later
          by (auto simp: reserved_state_def reserve_def state_of_def Let_def split: option.splits)
      next
        case False
        define used where "used = (if ps_usageMonth st = m then ps_usageChars st else 0)"
        have um: "ps_usageMonth ?st = m"
          and uc: "ps_usageChars ?st = (if used + characters > limit then used else used + characters)"
          and grant: "fst (reserve month now p characters r) \<noteq> None \<longleftrightarrow> \<not> used + characters > limit"
          using False True same "2.prems"(3-) unfolding fst_reserve_Some
          by (auto simp: reserved_state_def Let_def over_limit_def used_def)
        have step: "granted month pid m (OpReserve now p characters # ops) r =
            (if used + characters > limit then 0 else characters) + granted month pid m ops ?r"
          using grant True same by simp
        have "granted month pid m ops ?r \<le> limit - ps_usageChars ?st" if "used \<le> limit"
          using IH um uc that by simp
        then have "granted month pid m (OpReserve now p characters # ops) r \<le> limit - used" if "used \<le> limit"
          using step uc that by (simp split: if_splits)
        then show ?thesis using "2.prems"(5) by (auto simp: used_def split: if_splits)
      qed
    next
      case other: False
      have A: "granted month pid m ops ?r \<le> limit" if "ps_usageMonth st \<noteq> m"
        using IH [THEN conjunct1] other that by (auto simp: reserved_state_def Let_def split: if_splits)
      show ?thesis using other A gone by (auto simp: True)
    qed
  qed
next
  case (3 p ops)
  have "\<exists>st'. state_of (succeeded p r) pid = Some st' \<and> ps_config st' = ps_config st \<and>
      ps_usageMonth st' = ps_usageMonth st \<and> ps_usageChars st' = ps_usageChars st"
    using "3.prems"(3) by auto
  then show ?case using "3.IH" [of "succeeded p r"] "3.prems" by auto
next
  case (4 now p ops)
  have "\<exists>st'. state_of (failed now p r) pid = Some st' \<and> ps_config st' = ps_config st \<and>
      ps_usageMonth st' = ps_usageMonth st \<and> ps_usageChars st' = ps_usageChars st"
    using "4.prems"(3) by auto
  then show ?case using "4.IH" [of "failed now p r"] "4.prems" by auto
qed simp

text \<open>C20. However the requests interleave, the characters granted to a provider within a month never
  exceed its monthly limit, as long as the clock does not run backwards between reservations.\<close>

theorem router_quota:
  assumes "NewRouter mk config = Inr r" "state_of r pid = Some st"
    and "0 < pcf_MonthlyCharacterLimit (ps_config st)"
    and "months_are_intervals month" "sorted (reserve_times ops)" "\<forall>op \<in> set ops. 0 \<le> reserved_chars op"
    and "m \<noteq> []"
  shows "granted month pid m ops r \<le> pcf_MonthlyCharacterLimit (ps_config st)"
proof -
  have "ps_usageMonth st = []"
    using NewRouter_fresh [OF assms(1)] assms(2) by (auto simp: fresh_router_def fresh_state_def state_of_def)
  then have "ps_usageMonth st \<noteq> m" using assms(7) by simp
  then show ?thesis
    by (rule granted_bound [OF assms(4,5,6,2) refl assms(3), THEN conjunct1, THEN mp])
qed

definition libre_config :: ProviderConfig where
  "libre_config = \<lparr>pcf_ID = ''lt'', pcf_Type = ''libretranslate'', pcf_Enabled = True, pcf_Priority = 1,
     pcf_Endpoint = [], pcf_Region = [], pcf_CredentialFile = [], pcf_ProjectID = [], pcf_Timeout = 1,
     pcf_MonthlyCharacterLimit = 10, pcf_FailureThreshold = 2, pcf_OpenDuration = 50, pcf_GlossaryID = []\<rparr>"

definition libre_client :: "ProviderConfig \<Rightarrow> translate_error + client" where
  "libre_client c = Inr (libreProvider \<lparr>u_Scheme = ''http'', u_Host = ''lt'', u_HasUser = False, u_RawQuery = [], u_Fragment = []\<rparr> [])"

definition libre_router :: Router where
  "libre_router = \<lparr>ro_providers = [(''lt'', new_state libre_config (projr (libre_client libre_config)))],
     ro_configured = [''lt''], ro_unavailable = [], ro_ordered = [''lt''], ro_routes = [], ro_maxAttempts = 3\<rparr>"

lemma libre_new: "NewRouter libre_client \<lparr>co_Providers = [libre_config], co_Routes = [], co_MaxAttempts = 0\<rparr> = Inr libre_router"
  by code_simp

definition two_months :: "go_time \<Rightarrow> string" where
  "two_months t = (if t < 100 then ''2024-01'' else ''2024-02'')"

theorem router_quota_witness:
  "granted two_months ''lt'' ''2024-01'' [OpReserve 1 ''lt'' 6, OpReserve 2 ''lt'' 6, OpReserve 100 ''lt'' 6] libre_router = 6 \<and>
   granted two_months ''lt'' ''2024-01'' [OpReserve 1 ''lt'' 6, OpReserve 2 ''lt'' 6, OpReserve 100 ''lt'' 6] libre_router \<le> 10"
proof
  let ?st = "new_state libre_config (projr (libre_client libre_config))"
  have "state_of libre_router ''lt'' = Some ?st" by (simp add: state_of_def libre_router_def)
  moreover have "pcf_MonthlyCharacterLimit (ps_config ?st) = 10" by (simp add: new_state_def libre_config_def)
  moreover have "months_are_intervals two_months" by (auto simp: months_are_intervals_def two_months_def)
  ultimately show "granted two_months ''lt'' ''2024-01''
      [OpReserve 1 ''lt'' 6, OpReserve 2 ''lt'' 6, OpReserve 100 ''lt'' 6] libre_router \<le> 10"
    using router_quota [OF libre_new, of "''lt''" ?st two_months
        "[OpReserve 1 ''lt'' 6, OpReserve 2 ''lt'' 6, OpReserve 100 ''lt'' 6]" "''2024-01''"] by simp
  show "granted two_months ''lt'' ''2024-01''
      [OpReserve 1 ''lt'' 6, OpReserve 2 ''lt'' 6, OpReserve 100 ''lt'' 6] libre_router = 6"
    by (simp add: reserve_def libre_router_def new_state_def libre_config_def set_state_def over_limit_def
        this_month_def two_months_def Let_def)
qed

section \<open>Circuit breaker\<close>

fun fail_time :: "string \<Rightarrow> router_op \<Rightarrow> go_time option" where
  "fail_time pid (OpFailed now p) = (if p = pid then Some now else None)"
| "fail_time pid _ = None"

lemma breaker_stays_open:
  assumes "state_of r pid = Some st" "T \<le> ps_openUntil st"
    and "OpSucceeded pid \<notin> set ops" "\<forall>op \<in> set ops. \<forall>u. fail_time pid op = Some u \<longrightarrow> T \<le> u + pcf_OpenDuration (ps_config st)"
  shows "\<exists>st'. state_of (router_run month ops r) pid = Some st' \<and> T \<le> ps_openUntil st'"
  using assms
proof (induction ops arbitrary: r st)
  case (Cons op ops)
  have "\<exists>st1. state_of (router_step month op r) pid = Some st1 \<and> T \<le> ps_openUntil st1 \<and> ps_config st1 = ps_config st"
    using Cons.prems by (cases op) (auto simp: state_of_step simp del: router_step.simps)
  then show ?case using Cons.IH Cons.prems(3,4) by (fastforce simp: router_run_def)
qed (simp add: router_run_def)

lemma breaker_opened_before:
  assumes "state_of r pid = Some st" "ps_openUntil st \<le> T" "0 \<le> T"
    and "\<forall>op \<in> set ops. \<forall>u. fail_time pid op = Some u \<longrightarrow> u + pcf_OpenDuration (ps_config st) \<le> T"
    and "month now \<notin> month ` set (reserve_times ops)" "ps_usageMonth st \<noteq> month now"
  shows "\<exists>st'. state_of (router_run month ops r) pid = Some st' \<and> ps_openUntil st' \<le> T \<and>
           ps_config st' = ps_config st \<and> ps_usageMonth st' \<noteq> month now"
  using assms
proof (induction ops arbitrary: r st)
  case (Cons op ops)
  have "\<exists>st1. state_of (router_step month op r) pid = Some st1 \<and> ps_openUntil st1 \<le> T \<and>
      ps_config st1 = ps_config st \<and> ps_usageMonth st1 \<noteq> month now"
    using Cons.prems by (cases op) (auto simp: state_of_step simp del: router_step.simps)
  moreover have "month now \<notin> month ` set (reserve_times ops)"
    using Cons.prems(5) by (cases op) auto
  ultimately show ?case using Cons.IH Cons.prems(3,4) by (fastforce simp: router_run_def)
qed (simp add: router_run_def)

text \<open>A failure that reaches the threshold opens the breaker: no request reserves the provider
  until the open duration has passed, whatever other requests do, unless a call that was already
  under way succeeds.\<close>

theorem breaker_blocks:
  assumes "state_of r pid = Some st" "ps_failures st + 1 \<ge> pcf_FailureThreshold (ps_config st)"
    and "OpSucceeded pid \<notin> set ops" "\<forall>op \<in> set ops. \<forall>u. fail_time pid op = Some u \<longrightarrow> t \<le> u"
    and "now < t + pcf_OpenDuration (ps_config st)"
  shows "fst (reserve month now pid characters (router_run month ops (failed t pid r))) = None"
proof -
  have "state_of (failed t pid r) pid = Some (failed_state t st)" using assms(1) by simp
  then obtain st' where "state_of (router_run month ops (failed t pid r)) pid = Some st'"
    "t + pcf_OpenDuration (ps_config st) \<le> ps_openUntil st'"
    using breaker_stays_open [of "failed t pid r" pid "failed_state t st" "t + pcf_OpenDuration (ps_config st)" ops month]
      assms(2-4) by auto
  then show ?thesis
    using assms(5) by (simp add: reserve_def state_of_def)
qed


lemma libre_state: "state_of libre_router ''lt'' = Some (new_state libre_config (projr (libre_client libre_config)))"
  by (simp add: state_of_def libre_router_def)

theorem breaker_blocks_witness:
  "fst (reserve two_months 40 ''lt'' 1 (router_run two_months [OpReserve 39 ''lt'' 1] (failed 2 ''lt'' (failed 1 ''lt'' libre_router)))) = None"
proof -
  let ?st = "failed_state 1 (new_state libre_config (projr (libre_client libre_config)))"
  have "state_of (failed 1 ''lt'' libre_router) ''lt'' = Some ?st" by (simp add: libre_state)
  then show ?thesis
    by (rule breaker_blocks) (simp_all add: failed_state_def new_state_def libre_config_def)
qed


section \<open>Fail-over\<close>

fun calls :: "verdict list \<Rightarrow> string list" where
  "calls [] = []"
| "calls (Called pid # vs) = pid # calls vs"
| "calls (_ # vs) = calls vs"

lemma ro_reserve [simp]:
  "ro_maxAttempts (snd (reserve month now pid n r)) = ro_maxAttempts r"
  by (auto simp: reserve_def set_state_def Let_def split: option.split)

lemma ro_failed [simp]: "ro_maxAttempts (failed now pid r) = ro_maxAttempts r"
  by (auto simp: failed_def set_state_def Let_def split: option.split)

text \<open>What the loop promises for the candidates it is given.\<close>

definition loop_ok ::
  "(string \<Rightarrow> translate_error + Result) \<Rightarrow> (string \<Rightarrow> call_env) \<Rightarrow> string list \<Rightarrow> int \<Rightarrow>
   (translate_error + Result) \<Rightarrow> verdict list \<Rightarrow> bool" where
  "loop_ok outcome env cs left res vs =
     (prefix (map verdict_id vs) cs \<and> int (length (calls vs)) \<le> max 0 left \<and>
      (case res of
         Inr x \<Rightarrow> calls vs \<noteq> [] \<and> (\<forall>pid \<in> set (butlast (calls vs)). isl (outcome pid)) \<and>
           (\<exists>result. outcome (last (calls vs)) = Inr result \<and> x = result\<lparr>rs_Provider := last (calls vs)\<rparr>)
       | Inl e \<Rightarrow> (\<forall>pid \<in> set (calls vs). isl (outcome pid)) \<and>
           ((\<exists>pid \<in> set (calls vs). ce_cancelled (env pid)) \<or>
            map verdict_id vs = cs \<or> int (length (calls vs)) = max 0 left)))"

lemma loop_ok_skip:
  assumes "loop_ok outcome env cs left res vs" "verdict_id v = pid" "calls (v # vs) = calls vs"
  shows "loop_ok outcome env (pid # cs) left res (v # vs)"
  using assms by (auto simp: loop_ok_def split: sum.splits)

lemma loop_ok_call:
  assumes "loop_ok outcome env cs (left - 1) res vs" "isl (outcome pid)" "0 < left"
  shows "loop_ok outcome env (pid # cs) left res (Called pid # vs)"
  using assms by (auto simp: loop_ok_def split: sum.splits)

lemma translate_loop_ok:
  assumes "translate_loop month letter env n req ps cs attempts failures r = (res, vs, r')"
  shows "loop_ok (\<lambda>pid. checked_answer letter ps (ce_answer (env pid) req)) env cs (ro_maxAttempts r - attempts) res vs"
  using assms
proof (induction cs arbitrary: attempts failures r vs)
  case Nil
  then show ?case by (auto simp: loop_ok_def)
next
  case (Cons pid cs)
  let ?out = "\<lambda>pid. checked_answer letter ps (ce_answer (env pid) req)"
  show ?case
  proof (cases "attempts \<ge> ro_maxAttempts r")
    case True
    then show ?thesis using Cons.prems by (auto simp: loop_ok_def)
  next
    case False
    show ?thesis
    proof (cases "map_of (ro_unavailable r) pid")
      case (Some e)
      then obtain vs' where "vs = Unavailable pid # vs'"
        "translate_loop month letter env n req ps cs attempts (failures @ [e]) r = (res, vs', r')"
        using Cons.prems False by (auto split: prod.splits)
      then show ?thesis using loop_ok_skip [OF Cons.IH] by simp
    next
      case None
      obtain st r1 where rv: "reserve month (ce_reserveNow (env pid)) pid n r = (st, r1)" by fastforce
      then have max: "ro_maxAttempts r1 = ro_maxAttempts r" by (metis ro_reserve snd_conv)
      show ?thesis
      proof (cases st)
        case None
        with \<open>map_of _ _ = None\<close> obtain vs' where "vs = NotReserved pid # vs'"
          "translate_loop month letter env n req ps cs attempts failures r1 = (res, vs', r')"
          using Cons.prems False rv by (auto split: prod.splits)
        then show ?thesis using loop_ok_skip [OF Cons.IH, of attempts failures r1] max by simp
      next
        case (Some st')
        note pre = Cons.prems False \<open>map_of _ _ = None\<close> rv Some
        show ?thesis
        proof (cases "?out pid")
          case (Inr result)
          then show ?thesis using pre by (auto simp: loop_ok_def Let_def)
        next
          case (Inl e)
          define r3 where "r3 = failed (ce_failNow (env pid)) pid (r1\<lparr>ro_providers := ce_other (env pid) (ro_providers r1)\<rparr>)"
          have max3: "ro_maxAttempts r3 = ro_maxAttempts r" by (simp add: r3_def max)
          show ?thesis
          proof (cases "ce_cancelled (env pid)")
            case True
            then show ?thesis using pre Inl by (auto simp: loop_ok_def Let_def)
          next
            case nc: False
            then obtain vs' where "vs = Called pid # vs'"
              "translate_loop month letter env n req ps cs (attempts + 1) (failures @ [e]) r3 = (res, vs', r')"
              using pre Inl by (auto simp: Let_def r3_def split: prod.splits)
            moreover from Cons.IH [OF this(2)]
            have "loop_ok ?out env cs (ro_maxAttempts r - attempts - 1) res vs'"
              by (simp add: max3 algebra_simps)
            ultimately show ?thesis using loop_ok_call [of ?out env cs] Inl False by simp
          qed
        qed
      qed
    qed
  qed
qed

text \<open>C34. Fail-over: the candidates are considered in order, at most \<open>maxAttempts\<close> of them are called,
  the answer is that of the first call that succeeds, and when none does, every candidate was considered,
  the attempts are used up or the request was cancelled.\<close>

theorem translate_failover:
  assumes "Translate month matches letter env request r = (res, vs, r')"
    and "TrimSpace (rq_Text request) \<noteq> []" "normalizeLanguage (rq_TargetLanguage request) \<noteq> []"
  shows "loop_ok
     (\<lambda>pid. checked_answer letter (snd (protectText matches (rq_Text request)))
        (ce_answer (env pid) (request\<lparr>rq_Text := fst (protectText matches (rq_Text request))\<rparr>)))
     env (candidates (rq_SourceLanguage request) (rq_TargetLanguage request) r) (ro_maxAttempts r) res vs"
  using assms translate_loop_ok [where attempts = 0]
  by (cases "protectText matches (rq_Text request)") (auto simp: Translate_def Let_def loop_ok_def split: if_splits)

section \<open>Concrete routers\<close>

text \<open>A request to a router with one provider.\<close>

definition hello :: Request where
  "hello = \<lparr>rq_Text = ''hello'', rq_SourceLanguage = ''en'', rq_TargetLanguage = ''es''\<rparr>"

definition hello_env :: "string \<Rightarrow> call_env" where
  "hello_env pid = \<lparr>ce_reserveNow = 1,
     ce_answer = (\<lambda>_. Inr \<lparr>rs_Text = ''hola'', rs_DetectedSourceLanguage = ''en'', rs_Provider = []\<rparr>),
     ce_other = id, ce_failNow = 2, ce_cancelled = False\<rparr>"

theorem translate_failover_witness:
  "fst (Translate two_months (\<lambda>t. [Plain t]) (\<lambda>_. False) hello_env hello libre_router) =
     Inr \<lparr>rs_Text = ''hola'', rs_DetectedSourceLanguage = ''en'', rs_Provider = ''lt''\<rparr> \<and>
   loop_ok (\<lambda>pid. checked_answer (\<lambda>_. False) (snd (protectText (\<lambda>t. [Plain t]) (rq_Text hello)))
        (ce_answer (hello_env pid) (hello\<lparr>rq_Text := fst (protectText (\<lambda>t. [Plain t]) (rq_Text hello))\<rparr>)))
     hello_env (candidates (rq_SourceLanguage hello) (rq_TargetLanguage hello) libre_router) (ro_maxAttempts libre_router)
     (fst (Translate two_months (\<lambda>t. [Plain t]) (\<lambda>_. False) hello_env hello libre_router))
     (fst (snd (Translate two_months (\<lambda>t. [Plain t]) (\<lambda>_. False) hello_env hello libre_router)))"
proof
  show "fst (Translate two_months (\<lambda>t. [Plain t]) (\<lambda>_. False) hello_env hello libre_router) =
     Inr \<lparr>rs_Text = ''hola'', rs_DetectedSourceLanguage = ''en'', rs_Provider = ''lt''\<rparr>"
    by code_simp
next
  have "TrimSpace (rq_Text hello) \<noteq> []" "normalizeLanguage (rq_TargetLanguage hello) \<noteq> []"
    by code_simp+
  from translate_failover [OF _ this, of two_months "\<lambda>t. [Plain t]" "\<lambda>_. False" hello_env libre_router]
  show "loop_ok (\<lambda>pid. checked_answer (\<lambda>_. False) (snd (protectText (\<lambda>t. [Plain t]) (rq_Text hello)))
        (ce_answer (hello_env pid) (hello\<lparr>rq_Text := fst (protectText (\<lambda>t. [Plain t]) (rq_Text hello))\<rparr>)))
     hello_env (candidates (rq_SourceLanguage hello) (rq_TargetLanguage hello) libre_router) (ro_maxAttempts libre_router)
     (fst (Translate two_months (\<lambda>t. [Plain t]) (\<lambda>_. False) hello_env hello libre_router))
     (fst (snd (Translate two_months (\<lambda>t. [Plain t]) (\<lambda>_. False) hello_env hello libre_router)))"
    by (simp add: prod_eq_iff)
qed

definition libre_settings :: TranslationSettings where
  "libre_settings = \<lparr>tr_Enabled = True, tr_StaffLanguage = ''zh-CN'', tr_CustomerLanguage = ''en'', tr_KeepOriginal = True,
     tr_FailurePolicy = ''hold'', tr_DefaultTimeoutMS = 1500, tr_MaxAttempts = 3,
     tr_Providers = Some [\<lparr>pv_ID = ''lt'', pv_Type = ''libretranslate'', pv_Enabled = True, pv_Priority = 1,
       pv_Endpoint = ''http://lt'', pv_Region = [], pv_CredentialFile = [], pv_ProjectID = [], pv_TimeoutMS = 1000,
       pv_MonthlyCharacterLimit = 0, pv_FailureThreshold = 3, pv_OpenSeconds = 30, pv_GlossaryID = []\<rparr>],
     tr_Routes = Some [\<lparr>rt_Source = ''*'', rt_Target = ''en'', rt_Providers = [''lt'']\<rparr>]\<rparr>"

definition libre_lib :: go_lib where
  "libre_lib = \<lparr>url_Parse = (\<lambda>s. Some \<lparr>u_Scheme = ''http'', u_Host = ''lt'', u_HasUser = False, u_RawQuery = [], u_Fragment = []\<rparr>),
     path_Clean = id\<rparr>"

lemma libre_settings_valid: "ValidateSettings libre_lib libre_settings = None"
  by code_simp

theorem valid_settings_build_router_witness:
  "\<exists>r. NewRouter libre_client (RouterConfig libre_settings) = Inr r \<and> ro_maxAttempts r = tr_MaxAttempts libre_settings \<and>
       set (ro_configured r) = pv_ID ` set (slice (tr_Providers libre_settings))"
  by (rule valid_settings_build_router [OF libre_settings_valid])

end
