(* ===== verification/AdminModel.thy ===== *)
theory AdminModel
  imports TranslateSettings "HOL-Library.Multiset"
begin

text \<open>
  The documents of the administrative control plane (\<^verbatim>\<open>server/admin/types.go\<close> and
  \<^verbatim>\<open>catalog.go\<close>), their default and their validation (\<^verbatim>\<open>control_plane.go\<close>).

  Maps are association lists, in the order in which they are walked. The texts of the catalog that
  are only displayed (group, name and description of a permission) are left out. Names in Chinese
  are written as the bytes of their UTF-8 form.
\<close>

section \<open>Data\<close>

datatype permission =
  Permission (perm_Key: string) (perm_Object: string) (perm_Action: string) (perm_Risk: string) (perm_Stage: string)

record Role =
  role_ID :: string
  role_Name :: string
  role_Description :: string
  role_Permissions :: "string list"
  role_BuiltIn :: bool
  role_CreatedAt :: go_time
  role_UpdatedAt :: go_time

record Binding =
  bind_ID :: string
  bind_Subject :: string
  bind_RoleID :: string
  bind_Domain :: string
  bind_ExpiresAt :: "go_time option"
  bind_CreatedAt :: go_time
  bind_UpdatedAt :: go_time

record GeneralSettings =
  gs_ProductName :: string
  gs_DefaultLocale :: string
  gs_TimeZone :: string

record TopicSettings =
  ts_OfficialChannelsEnabled :: bool
  ts_OfficialLargeGroupsEnabled :: bool
  ts_MemberListPageSize :: int

record ModerationSettings =
  ms_RequireReason :: bool
  ms_DefaultMuteMinutes :: int
  ms_MaxMuteMinutes :: int
  ms_AuditRetentionDays :: int

record AssetSettings =
  as_PublishingEnabled :: bool
  as_ReviewRequired :: bool
  as_MaxAssetsPerPack :: int
  as_AllowedKinds :: "string list"

record NotificationSettings =
  ns_PushEnabled :: bool
  ns_QuietHoursStart :: string
  ns_QuietHoursEnd :: string

record ProductSettings =
  set_General :: GeneralSettings
  set_Topics :: TopicSettings
  set_Moderation :: ModerationSettings
  set_Assets :: AssetSettings
  set_Translation :: TranslationSettings
  set_Notification :: NotificationSettings

datatype detail_value = DetailText string | DetailFlag bool | DetailNumber int

type_synonym detail = "(string \<times> detail_value) list"

record AuditEvent =
  ev_ID :: string
  ev_At :: go_time
  ev_Actor :: string
  ev_Action :: string
  ev_Target :: string
  ev_RequestID :: string
  ev_RemoteIP :: string
  ev_Version :: "64 word"
  ev_Detail :: detail

record OfficialTopic =
  ot_Topic :: string
  ot_OrganizationID :: string
  ot_Owner :: string
  ot_Official :: bool
  ot_OfficialStatus :: string
  ot_ScaleClass :: string
  ot_MemberLimit :: int
  ot_JoinPolicy :: string
  ot_AdminAssignPolicy :: string
  ot_DirectMessagePolicy :: string
  ot_AllMuted :: bool
  ot_SlowModeSeconds :: int
  ot_ReactionsEnabled :: bool
  ot_CreatedBy :: string
  ot_CreatedAt :: go_time
  ot_UpdatedAt :: go_time

record Actor =
  actor_Subject :: string
  actor_RequestID :: string
  actor_RemoteIP :: string

record Document =
  doc_Version :: "64 word"
  doc_Roles :: "(string \<times> Role) list"
  doc_Bindings :: "(string \<times> Binding) list"
  doc_OfficialTopics :: "(string \<times> OfficialTopic) list"
  doc_Settings :: ProductSettings
  doc_Audit :: "AuditEvent list"
  doc_UpdatedAt :: go_time

record Evaluation =
  evl_Allowed :: bool
  evl_Subject :: string
  evl_Domain :: string
  evl_Permission :: string
  evl_Roles :: "string list"

datatype admin_error = AdminNotFound | AdminConflict | AdminInvalid | AdminProtected | AdminOther string

section \<open>The catalog of permissions\<close>

definition permissionCatalog :: "permission list" where
  "permissionCatalog =
     [Permission ''system.settings.read'' ''im:system:settings'' ''read'' ''low'' ''ready'',
      Permission ''system.settings.write'' ''im:system:settings'' ''write'' ''high'' ''ready'',
      Permission ''system.roles.read'' ''im:system:roles'' ''read'' ''low'' ''ready'',
      Permission ''system.roles.write'' ''im:system:roles'' ''write'' ''critical'' ''ready'',
      Permission ''system.audit.read'' ''im:system:audit'' ''read'' ''medium'' ''ready'',
      Permission ''official_topics.read'' ''im:official-topic'' ''read'' ''low'' ''foundation'',
      Permission ''official_topics.create'' ''im:official-topic'' ''create'' ''high'' ''foundation'',
      Permission ''official_topics.manage'' ''im:official-topic'' ''manage'' ''high'' ''foundation'',
      Permission ''official_topics.publish'' ''im:official-topic'' ''publish'' ''high'' ''foundation'',
      Permission ''moderation.read'' ''im:moderation'' ''read'' ''medium'' ''foundation'',
      Permission ''moderation.mute'' ''im:moderation'' ''mute'' ''high'' ''foundation'',
      Permission ''moderation.remove'' ''im:moderation'' ''remove'' ''high'' ''foundation'',
      Permission ''moderation.ban'' ''im:moderation'' ''ban'' ''critical'' ''foundation'',
      Permission ''assets.read'' ''im:asset'' ''read'' ''low'' ''ready'',
      Permission ''assets.write'' ''im:asset'' ''write'' ''medium'' ''ready'',
      Permission ''assets.publish'' ''im:asset'' ''publish'' ''high'' ''ready'',
      Permission ''contacts.read'' ''im:contact'' ''read'' ''medium'' ''ready'',
      Permission ''contacts.manage'' ''im:contact'' ''manage'' ''high'' ''ready'',
      Permission ''workspace.pins.read'' ''im:workspace-pin'' ''read'' ''medium'' ''foundation'',
      Permission ''workspace.pins.write'' ''im:workspace-pin'' ''write'' ''medium'' ''foundation'',
      Permission ''translation.manage'' ''im:translation'' ''manage'' ''high'' ''foundation'',
      Permission ''notifications.manage'' ''im:notification'' ''manage'' ''medium'' ''foundation'',
      Permission ''payments.read'' ''im:payment'' ''read'' ''high'' ''integration'',
      Permission ''payments.send'' ''im:payment'' ''send'' ''critical'' ''integration'',
      Permission ''payments.approve'' ''im:payment'' ''approve'' ''critical'' ''integration'']"

definition permissionByKey :: "string \<Rightarrow> permission option" where
  "permissionByKey key = find (\<lambda>p. perm_Key p = key) permissionCatalog"

definition permissionKeys :: "string \<Rightarrow> string list" where
  "permissionKeys stage =
     sort (map perm_Key (filter (\<lambda>p. stage = [] \<or> perm_Stage p = stage) permissionCatalog))"

text \<open>\<open>uniqueSorted\<close>: the values of a set, sorted, so the order of the set does not matter.\<close>

definition uniqueSorted :: "string list \<Rightarrow> string list" where
  "uniqueSorted values = sort (remdups values)"

section \<open>The default document\<close>

definition utf8_text :: "nat list \<Rightarrow> string" where
  "utf8_text bs = map char_of bs"

definition built_in_role :: "go_time \<Rightarrow> string \<Rightarrow> string \<Rightarrow> string \<Rightarrow> string list \<Rightarrow> Role" where
  "built_in_role now rid name description permissions =
     \<lparr>role_ID = rid, role_Name = name, role_Description = description, role_Permissions = permissions,
      role_BuiltIn = True, role_CreatedAt = now, role_UpdatedAt = now\<rparr>"

definition employee_role :: "go_time \<Rightarrow> Role" where
  "employee_role now =
     built_in_role now ''employee''
         (utf8_text [229, 145, 152, 229, 183, 165])
         (utf8_text [228, 189, 191, 231, 148, 168, 229, 145, 152, 229, 183, 165, 228, 184, 170, 228, 186, 186, 229, 183, 165, 228, 189, 156, 229, 140, 186, 232, 131, 189, 229, 138, 155])
         [''workspace.pins.read'', ''workspace.pins.write'']"

definition defaultRoles :: "go_time \<Rightarrow> (string \<times> Role) list" where
  "defaultRoles now =
     (let all = permissionKeys [];
          readyAndFoundation = map perm_Key (filter (\<lambda>p. perm_Stage p \<noteq> ''integration'' \<and>
            perm_Key p \<noteq> ''system.roles.write'' \<and> perm_Key p \<noteq> ''system.settings.write'') permissionCatalog)
      in
        [(''super_admin'', built_in_role now ''super_admin''
            (utf8_text [232, 182, 133, 231, 186, 167, 231, 174, 161, 231, 144, 134, 229, 145, 152])
            (utf8_text [230, 139, 165, 230, 156, 137, 229, 133, 168, 233, 131, 168, 230, 157, 131, 233, 153, 144, 239, 188, 155, 228, 187, 133, 231, 148, 168, 228, 186, 142, 229, 185, 179, 229, 143, 176, 230, 156, 128, 233, 171, 152, 231, 174, 161, 231, 144, 134, 229, 145, 152])
            all),
         (''operations_admin'', built_in_role now ''operations_admin''
            (utf8_text [232, 191, 144, 232, 144, 165, 231, 174, 161, 231, 144, 134, 229, 145, 152])
            (utf8_text [231, 174, 161, 231, 144, 134, 229, 174, 152, 230, 150, 185, 228, 188, 154, 232, 175, 157, 227, 128, 129, 231, 190, 164, 231, 187, 132, 230, 178, 187, 231, 144, 134, 227, 128, 129, 231, 180, 160, 230, 157, 144, 229, 146, 140, 233, 128, 154, 231, 159, 165])
            readyAndFoundation),
         (''content_editor'', built_in_role now ''content_editor''
            (utf8_text [229, 134, 133, 229, 174, 185, 232, 191, 144, 232, 144, 165])
            (utf8_text [231, 187, 180, 230, 138, 164, 231, 180, 160, 230, 157, 144, 227, 128, 129, 229, 174, 152, 230, 150, 185, 229, 134, 133, 229, 174, 185, 229, 146, 140, 231, 191, 187, 232, 175, 145, 231, 173, 150, 231, 149, 165])
            [''assets.read'', ''assets.write'', ''assets.publish'', ''official_topics.read'',
             ''official_topics.publish'', ''translation.manage'', ''notifications.manage'']),
         (''auditor'', built_in_role now ''auditor''
            (utf8_text [229, 174, 161, 232, 174, 161, 229, 145, 152])
            (utf8_text [229, 143, 170, 232, 175, 187, 230, 159, 165, 231, 156, 139, 233, 133, 141, 231, 189, 174, 227, 128, 129, 230, 157, 131, 233, 153, 144, 229, 146, 140, 230, 178, 187, 231, 144, 134, 232, 174, 176, 229, 189, 149])
            [''system.settings.read'', ''system.roles.read'', ''system.audit.read'',
             ''official_topics.read'', ''moderation.read'', ''assets.read'', ''contacts.read'']),
         (''employee'', employee_role now)])"

definition defaultSettings :: ProductSettings where
  "defaultSettings =
     \<lparr>set_General = \<lparr>gs_ProductName = utf8_text [73, 77, 32, 231, 174, 161, 231, 144, 134, 228, 184, 173, 229, 191, 131],
        gs_DefaultLocale = ''zh-CN'', gs_TimeZone = ''Asia/Shanghai''\<rparr>,
      set_Topics = \<lparr>ts_OfficialChannelsEnabled = True, ts_OfficialLargeGroupsEnabled = True, ts_MemberListPageSize = 100\<rparr>,
      set_Moderation = \<lparr>ms_RequireReason = True, ms_DefaultMuteMinutes = 60, ms_MaxMuteMinutes = 10080,
        ms_AuditRetentionDays = 365\<rparr>,
      set_Assets = \<lparr>as_PublishingEnabled = True, as_ReviewRequired = True, as_MaxAssetsPerPack = 500,
        as_AllowedKinds = [''animated-emoji'', ''gif'', ''sticker'']\<rparr>,
      set_Translation = \<lparr>tr_Enabled = False, tr_StaffLanguage = ''zh-CN'', tr_CustomerLanguage = ''en'', tr_KeepOriginal = True,
        tr_FailurePolicy = ''hold'', tr_DefaultTimeoutMS = 1500, tr_MaxAttempts = 3,
        tr_Providers = Some [], tr_Routes = Some []\<rparr>,
      set_Notification = \<lparr>ns_PushEnabled = True, ns_QuietHoursStart = ''22:00'', ns_QuietHoursEnd = ''08:00''\<rparr>\<rparr>"

definition defaultDocument :: "go_time \<Rightarrow> Document" where
  "defaultDocument now =
     \<lparr>doc_Version = 1, doc_Roles = defaultRoles now, doc_Bindings = [], doc_OfficialTopics = [],
      doc_Settings = defaultSettings, doc_Audit = [], doc_UpdatedAt = now\<rparr>"

section \<open>Validation\<close>

text \<open>The pattern \<^verbatim>\<open>^(?:[01][0-9]|2[0-3]):[0-5][0-9]$\<close>.\<close>

definition clockPattern :: "string \<Rightarrow> bool" where
  "clockPattern s =
     (case s of
        [h1, h2, c, m1, m2] \<Rightarrow>
          ((h1 = CHR ''0'' \<or> h1 = CHR ''1'') \<and> is_digit h2 \<or>
           h1 = CHR ''2'' \<and> CHR ''0'' \<le> h2 \<and> h2 \<le> CHR ''3'') \<and>
          c = CHR '':'' \<and> CHR ''0'' \<le> m1 \<and> m1 \<le> CHR ''5'' \<and> is_digit m2
      | _ \<Rightarrow> False)"

definition validateRole :: "Role \<Rightarrow> admin_error option" where
  "validateRole role =
     (if \<not> idPattern (role_ID role) \<or> TrimSpace (role_Name role) = [] \<or> length (role_Name role) > 80 \<or>
         length (role_Description role) > 500 \<or> length (role_Permissions role) > length permissionCatalog
      then Some AdminInvalid
      else if list_ex (\<lambda>key. permissionByKey key = None) (role_Permissions role) then Some AdminInvalid
      else None)"

definition validateBinding :: "Binding \<Rightarrow> (string \<times> Role) list \<Rightarrow> admin_error option" where
  "validateBinding binding roles =
     (if \<not> idPattern (bind_ID binding) \<or> TrimSpace (bind_Subject binding) = [] \<or> length (bind_Subject binding) > 160 \<or>
         length (bind_Domain binding) > 128 \<or>
         (bind_Domain binding \<noteq> ''*'' \<and> CHR '':'' \<notin> set (bind_Domain binding))
      then Some AdminInvalid
      else if map_of roles (bind_RoleID binding) = None then Some AdminInvalid
      else None)"

definition validateTranslationSettings :: "go_lib \<Rightarrow> TranslationSettings \<Rightarrow> admin_error option" where
  "validateTranslationSettings lib s = (case ValidateSettings lib s of Some _ \<Rightarrow> Some AdminInvalid | None \<Rightarrow> None)"

definition settings_bounds_ok :: "ProductSettings \<Rightarrow> bool" where
  "settings_bounds_ok s =
     (let g = set_General s; t = set_Topics s; m = set_Moderation s; a = set_Assets s; l = set_Translation s;
          n = set_Notification s
      in \<not> (TrimSpace (gs_ProductName g) = [] \<or> length (gs_ProductName g) > 80 \<or>
        gs_DefaultLocale g = [] \<or> length (gs_DefaultLocale g) > 16 \<or>
        gs_TimeZone g = [] \<or> length (gs_TimeZone g) > 64 \<or>
        ts_MemberListPageSize t < 20 \<or> ts_MemberListPageSize t > 500 \<or>
        ms_DefaultMuteMinutes m < 1 \<or> ms_MaxMuteMinutes m < ms_DefaultMuteMinutes m \<or>
        ms_MaxMuteMinutes m > 525600 \<or>
        ms_AuditRetentionDays m < 30 \<or> ms_AuditRetentionDays m > 3650 \<or>
        as_MaxAssetsPerPack a < 1 \<or> as_MaxAssetsPerPack a > 10000 \<or>
        length (as_AllowedKinds a) = 0 \<or>
        length (tr_StaffLanguage l) > 16 \<or> length (tr_CustomerLanguage l) > 16 \<or>
        \<not> clockPattern (ns_QuietHoursStart n) \<or> \<not> clockPattern (ns_QuietHoursEnd n)))"

definition validateSettings :: "go_lib \<Rightarrow> ProductSettings \<Rightarrow> admin_error option" where
  "validateSettings lib s =
     (if \<not> settings_bounds_ok s then Some AdminInvalid
      else if list_ex (\<lambda>kind. kind \<noteq> ''sticker'' \<and> kind \<noteq> ''animated-emoji'' \<and> kind \<noteq> ''gif'')
                (as_AllowedKinds (set_Assets s))
      then Some AdminInvalid
      else validateTranslationSettings lib (set_Translation s))"

definition ValidateOfficialTopic :: "OfficialTopic \<Rightarrow> admin_error option" where
  "ValidateOfficialTopic t =
     (if \<not> HasPrefix (ot_Topic t) ''grp'' \<or> length (ot_Topic t) \<le> 3 \<or>
         TrimSpace (ot_OrganizationID t) = [] \<or> length (ot_OrganizationID t) > 128 \<or>
         \<not> HasPrefix (ot_Owner t) ''usr'' \<or> length (ot_Owner t) \<le> 3 \<or>
         \<not> ot_Official t \<or> ot_MemberLimit t \<noteq> 0 \<or>
         ot_AdminAssignPolicy t \<noteq> ''platform'' \<or>
         TrimSpace (ot_CreatedBy t) = [] \<or> length (ot_CreatedBy t) > 160
      then Some AdminInvalid
      else if ot_OfficialStatus t \<notin> {''pending'', ''verified'', ''suspended'', ''revoked''} then Some AdminInvalid
      else if ot_ScaleClass t \<notin> {''normal'', ''large''} then Some AdminInvalid
      else if ot_JoinPolicy t \<notin> {''open'', ''invite'', ''approval'', ''closed''} then Some AdminInvalid
      else if ot_DirectMessagePolicy t \<notin> {''open'', ''contact'', ''customer_assignment'', ''disabled''}
      then Some AdminInvalid
      else if ot_SlowModeSeconds t < 0 \<or> ot_SlowModeSeconds t > 24 * 60 * 60 then Some AdminInvalid
      else None)"

section \<open>Facts about the catalog\<close>

lemma catalog_keys_distinct: "distinct (map perm_Key permissionCatalog)"
  by code_simp

lemma catalog_actions_distinct: "distinct (map (\<lambda>p. (perm_Object p, perm_Action p)) permissionCatalog)"
  by code_simp

lemma permissionByKey_Some:
  "permissionByKey key = Some p \<longleftrightarrow> p \<in> set permissionCatalog \<and> perm_Key p = key"
proof
  assume "permissionByKey key = Some p"
  then show "p \<in> set permissionCatalog \<and> perm_Key p = key"
    unfolding permissionByKey_def by (auto simp: find_Some_iff)
next
  assume p: "p \<in> set permissionCatalog \<and> perm_Key p = key"
  then obtain q where q: "permissionByKey key = Some q"
    unfolding permissionByKey_def by (metis (mono_tags, lifting) find_None_iff option.exhaust)
  then have "q \<in> set permissionCatalog" "perm_Key q = key"
    unfolding permissionByKey_def by (auto simp: find_Some_iff)
  then show "permissionByKey key = Some p"
    using p q catalog_keys_distinct by (auto simp: distinct_map dest: inj_onD)
qed

text \<open>A permission is determined by the object and the action the policies speak of.\<close>

lemma permission_action_unique:
  assumes "permissionByKey k = Some p" "permissionByKey k' = Some p'"
    and "perm_Object p = perm_Object p'" "perm_Action p = perm_Action p'"
  shows "k = k'"
proof -
  have "p \<in> set permissionCatalog" "p' \<in> set permissionCatalog" "perm_Key p = k" "perm_Key p' = k'"
    using assms(1,2) by (auto simp: permissionByKey_Some)
  moreover have "inj_on (\<lambda>p. (perm_Object p, perm_Action p)) (set permissionCatalog)"
    using catalog_actions_distinct by (simp add: distinct_map)
  ultimately show ?thesis using assms(3,4) by (metis (mono_tags, lifting) inj_onD)
qed

lemma set_permissionKeys: "set (permissionKeys []) = perm_Key ` set permissionCatalog"
  by (simp add: permissionKeys_def)

lemma validateRole_None:
  assumes "validateRole role = None"
  shows "idPattern (role_ID role)" and "\<forall>key \<in> set (role_Permissions role). permissionByKey key \<noteq> None"
  using assms by (auto simp: validateRole_def list_ex_iff split: if_splits)

lemma uniqueSorted_simps [simp]:
  "set (uniqueSorted vs) = set vs" "sorted (uniqueSorted vs)" "distinct (uniqueSorted vs)"
  "length (uniqueSorted vs) \<le> length vs"
  by (simp_all add: uniqueSorted_def length_remdups_leq)

end
