(* ===== verification/ControlPlane.thy ===== *)
theory ControlPlane
  imports AdminModel PCache
begin

text \<open>
  The administrative control plane (\<^verbatim>\<open>server/admin/control_plane.go\<close>) over the persistent cache
  (\<open>persistentAdminRepository\<close> of \<^verbatim>\<open>internal/server/admin_http.go\<close>).

  A control plane is a document and the policies compiled from it. Its operations hold a lock, so
  each is one function on the control plane and the cache. The policy engine Casbin is the record
  \<open>casbin\<close> of its operations; what is used of it is the predicate \<open>casbin_ok\<close>. The JSON package is
  the record \<open>doc_codec\<close>. The sorted lists of a snapshot are not modelled: an operation returns
  the document the snapshot is made from.
\<close>

section \<open>The policy engine\<close>

type_synonym policy = "string \<times> string \<times> string \<times> string"

record 'e casbin =
  cb_new :: "'e option"
  cb_add :: "'e \<Rightarrow> policy \<Rightarrow> 'e option"
  cb_enforce :: "'e \<Rightarrow> policy \<Rightarrow> bool option"

text \<open>The matcher of the model text: a request \<open>r\<close> against a policy \<open>p\<close>.\<close>

definition casbin_match :: "policy \<Rightarrow> policy \<Rightarrow> bool" where
  "casbin_match r p =
     (case r of (rsub, rdom, robj, ract) \<Rightarrow> case p of (psub, pdom, pobj, pact) \<Rightarrow>
        rsub = psub \<and> (pdom = ''*'' \<or> rdom = pdom) \<and> robj = pobj \<and> ract = pact)"

definition casbin_ok :: "'e casbin \<Rightarrow> ('e \<Rightarrow> policy set) \<Rightarrow> bool" where
  "casbin_ok cb pol =
     ((\<forall>e. cb_new cb = Some e \<longrightarrow> pol e = {}) \<and>
      (\<forall>e p e'. cb_add cb e p = Some e' \<longrightarrow> pol e' = insert p (pol e)) \<and>
      (\<forall>e r b. cb_enforce cb e r = Some b \<longrightarrow> b = (\<exists>p \<in> pol e. casbin_match r p)))"

definition role_policy :: "Role \<Rightarrow> permission \<Rightarrow> policy" where
  "role_policy role p = (''role:'' @ role_ID role, ''*'', perm_Object p, perm_Action p)"

fun add_policies :: "'e casbin \<Rightarrow> Role \<Rightarrow> string list \<Rightarrow> 'e \<Rightarrow> admin_error + 'e" where
  "add_policies cb role [] e = Inr e"
| "add_policies cb role (key # keys) e =
     (case permissionByKey key of
        None \<Rightarrow> Inl AdminInvalid
      | Some p \<Rightarrow>
          (case cb_add cb e (role_policy role p) of
             None \<Rightarrow> Inl (AdminOther ''casbin'')
           | Some e' \<Rightarrow> add_policies cb role keys e'))"

fun add_roles :: "'e casbin \<Rightarrow> (string \<times> Role) list \<Rightarrow> 'e \<Rightarrow> admin_error + 'e" where
  "add_roles cb [] e = Inr e"
| "add_roles cb ((_, role) # roles) e =
     (case add_policies cb role (role_Permissions role) e of
        Inl err \<Rightarrow> Inl err
      | Inr e' \<Rightarrow> add_roles cb roles e')"

definition buildEnforcer :: "'e casbin \<Rightarrow> Document \<Rightarrow> admin_error + 'e" where
  "buildEnforcer cb document =
     (case cb_new cb of
        None \<Rightarrow> Inl (AdminOther ''casbin'')
      | Some e \<Rightarrow> add_roles cb (doc_Roles document) e)"

section \<open>Normalisation\<close>

definition legacyTranslation :: "TranslationSettings \<Rightarrow> bool" where
  "legacyTranslation t = (tr_Enabled t \<and> tr_DefaultTimeoutMS t = 0 \<and> tr_Providers t = None)"

definition upgrade_super_admin :: "go_time \<Rightarrow> (string \<times> Role) list \<Rightarrow> (string \<times> Role) list" where
  "upgrade_super_admin now roles =
     (case map_of roles ''super_admin'' of
        None \<Rightarrow> roles
      | Some role \<Rightarrow>
          if role_BuiltIn role \<and> uniqueSorted (role_Permissions role) \<noteq> permissionKeys []
          then AList.update ''super_admin''
                 (role\<lparr>role_Permissions := permissionKeys [], role_UpdatedAt := now\<rparr>) roles
          else roles)"

definition add_employee :: "go_time \<Rightarrow> (string \<times> Role) list \<Rightarrow> (string \<times> Role) list" where
  "add_employee now roles =
     (case map_of roles ''employee'' of
        Some _ \<Rightarrow> roles
      | None \<Rightarrow> AList.update ''employee'' (employee_role now) roles)"

text \<open>The three loops give an entry without an identifier its key and stop at the first one that
  is not valid.\<close>

fun fix_entries :: "(string \<Rightarrow> 'v \<Rightarrow> 'v) \<Rightarrow> ('v \<Rightarrow> admin_error option) \<Rightarrow> (string \<times> 'v) list \<Rightarrow>
    admin_error + (string \<times> 'v) list" where
  "fix_entries fill check [] = Inr []"
| "fix_entries fill check ((key, v) # entries) =
     (let v' = fill key v in
      case check v' of
        Some err \<Rightarrow> Inl err
      | None \<Rightarrow>
          (case fix_entries fill check entries of
             Inl err \<Rightarrow> Inl err
           | Inr rest \<Rightarrow> Inr ((key, v') # rest)))"

definition fill_role :: "string \<Rightarrow> Role \<Rightarrow> Role" where
  "fill_role key role = (if role_ID role = [] then role\<lparr>role_ID := key\<rparr> else role)"

definition fill_binding :: "string \<Rightarrow> Binding \<Rightarrow> Binding" where
  "fill_binding key b = (if bind_ID b = [] then b\<lparr>bind_ID := key\<rparr> else b)"

definition fill_topic :: "string \<Rightarrow> OfficialTopic \<Rightarrow> OfficialTopic" where
  "fill_topic key t = (if ot_Topic t = [] then t\<lparr>ot_Topic := key\<rparr> else t)"

definition normalizeDocument :: "go_lib \<Rightarrow> go_time \<Rightarrow> Document \<Rightarrow> admin_error + Document" where
  "normalizeDocument lib now d =
     (let tr = set_Translation (doc_Settings d);
          tr1 = NormalizeSettings tr;
          tr2 = (if legacyTranslation tr then tr1\<lparr>tr_Enabled := False\<rparr> else tr1);
          settings = (doc_Settings d)\<lparr>set_Translation := tr2\<rparr>
      in case validateSettings lib settings of
           Some err \<Rightarrow> Inl err
         | None \<Rightarrow>
             (case fix_entries fill_role validateRole (add_employee now (upgrade_super_admin now (doc_Roles d))) of
                Inl err \<Rightarrow> Inl err
              | Inr roles \<Rightarrow>
                  (case fix_entries fill_binding (\<lambda>b. validateBinding b roles) (doc_Bindings d) of
                     Inl err \<Rightarrow> Inl err
                   | Inr bindings \<Rightarrow>
                       (case fix_entries fill_topic ValidateOfficialTopic (doc_OfficialTopics d) of
                          Inl err \<Rightarrow> Inl err
                        | Inr topics \<Rightarrow>
                            Inr (d\<lparr>doc_Version := (if doc_Version d = 0 then 1 else doc_Version d),
                                   doc_Roles := roles, doc_Bindings := bindings, doc_OfficialTopics := topics,
                                   doc_Settings := settings\<rparr>)))))"

section \<open>The repository\<close>

record doc_codec =
  dcd_enc :: "Document \<Rightarrow> string option"
  dcd_dec :: "string \<Rightarrow> Document option"

definition adminDocumentKey :: string where
  "adminDocumentKey = ''admin:control-plane:v1''"

definition repo_Load :: "doc_codec \<Rightarrow> db_err \<Rightarrow> pcache \<Rightarrow> admin_error + Document" where
  "repo_Load cd f kv =
     (case PCacheGet f adminDocumentKey kv of
        Inl ErrNotFound \<Rightarrow> Inl AdminNotFound
      | Inl _ \<Rightarrow> Inl (AdminOther ''store'')
      | Inr raw \<Rightarrow> (case dcd_dec cd raw of None \<Rightarrow> Inl (AdminOther ''json'') | Some d \<Rightarrow> Inr d))"

definition repo_Save :: "doc_codec \<Rightarrow> db_err \<Rightarrow> go_time \<Rightarrow> Document \<Rightarrow> pcache \<Rightarrow> admin_error option \<times> pcache" where
  "repo_Save cd f now d kv =
     (case dcd_enc cd d of
        None \<Rightarrow> (Some (AdminOther ''json''), kv)
      | Some raw \<Rightarrow>
          (case PCacheUpsert f now adminDocumentKey raw False kv of
             (None, kv') \<Rightarrow> (None, kv')
           | (Some _, kv') \<Rightarrow> (Some (AdminOther ''store''), kv')))"

definition cloneDocument :: "doc_codec \<Rightarrow> Document \<Rightarrow> admin_error + Document" where
  "cloneDocument cd d =
     (case dcd_enc cd d of
        None \<Rightarrow> Inl (AdminOther ''json'')
      | Some raw \<Rightarrow> (case dcd_dec cd raw of None \<Rightarrow> Inl (AdminOther ''json'') | Some d' \<Rightarrow> Inr d'))"

section \<open>The control plane\<close>

record 'e control =
  ctl_document :: Document
  ctl_enforcer :: 'e

text \<open>What a call meets: the errors of the statements and the clock, read once in the change and
  once around it.\<close>

record admin_env =
  ae_load :: db_err
  ae_save :: db_err
  ae_now :: go_time
  ae_changeNow :: go_time

definition NewControlPlane ::
  "go_lib \<Rightarrow> 'e casbin \<Rightarrow> doc_codec \<Rightarrow> admin_env \<Rightarrow> pcache \<Rightarrow> (admin_error + 'e control) \<times> pcache" where
  "NewControlPlane lib cb cd env kv =
     (case (case repo_Load cd (ae_load env) kv of
              Inr d \<Rightarrow> (Inr d, kv)
            | Inl AdminNotFound \<Rightarrow>
                (let d = defaultDocument (ae_now env) in
                 case repo_Save cd (ae_save env) (ae_now env) d kv of
                   (Some err, kv') \<Rightarrow> (Inl err, kv')
                 | (None, kv') \<Rightarrow> (Inr d, kv'))
            | Inl err \<Rightarrow> (Inl err, kv)) of
        (Inl err, kv') \<Rightarrow> (Inl err, kv')
      | (Inr d, kv') \<Rightarrow>
          (case normalizeDocument lib (ae_changeNow env) d of
             Inl err \<Rightarrow> (Inl err, kv')
           | Inr d' \<Rightarrow>
               (case buildEnforcer cb d' of
                  Inl err \<Rightarrow> (Inl err, kv')
                | Inr e \<Rightarrow> (Inr \<lparr>ctl_document = d', ctl_enforcer = e\<rparr>, kv'))))"

text \<open>\<open>Refresh\<close> reads the version, compiles the policies without the lock and looks at the version
  again; \<open>other\<close> is what happens to the control plane in between.\<close>

definition Refresh ::
  "go_lib \<Rightarrow> 'e casbin \<Rightarrow> doc_codec \<Rightarrow> admin_env \<Rightarrow> pcache \<Rightarrow> ('e control \<Rightarrow> 'e control) \<Rightarrow> 'e control \<Rightarrow>
   admin_error option \<times> 'e control" where
  "Refresh lib cb cd env kv other ctl =
     (case repo_Load cd (ae_load env) kv of
        Inl err \<Rightarrow> (Some err, ctl)
      | Inr d0 \<Rightarrow>
          (case normalizeDocument lib (ae_now env) d0 of
             Inl err \<Rightarrow> (Some err, ctl)
           | Inr d \<Rightarrow>
               if doc_Version d \<le> doc_Version (ctl_document ctl) then (None, ctl)
               else
                 (case buildEnforcer cb d of
                    Inl err \<Rightarrow> (Some err, ctl)
                  | Inr e \<Rightarrow>
                      let ctl1 = other ctl in
                      if doc_Version d > doc_Version (ctl_document ctl1)
                      then (None, ctl1\<lparr>ctl_document := d, ctl_enforcer := e\<rparr>)
                      else (None, ctl1))))"

definition maxAuditEvents :: nat where "maxAuditEvents = 500"

definition audit_event :: "go_time \<Rightarrow> 64 word \<Rightarrow> Actor \<Rightarrow> string \<Rightarrow> string \<Rightarrow> detail \<Rightarrow> AuditEvent" where
  "audit_event now version actor action target detail =
     \<lparr>ev_ID = ''audit-'' @ Itoa now @ ''-'' @ Itoa (uint version), ev_At = now, ev_Actor = actor_Subject actor,
      ev_Action = action, ev_Target = target, ev_RequestID = actor_RequestID actor,
      ev_RemoteIP = actor_RemoteIP actor, ev_Version = version, ev_Detail = detail\<rparr>"

definition append_audit :: "AuditEvent list \<Rightarrow> AuditEvent \<Rightarrow> AuditEvent list" where
  "append_audit audit event =
     (let audit1 = audit @ [event] in
      if length audit1 > maxAuditEvents then drop (length audit1 - maxAuditEvents) audit1 else audit1)"

definition mutateDetailed ::
  "'e casbin \<Rightarrow> doc_codec \<Rightarrow> admin_env \<Rightarrow> 64 word \<Rightarrow> Actor \<Rightarrow> string \<Rightarrow> string \<Rightarrow> detail \<Rightarrow>
   (Document \<Rightarrow> admin_error + Document) \<Rightarrow> 'e control \<times> pcache \<Rightarrow> (admin_error + Document) \<times> 'e control \<times> pcache" where
  "mutateDetailed cb cd env expected actor action target detail change state =
     (let (ctl, kv) = state in
      if expected \<noteq> doc_Version (ctl_document ctl) then (Inl AdminConflict, state)
      else
        case cloneDocument cd (ctl_document ctl) of
          Inl err \<Rightarrow> (Inl err, state)
        | Inr d0 \<Rightarrow>
            (case change d0 of
               Inl err \<Rightarrow> (Inl err, state)
             | Inr d1 \<Rightarrow>
                 let version = doc_Version d1 + 1;
                     d2 = d1\<lparr>doc_Version := version, doc_UpdatedAt := ae_now env,
                       doc_Audit := append_audit (doc_Audit d1)
                         (audit_event (ae_now env) version actor action target detail)\<rparr>
                 in case buildEnforcer cb d2 of
                      Inl err \<Rightarrow> (Inl err, state)
                    | Inr e \<Rightarrow>
                        (case repo_Save cd (ae_save env) (ae_now env) d2 kv of
                           (Some err, kv') \<Rightarrow> (Inl err, ctl, kv')
                         | (None, kv') \<Rightarrow> (Inr d2, ctl\<lparr>ctl_document := d2, ctl_enforcer := e\<rparr>, kv'))))"

section \<open>Changes\<close>

definition upsertOfficialTopic_change :: "go_time \<Rightarrow> OfficialTopic \<Rightarrow> Document \<Rightarrow> admin_error + Document" where
  "upsertOfficialTopic_change now topic d =
     (case ValidateOfficialTopic topic of
        Some err \<Rightarrow> Inl err
      | None \<Rightarrow>
          let t1 = (case map_of (doc_OfficialTopics d) (ot_Topic topic) of
                      Some existing \<Rightarrow> topic\<lparr>ot_CreatedAt := ot_CreatedAt existing,
                        ot_CreatedBy := ot_CreatedBy existing, ot_Owner := ot_Owner existing\<rparr>
                    | None \<Rightarrow> topic\<lparr>ot_CreatedAt := now\<rparr>);
              t2 = t1\<lparr>ot_UpdatedAt := now\<rparr>
          in Inr (d\<lparr>doc_OfficialTopics := AList.update (ot_Topic topic) t2 (doc_OfficialTopics d)\<rparr>))"

definition upsertRole_change :: "go_time \<Rightarrow> Role \<Rightarrow> Document \<Rightarrow> admin_error + Document" where
  "upsertRole_change now role d =
     (case validateRole role of
        Some err \<Rightarrow> Inl err
      | None \<Rightarrow>
          if role_ID role = ''super_admin'' then Inl AdminProtected
          else
            let r1 = (case map_of (doc_Roles d) (role_ID role) of
                        Some existing \<Rightarrow> role\<lparr>role_CreatedAt := role_CreatedAt existing, role_BuiltIn := role_BuiltIn existing\<rparr>
                      | None \<Rightarrow> role\<lparr>role_CreatedAt := now, role_BuiltIn := False\<rparr>);
                r2 = r1\<lparr>role_UpdatedAt := now, role_Permissions := uniqueSorted (role_Permissions r1)\<rparr>
            in Inr (d\<lparr>doc_Roles := AList.update (role_ID role) r2 (doc_Roles d)\<rparr>))"

definition deleteRole_change :: "string \<Rightarrow> Document \<Rightarrow> admin_error + Document" where
  "deleteRole_change rid d =
     (case map_of (doc_Roles d) rid of
        None \<Rightarrow> Inl AdminNotFound
      | Some role \<Rightarrow>
          if role_BuiltIn role then Inl AdminProtected
          else if list_ex (\<lambda>(_, b). bind_RoleID b = rid) (doc_Bindings d) then Inl AdminConflict
          else Inr (d\<lparr>doc_Roles := AList.delete rid (doc_Roles d)\<rparr>))"

definition upsertBinding_change :: "go_time \<Rightarrow> Binding \<Rightarrow> Document \<Rightarrow> admin_error + Document" where
  "upsertBinding_change now binding d =
     (case validateBinding binding (doc_Roles d) of
        Some err \<Rightarrow> Inl err
      | None \<Rightarrow>
          let b1 = (case map_of (doc_Bindings d) (bind_ID binding) of
                      Some existing \<Rightarrow> binding\<lparr>bind_CreatedAt := bind_CreatedAt existing\<rparr>
                    | None \<Rightarrow> binding\<lparr>bind_CreatedAt := now\<rparr>);
              b2 = b1\<lparr>bind_UpdatedAt := now\<rparr>
          in Inr (d\<lparr>doc_Bindings := AList.update (bind_ID binding) b2 (doc_Bindings d)\<rparr>))"

definition deleteBinding_change :: "string \<Rightarrow> Document \<Rightarrow> admin_error + Document" where
  "deleteBinding_change bid d =
     (case map_of (doc_Bindings d) bid of
        None \<Rightarrow> Inl AdminNotFound
      | Some _ \<Rightarrow> Inr (d\<lparr>doc_Bindings := AList.delete bid (doc_Bindings d)\<rparr>))"

definition updateSettings_change :: "go_lib \<Rightarrow> ProductSettings \<Rightarrow> Document \<Rightarrow> admin_error + Document" where
  "updateSettings_change lib settings d =
     (let s1 = settings\<lparr>set_Translation := NormalizeSettings (set_Translation settings)\<rparr> in
      case validateSettings lib s1 of
        Some err \<Rightarrow> Inl err
      | None \<Rightarrow>
          let s2 = s1\<lparr>set_Assets := (set_Assets s1)\<lparr>as_AllowedKinds := uniqueSorted (as_AllowedKinds (set_Assets s1))\<rparr>\<rparr>
          in Inr (d\<lparr>doc_Settings := s2\<rparr>))"

section \<open>Operations\<close>

datatype admin_op =
    UpsertOfficialTopic OfficialTopic
  | RecordOfficialAction string string string detail
  | UpsertRole Role
  | DeleteRole string
  | UpsertBinding Binding
  | DeleteBinding string
  | UpdateSettings ProductSettings

fun op_action :: "admin_op \<Rightarrow> string" where
  "op_action (UpsertOfficialTopic t) = ''official_topic.upsert''"
| "op_action (RecordOfficialAction topic action target detail) = action"
| "op_action (UpsertRole role) = ''role.upsert''"
| "op_action (DeleteRole rid) = ''role.delete''"
| "op_action (UpsertBinding b) = ''binding.upsert''"
| "op_action (DeleteBinding bid) = ''binding.delete''"
| "op_action (UpdateSettings s) = ''settings.update''"

fun op_target :: "admin_op \<Rightarrow> string" where
  "op_target (UpsertOfficialTopic t) = ''official-topic:'' @ ot_Topic t"
| "op_target (RecordOfficialAction topic action target detail) =
     ''official-topic:'' @ topic @ (if target \<noteq> [] then ''/member:'' @ target else [])"
| "op_target (UpsertRole role) = ''role:'' @ role_ID role"
| "op_target (DeleteRole rid) = ''role:'' @ rid"
| "op_target (UpsertBinding b) = ''binding:'' @ bind_ID b"
| "op_target (DeleteBinding bid) = ''binding:'' @ bid"
| "op_target (UpdateSettings s) = ''settings''"

fun op_detail :: "admin_op \<Rightarrow> detail" where
  "op_detail (UpsertOfficialTopic t) =
     [(''org_id'', DetailText (ot_OrganizationID t)), (''status'', DetailText (ot_OfficialStatus t)),
      (''scale_class'', DetailText (ot_ScaleClass t)), (''all_muted'', DetailFlag (ot_AllMuted t))]"
| "op_detail (RecordOfficialAction topic action target detail) = detail"
| "op_detail _ = []"

fun op_change :: "go_lib \<Rightarrow> go_time \<Rightarrow> admin_op \<Rightarrow> Document \<Rightarrow> admin_error + Document" where
  "op_change lib now (UpsertOfficialTopic t) d = upsertOfficialTopic_change now t d"
| "op_change lib now (RecordOfficialAction topic action target detail) d = Inr d"
| "op_change lib now (UpsertRole role) d = upsertRole_change now role d"
| "op_change lib now (DeleteRole rid) d = deleteRole_change rid d"
| "op_change lib now (UpsertBinding b) d = upsertBinding_change now b d"
| "op_change lib now (DeleteBinding bid) d = deleteBinding_change bid d"
| "op_change lib now (UpdateSettings s) d = updateSettings_change lib s d"

definition mutate ::
  "go_lib \<Rightarrow> 'e casbin \<Rightarrow> doc_codec \<Rightarrow> admin_env \<Rightarrow> 64 word \<Rightarrow> Actor \<Rightarrow> admin_op \<Rightarrow> 'e control \<times> pcache \<Rightarrow>
   (admin_error + Document) \<times> 'e control \<times> pcache" where
  "mutate lib cb cd env expected actor op state =
     mutateDetailed cb cd env expected actor (op_action op) (op_target op) (op_detail op)
       (op_change lib (ae_changeNow env) op) state"

section \<open>Queries\<close>

definition getOfficialTopic :: "'e control \<Rightarrow> string \<Rightarrow> admin_error + OfficialTopic" where
  "getOfficialTopic ctl topic =
     (case map_of (doc_OfficialTopics (ctl_document ctl)) topic of
        None \<Rightarrow> Inl AdminNotFound
      | Some t \<Rightarrow> Inr t)"

definition audit_limit :: "int \<Rightarrow> nat" where
  "audit_limit limit = (if limit \<le> 0 \<or> limit > 200 then 100 else nat limit)"

definition OfficialTopicAudit :: "'e control \<Rightarrow> string \<Rightarrow> int \<Rightarrow> AuditEvent list" where
  "OfficialTopicAudit ctl topic limit =
     (let pre = ''official-topic:'' @ topic in
      take (audit_limit limit) (filter (\<lambda>ev. ev_Target ev = pre \<or> HasPrefix (ev_Target ev) (pre @ ''/''))
        (rev (doc_Audit (ctl_document ctl)))))"

definition Audit :: "'e control \<Rightarrow> int \<Rightarrow> AuditEvent list" where
  "Audit ctl limit = take (audit_limit limit) (rev (doc_Audit (ctl_document ctl)))"

definition binding_active :: "string \<Rightarrow> string \<Rightarrow> go_time \<Rightarrow> Binding \<Rightarrow> bool" where
  "binding_active subject domain now b =
     (\<not> (bind_Subject b \<noteq> subject \<or> (bind_Domain b \<noteq> ''*'' \<and> bind_Domain b \<noteq> domain) \<or>
         (case bind_ExpiresAt b of None \<Rightarrow> False | Some t \<Rightarrow> \<not> t > now)))"

fun evaluate_loop ::
  "'e casbin \<Rightarrow> 'e \<Rightarrow> string \<Rightarrow> string \<Rightarrow> permission \<Rightarrow> go_time \<Rightarrow> (string \<times> Binding) list \<Rightarrow> string list \<Rightarrow> bool \<Rightarrow>
   admin_error + string list \<times> bool" where
  "evaluate_loop cb e subject domain p now [] roles allowed = Inr (roles, allowed)"
| "evaluate_loop cb e subject domain p now ((_, b) # bs) roles allowed =
     (if \<not> binding_active subject domain now b then evaluate_loop cb e subject domain p now bs roles allowed
      else
        case cb_enforce cb e (''role:'' @ bind_RoleID b, domain, perm_Object p, perm_Action p) of
          None \<Rightarrow> Inl (AdminOther ''casbin'')
        | Some ok \<Rightarrow> evaluate_loop cb e subject domain p now bs (roles @ [bind_RoleID b]) (allowed \<or> ok))"

definition Evaluate :: "'e casbin \<Rightarrow> 'e control \<Rightarrow> string \<Rightarrow> string \<Rightarrow> string \<Rightarrow> go_time \<Rightarrow> admin_error + Evaluation" where
  "Evaluate cb ctl subject domain permissionKey now =
     (case permissionByKey permissionKey of
        None \<Rightarrow> Inl AdminInvalid
      | Some p \<Rightarrow>
          if TrimSpace subject = [] \<or> TrimSpace domain = [] then Inl AdminInvalid
          else
            (case evaluate_loop cb (ctl_enforcer ctl) subject domain p now (doc_Bindings (ctl_document ctl)) [] False of
               Inl err \<Rightarrow> Inl err
             | Inr (roles, allowed) \<Rightarrow>
                 Inr \<lparr>evl_Allowed = allowed, evl_Subject = subject, evl_Domain = domain,
                      evl_Permission = permissionKey, evl_Roles = sort roles\<rparr>))"

end
