(* ===== verification/ControlPlaneSafety.thy ===== *)
theory ControlPlaneSafety
  imports ControlPlane
begin

text \<open>
  What the control plane promises: its operations are transactions under an optimistic lock, the
  documents stay well formed, the policies in force are those of the document in force, and a
  permission is granted exactly by the bindings.
\<close>

section \<open>Compiled policies\<close>

definition role_policies :: "Role \<Rightarrow> string list \<Rightarrow> policy set" where
  "role_policies role keys = role_policy role ` {p. \<exists>key \<in> set keys. permissionByKey key = Some p}"

definition doc_policies :: "Document \<Rightarrow> policy set" where
  "doc_policies d = (\<Union>role \<in> snd ` set (doc_Roles d). role_policies role (role_Permissions role))"

lemma casbin_okD:
  assumes "casbin_ok cb pol"
  shows "cb_new cb = Some e \<Longrightarrow> pol e = {}"
    and "cb_add cb e p = Some e' \<Longrightarrow> pol e' = insert p (pol e)"
    and "cb_enforce cb e r = Some b \<Longrightarrow> b = (\<exists>p \<in> pol e. casbin_match r p)"
  using assms unfolding casbin_ok_def by blast+

lemma add_policies_pol:
  assumes "casbin_ok cb pol" "add_policies cb role keys e = Inr e'"
  shows "pol e' = pol e \<union> role_policies role keys"
  using assms(2)
proof (induction keys arbitrary: e)
  case (Cons key keys)
  obtain p e1 where p: "permissionByKey key = Some p" "cb_add cb e (role_policy role p) = Some e1"
    "add_policies cb role keys e1 = Inr e'"
    using Cons.prems by (auto split: option.splits)
  have "{q. \<exists>k \<in> set (key # keys). permissionByKey k = Some q} = insert p {q. \<exists>k \<in> set keys. permissionByKey k = Some q}"
    using p(1) by auto
  then show ?case using Cons.IH [OF p(3)] casbin_okD(2) [OF assms(1) p(2)] by (simp add: role_policies_def)
qed (simp add: role_policies_def)

lemma add_roles_pol:
  assumes "casbin_ok cb pol" "add_roles cb roles e = Inr e'"
  shows "pol e' = pol e \<union> (\<Union>role \<in> snd ` set roles. role_policies role (role_Permissions role))"
  using assms(2)
proof (induction roles arbitrary: e)
  case (Cons kr roles)
  obtain k role where kr: "kr = (k, role)" by fastforce
  obtain e1 where e1: "add_policies cb role (role_Permissions role) e = Inr e1" "add_roles cb roles e1 = Inr e'"
    using Cons.prems kr by (auto split: sum.splits)
  show ?case using Cons.IH [OF e1(2)] add_policies_pol [OF assms(1) e1(1)] kr by (simp add: Un_assoc)
qed simp

lemma buildEnforcer_pol:
  assumes "casbin_ok cb pol" "buildEnforcer cb d = Inr e"
  shows "pol e = doc_policies d"
proof -
  obtain e0 where e0: "cb_new cb = Some e0" "add_roles cb (doc_Roles d) e0 = Inr e"
    using assms(2) by (auto simp: buildEnforcer_def split: option.splits)
  then show ?thesis
    using add_roles_pol [OF assms(1) e0(2)] casbin_okD(1) [OF assms(1) e0(1)] by (simp add: doc_policies_def)
qed

section \<open>The invariant\<close>

definition role_ok :: "string \<Rightarrow> Role \<Rightarrow> bool" where
  "role_ok key role = (role_ID role = key \<and> validateRole role = None \<and>
     (key = ''super_admin'' \<longrightarrow> role_BuiltIn role \<longrightarrow> set (role_Permissions role) = set (permissionKeys [])))"

definition doc_ok :: "go_lib \<Rightarrow> Document \<Rightarrow> bool" where
  "doc_ok lib d =
     (distinct (map fst (doc_Roles d)) \<and> distinct (map fst (doc_Bindings d)) \<and> distinct (map fst (doc_OfficialTopics d)) \<and>
      (\<forall>(key, role) \<in> set (doc_Roles d). role_ok key role) \<and>
      (\<forall>(key, b) \<in> set (doc_Bindings d). bind_ID b = key \<and> validateBinding b (doc_Roles d) = None) \<and>
      (\<forall>(key, t) \<in> set (doc_OfficialTopics d). ot_Topic t = key \<and> ValidateOfficialTopic t = None) \<and>
      validateSettings lib (doc_Settings d) = None \<and> length (doc_Audit d) \<le> maxAuditEvents)"

definition ctl_ok :: "go_lib \<Rightarrow> ('e \<Rightarrow> policy set) \<Rightarrow> 'e control \<Rightarrow> bool" where
  "ctl_ok lib pol ctl = (doc_ok lib (ctl_document ctl) \<and> pol (ctl_enforcer ctl) = doc_policies (ctl_document ctl))"

text \<open>JSON is read back as it was written.\<close>

definition doc_codec_ok :: "doc_codec \<Rightarrow> bool" where
  "doc_codec_ok cd = (\<forall>d raw. dcd_enc cd d = Some raw \<longrightarrow> dcd_dec cd raw = Some d)"

lemma cloneDocument_eq: "doc_codec_ok cd \<Longrightarrow> cloneDocument cd d = Inr d' \<Longrightarrow> d' = d"
  by (auto simp: cloneDocument_def doc_codec_ok_def split: option.splits)

lemma set_AList_update_subset: "set (AList.update k v xs) \<subseteq> insert (k, v) (set xs)"
  by (induction xs) auto

lemma in_AList_update: "distinct (map fst xs) \<Longrightarrow>
    x \<in> set (AList.update k v xs) \<longleftrightarrow> x = (k, v) \<or> x \<in> set xs \<and> fst x \<noteq> k"
  by (induction xs) (auto simp: rev_image_eqI)

lemma in_AList_delete: "x \<in> set (AList.delete k xs) \<longleftrightarrow> x \<in> set xs \<and> fst x \<noteq> k"
  by (induction xs) auto

lemma validateBinding_roles:
  assumes "validateBinding b roles = None" "map_of roles' (bind_RoleID b) \<noteq> None"
  shows "validateBinding b roles' = None"
  using assms by (auto simp: validateBinding_def split: if_splits)

lemma validateBinding_role: "validateBinding b roles = None \<Longrightarrow> map_of roles (bind_RoleID b) \<noteq> None"
  by (auto simp: validateBinding_def split: if_splits)

lemma upsertRole_ok:
  assumes "doc_ok lib d" "upsertRole_change now role d = Inr d'"
  shows "doc_ok lib d'"
proof -
  have v: "validateRole role = None" and ns: "role_ID role \<noteq> ''super_admin''"
    using assms(2) by (auto simp: upsertRole_change_def split: option.splits if_splits)
  obtain r2 where d': "d' = d\<lparr>doc_Roles := AList.update (role_ID role) r2 (doc_Roles d)\<rparr>"
    and r2: "role_ID r2 = role_ID role" "role_Name r2 = role_Name role" "role_Description r2 = role_Description role"
      "role_Permissions r2 = uniqueSorted (role_Permissions role)"
    using assms(2) v ns by (auto simp: upsertRole_change_def Let_def split: option.splits)
  have "\<not> length (uniqueSorted (role_Permissions role)) > length permissionCatalog"
  proof -
    have "length (role_Permissions role) \<le> length permissionCatalog"
      using v by (auto simp: validateRole_def split: if_splits)
    then show ?thesis using uniqueSorted_simps(4) [of "role_Permissions role"] by linarith
  qed
  then have "validateRole r2 = None"
    using v r2 by (auto simp: validateRole_def list_ex_iff split: if_splits)
  then have "role_ok (role_ID role) r2" using r2 ns by (simp add: role_ok_def)
  moreover have "validateBinding b (AList.update (role_ID role) r2 (doc_Roles d)) = None"
    if "validateBinding b (doc_Roles d) = None" for b
    using validateBinding_roles [OF that] validateBinding_role [OF that] by (simp add: update_conv')
  ultimately show ?thesis
    using assms(1) d' by (auto simp: doc_ok_def in_AList_update AList.distinct_update)
qed

lemma deleteRole_ok:
  assumes "doc_ok lib d" "deleteRole_change rid d = Inr d'"
  shows "doc_ok lib d'"
proof -
  have free: "\<forall>(k, b) \<in> set (doc_Bindings d). bind_RoleID b \<noteq> rid"
    and d': "d' = d\<lparr>doc_Roles := AList.delete rid (doc_Roles d)\<rparr>"
    using assms(2) by (auto simp: deleteRole_change_def list_ex_iff split: option.splits if_splits)
  have "validateBinding b (AList.delete rid (doc_Roles d)) = None"
    if "validateBinding b (doc_Roles d) = None" "bind_RoleID b \<noteq> rid" for b
    using validateBinding_roles [OF that(1)] validateBinding_role [OF that(1)] that(2) by (simp add: delete_conv')
  then show ?thesis
    using assms(1) d' free by (fastforce simp: doc_ok_def in_AList_delete AList.distinct_delete)
qed

lemma upsertBinding_ok:
  assumes "doc_ok lib d" "upsertBinding_change now b d = Inr d'"
  shows "doc_ok lib d'"
proof -
  have v: "validateBinding b (doc_Roles d) = None"
    using assms(2) by (auto simp: upsertBinding_change_def split: option.splits)
  obtain b2 where d': "d' = d\<lparr>doc_Bindings := AList.update (bind_ID b) b2 (doc_Bindings d)\<rparr>"
    and b2: "bind_ID b2 = bind_ID b" "bind_Subject b2 = bind_Subject b" "bind_Domain b2 = bind_Domain b"
      "bind_RoleID b2 = bind_RoleID b"
    using assms(2) v by (auto simp: upsertBinding_change_def Let_def split: option.splits)
  have "validateBinding b2 (doc_Roles d) = validateBinding b (doc_Roles d)"
    unfolding validateBinding_def b2 by (rule refl)
  then have "validateBinding b2 (doc_Roles d) = None" using v by simp
  then show ?thesis using assms(1) d' b2 by (auto simp: doc_ok_def in_AList_update AList.distinct_update)
qed

lemma deleteBinding_ok: "doc_ok lib d \<Longrightarrow> deleteBinding_change bid d = Inr d' \<Longrightarrow> doc_ok lib d'"
  by (auto simp: deleteBinding_change_def doc_ok_def in_AList_delete AList.distinct_delete split: option.splits)

lemma ValidateOfficialTopic_None:
  "ValidateOfficialTopic t = None \<longleftrightarrow>
     HasPrefix (ot_Topic t) ''grp'' \<and> length (ot_Topic t) > 3 \<and>
     TrimSpace (ot_OrganizationID t) \<noteq> [] \<and> length (ot_OrganizationID t) \<le> 128 \<and>
     HasPrefix (ot_Owner t) ''usr'' \<and> length (ot_Owner t) > 3 \<and>
     ot_Official t \<and> ot_MemberLimit t = 0 \<and> ot_AdminAssignPolicy t = ''platform'' \<and>
     TrimSpace (ot_CreatedBy t) \<noteq> [] \<and> length (ot_CreatedBy t) \<le> 160 \<and>
     ot_OfficialStatus t \<in> {''pending'', ''verified'', ''suspended'', ''revoked''} \<and>
     ot_ScaleClass t \<in> {''normal'', ''large''} \<and>
     ot_JoinPolicy t \<in> {''open'', ''invite'', ''approval'', ''closed''} \<and>
     ot_DirectMessagePolicy t \<in> {''open'', ''contact'', ''customer_assignment'', ''disabled''} \<and>
     0 \<le> ot_SlowModeSeconds t \<and> ot_SlowModeSeconds t \<le> 86400"
  unfolding ValidateOfficialTopic_def by (simp add: not_le not_less if_split_eq1 del: insert_iff) argo

lemma upsertOfficialTopic_ok:
  assumes "doc_ok lib d" "upsertOfficialTopic_change now t d = Inr d'"
  shows "doc_ok lib d'"
proof -
  have v: "ValidateOfficialTopic t = None"
    using assms(2) by (auto simp: upsertOfficialTopic_change_def split: option.splits)
  define t2 where "t2 = (case map_of (doc_OfficialTopics d) (ot_Topic t) of
      Some existing \<Rightarrow> t\<lparr>ot_CreatedAt := ot_CreatedAt existing, ot_CreatedBy := ot_CreatedBy existing, ot_Owner := ot_Owner existing\<rparr>
    | None \<Rightarrow> t\<lparr>ot_CreatedAt := now\<rparr>)\<lparr>ot_UpdatedAt := now\<rparr>"
  have d': "d' = d\<lparr>doc_OfficialTopics := AList.update (ot_Topic t) t2 (doc_OfficialTopics d)\<rparr>"
    using assms(2) v by (simp add: upsertOfficialTopic_change_def Let_def t2_def)
  have "ValidateOfficialTopic t2 = None \<and> ot_Topic t2 = ot_Topic t"
  proof (cases "map_of (doc_OfficialTopics d) (ot_Topic t)")
    case None
    then show ?thesis using v by (simp add: t2_def ValidateOfficialTopic_None)
  next
    case (Some existing)
    then have "ValidateOfficialTopic existing = None"
      using assms(1) by (auto simp: doc_ok_def dest!: map_of_SomeD)
    then show ?thesis using v Some by (simp add: t2_def ValidateOfficialTopic_None)
  qed
  then show ?thesis using assms(1) d' by (auto simp: doc_ok_def in_AList_update AList.distinct_update)
qed

lemma updateSettings_ok:
  assumes "doc_ok lib d" "updateSettings_change lib st d = Inr d'"
  shows "doc_ok lib d'"
proof -
  define s1 where "s1 = st\<lparr>set_Translation := NormalizeSettings (set_Translation st)\<rparr>"
  have v: "validateSettings lib s1 = None"
    and d': "d' = d\<lparr>doc_Settings := s1\<lparr>set_Assets := (set_Assets s1)\<lparr>as_AllowedKinds := uniqueSorted (as_AllowedKinds (set_Assets s1))\<rparr>\<rparr>\<rparr>"
    using assms(2) by (auto simp: updateSettings_change_def Let_def s1_def split: option.splits)
  have "uniqueSorted ks = [] \<longleftrightarrow> ks = []" for ks by (metis set_empty uniqueSorted_simps(1))
  then have "validateSettings lib (doc_Settings d') = None"
    using v d' by (auto simp: validateSettings_def settings_bounds_ok_def list_ex_iff Let_def split: if_splits)
  then show ?thesis using assms(1) d' by (auto simp: doc_ok_def)
qed

lemmas change_ok = upsertRole_ok deleteRole_ok upsertBinding_ok deleteBinding_ok upsertOfficialTopic_ok
  updateSettings_ok

lemma op_change_ok: "doc_ok lib d \<Longrightarrow> op_change lib now op d = Inr d' \<Longrightarrow> doc_ok lib d'"
  by (cases op) (auto intro: change_ok)

lemma op_change_version: "op_change lib now op d = Inr d' \<Longrightarrow> doc_Version d' = doc_Version d \<and> doc_Audit d' = doc_Audit d"
  by (cases op) (auto simp: upsertOfficialTopic_change_def upsertRole_change_def deleteRole_change_def
      upsertBinding_change_def deleteBinding_change_def updateSettings_change_def Let_def
      split: option.splits if_splits)

lemma append_audit_props:
  "length (append_audit audit ev) \<le> maxAuditEvents" "append_audit audit ev \<noteq> []" "last (append_audit audit ev) = ev"
  by (simp_all add: append_audit_def Let_def maxAuditEvents_def)

lemma doc_ok_stamped:
  "doc_ok lib d \<Longrightarrow> length audit \<le> maxAuditEvents \<Longrightarrow>
     doc_ok lib (d\<lparr>doc_Version := v, doc_UpdatedAt := now, doc_Audit := audit\<rparr>)"
  by (simp add: doc_ok_def)

section \<open>Operations as transactions\<close>

text \<open>Every way through \<open>mutateDetailed\<close>: nothing has happened, or all of it has.\<close>

lemma mutate_cases:
  assumes "mutate lib cb cd env expected actor op (ctl, kv) = (res, ctl', kv')"
  obtains (error) err where "res = Inl err" "ctl' = ctl" "kv' = kv"
      "expected \<noteq> doc_Version (ctl_document ctl) \<Longrightarrow> err = AdminConflict"
  | (changed) d0 d1 d2 e raw where "res = Inr d2" "expected = doc_Version (ctl_document ctl)"
      "cloneDocument cd (ctl_document ctl) = Inr d0" "op_change lib (ae_changeNow env) op d0 = Inr d1"
      "d2 = d1\<lparr>doc_Version := doc_Version d1 + 1, doc_UpdatedAt := ae_now env,
         doc_Audit := append_audit (doc_Audit d1)
           (audit_event (ae_now env) (doc_Version d1 + 1) actor (op_action op) (op_target op) (op_detail op))\<rparr>"
      "buildEnforcer cb d2 = Inr e" "ctl' = ctl\<lparr>ctl_document := d2, ctl_enforcer := e\<rparr>"
      "dcd_enc cd d2 = Some raw" "pc_value kv' = (pc_value kv)(adminDocumentKey \<mapsto> raw)"
proof (cases "expected = doc_Version (ctl_document ctl)")
  case False
  then have "res = Inl AdminConflict" "ctl' = ctl" "kv' = kv"
    using assms by (simp_all add: mutate_def mutateDetailed_def)
  then show ?thesis by (rule error) simp
next
  case True
  show ?thesis
  proof (cases "\<exists>d. res = Inr d")
    case False
    then have "ctl' = ctl \<and> kv' = kv"
      using assms True by (auto simp: mutate_def mutateDetailed_def Let_def repo_Save_def PCacheUpsert_def
          split: sum.splits prod.splits option.splits if_splits)
    moreover obtain err where "res = Inl err" using False by (cases res) auto
    ultimately show ?thesis using error True by blast
  next
    case ok: True
    obtain d0 where d0: "cloneDocument cd (ctl_document ctl) = Inr d0"
      using assms True ok by (auto simp: mutate_def mutateDetailed_def split: sum.splits)
    obtain d1 where d1: "op_change lib (ae_changeNow env) op d0 = Inr d1"
      using assms True ok d0 by (auto simp: mutate_def mutateDetailed_def split: sum.splits)
    define d2 where "d2 = d1\<lparr>doc_Version := doc_Version d1 + 1, doc_UpdatedAt := ae_now env,
         doc_Audit := append_audit (doc_Audit d1)
           (audit_event (ae_now env) (doc_Version d1 + 1) actor (op_action op) (op_target op) (op_detail op))\<rparr>"
    have eq: "(case buildEnforcer cb d2 of Inl err \<Rightarrow> (Inl err, ctl, kv)
       | Inr e \<Rightarrow> (case repo_Save cd (ae_save env) (ae_now env) d2 kv of
           (Some err, kv') \<Rightarrow> (Inl err, ctl, kv')
         | (None, kv') \<Rightarrow> (Inr d2, ctl\<lparr>ctl_document := d2, ctl_enforcer := e\<rparr>, kv'))) = (res, ctl', kv')"
      using assms True d0 d1 unfolding d2_def by (simp add: mutate_def mutateDetailed_def Let_def)
    then obtain e where e: "buildEnforcer cb d2 = Inr e" using ok by (auto split: sum.splits)
    then have sv: "repo_Save cd (ae_save env) (ae_now env) d2 kv = (None, kv')" "res = Inr d2"
      "ctl' = ctl\<lparr>ctl_document := d2, ctl_enforcer := e\<rparr>"
      using eq ok by (auto split: prod.splits option.splits)
    then obtain raw where "dcd_enc cd d2 = Some raw" "pc_value kv' = (pc_value kv)(adminDocumentKey \<mapsto> raw)"
      by (auto simp: repo_Save_def split: option.splits prod.splits dest!: PCacheUpsert_value)
    then show ?thesis using changed [OF sv(2) True d0 d1 d2_def e sv(3)] by blast
  qed
qed

lemma mutate_result:
  assumes "doc_codec_ok cd"
    and "mutate lib cb cd env expected actor op (ctl, kv) = (res, ctl', kv')"
  shows "case res of
      Inl err \<Rightarrow> ctl' = ctl \<and> kv' = kv \<and> (expected \<noteq> doc_Version (ctl_document ctl) \<longrightarrow> err = AdminConflict)
    | Inr d \<Rightarrow> expected = doc_Version (ctl_document ctl) \<and> ctl_document ctl' = d \<and> doc_Version d = expected + 1 \<and>
        repo_Load cd None kv' = Inr d \<and>
        last (doc_Audit d) = audit_event (ae_now env) (expected + 1) actor (op_action op) (op_target op) (op_detail op) \<and>
        length (doc_Audit d) \<le> maxAuditEvents \<and>
        (\<forall>env' actor' op' kv''. mutate lib cb cd env' expected actor' op' (ctl', kv'') = (Inl AdminConflict, ctl', kv''))"
  using assms(2)
proof (cases rule: mutate_cases)
  case (error err)
  then show ?thesis by auto
next
  case (changed d0 d1 d2 e raw)
  have "doc_Version d1 = expected"
    using cloneDocument_eq [OF assms(1) changed(3)] op_change_version [OF changed(4)] changed(2) by simp
  then have v: "doc_Version d2 = expected + 1" "doc_Version d2 \<noteq> expected"
    using changed(5) by simp_all
  have "pc_value kv' adminDocumentKey = Some raw" using changed(9) by simp
  then obtain t where "map_of kv' adminDocumentKey = Some (t, raw)" by (auto simp: pc_value_Some)
  then have "repo_Load cd None kv' = Inr d2"
    using changed(8) assms(1) by (simp add: repo_Load_def PCacheGet_def doc_codec_ok_def)
  moreover have "mutate lib cb cd env' expected actor' op' (ctl', kv'') = (Inl AdminConflict, ctl', kv'')"
    for env' actor' op' kv''
    using changed(7) v by (simp add: mutate_def mutateDetailed_def)
  ultimately show ?thesis
    using changed(1,2,5,7) v \<open>doc_Version d1 = expected\<close> append_audit_props by simp
qed

text \<open>C16. Optimistic locking: an operation based on another version is refused as a conflict; one that
  fails leaves the control plane and the store as they were; one that succeeds raises the version by
  one, stores the new document, ends the audit with its own event, and every later operation based on
  the old version is a conflict.\<close>

theorem optimistic_lock:
  assumes "doc_codec_ok cd"
    and "mutate lib cb cd env expected actor op (ctl, kv) = (res, ctl', kv')"
  shows "case res of
      Inl err \<Rightarrow> ctl' = ctl \<and> kv' = kv \<and> (expected \<noteq> doc_Version (ctl_document ctl) \<longrightarrow> err = AdminConflict)
    | Inr d \<Rightarrow> expected = doc_Version (ctl_document ctl) \<and> ctl_document ctl' = d \<and> doc_Version d = expected + 1 \<and>
        repo_Load cd None kv' = Inr d \<and>
        last (doc_Audit d) = audit_event (ae_now env) (expected + 1) actor (op_action op) (op_target op) (op_detail op) \<and>
        length (doc_Audit d) \<le> maxAuditEvents \<and>
        (\<forall>env' actor' op' kv''. mutate lib cb cd env' expected actor' op' (ctl', kv'') = (Inl AdminConflict, ctl', kv''))"
  using mutate_result [OF assms] .

text \<open>The steps of a control plane: operations with whatever they meet.\<close>

type_synonym admin_call = "admin_env \<times> 64 word \<times> Actor \<times> admin_op"

definition admin_step :: "go_lib \<Rightarrow> 'e casbin \<Rightarrow> doc_codec \<Rightarrow> admin_call \<Rightarrow> 'e control \<times> pcache \<Rightarrow> 'e control \<times> pcache" where
  "admin_step lib cb cd call state =
     (case call of (env, expected, actor, op) \<Rightarrow> snd (mutate lib cb cd env expected actor op state))"

definition admin_inv :: "go_lib \<Rightarrow> 'e casbin \<Rightarrow> ('e \<Rightarrow> policy set) \<Rightarrow> doc_codec \<Rightarrow> 'e control \<times> pcache \<Rightarrow> bool" where
  "admin_inv lib cb pol cd state = (casbin_ok cb pol \<and> doc_codec_ok cd \<and> ctl_ok lib pol (fst state))"

lemma mutate_ok:
  assumes "admin_inv lib cb pol cd (ctl, kv)"
    and "mutate lib cb cd env expected actor op (ctl, kv) = (res, ctl', kv')"
  shows "ctl_ok lib pol ctl'"
  using assms(2)
proof (cases rule: mutate_cases)
  case (error err)
  then show ?thesis using assms(1) by (simp add: admin_inv_def)
next
  case (changed d0 d1 d2 e raw)
  have "d0 = ctl_document ctl" using changed(3) assms(1) cloneDocument_eq by (auto simp: admin_inv_def)
  then have "doc_ok lib d1" using assms(1) op_change_ok changed(4) by (auto simp: admin_inv_def ctl_ok_def)
  then have "doc_ok lib d2" using changed(5) doc_ok_stamped append_audit_props(1) by simp
  moreover have "casbin_ok cb pol" using assms(1) by (simp add: admin_inv_def)
  then have "pol e = doc_policies d2" using changed(6) by (rule buildEnforcer_pol)
  ultimately show ?thesis using changed(7) by (simp add: ctl_ok_def)
qed

interpretation admin: invariant_steps "admin_step lib cb cd" "admin_inv lib cb pol cd" for lib cb cd pol
proof
  fix state :: "'a control \<times> pcache" and call :: admin_call
  assume inv: "admin_inv lib cb pol cd state"
  obtain ctl kv where s: "state = (ctl, kv)" by fastforce
  obtain env expected actor op where c: "call = (env, expected, actor, op)"
    by (cases call) auto
  obtain res ctl' kv' where m: "mutate lib cb cd env expected actor op (ctl, kv) = (res, ctl', kv')"
    by (metis prod_cases3)
  then show "admin_inv lib cb pol cd (admin_step lib cb cd call state)"
    using mutate_ok [OF inv [unfolded s] m] inv c s by (simp add: admin_inv_def admin_step_def)
qed

section \<open>Evaluation\<close>

lemma role_grants:
  assumes "ctl_ok lib pol ctl" "permissionByKey key = Some p"
  shows "(\<exists>q \<in> pol (ctl_enforcer ctl). casbin_match (''role:'' @ rid, domain, perm_Object p, perm_Action p) q) \<longleftrightarrow>
         (\<exists>role. map_of (doc_Roles (ctl_document ctl)) rid = Some role \<and> key \<in> set (role_Permissions role))"
    (is "?L \<longleftrightarrow> ?R")
proof
  let ?roles = "doc_Roles (ctl_document ctl)"
  have d: "distinct (map fst ?roles)" and ids: "\<forall>(k, r) \<in> set ?roles. role_ID r = k"
    using assms(1) by (auto simp: ctl_ok_def doc_ok_def role_ok_def)
  {
    assume ?L
    then obtain k role q k' where r: "(k, role) \<in> set ?roles" "k' \<in> set (role_Permissions role)" "permissionByKey k' = Some q"
      "casbin_match (''role:'' @ rid, domain, perm_Object p, perm_Action p) (role_policy role q)"
      using assms(1) by (auto simp: ctl_ok_def doc_policies_def role_policies_def)
    have "role_ID role = rid" "perm_Object p = perm_Object q" "perm_Action p = perm_Action q"
      using r(4) by (auto simp: casbin_match_def role_policy_def)
    moreover have "k' = key" using permission_action_unique [OF r(3) assms(2)] calculation by simp
    moreover have "k = role_ID role" using ids r(1) by auto
    ultimately show ?R using r(1,2) d by auto
  next
    assume ?R
    then obtain role where role: "map_of ?roles rid = Some role" "key \<in> set (role_Permissions role)" by blast
    then have "(rid, role) \<in> set ?roles" by (simp add: map_of_SomeD)
    then have "role \<in> snd ` set ?roles" "role_ID role = rid" using ids by force+
    moreover have "role_policy role p \<in> role_policies role (role_Permissions role)"
      using assms(2) role(2) unfolding role_policies_def by blast
    ultimately have "role_policy role p \<in> doc_policies (ctl_document ctl)" "role_ID role = rid"
      unfolding doc_policies_def by blast+
    moreover have "casbin_match (''role:'' @ rid, domain, perm_Object p, perm_Action p) (role_policy role p)"
      using calculation(2) by (simp add: casbin_match_def role_policy_def)
    ultimately show ?L using assms(1) unfolding ctl_ok_def by blast
  }
qed

lemma evaluate_loop_Inr:
  assumes "casbin_ok cb pol" "evaluate_loop cb e subject domain p now bs roles allowed = Inr (roles', allowed')"
  shows "roles' = roles @ map (bind_RoleID \<circ> snd) (filter (binding_active subject domain now \<circ> snd) bs)"
    and "allowed' = (allowed \<or> (\<exists>(k, b) \<in> set bs. binding_active subject domain now b \<and>
      (\<exists>q \<in> pol e. casbin_match (''role:'' @ bind_RoleID b, domain, perm_Object p, perm_Action p) q)))"
proof -
  have "roles' = roles @ map (bind_RoleID \<circ> snd) (filter (binding_active subject domain now \<circ> snd) bs) \<and>
    allowed' = (allowed \<or> (\<exists>kb \<in> set bs. binding_active subject domain now (snd kb) \<and>
      (\<exists>q \<in> pol e. casbin_match (''role:'' @ bind_RoleID (snd kb), domain, perm_Object p, perm_Action p) q)))"
    using assms(2)
  proof (induction bs arbitrary: roles allowed)
    case (Cons kb bs)
    obtain k b where kb: "kb = (k, b)" by fastforce
    show ?case
    proof (cases "binding_active subject domain now b")
      case False
      then show ?thesis using Cons kb by simp
    next
      case True
      then obtain ok where ok: "cb_enforce cb e (''role:'' @ bind_RoleID b, domain, perm_Object p, perm_Action p) = Some ok"
        "evaluate_loop cb e subject domain p now bs (roles @ [bind_RoleID b]) (allowed \<or> ok) = Inr (roles', allowed')"
        using Cons.prems kb by (auto split: option.splits)
      show ?thesis using Cons.IH [OF ok(2)] casbin_okD(3) [OF assms(1) ok(1)] True kb by auto
    qed
  qed simp
  then show "roles' = roles @ map (bind_RoleID \<circ> snd) (filter (binding_active subject domain now \<circ> snd) bs)"
    "allowed' = (allowed \<or> (\<exists>(k, b) \<in> set bs. binding_active subject domain now b \<and>
      (\<exists>q \<in> pol e. casbin_match (''role:'' @ bind_RoleID b, domain, perm_Object p, perm_Action p) q)))"
    by (auto simp: case_prod_unfold)
qed

text \<open>C28. After any sequence of operations, a permission is granted exactly when the subject has a
  binding in the domain or in all domains that has not expired, to a role that has the permission.\<close>

theorem evaluate_correct:
  assumes "admin_inv lib cb pol cd (ctl0, kv0)" "fold (admin_step lib cb cd) calls (ctl0, kv0) = (ctl, kv)"
    and "Evaluate cb ctl subject domain key now = Inr ev"
  shows "evl_Allowed ev \<longleftrightarrow>
    (\<exists>(k, b) \<in> set (doc_Bindings (ctl_document ctl)).
       bind_Subject b = subject \<and> (bind_Domain b = ''*'' \<or> bind_Domain b = domain) \<and>
       (\<forall>t. bind_ExpiresAt b = Some t \<longrightarrow> now < t) \<and>
       (\<exists>role. map_of (doc_Roles (ctl_document ctl)) (bind_RoleID b) = Some role \<and> key \<in> set (role_Permissions role)))"
proof -
  have inv: "casbin_ok cb pol" "ctl_ok lib pol ctl"
    using admin.run_inv [OF assms(1), of calls] assms(2) by (auto simp: admin_inv_def)
  obtain p roles allowed where p: "permissionByKey key = Some p" "evl_Allowed ev = allowed"
    "evaluate_loop cb (ctl_enforcer ctl) subject domain p now (doc_Bindings (ctl_document ctl)) [] False = Inr (roles, allowed)"
    using assms(3) by (auto simp: Evaluate_def split: option.splits if_splits sum.splits)
  have "binding_active subject domain now b \<longleftrightarrow> bind_Subject b = subject \<and> (bind_Domain b = ''*'' \<or> bind_Domain b = domain) \<and>
       (\<forall>t. bind_ExpiresAt b = Some t \<longrightarrow> now < t)" for b
    by (auto simp: binding_active_def split: option.splits)
  then show ?thesis
    unfolding p(2) evaluate_loop_Inr(2) [OF inv(1) p(3)] role_grants [OF inv(2) p(1)] by auto
qed

section \<open>Documents that are loaded\<close>

text \<open>A stored document whose entries carry their own key, or none.\<close>

definition keyed_ok :: "Document \<Rightarrow> bool" where
  "keyed_ok d =
     (distinct (map fst (doc_Roles d)) \<and> distinct (map fst (doc_Bindings d)) \<and> distinct (map fst (doc_OfficialTopics d)) \<and>
      (\<forall>(k, r) \<in> set (doc_Roles d). role_ID r = [] \<or> role_ID r = k) \<and>
      (\<forall>(k, b) \<in> set (doc_Bindings d). bind_ID b = [] \<or> bind_ID b = k) \<and>
      (\<forall>(k, t) \<in> set (doc_OfficialTopics d). ot_Topic t = [] \<or> ot_Topic t = k) \<and>
      length (doc_Audit d) \<le> maxAuditEvents)"

lemma doc_ok_keyed: "doc_ok lib d \<Longrightarrow> keyed_ok d"
  by (auto simp: doc_ok_def keyed_ok_def role_ok_def)

lemma fix_entries_Inr:
  "fix_entries fill check xs = Inr ys \<Longrightarrow>
     ys = map (\<lambda>(k, v). (k, fill k v)) xs \<and> (\<forall>(k, v) \<in> set xs. check (fill k v) = None)"
  by (induction xs arbitrary: ys) (auto simp: Let_def split: option.splits sum.splits)

lemma in_add_employee: "x \<in> set (add_employee now roles) \<Longrightarrow> x \<in> set roles \<or> x = (''employee'', employee_role now)"
  using set_AList_update_subset by (fastforce simp: add_employee_def split: option.splits)

lemma in_upgrade_super_admin:
  assumes "(k, r) \<in> set (upgrade_super_admin now roles)" "distinct (map fst roles)"
  shows "(k, r) \<in> set roles \<and>
           (k = ''super_admin'' \<longrightarrow> role_BuiltIn r \<longrightarrow> uniqueSorted (role_Permissions r) = permissionKeys []) \<or>
         k = ''super_admin'' \<and> role_Permissions r = permissionKeys [] \<and> (\<exists>q. (k, q) \<in> set roles \<and> role_ID r = role_ID q)"
proof (cases "map_of roles ''super_admin''")
  case None
  then have "(k, r) \<in> set roles" using assms(1) by (simp add: upgrade_super_admin_def)
  moreover from this have "k \<noteq> ''super_admin''" using None by (force simp: map_of_eq_None_iff)
  ultimately show ?thesis by simp
next
  case (Some role)
  then have role: "(''super_admin'', role) \<in> set roles" by (rule map_of_SomeD)
  have "q = role" if "(''super_admin'', q) \<in> set roles" for q
    using that Some assms(2) by simp
  note uniq = this
  show ?thesis
  proof (cases "role_BuiltIn role \<and> uniqueSorted (role_Permissions role) \<noteq> permissionKeys []")
    case True
    then have "(k, r) \<in> set (AList.update ''super_admin'' (role\<lparr>role_Permissions := permissionKeys [], role_UpdatedAt := now\<rparr>) roles)"
      using assms(1) Some by (simp add: upgrade_super_admin_def)
    then show ?thesis using role by (auto simp: in_AList_update [OF assms(2)])
  next
    case False
    then have "(k, r) \<in> set roles" using assms(1) Some by (simp add: upgrade_super_admin_def split: if_splits)
    then show ?thesis using False uniq by blast
  qed
qed

lemma super_admin_upgraded:
  assumes "distinct (map fst roles)" "(''super_admin'', r) \<in> set (add_employee now (upgrade_super_admin now roles))"
    and "role_BuiltIn r"
  shows "set (role_Permissions r) = set (permissionKeys [])"
proof -
  have "(''super_admin'', r) \<in> set (upgrade_super_admin now roles)" using in_add_employee [OF assms(2)] by auto
  from in_upgrade_super_admin [OF this assms(1)] show ?thesis using assms(3) by (metis uniqueSorted_simps(1))
qed

lemma normalize_doc_ok:
  assumes "keyed_ok d" "normalizeDocument lib now d = Inr d'"
  shows "doc_ok lib d' \<and> doc_Version d' = (if doc_Version d = 0 then 1 else doc_Version d)"
proof -
  let ?rs = "add_employee now (upgrade_super_admin now (doc_Roles d))"
  obtain roles bindings topics settings where
    v: "validateSettings lib settings = None"
    and r: "fix_entries fill_role validateRole ?rs = Inr roles"
    and b: "fix_entries fill_binding (\<lambda>b. validateBinding b roles) (doc_Bindings d) = Inr bindings"
    and t: "fix_entries fill_topic ValidateOfficialTopic (doc_OfficialTopics d) = Inr topics"
    and d': "d' = d\<lparr>doc_Version := (if doc_Version d = 0 then 1 else doc_Version d),
                   doc_Roles := roles, doc_Bindings := bindings, doc_OfficialTopics := topics, doc_Settings := settings\<rparr>"
    using assms(2) unfolding normalizeDocument_def Let_def by (fastforce split: option.splits sum.splits)
  note r = fix_entries_Inr [OF r] and b = fix_entries_Inr [OF b] and t = fix_entries_Inr [OF t]
  have dr: "distinct (map fst (upgrade_super_admin now (doc_Roles d)))"
    using assms(1) by (auto simp: upgrade_super_admin_def keyed_ok_def AList.distinct_update split: option.splits)
  then have drs: "distinct (map fst ?rs)"
    by (auto simp: add_employee_def AList.distinct_update split: option.splits)
  have ids: "\<forall>(k, r) \<in> set ?rs. role_ID r = [] \<or> role_ID r = k"
  proof clarify
    fix k r
    assume "(k, r) \<in> set ?rs" "role_ID r \<noteq> k"
    then have "(k, r) \<in> set (upgrade_super_admin now (doc_Roles d))"
      using in_add_employee by (fastforce simp: employee_role_def built_in_role_def)
    then show "role_ID r = []"
      using in_upgrade_super_admin [of k r now "doc_Roles d"] assms(1) \<open>role_ID r \<noteq> k\<close> by (auto simp: keyed_ok_def)
  qed
  have "role_ok k r" if "(k, r) \<in> set roles" for k r
  proof -
    from that r obtain q where q: "(k, q) \<in> set ?rs" "r = fill_role k q" by auto
    moreover have "validateRole r = None" using q r by auto
    moreover have "role_BuiltIn r = role_BuiltIn q" "role_Permissions r = role_Permissions q" "role_ID r = k"
      using q ids by (auto simp: fill_role_def)
    ultimately show ?thesis
      using super_admin_upgraded [of "doc_Roles d" q now] assms(1) by (auto simp: role_ok_def keyed_ok_def)
  qed
  moreover have "bind_ID b = k \<and> validateBinding b roles = None" if "(k, b) \<in> set bindings" for k b
    using that b assms(1) by (auto simp: fill_binding_def keyed_ok_def)
  moreover have "ot_Topic x = k \<and> ValidateOfficialTopic x = None" if "(k, x) \<in> set topics" for k x
    using that t assms(1) by (auto simp: fill_topic_def keyed_ok_def)
  moreover have "map fst roles = map fst ?rs" "map fst bindings = map fst (doc_Bindings d)"
    "map fst topics = map fst (doc_OfficialTopics d)" using r b t by auto
  ultimately show ?thesis using v drs assms(1) d' by (auto simp: doc_ok_def keyed_ok_def)
qed

text \<open>Taking over the stored document never goes back in version, and the policies in force are
  always those compiled from the document in force.\<close>

theorem refresh_monotone:
  assumes "casbin_ok cb pol" "ctl_ok lib pol ctl"
    and "\<forall>c. ctl_ok lib pol c \<longrightarrow> ctl_ok lib pol (other c) \<and> doc_Version (ctl_document c) \<le> doc_Version (ctl_document (other c))"
    and "\<forall>d. repo_Load cd (ae_load env) kv = Inr d \<longrightarrow> keyed_ok d"
    and "Refresh lib cb cd env kv other ctl = (err, ctl')"
  shows "ctl_ok lib pol ctl' \<and> doc_Version (ctl_document ctl) \<le> doc_Version (ctl_document ctl')"
proof (cases "ctl' = ctl \<or> ctl' = other ctl")
  case True
  then show ?thesis using assms(2,3) by auto
next
  case False
  then obtain d0 d e where d: "repo_Load cd (ae_load env) kv = Inr d0" "normalizeDocument lib (ae_now env) d0 = Inr d"
    "buildEnforcer cb d = Inr e" "ctl' = (other ctl)\<lparr>ctl_document := d, ctl_enforcer := e\<rparr>"
    "doc_Version d > doc_Version (ctl_document (other ctl))"
    using assms(5) by (auto simp: Refresh_def Let_def split: sum.splits if_splits)
  have "doc_ok lib d" using normalize_doc_ok [OF _ d(2)] assms(4) d(1) by blast
  moreover have "pol e = doc_policies d" by (rule buildEnforcer_pol [OF assms(1) d(3)])
  ultimately show ?thesis using assms(2,3) d(4,5) by (fastforce simp: ctl_ok_def)
qed

text \<open>C12. The documents stay well formed under every sequence of operations, successful or not: every
  binding refers to a role that exists, every role and every official topic is valid, the super
  administrator keeps every permission, and the audit holds at most 500 events.\<close>

theorem control_plane_invariant:
  assumes "casbin_ok cb pol" "doc_codec_ok cd" "ctl_ok lib pol ctl"
    and "fold (admin_step lib cb cd) calls (ctl, kv) = (ctl', kv')"
  shows "(\<forall>(k, b) \<in> set (doc_Bindings (ctl_document ctl')). map_of (doc_Roles (ctl_document ctl')) (bind_RoleID b) \<noteq> None) \<and>
    (\<forall>(k, r) \<in> set (doc_Roles (ctl_document ctl')). role_ID r = k \<and> validateRole r = None \<and>
       (k = ''super_admin'' \<and> role_BuiltIn r \<longrightarrow> set (role_Permissions r) = perm_Key ` set permissionCatalog)) \<and>
    (\<forall>(k, t) \<in> set (doc_OfficialTopics (ctl_document ctl')). ot_Topic t = k \<and> ValidateOfficialTopic t = None) \<and>
    validateSettings lib (doc_Settings (ctl_document ctl')) = None \<and>
    length (doc_Audit (ctl_document ctl')) \<le> 500"
proof -
  have "admin_inv lib cb pol cd (ctl, kv)" using assms by (simp add: admin_inv_def)
  from admin.run_inv [OF this, of calls] have "doc_ok lib (ctl_document ctl')"
    using assms(4) by (simp add: admin_inv_def ctl_ok_def)
  note ok = this
  have "map_of (doc_Roles (ctl_document ctl')) (bind_RoleID b) \<noteq> None" if "(k, b) \<in> set (doc_Bindings (ctl_document ctl'))" for k b
    by (rule validateBinding_role) (use ok that in \<open>auto simp: doc_ok_def\<close>)
  then have "\<forall>(k, b) \<in> set (doc_Bindings (ctl_document ctl')). map_of (doc_Roles (ctl_document ctl')) (bind_RoleID b) \<noteq> None"
    by auto
  moreover have "\<forall>(k, r) \<in> set (doc_Roles (ctl_document ctl')). role_ID r = k \<and> validateRole r = None \<and>
       (k = ''super_admin'' \<and> role_BuiltIn r \<longrightarrow> set (role_Permissions r) = perm_Key ` set permissionCatalog)"
    using ok by (auto simp: doc_ok_def role_ok_def set_permissionKeys)
  moreover have "\<forall>(k, t) \<in> set (doc_OfficialTopics (ctl_document ctl')). ot_Topic t = k \<and> ValidateOfficialTopic t = None"
    "validateSettings lib (doc_Settings (ctl_document ctl')) = None" "length (doc_Audit (ctl_document ctl')) \<le> 500"
    using ok by (simp_all add: doc_ok_def maxAuditEvents_def)
  ultimately show ?thesis by (intro conjI)
qed

end
