(* ===== verification/ControlPlaneStart.thy ===== *)
theory ControlPlaneStart
  imports ControlPlaneSafety
begin

text \<open>
  The first start of the control plane on an empty store, the update that is lost between two
  processes, and a concrete run in which a binding is created and evaluated.
\<close>

section \<open>A concrete control plane\<close>

definition list_casbin :: "policy list casbin" where
  "list_casbin = \<lparr>cb_new = Some [], cb_add = (\<lambda>e p. Some (p # e)),
     cb_enforce = (\<lambda>e r. Some (list_ex (casbin_match r) e))\<rparr>"

lemma list_casbin_ok: "casbin_ok list_casbin set"
  by (auto simp: casbin_ok_def list_casbin_def list_ex_iff)

text \<open>An encoding of the documents of a list by their positions.\<close>

definition list_codec :: "Document list \<Rightarrow> doc_codec" where
  "list_codec ds = \<lparr>
     dcd_enc = (\<lambda>d. case find (\<lambda>i. ds ! i = d) [0..<length ds] of None \<Rightarrow> None | Some i \<Rightarrow> Some (replicate i CHR ''x'')),
     dcd_dec = (\<lambda>raw. if length raw < length ds then Some (ds ! length raw) else None)\<rparr>"

lemma list_codec_ok: "doc_codec_ok (list_codec ds)"
  by (auto simp: doc_codec_ok_def list_codec_def find_Some_iff split: option.splits)

definition no_translation :: go_lib where
  "no_translation = \<lparr>url_Parse = (\<lambda>_. None), path_Clean = id\<rparr>"

section \<open>The first start\<close>

lemma permissionKeys_distinct: "distinct (permissionKeys [])"
  using catalog_keys_distinct by (simp add: permissionKeys_def)

lemma permissionKeys_normal: "uniqueSorted (permissionKeys []) = permissionKeys []"
  unfolding uniqueSorted_def
  by (simp add: distinct_remdups_id permissionKeys_distinct) (simp add: permissionKeys_def sorted_sort_id)

lemma validate_built_in:
  assumes "idPattern rid" "TrimSpace name \<noteq> []" "length name \<le> 80" "length description \<le> 500"
    and "length keys \<le> length permissionCatalog" "set keys \<subseteq> set (permissionKeys [])"
  shows "validateRole (built_in_role now rid name description keys) = None"
proof -
  have "permissionByKey key \<noteq> None" if "key \<in> set keys" for key
    using that assms(6) permissionByKey_Some by (fastforce simp: set_permissionKeys)
  then show ?thesis using assms by (auto simp: validateRole_def built_in_role_def list_ex_iff)
qed

lemma length_permissionKeys: "length (permissionKeys []) = length permissionCatalog"
  by (simp add: permissionKeys_def)

lemma keys_in_catalog: "list_all (\<lambda>key. permissionByKey key \<noteq> None) keys \<Longrightarrow> set keys \<subseteq> set (permissionKeys [])"
  using permissionByKey_Some by (fastforce simp: list_all_iff set_permissionKeys image_iff)

lemma default_keys:
  "set [''assets.read'', ''assets.write'', ''assets.publish'', ''official_topics.read'',
     ''official_topics.publish'', ''translation.manage'', ''notifications.manage''] \<subseteq> set (permissionKeys [])"
  "set [''system.settings.read'', ''system.roles.read'', ''system.audit.read'',
     ''official_topics.read'', ''moderation.read'', ''assets.read'', ''contacts.read''] \<subseteq> set (permissionKeys [])"
  "set [''workspace.pins.read'', ''workspace.pins.write''] \<subseteq> set (permissionKeys [])"
  by (rule keys_in_catalog, code_simp)+

lemma default_ids:
  "idPattern ''super_admin''" "idPattern ''operations_admin''" "idPattern ''content_editor''" "idPattern ''auditor''"
  "idPattern ''employee''" "length permissionCatalog = 25"
  by code_simp+

lemma utf8_text_visible: "bs \<noteq> [] \<Longrightarrow> \<forall>b \<in> set bs. 32 < b \<and> b < 256 \<Longrightarrow> TrimSpace (utf8_text bs) \<noteq> []"
proof -
  assume bs: "bs \<noteq> []" "\<forall>b \<in> set bs. 32 < b \<and> b < 256"
  have "\<not> is_space (char_of b)" if "32 < b" "b < 256" for b :: nat
  proof
    assume "is_space (char_of b)"
    moreover have "of_char (char_of b :: char) = b" using that by simp
    moreover have "of_char CHR '' '' = (32 :: nat)" by simp
    ultimately have "b \<in> {32, 9, 10, 11, 12, 13}" unfolding is_space_def by (metis insertCI)
    then show False using that by simp
  qed
  then have "TrimSpace (utf8_text bs) = utf8_text bs" using bs by (auto simp: utf8_text_def intro!: TrimSpace_id)
  then show ?thesis using bs by (simp add: utf8_text_def)
qed

lemma role_entry:
  "validateRole (built_in_role now rid name description keys) = None \<Longrightarrow>
     (case (rid, built_in_role now rid name description keys) of (k, r) \<Rightarrow> validateRole r = None \<and> role_ID r = k)"
  by (simp add: built_in_role_def)

lemma default_roles_valid: "list_all (\<lambda>(k, r). validateRole r = None \<and> role_ID r = k) (defaultRoles now)"
proof -
  have "set (map perm_Key (filter P permissionCatalog)) \<subseteq> set (permissionKeys [])" for P
    by (auto simp: set_permissionKeys)
  moreover have "length (map perm_Key (filter P permissionCatalog)) \<le> length permissionCatalog" for P
    by simp
  ultimately have rules: "set (map perm_Key (filter P permissionCatalog)) \<subseteq> set (permissionKeys [])"
    "length (map perm_Key (filter P permissionCatalog)) \<le> length permissionCatalog" for P
    by blast+
  show ?thesis
    unfolding defaultRoles_def Let_def employee_role_def list.pred_inject
    by (intro conjI role_entry validate_built_in rules default_ids(1-5) default_keys utf8_text_visible TrueI)
       (simp_all add: length_permissionKeys default_ids(6) utf8_text_def)
qed

lemma fix_entries_id:
  "list_all (\<lambda>(k, v). check v = None \<and> fill k v = v) xs \<Longrightarrow> fix_entries fill check xs = Inr xs"
  by (induction xs) auto

lemma default_settings_valid: "validateSettings no_translation defaultSettings = None"
  by code_simp

lemma default_settings_normal:
  "NormalizeSettings (set_Translation defaultSettings) = set_Translation defaultSettings"
  "legacyTranslation (set_Translation defaultSettings) = False"
  by code_simp+

lemma ValidateSettings_no_providers:
  "slice (tr_Providers s) = [] \<Longrightarrow> slice (tr_Routes s) = [] \<Longrightarrow> ValidateSettings lib s = ValidateSettings lib' s"
  by (simp add: ValidateSettings_def)

lemma default_settings_valid_any: "validateSettings lib defaultSettings = None"
proof -
  have "ValidateSettings lib (set_Translation defaultSettings) = ValidateSettings no_translation (set_Translation defaultSettings)"
    by (rule ValidateSettings_no_providers) (simp_all add: defaultSettings_def slice_def)
  then have "validateSettings lib defaultSettings = validateSettings no_translation defaultSettings"
    unfolding validateSettings_def validateTranslationSettings_def by (simp only:)
  then show ?thesis using default_settings_valid by simp
qed

lemma fill_role_id: "role_ID r = k \<Longrightarrow> fill_role k r = r"
  by (simp add: fill_role_def)

lemma normalize_default: "normalizeDocument lib t (defaultDocument now) = Inr (defaultDocument now)"
proof -
  have "add_employee t (defaultRoles now) = defaultRoles now"
    by (simp add: add_employee_def defaultRoles_def Let_def)
  moreover have "upgrade_super_admin t (defaultRoles now) = defaultRoles now"
    by (simp add: upgrade_super_admin_def defaultRoles_def Let_def built_in_role_def permissionKeys_normal)
  moreover have "fix_entries fill_role validateRole (defaultRoles now) = Inr (defaultRoles now)"
    by (rule fix_entries_id, rule list.pred_mono_strong [OF default_roles_valid]) (auto simp: fill_role_id)
  ultimately show ?thesis
    by (simp add: normalizeDocument_def defaultDocument_def default_settings_normal default_settings_valid_any)
qed

lemma buildEnforcer_total:
  assumes "cb_new cb \<noteq> None" "\<forall>e p. cb_add cb e p \<noteq> None" "\<forall>(k, r) \<in> set (doc_Roles d). validateRole r = None"
  shows "\<exists>e. buildEnforcer cb d = Inr e"
proof -
  have "\<exists>e'. add_policies cb r ks e = Inr e'" if "\<forall>k \<in> set ks. permissionByKey k \<noteq> None" for r ks e
    using that
  proof (induction ks arbitrary: e)
    case (Cons k ks)
    then obtain p where "permissionByKey k = Some p" by auto
    moreover obtain e1 where "cb_add cb e (role_policy r p) = Some e1" using assms(2) by blast
    ultimately show ?case using Cons by simp
  qed simp
  note pols = this
  have "\<exists>e'. add_roles cb rs e = Inr e'" if "\<forall>(k, r) \<in> set rs. validateRole r = None" for rs e
    using that
  proof (induction rs arbitrary: e)
    case (Cons kr rs)
    obtain k r where kr: "kr = (k, r)" by fastforce
    then obtain e1 where "add_policies cb r (role_Permissions r) e = Inr e1"
      using pols [of "role_Permissions r"] Cons.prems validateRole_None(2) [of r] by fastforce
    then show ?case using Cons kr by simp
  qed simp
  then show ?thesis
    using assms(1,3) by (fastforce simp: buildEnforcer_def split: option.splits)
qed

lemma start_default:
  assumes "casbin_ok cb pol" "cb_new cb \<noteq> None" "\<forall>e p. cb_add cb e p \<noteq> None"
    and "doc_codec_ok cd" "dcd_enc cd (defaultDocument (ae_now env)) \<noteq> None"
    and "pc_value kv adminDocumentKey = None" "ae_load env = None" "ae_save env = None"
  shows "\<exists>ctl kv'. NewControlPlane lib cb cd env kv = (Inr ctl, kv') \<and> ctl_ok lib pol ctl \<and>
           ctl_document ctl = defaultDocument (ae_now env) \<and> repo_Load cd None kv' = Inr (ctl_document ctl)"
proof -
  let ?d = "defaultDocument (ae_now env)"
  have keyed: "keyed_ok ?d"
    using default_roles_valid [of "ae_now env"]
    by (auto simp: keyed_ok_def defaultDocument_def list_all_iff maxAuditEvents_def) (simp add: defaultRoles_def Let_def)
  have ok: "doc_ok lib ?d" using normalize_doc_ok [OF keyed normalize_default] by blast
  obtain e where e: "buildEnforcer cb ?d = Inr e"
    using buildEnforcer_total [OF assms(2,3)] ok by (fastforce simp: doc_ok_def role_ok_def)
  obtain raw where raw: "dcd_enc cd ?d = Some raw" using assms(5) by blast
  let ?kv = "AList.update adminDocumentKey (ae_now env, raw) kv"
  have none: "map_of kv adminDocumentKey = None" using assms(6) by (simp add: pc_value_None)
  have "repo_Load cd None kv = Inl AdminNotFound" using none by (simp add: repo_Load_def PCacheGet_def)
  moreover have "repo_Save cd None (ae_now env) ?d kv = (None, ?kv)"
    using raw by (simp add: repo_Save_def PCacheUpsert_def adminDocumentKey_def)
  ultimately have "NewControlPlane lib cb cd env kv = (Inr \<lparr>ctl_document = ?d, ctl_enforcer = e\<rparr>, ?kv)"
    using assms(7,8) e by (simp add: NewControlPlane_def Let_def normalize_default)
  moreover have "ctl_ok lib pol \<lparr>ctl_document = ?d, ctl_enforcer = e\<rparr>"
    using ok buildEnforcer_pol [OF assms(1) e] by (simp add: ctl_ok_def)
  moreover have "repo_Load cd None ?kv = Inr ?d"
    using raw assms(4) by (simp add: repo_Load_def PCacheGet_def update_conv' doc_codec_ok_def)
  ultimately show ?thesis by auto
qed

text \<open>On an empty store the first start works: the default document passes its own validation, is
  stored as version 1, and the control plane enforces exactly its policies.\<close>

theorem first_start:
  assumes "casbin_ok cb pol" "cb_new cb \<noteq> None" "\<forall>e p. cb_add cb e p \<noteq> None"
    and "doc_codec_ok cd" "dcd_enc cd (defaultDocument (ae_now env)) \<noteq> None"
    and "pc_value kv adminDocumentKey = None" "ae_load env = None" "ae_save env = None"
  shows "\<exists>ctl kv'. NewControlPlane lib cb cd env kv = (Inr ctl, kv') \<and> ctl_ok lib pol ctl \<and>
           ctl_document ctl = defaultDocument (ae_now env) \<and> repo_Load cd None kv' = Inr (ctl_document ctl)"
  using start_default [OF assms] .

text \<open>The version is only checked in memory: two processes that start from the same document both
  succeed with the same version number, and the store keeps the second document alone.\<close>

theorem admin_lost_update:
  assumes "doc_codec_ok cd" "ctl_document b = ctl_document a"
    and "mutate lib cb cd env1 expected actor1 op1 (a, kv) = (Inr d1, a', kv1)"
    and "mutate lib cb cd env2 expected actor2 op2 (b, kv) = (Inr d2, b', kv2)"
  shows "\<exists>kv12. mutate lib cb cd env2 expected actor2 op2 (b, kv1) = (Inr d2, b', kv12) \<and>
           repo_Load cd None kv12 = Inr d2 \<and> doc_Version d1 = doc_Version d2"
proof -
  obtain res c kv12 where m: "mutate lib cb cd env2 expected actor2 op2 (b, kv1) = (res, c, kv12)"
    by (metis prod_cases3)
  have ex: "expected = doc_Version (ctl_document b)"
    using mutate_result [OF assms(1,4)] by simp
  obtain e raw where e: "buildEnforcer cb d2 = Inr e" "b' = b\<lparr>ctl_document := d2, ctl_enforcer := e\<rparr>"
    "repo_Save cd (ae_save env2) (ae_now env2) d2 kv = (None, kv2)"
    using assms(4) by (auto simp: mutate_def mutateDetailed_def Let_def split: if_splits sum.splits prod.splits option.splits)
  then have "\<exists>kv12. repo_Save cd (ae_save env2) (ae_now env2) d2 kv1 = (None, kv12)"
    by (auto simp: repo_Save_def PCacheUpsert_def split: option.splits if_splits prod.splits)
  then have "res = Inr d2 \<and> c = b'"
    using assms(4) m e by (auto simp: mutate_def mutateDetailed_def Let_def split: if_splits sum.splits prod.splits option.splits)
  then show ?thesis
    using m mutate_result [OF assms(1) m] mutate_result [OF assms(1,3)] by auto
qed

section \<open>A concrete run\<close>

definition env0 :: admin_env where
  "env0 = \<lparr>ae_load = None, ae_save = None, ae_now = 0, ae_changeNow = 0\<rparr>"

definition root_actor :: Actor where
  "root_actor = \<lparr>actor_Subject = ''root'', actor_RequestID = ''r1'', actor_RemoteIP = ''::1''\<rparr>"

definition alice_binding :: Binding where
  "alice_binding = \<lparr>bind_ID = ''alice-audit'', bind_Subject = ''alice'', bind_RoleID = ''auditor'', bind_Domain = ''*'',
     bind_ExpiresAt = Some 100, bind_CreatedAt = 0, bind_UpdatedAt = 0\<rparr>"

definition doc0 :: Document where
  "doc0 = defaultDocument 0"

definition doc1 :: Document where
  "doc1 = doc0\<lparr>doc_Version := 2, doc_Bindings := [(''alice-audit'', alice_binding)],
     doc_Audit := [audit_event 0 2 root_actor ''binding.upsert'' ''binding:alice-audit'' []]\<rparr>"

definition codec2 :: doc_codec where
  "codec2 = \<lparr>dcd_enc = (\<lambda>d. if d = doc0 then Some ''0'' else if d = doc1 then Some ''1'' else None),
     dcd_dec = (\<lambda>raw. if raw = ''0'' then Some doc0 else if raw = ''1'' then Some doc1 else None)\<rparr>"

lemma codec2_ok: "doc_codec_ok codec2"
  by (auto simp: doc_codec_ok_def codec2_def)

lemma start_run:
  obtains ctl kv where "NewControlPlane no_translation list_casbin codec2 env0 [] = (Inr ctl, kv)"
    "ctl_ok no_translation set ctl" "ctl_document ctl = doc0" "repo_Load codec2 None kv = Inr doc0"
  using start_default [OF list_casbin_ok _ _ codec2_ok, of env0 "[]" no_translation]
  by (auto simp: list_casbin_def codec2_def env0_def doc0_def pc_value_def)

lemma alice_change: "op_change no_translation 0 (UpsertBinding alice_binding) doc0 = Inr (doc0\<lparr>doc_Bindings := [(''alice-audit'', alice_binding)]\<rparr>)"
proof -
  have "idPattern ''alice-audit''" "TrimSpace ''alice'' \<noteq> []" by code_simp+
  moreover have "map_of (doc_Roles doc0) ''auditor'' \<noteq> None" "doc_Bindings doc0 = []"
    by (simp_all add: doc0_def defaultDocument_def defaultRoles_def Let_def)
  ultimately show ?thesis
    by (simp add: upsertBinding_change_def validateBinding_def alice_binding_def)
qed

lemma doc0_simps: "doc_Version doc0 = 1" "doc_Audit doc0 = []" "doc_UpdatedAt doc0 = 0" "doc0 \<noteq> doc1"
  by (simp_all add: doc0_def doc1_def defaultDocument_def)

lemma alice_bound:
  assumes "ctl_document ctl = doc0"
  shows "\<exists>ctl' kv'. mutate no_translation list_casbin codec2 env0 1 root_actor (UpsertBinding alice_binding) (ctl, kv) = (Inr doc1, ctl', kv')"
proof -
  have "cloneDocument codec2 doc0 = Inr doc0" by (simp add: cloneDocument_def codec2_def)
  moreover have d1: "doc0\<lparr>doc_Bindings := [(''alice-audit'', alice_binding)], doc_Version := 2, doc_UpdatedAt := 0,
      doc_Audit := append_audit [] (audit_event 0 2 root_actor ''binding.upsert'' ''binding:alice-audit'' [])\<rparr> = doc1"
    using doc0_simps by (simp add: doc1_def append_audit_def maxAuditEvents_def)
  moreover obtain e where "buildEnforcer list_casbin doc1 = Inr e"
  proof -
    have "doc_Roles doc1 = defaultRoles 0" by (simp add: doc1_def doc0_def defaultDocument_def)
    then show ?thesis
      using that buildEnforcer_total [of list_casbin doc1] default_roles_valid [of 0]
      by (auto simp: list_casbin_def list_all_iff)
  qed
  moreover have "repo_Save codec2 None 0 doc1 kv = (None, AList.update adminDocumentKey (0, ''1'') kv)"
    using doc0_simps by (simp add: repo_Save_def codec2_def PCacheUpsert_def adminDocumentKey_def)
  ultimately show ?thesis
    using assms alice_change doc0_simps
    by (simp add: mutate_def mutateDetailed_def env0_def Let_def alice_binding_def)
qed

definition alice_call :: admin_call where
  "alice_call = (env0, 1, root_actor, UpsertBinding alice_binding)"

theorem optimistic_lock_witness:
  "\<exists>ctl kv ctl' kv'. ctl_document ctl = doc0 \<and>
     mutate no_translation list_casbin codec2 env0 1 root_actor (UpsertBinding alice_binding) (ctl, kv) = (Inr doc1, ctl', kv') \<and>
     mutate no_translation list_casbin codec2 env0 1 root_actor (DeleteRole ''auditor'') (ctl', kv') = (Inl AdminConflict, ctl', kv')"
proof -
  obtain ctl :: "policy list control" where c: "ctl_document ctl = doc0" using start_run by metis
  then obtain ctl' kv' where
    m: "mutate no_translation list_casbin codec2 env0 1 root_actor (UpsertBinding alice_binding) (ctl, []) = (Inr doc1, ctl', kv')"
    using alice_bound by blast
  have "mutate no_translation list_casbin codec2 env0 1 root_actor (DeleteRole ''auditor'') (ctl', kv') = (Inl AdminConflict, ctl', kv')"
    using optimistic_lock [OF codec2_ok m] by simp
  then show ?thesis using m c by blast
qed

theorem control_plane_invariant_witness:
  "\<exists>ctl kv ctl' kv'. fold (admin_step no_translation list_casbin codec2) [alice_call] (ctl, kv) = (ctl', kv') \<and> ctl_document ctl' = doc1 \<and>
     (\<forall>(k, b) \<in> set (doc_Bindings doc1). map_of (doc_Roles doc1) (bind_RoleID b) \<noteq> None)"
proof -
  obtain ctl :: "policy list control" where c: "ctl_document ctl = doc0" "ctl_ok no_translation set ctl" using start_run by metis
  then obtain ctl' kv' where
    m: "mutate no_translation list_casbin codec2 env0 1 root_actor (UpsertBinding alice_binding) (ctl, []) = (Inr doc1, ctl', kv')"
    using alice_bound by blast
  then have f: "fold (admin_step no_translation list_casbin codec2) [alice_call] (ctl, []) = (ctl', kv')"
    by (simp add: admin_step_def alice_call_def)
  have d: "ctl_document ctl' = doc1" using m by (cases rule: mutate_cases) auto
  have "\<forall>(k, b) \<in> set (doc_Bindings doc1). map_of (doc_Roles doc1) (bind_RoleID b) \<noteq> None"
    using control_plane_invariant [OF list_casbin_ok codec2_ok c(2) f, THEN conjunct1] unfolding d .
  then show ?thesis using f d by blast
qed

theorem evaluate_correct_witness:
  "\<exists>ctl ev. ctl_document ctl = doc1 \<and> Evaluate list_casbin ctl ''alice'' ''org:1'' ''system.audit.read'' 50 = Inr ev \<and> evl_Allowed ev"
proof -
  obtain ctl :: "policy list control" where c: "ctl_document ctl = doc0" "ctl_ok no_translation set ctl" using start_run by metis
  then obtain ctl' kv' where
    m: "mutate no_translation list_casbin codec2 env0 1 root_actor (UpsertBinding alice_binding) (ctl, []) = (Inr doc1, ctl', kv')"
    using alice_bound by blast
  then have f: "fold (admin_step no_translation list_casbin codec2) [alice_call] (ctl, []) = (ctl', kv')"
    by (simp add: admin_step_def alice_call_def)
  have d: "ctl_document ctl' = doc1" using m by (cases rule: mutate_cases) auto
  have b: "doc_Bindings doc1 = [(''alice-audit'', alice_binding)]" by (simp add: doc1_def)
  obtain p where "permissionByKey ''system.audit.read'' = Some p" by (cases "permissionByKey ''system.audit.read''") (code_simp, auto)
  moreover have "TrimSpace ''alice'' \<noteq> []" "TrimSpace ''org:1'' \<noteq> []" by code_simp+
  ultimately obtain ev where ev: "Evaluate list_casbin ctl' ''alice'' ''org:1'' ''system.audit.read'' 50 = Inr ev"
    using b d by (simp add: Evaluate_def binding_active_def alice_binding_def list_casbin_def)
  have inv: "admin_inv no_translation list_casbin set codec2 (ctl, [])"
    using list_casbin_ok codec2_ok c(2) by (simp add: admin_inv_def)
  have "\<exists>role. map_of (doc_Roles doc1) ''auditor'' = Some role \<and> ''system.audit.read'' \<in> set (role_Permissions role)"
    by (simp add: doc1_def doc0_def defaultDocument_def defaultRoles_def Let_def built_in_role_def)
  then have "evl_Allowed ev"
    unfolding evaluate_correct [OF inv f ev] d b by (simp add: alice_binding_def)
  then show ?thesis using d ev by blast
qed

theorem first_start_witness:
  "\<exists>ctl kv'. NewControlPlane no_translation list_casbin codec2 env0 [] = (Inr ctl, kv') \<and> ctl_ok no_translation set ctl \<and>
     ctl_document ctl = defaultDocument (ae_now env0) \<and> repo_Load codec2 None kv' = Inr (ctl_document ctl)"
  by (rule first_start [OF list_casbin_ok _ _ codec2_ok])
     (simp_all add: list_casbin_def codec2_def env0_def doc0_def pc_value_def)

theorem admin_lost_update_witness:
  "\<exists>ctl kv1 d kv12 b'. mutate no_translation list_casbin codec2 env0 1 root_actor (UpsertBinding alice_binding) (ctl, []) = (Inr d, b', kv1) \<and>
     mutate no_translation list_casbin codec2 env0 1 root_actor (UpsertBinding alice_binding) (ctl, kv1) = (Inr d, b', kv12) \<and>
     repo_Load codec2 None kv12 = Inr d"
proof -
  obtain ctl :: "policy list control" where c: "ctl_document ctl = doc0" using start_run by metis
  then obtain ctl' kv' where
    m: "mutate no_translation list_casbin codec2 env0 1 root_actor (UpsertBinding alice_binding) (ctl, []) = (Inr doc1, ctl', kv')"
    using alice_bound by blast
  then show ?thesis using admin_lost_update [OF codec2_ok refl m m] by blast
qed

theorem refresh_monotone_witness:
  "\<exists>ctl err ctl'. doc_Version (ctl_document ctl) = 0 \<and>
     Refresh no_translation list_casbin codec2 env0 [(adminDocumentKey, 0, ''0'')] id ctl = (err, ctl') \<and>
     ctl_document ctl' = doc0 \<and> ctl_ok no_translation set ctl'"
proof -
  obtain c :: "policy list control" where c: "ctl_document c = doc0" "ctl_ok no_translation set c" using start_run by metis
  let ?ctl = "c\<lparr>ctl_document := doc0\<lparr>doc_Version := 0\<rparr>\<rparr>"
  have ok: "ctl_ok no_translation set ?ctl"
    using c by (simp add: ctl_ok_def doc_ok_def doc_policies_def)
  have load: "repo_Load codec2 (ae_load env0) [(adminDocumentKey, 0, ''0'')] = Inr doc0"
    by (simp add: repo_Load_def PCacheGet_def env0_def codec2_def)
  obtain e where e: "buildEnforcer list_casbin doc0 = Inr e"
    using buildEnforcer_total [of list_casbin doc0] c
    by (auto simp: list_casbin_def ctl_ok_def doc_ok_def role_ok_def)
  have n: "normalizeDocument no_translation (ae_now env0) doc0 = Inr doc0" by (simp add: doc0_def normalize_default)
  have "Refresh no_translation list_casbin codec2 env0 [(adminDocumentKey, 0, ''0'')] id ?ctl =
      (None, ?ctl\<lparr>ctl_document := doc0, ctl_enforcer := e\<rparr>)"
    using load n e doc0_simps(1) by (simp add: Refresh_def)
  moreover from this have "ctl_ok no_translation set (?ctl\<lparr>ctl_document := doc0, ctl_enforcer := e\<rparr>)"
    using refresh_monotone [OF list_casbin_ok ok, of id codec2 env0 "[(adminDocumentKey, 0, ''0'')]"] load c
      doc_ok_keyed by (auto simp: ctl_ok_def)
  ultimately show ?thesis by (intro exI [of _ ?ctl]) auto
qed

end
