(* ===== verification/SubsTable.thy ===== *)
theory SubsTable
  imports AccessMode Ranges Complex_Main
begin

text \<open>
  Subscriptions in the database (\<^verbatim>\<open>server/store/store_subs.go\<close> and its statements in
  \<^verbatim>\<open>server/db/mysql/subscriptions.go\<close> and \<^verbatim>\<open>topics.go\<close>): looking one up, creating, updating and
  soft deleting it, with the counter of subscribers that the topic's row keeps.

  The tables are maps. A transaction either commits or fails as a whole: the first argument of an
  operation is the error it fails with, if any, and a failed one changes nothing. Rows are keyed by
  topic and user; the database numbers users by the decoded identifier, which is one to one. Private
  values are kept as they are: their JSON form is not modelled. The locale \<open>subs_store\<close> is the
  contract on live subscriptions that the topic relies on.
\<close>

section \<open>Values of any type\<close>

text \<open>A non-nil Go value of type \<open>any\<close> as JSON produces it.\<close>

datatype any = AStr string | AInt int | AFloat rat | ABool bool | AList "any list" | AMap "(string \<times> any) list"

section \<open>Rows\<close>

record subscription =
  sub_CreatedAt :: "go_time option"
  sub_UpdatedAt :: "go_time option"
  sub_User :: string
  sub_Topic :: string
  sub_DeletedAt :: "go_time option"
  sub_DelId :: int
  sub_RecvSeqId :: int
  sub_ReadSeqId :: int
  sub_ReadHistory :: read_history
  sub_ModeWant :: access_mode
  sub_ModeGiven :: access_mode
  sub_Private :: "any option"

definition new_subscription :: "uid \<Rightarrow> string \<Rightarrow> access_mode \<Rightarrow> access_mode \<Rightarrow> any option \<Rightarrow> subscription" where
  "new_subscription user topic want given private =
     \<lparr>sub_CreatedAt = None, sub_UpdatedAt = None, sub_User = uid_String user, sub_Topic = topic,
      sub_DeletedAt = None, sub_DelId = 0, sub_RecvSeqId = 0, sub_ReadSeqId = 0, sub_ReadHistory = [],
      sub_ModeWant = want, sub_ModeGiven = given, sub_Private = private\<rparr>"

record sub_row =
  sr_createdat :: go_time
  sr_updatedat :: go_time
  sr_deletedat :: "go_time option"
  sr_delid :: int
  sr_recvseqid :: int
  sr_readseqid :: int
  sr_readhistory :: read_history
  sr_modewant :: access_mode
  sr_modegiven :: access_mode
  sr_private :: "any option"

record user_row =
  ur_State :: int
  ur_AccessAuth :: access_mode

definition StateOK :: int where "StateOK = 0"

record subs_db =
  sd_subs :: "string \<times> uid \<rightharpoonup> sub_row"
  sd_owner :: "string \<rightharpoonup> uid"
  sd_subcnt :: "string \<rightharpoonup> int"
  sd_dellog :: "(string \<times> uid \<times> int \<times> range) list"
  sd_users :: "uid \<rightharpoonup> user_row"


text \<open>A mode column holds the text form; this is the mode that is read back from it.\<close>

definition db_mode :: "access_mode \<Rightarrow> access_mode" where
  "db_mode m = snd (UnmarshalText 0 (acs_String m))"

lemma db_mode_wf [simp]: "acs_wf m \<Longrightarrow> db_mode m = m"
  by (simp add: db_mode_def UnmarshalText_MarshalText)

section \<open>Statements\<close>

definition row_subscription :: "string \<Rightarrow> uid \<Rightarrow> sub_row \<Rightarrow> subscription" where
  "row_subscription topic user r =
     \<lparr>sub_CreatedAt = Some (sr_createdat r), sub_UpdatedAt = Some (sr_updatedat r), sub_User = uid_String user,
      sub_Topic = topic, sub_DeletedAt = sr_deletedat r, sub_DelId = sr_delid r,
      sub_RecvSeqId = sr_recvseqid r, sub_ReadSeqId = sr_readseqid r, sub_ReadHistory = sr_readhistory r,
      sub_ModeWant = sr_modewant r, sub_ModeGiven = sr_modegiven r, sub_Private = sr_private r\<rparr>"

definition SubscriptionGet ::
  "db_err \<Rightarrow> string \<Rightarrow> uid \<Rightarrow> bool \<Rightarrow> subs_db \<Rightarrow> store_error + subscription option" where
  "SubscriptionGet fault topic user keepDeleted db =
     (case fault of
        Some e \<Rightarrow> Inl e
      | None \<Rightarrow>
          (case sd_subs db (topic, user) of
             None \<Rightarrow> Inr None
           | Some r \<Rightarrow>
               if \<not> keepDeleted \<and> sr_deletedat r \<noteq> None then Inr None
               else Inr (Some (row_subscription topic user r))))"

definition InitTimes :: "go_time \<Rightarrow> subscription \<Rightarrow> subscription" where
  "InitTimes now sub =
     (let created = (case sub_CreatedAt sub of None \<Rightarrow> now | Some t \<Rightarrow> t) in
      sub\<lparr>sub_CreatedAt := Some created, sub_UpdatedAt := Some created\<rparr>)"

text \<open>The columns that an update sets.\<close>

record sub_update =
  su_ModeWant :: "access_mode option"
  su_ModeGiven :: "access_mode option"
  su_RecvSeqId :: "int option"
  su_ReadSeqId :: "int option"
  su_ReadHistory :: "read_history option"
  su_Private :: "any option option"

definition no_update :: sub_update where
  "no_update = \<lparr>su_ModeWant = None, su_ModeGiven = None, su_RecvSeqId = None, su_ReadSeqId = None,
     su_ReadHistory = None, su_Private = None\<rparr>"

definition opt_or :: "'a option \<Rightarrow> 'a \<Rightarrow> 'a" where
  "opt_or v d = (case v of None \<Rightarrow> d | Some x \<Rightarrow> x)"

definition update_row :: "go_time \<Rightarrow> sub_update \<Rightarrow> sub_row \<Rightarrow> sub_row" where
  "update_row now u r =
     r\<lparr>sr_updatedat := now,
       sr_modewant := opt_or (map_option db_mode (su_ModeWant u)) (sr_modewant r),
       sr_modegiven := opt_or (map_option db_mode (su_ModeGiven u)) (sr_modegiven r),
       sr_recvseqid := opt_or (su_RecvSeqId u) (sr_recvseqid r),
       sr_readseqid := opt_or (su_ReadSeqId u) (sr_readseqid r),
       sr_readhistory := opt_or (su_ReadHistory u) (sr_readhistory r),
       sr_private := opt_or (su_Private u) (sr_private r)\<rparr>"

text \<open>The value of an invalid mode cannot be passed to the driver. A zero user means every
  subscription of the topic. Rows marked as deleted are updated too.\<close>

definition SubsUpdate :: "db_err \<Rightarrow> go_time \<Rightarrow> string \<Rightarrow> uid \<Rightarrow> sub_update \<Rightarrow> subs_db \<Rightarrow> db_err \<times> subs_db" where
  "SubsUpdate fault now topic user u db =
     (case fault of
        Some e \<Rightarrow> (Some e, db)
      | None \<Rightarrow>
          if su_ModeWant u = Some ModeInvalid \<or> su_ModeGiven u = Some ModeInvalid
          then (Some (ErrOther ''AccessMode invalid''), db)
          else
            (None, db\<lparr>sd_subs := \<lambda>(tp, uid).
               if tp = topic \<and> (uid_IsZero user \<or> uid = user)
               then map_option (update_row now u) (sd_subs db (tp, uid))
               else sd_subs db (tp, uid)\<rparr>))"

definition bump :: "int \<Rightarrow> string \<Rightarrow> subs_db \<Rightarrow> subs_db" where
  "bump n topic db = db\<lparr>sd_subcnt := (sd_subcnt db)(topic := map_option (\<lambda>c. c + n) (sd_subcnt db topic))\<rparr>"

definition SubsDelete :: "db_err \<Rightarrow> go_time \<Rightarrow> string \<Rightarrow> uid \<Rightarrow> subs_db \<Rightarrow> (db_err \<times> subs_db) option" where
  "SubsDelete fault now topic user db =
     (case fault of
        Some e \<Rightarrow> Some (Some e, db)
      | None \<Rightarrow>
          (case sd_subs db (topic, user) of
             None \<Rightarrow> Some (Some ErrNotFound, db)
           | Some r \<Rightarrow>
               if sr_deletedat r \<noteq> None then Some (Some ErrNotFound, db)
               else
                 let db1 = db\<lparr>sd_subs := (sd_subs db)((topic, user) \<mapsto> r\<lparr>sr_updatedat := now, sr_deletedat := Some now\<rparr>)\<rparr>;
                     db2 = (if IsChannel topic then db1
                            else db1\<lparr>sd_dellog := filter (\<lambda>(tp, u, _). \<not> (tp = topic \<and> u = user)) (sd_dellog db1)\<rparr>)
                 in case GetTopicCat topic of
                      None \<Rightarrow> None
                    | Some cat \<Rightarrow> Some (None, if cat = TopicCatGrp then bump (- 1) (ChnToGrp topic) db2 else db2)))"

text \<open>Inserting a row whose key is taken revives that row; the private value is then only replaced
  when \<open>undelete\<close> is false.\<close>

definition createSubscription :: "subscription \<Rightarrow> bool \<Rightarrow> subs_db \<Rightarrow> subs_db" where
  "createSubscription sub undelete db =
     (let isOwner = IsOwner (sub_ModeGiven sub AND sub_ModeWant sub);
          user = ParseUid (sub_User sub);
          key = (sub_Topic sub, user);
          created = opt_or (sub_CreatedAt sub) 0; updated = opt_or (sub_UpdatedAt sub) 0;
          row = (case sd_subs db key of
                   None \<Rightarrow>
                     \<lparr>sr_createdat = created, sr_updatedat = updated, sr_deletedat = None, sr_delid = 0,
                      sr_recvseqid = 0, sr_readseqid = 0, sr_readhistory = [],
                      sr_modewant = db_mode (sub_ModeWant sub), sr_modegiven = db_mode (sub_ModeGiven sub),
                      sr_private = sub_Private sub\<rparr>
                 | Some r \<Rightarrow>
                     \<lparr>sr_createdat = created, sr_updatedat = updated, sr_deletedat = None, sr_delid = 0,
                      sr_recvseqid = 0, sr_readseqid = 0, sr_readhistory = [],
                      sr_modewant = db_mode (sub_ModeWant sub), sr_modegiven = db_mode (sub_ModeGiven sub),
                      sr_private = (if undelete then sr_private r else sub_Private sub)\<rparr>);
          db1 = db\<lparr>sd_subs := (sd_subs db)(key \<mapsto> row)\<rparr>
      in if isOwner
         then db1\<lparr>sd_owner := (sd_owner db1)(sub_Topic sub := map_option (\<lambda>_. user) (sd_owner db1 (sub_Topic sub)))\<rparr>
         else db1)"

definition TopicShare :: "db_err \<Rightarrow> string \<Rightarrow> subscription list \<Rightarrow> subs_db \<Rightarrow> db_err \<times> subs_db" where
  "TopicShare fault topic shares db =
     (case fault of
        Some e \<Rightarrow> (Some e, db)
      | None \<Rightarrow>
          let db1 = fold (\<lambda>sub. createSubscription sub True) shares db in
          (None, if topic \<noteq> [] then bump (int (length shares)) topic db1 else db1))"

section \<open>The storage facade\<close>

definition subscriptionCounterTopic :: "string \<Rightarrow> string option" where
  "subscriptionCounterTopic topic =
     map_option (\<lambda>eph. if eph then [] else if IsChannel topic then ChnToGrp topic else topic)
       (IsEphemeralTopic topic)"

fun same_topic :: "string \<Rightarrow> string \<Rightarrow> subscription list \<Rightarrow> bool option" where
  "same_topic topic counter [] = Some True"
| "same_topic topic counter (sub # subs) =
     (case subscriptionCounterTopic (sub_Topic sub) of
        None \<Rightarrow> None
      | Some c \<Rightarrow>
          if (counter \<noteq> [] \<and> sub_Topic sub \<noteq> topic) \<or> (counter = [] \<and> c \<noteq> []) then Some False
          else same_topic topic counter subs)"

definition subs_Create :: "db_err \<Rightarrow> go_time \<Rightarrow> subscription list \<Rightarrow> subs_db \<Rightarrow> (db_err \<times> subs_db) option" where
  "subs_Create fault now subs db =
     (case subs of
        [] \<Rightarrow> Some (None, db)
      | sub0 # _ \<Rightarrow>
          (case subscriptionCounterTopic (sub_Topic sub0) of
             None \<Rightarrow> None
           | Some counter \<Rightarrow>
               (case same_topic (sub_Topic sub0) counter subs of
                  None \<Rightarrow> None
                | Some False \<Rightarrow> Some (Some (ErrOther ''all subscriptions must be for the same topic''), db)
                | Some True \<Rightarrow> Some (TopicShare fault counter (map (InitTimes now) subs) db))))"

definition subs_Get :: "db_err \<Rightarrow> string \<Rightarrow> uid \<Rightarrow> bool \<Rightarrow> subs_db \<Rightarrow> store_error + subscription option" where
  "subs_Get = SubscriptionGet"

definition subs_Update :: "db_err \<Rightarrow> go_time \<Rightarrow> string \<Rightarrow> uid \<Rightarrow> sub_update \<Rightarrow> subs_db \<Rightarrow> db_err \<times> subs_db" where
  "subs_Update = SubsUpdate"

definition subs_Delete :: "db_err \<Rightarrow> go_time \<Rightarrow> string \<Rightarrow> uid \<Rightarrow> subs_db \<Rightarrow> (db_err \<times> subs_db) option" where
  "subs_Delete = SubsDelete"

section \<open>The contract on live subscriptions\<close>

text \<open>
  What the topic relies on: a subscription that is not deleted can be looked up with the modes it
  was last given, and an operation on one subscription leaves all others alone. \<open>ok\<close> marks the
  values that the store can represent.
\<close>

locale subs_store =
  fixes key_ok :: "'k \<Rightarrow> bool" and ok :: "'m \<Rightarrow> bool"
    and live :: "'s \<Rightarrow> 'k \<Rightarrow> 'm option"
    and create :: "'k \<Rightarrow> 'm \<Rightarrow> 's \<Rightarrow> 's"
    and change :: "'k \<Rightarrow> 'm \<Rightarrow> 's \<Rightarrow> 's"
    and remove :: "'k \<Rightarrow> 's \<Rightarrow> 's option"
  assumes live_create: "key_ok k \<Longrightarrow> ok m \<Longrightarrow> live (create k m s) = (live s)(k \<mapsto> m)"
    and live_change: "key_ok k \<Longrightarrow> ok m \<Longrightarrow> live (change k m s) = (live s)(k := map_option (\<lambda>_. m) (live s k))"
    and remove_None: "key_ok k \<Longrightarrow> remove k s = None \<longleftrightarrow> live s k = None"
    and live_remove: "remove k s = Some s' \<Longrightarrow> live s' = (live s)(k := None)"
begin

text \<open>Moving a subscription to another key: create the new one, then remove the old one. Afterwards
  only the new one is live. If the removal does not happen, removing the new one again restores what
  was there, provided the new key was free.\<close>

lemma move:
  assumes "key_ok k" "key_ok k'" "ok m" "live s k = Some m0" "k \<noteq> k'"
  shows "\<exists>s'. remove k (create k' m s) = Some s' \<and> live s' = (live s)(k' \<mapsto> m, k := None)"
proof -
  have "remove k (create k' m s) \<noteq> None"
    using assms by (simp add: remove_None live_create)
  then obtain s' where s': "remove k (create k' m s) = Some s'" by blast
  then have "live s' = (live s)(k' \<mapsto> m, k := None)"
    using assms(2,3) by (simp add: live_create live_remove [OF s'])
  with s' show ?thesis by blast
qed

lemma move_undo:
  assumes "key_ok k'" "ok m" "live s k' = None"
  shows "\<exists>s'. remove k' (create k' m s) = Some s' \<and> live s' = live s"
proof -
  have "remove k' (create k' m s) \<noteq> None" using assms by (simp add: remove_None live_create)
  then obtain s' where s': "remove k' (create k' m s) = Some s'" by blast
  then have "live s' = (live s)(k' := None)"
    using assms(1,2) by (simp add: live_create live_remove [OF s'])
  then show ?thesis using s' assms(3) by (metis fun_upd_triv)
qed

end

definition live_subs :: "subs_db \<Rightarrow> string \<times> uid \<Rightarrow> (access_mode \<times> access_mode) option" where
  "live_subs db k =
     (case sd_subs db k of
        None \<Rightarrow> None
      | Some r \<Rightarrow> if sr_deletedat r = None then Some (sr_modewant r, sr_modegiven r) else None)"

definition modes_ok :: "access_mode \<times> access_mode \<Rightarrow> bool" where
  "modes_ok m = (acs_wf (fst m) \<and> acs_wf (snd m))"

definition set_modes :: "access_mode \<Rightarrow> access_mode \<Rightarrow> sub_update" where
  "set_modes want given = no_update\<lparr>su_ModeWant := Some want, su_ModeGiven := Some given\<rparr>"

lemma ModeInvalid_not_wf: "\<not> acs_wf ModeInvalid"
proof -
  have "bit ModeInvalid 20" by (simp add: ModeInvalid_def)
  then show ?thesis by (auto simp: acs_wf_bits)
qed

lemma live_bump [simp]: "live_subs (bump n tp db) = live_subs db"
  by (simp add: fun_eq_iff live_subs_def bump_def)

lemma live_createSubscription:
  "live_subs (createSubscription sub undelete db) =
     (live_subs db)((sub_Topic sub, ParseUid (sub_User sub)) \<mapsto> (db_mode (sub_ModeWant sub), db_mode (sub_ModeGiven sub)))"
  by (auto simp: fun_eq_iff live_subs_def createSubscription_def Let_def split: option.split)

text \<open>What each operation of the store does to the live subscriptions, on every outcome.\<close>

lemma subs_Create_live:
  assumes "subs_Create fault now [sub] db = Some (err, db')"
  shows "if err = None then live_subs db' = (live_subs db)((sub_Topic sub, ParseUid (sub_User sub)) \<mapsto>
      (db_mode (sub_ModeWant sub), db_mode (sub_ModeGiven sub))) else db' = db"
  using assms
  by (auto simp: subs_Create_def TopicShare_def Let_def live_createSubscription InitTimes_def
      split: option.splits bool.splits if_splits)

lemma subs_Update_live:
  assumes "subs_Update fault now topic user u db = (err, db')" "user \<noteq> 0"
  shows "if err = None then live_subs db' = (live_subs db)((topic, user) := map_option (\<lambda>(w, g).
      (opt_or (map_option db_mode (su_ModeWant u)) w, opt_or (map_option db_mode (su_ModeGiven u)) g))
      (live_subs db (topic, user))) else db' = db"
  using assms
  by (auto simp: subs_Update_def SubsUpdate_def fun_eq_iff live_subs_def update_row_def uid_IsZero_def
      ZeroUid_def split: option.splits if_splits)

lemma subs_Delete_live:
  assumes "subs_Delete fault now topic user db = Some (err, db')"
  shows "if err = None then live_subs db (topic, user) \<noteq> None \<and> live_subs db' = (live_subs db)((topic, user) := None)
    else db' = db"
  using assms
  by (auto simp: subs_Delete_def SubsDelete_def fun_eq_iff live_subs_def Let_def bump_def
      split: option.splits if_splits)

text \<open>The store keeps the contract for names of a known category and users other than zero, when no
  statement fails.\<close>

definition tbl_key_ok :: "string \<times> uid \<Rightarrow> bool" where
  "tbl_key_ok k = (GetTopicCat (fst k) \<noteq> None \<and> snd k \<noteq> 0)"

definition tbl_create :: "go_time \<Rightarrow> string \<times> uid \<Rightarrow> access_mode \<times> access_mode \<Rightarrow> subs_db \<Rightarrow> subs_db" where
  "tbl_create now k m db =
     (case subs_Create None now [new_subscription (snd k) (fst k) (fst m) (snd m) None] db of
        Some (_, db') \<Rightarrow> db' | None \<Rightarrow> db)"

definition tbl_change :: "go_time \<Rightarrow> string \<times> uid \<Rightarrow> access_mode \<times> access_mode \<Rightarrow> subs_db \<Rightarrow> subs_db" where
  "tbl_change now k m db = snd (subs_Update None now (fst k) (snd k) (set_modes (fst m) (snd m)) db)"

definition tbl_remove :: "go_time \<Rightarrow> string \<times> uid \<Rightarrow> subs_db \<Rightarrow> subs_db option" where
  "tbl_remove now k db = (case subs_Delete None now (fst k) (snd k) db of Some (None, db') \<Rightarrow> Some db' | _ \<Rightarrow> None)"

lemma subs_Create_ok:
  assumes "GetTopicCat (sub_Topic sub) \<noteq> None"
  shows "\<exists>db'. subs_Create None now [sub] db = Some (None, db')"
  using assms by (auto simp: subs_Create_def subscriptionCounterTopic_def IsEphemeralTopic_def TopicShare_def Let_def)

interpretation tbl: subs_store tbl_key_ok modes_ok live_subs "tbl_create now" "tbl_change now" "tbl_remove now" for now
proof unfold_locales
  fix k m s
  assume k: "tbl_key_ok k" and m: "modes_ok m"
  obtain db' where "subs_Create None now [new_subscription (snd k) (fst k) (fst m) (snd m) None] s = Some (None, db')"
    using subs_Create_ok k by (force simp: tbl_key_ok_def new_subscription_def)
  then show "live_subs (tbl_create now k m s) = (live_subs s)(k \<mapsto> m)"
    using m subs_Create_live [of None now _ s None db']
    by (simp add: tbl_create_def new_subscription_def modes_ok_def)
  show "live_subs (tbl_change now k m s) = (live_subs s)(k := map_option (\<lambda>_. m) (live_subs s k))"
    using k m ModeInvalid_not_wf subs_Update_live [of None now "fst k" "snd k" "set_modes (fst m) (snd m)" s]
    by (auto simp: tbl_change_def tbl_key_ok_def modes_ok_def set_modes_def no_update_def opt_or_def
        subs_Update_def SubsUpdate_def split_def)
next
  show "tbl_remove now k s = None \<longleftrightarrow> live_subs s k = None" if "tbl_key_ok k" for k s
    using that by (cases k)
      (auto simp: tbl_remove_def subs_Delete_def SubsDelete_def live_subs_def tbl_key_ok_def Let_def split: option.splits)
next
  show "live_subs s' = (live_subs s)(k := None)" if "tbl_remove now k s = Some s'" for k s s'
    using that subs_Delete_live [of None now "fst k" "snd k" s None s']
    by (auto simp: tbl_remove_def split: option.splits)
qed

end
