(* ===== verification/TopicState.thy ===== *)
theory TopicState
  imports SubsTable SessionQueue Fence "HOL-Library.AList"
begin

text \<open>
  The state of a topic (\<^verbatim>\<open>internal/server/topic.go\<close>): what it keeps per subscriber and per attached
  session, its status bits, the permissions of a user and their union, the names it is shown under,
  attaching and detaching sessions, and the notifications of a changed subscription
  (\<^verbatim>\<open>topic_pres.go\<close>).

  A Go map is an association list with distinct keys; iteration visits its entries in some order.
  Reading a missing entry gives the zero value. A session is a reference, looked up in a table \<open>ss\<close>.
  What an operation sends to other parts of the server is appended to a log of effects: replies to
  the requesting session, presence notices, push subscriptions, updates of the user cache, plugin
  calls. A panic of the code is the result \<open>None\<close>.
\<close>

section \<open>Data\<close>

record perUserData =
  pud_online :: int
  pud_recvID :: int
  pud_readID :: int
  pud_readHistory :: read_history
  pud_delID :: int
  pud_private :: "any option"
  pud_modeWant :: access_mode
  pud_modeGiven :: access_mode
  pud_public :: "any option"
  pud_trusted :: "any option"
  pud_lastSeen :: "go_time option"
  pud_lastUA :: string
  pud_topicName :: string
  pud_deleted :: bool
  pud_isChan :: bool

definition zero_pud :: perUserData where
  "zero_pud = \<lparr>pud_online = 0, pud_recvID = 0, pud_readID = 0, pud_readHistory = [], pud_delID = 0,
     pud_private = None, pud_modeWant = 0, pud_modeGiven = 0, pud_public = None, pud_trusted = None,
     pud_lastSeen = None, pud_lastUA = [], pud_topicName = [], pud_deleted = False, pud_isChan = False\<rparr>"

type_synonym sref = nat

record perSessionData =
  pssd_uid :: uid
  pssd_isChanSub :: bool
  pssd_muids :: "uid list"

definition zero_pssd :: perSessionData where
  "zero_pssd = \<lparr>pssd_uid = 0, pssd_isChanSub = False, pssd_muids = []\<rparr>"

text \<open>What the topic reads of a session.\<close>

record sess_info =
  si_sid :: string
  si_uid :: uid
  si_proto :: session_proto
  si_multi :: "sref option"
  si_background :: bool
  si_lastAction :: int
  si_userAgent :: string

type_synonym sess_table = "sref \<Rightarrow> sess_info"

record officialTopicPolicy =
  op_OrganizationID :: string
  op_Owner :: string
  op_Official :: bool
  op_OfficialStatus :: string
  op_ScaleClass :: string
  op_MemberLimit :: int
  op_JoinPolicy :: string
  op_AdminAssignPolicy :: string
  op_DirectMessagePolicy :: string
  op_AllMuted :: bool
  op_SlowModeSeconds :: int
  op_ReactionsEnabled :: bool
  op_CreatedBy :: string

text \<open>What is in force against a member of an official topic.\<close>

record officialModerationState =
  ms_Topic :: string
  ms_Target :: string
  ms_Action :: string
  ms_Scope :: string
  ms_ReasonCode :: string
  ms_Note :: string
  ms_StartsAt :: go_time
  ms_ExpiresAt :: "go_time option"
  ms_Operator :: string
  ms_OperatorRole :: string
  ms_RequestID :: string
  ms_CreatedAt :: go_time

text \<open>A cached moderation state and when it was loaded; no state is cached as well.\<close>

type_synonym officialModerationCache = "officialModerationState option \<times> go_time"

record topic =
  t_name :: string
  t_xoriginal :: string
  t_cat :: topic_cat
  t_touched :: go_time
  t_lastID :: int
  t_delID :: int
  t_subCnt :: int
  t_userAgent :: string
  t_owner :: uid
  t_accessAuth :: access_mode
  t_accessAnon :: access_mode
  t_aux :: "(string \<times> any) list"
  t_official :: "officialTopicPolicy option"
  t_officialRefreshedAt :: "go_time option"
  t_officialMemberRefreshed :: "(uid \<times> go_time) list"
  t_moderationCache :: "(uid \<times> officialModerationCache) list"
  t_perUser :: "(uid \<times> perUserData) list"
  t_modeWantUnion :: access_mode
  t_modeGivenUnion :: access_mode
  t_sessions :: "(sref \<times> perSessionData) list"
  t_status :: "32 word"
  t_isChan :: bool
  t_isProxy :: bool

text \<open>Server settings the topic code reads.\<close>

record tglobals =
  g_maxSubscriberCount :: int
  g_typesModeCP2P :: access_mode

section \<open>Status bits\<close>

definition topicStatusLoaded :: "32 word" where "topicStatusLoaded = 0x1"
definition topicStatusPaused :: "32 word" where "topicStatusPaused = 0x2"
definition topicStatusMarkedDeleted :: "32 word" where "topicStatusMarkedDeleted = 0x10"
definition topicStatusReadOnly :: "32 word" where "topicStatusReadOnly = 0x20"

text \<open>The loop around the compare and swap. The list holds the values that other goroutines leave in
  the status between the load and the swap of each attempt; when it is used up nobody interferes.\<close>

fun statusChange_loop :: "32 word \<Rightarrow> bool \<Rightarrow> 32 word list \<Rightarrow> 32 word \<Rightarrow> 32 word" where
  "statusChange_loop bits on others oldStatus =
     (let newStatus = (if on then oldStatus OR bits else oldStatus AND NOT bits) in
      if newStatus = oldStatus then oldStatus
      else case others of
             [] \<Rightarrow> newStatus
           | found # rest \<Rightarrow> if found = oldStatus then newStatus else statusChange_loop bits on rest found)"

declare statusChange_loop.simps [simp del]

definition statusChangeBits :: "32 word \<Rightarrow> bool \<Rightarrow> topic \<Rightarrow> topic" where
  "statusChangeBits bits on t = t\<lparr>t_status := statusChange_loop bits on [] (t_status t)\<rparr>"

definition markLoaded :: "topic \<Rightarrow> topic" where
  "markLoaded = statusChangeBits topicStatusLoaded True"
definition markPaused :: "bool \<Rightarrow> topic \<Rightarrow> topic" where
  "markPaused pause = statusChangeBits topicStatusPaused pause"
definition markDeleted :: "topic \<Rightarrow> topic" where
  "markDeleted = statusChangeBits topicStatusMarkedDeleted True"
definition markReadOnly :: "bool \<Rightarrow> topic \<Rightarrow> topic" where
  "markReadOnly readOnly = statusChangeBits topicStatusReadOnly readOnly"
definition isInactive :: "topic \<Rightarrow> bool" where
  "isInactive t = (t_status t AND (topicStatusPaused OR topicStatusMarkedDeleted) \<noteq> 0)"
definition isReadOnly :: "topic \<Rightarrow> bool" where
  "isReadOnly t = (t_status t AND topicStatusReadOnly \<noteq> 0)"
definition isLoaded :: "topic \<Rightarrow> bool" where
  "isLoaded t = (t_status t AND topicStatusLoaded \<noteq> 0)"
definition isDeleted :: "topic \<Rightarrow> bool" where
  "isDeleted t = (t_status t AND topicStatusMarkedDeleted \<noteq> 0)"

section \<open>Users of a topic\<close>

definition pud_of :: "topic \<Rightarrow> uid \<Rightarrow> perUserData" where
  "pud_of t u = (case map_of (t_perUser t) u of None \<Rightarrow> zero_pud | Some p \<Rightarrow> p)"

definition has_pud :: "topic \<Rightarrow> uid \<Rightarrow> bool" where
  "has_pud t u = (map_of (t_perUser t) u \<noteq> None)"

definition set_pud :: "uid \<Rightarrow> perUserData \<Rightarrow> topic \<Rightarrow> topic" where
  "set_pud u p t = t\<lparr>t_perUser := AList.update u p (t_perUser t)\<rparr>"

definition del_pud :: "uid \<Rightarrow> topic \<Rightarrow> topic" where
  "del_pud u t = t\<lparr>t_perUser := AList.delete u (t_perUser t)\<rparr>"

definition getPerUserAcs :: "topic \<Rightarrow> uid \<Rightarrow> access_mode \<times> access_mode" where
  "getPerUserAcs t u =
     (if uid_IsZero u then (t_modeWantUnion t, t_modeGivenUnion t)
      else (pud_modeWant (pud_of t u), pud_modeGiven (pud_of t u)))"

fun union_loop :: "(uid \<times> perUserData) list \<Rightarrow> access_mode \<times> access_mode \<Rightarrow> access_mode \<times> access_mode" where
  "union_loop [] acc = acc"
| "union_loop ((_, pud) # rest) (wantUnion, givenUnion) =
     (if pud_isChan pud then union_loop rest (wantUnion, givenUnion)
      else union_loop rest (wantUnion OR pud_modeWant pud, givenUnion OR pud_modeGiven pud))"

definition computePerUserAcsUnion :: "topic \<Rightarrow> topic" where
  "computePerUserAcsUnion t =
     (let (wantUnion, givenUnion) = union_loop (t_perUser t) (ModeNone, ModeNone);
          (wantUnion, givenUnion) =
            (if t_isChan t then (wantUnion OR ModeCChnReader, givenUnion OR ModeCChnReader)
             else (wantUnion, givenUnion))
      in t\<lparr>t_modeWantUnion := wantUnion, t_modeGivenUnion := givenUnion\<rparr>)"

definition userIsReader :: "topic \<Rightarrow> uid \<Rightarrow> bool" where
  "userIsReader t u = (let (want, given) = getPerUserAcs t u in IsReader (given AND want))"

text \<open>\<open>what\<close>, \<open>FilterIn\<close> and \<open>FilterOut\<close> are the fields of the presence message.\<close>

definition passesPresenceFilters :: "topic \<Rightarrow> string \<Rightarrow> access_mode \<Rightarrow> access_mode \<Rightarrow> uid \<Rightarrow> bool" where
  "passesPresenceFilters t what filterIn filterOut u =
     (let (want, given) = getPerUserAcs t u; mode = given AND want in
      (IsPresencer mode \<or> what = ''gone'' \<or> what = ''acs'') \<and>
      (filterIn = 0 \<or> mode AND filterIn \<noteq> 0) \<and> (filterOut = 0 \<or> mode AND filterOut = 0))"

definition original :: "topic \<Rightarrow> uid \<Rightarrow> string option" where
  "original t u =
     (if t_cat t = TopicCatP2P then map_option pud_topicName (map_of (t_perUser t) u)
      else if t_cat t = TopicCatGrp \<and> t_isChan t \<and> pud_isChan (pud_of t u) then Some (GrpToChn (t_xoriginal t))
      else Some (t_xoriginal t))"

definition p2pOtherUser :: "topic \<Rightarrow> uid \<Rightarrow> uid option" where
  "p2pOtherUser t u =
     (if t_cat t = TopicCatP2P
      then map_option fst (find (\<lambda>(u2, _). uid_Compare u2 u \<noteq> 0) (t_perUser t))
      else None)"

definition subsCount :: "topic \<Rightarrow> int" where
  "subsCount t =
     (if t_cat t = TopicCatP2P then int (length (filter (\<lambda>(_, pud). \<not> pud_deleted pud) (t_perUser t)))
      else int (length (t_perUser t)))"

definition verifyChannelAccess :: "topic \<Rightarrow> string \<Rightarrow> store_error + bool" where
  "verifyChannelAccess t asTopic =
     (if \<not> IsChannel asTopic then Inr False else if t_isChan t then Inr True else Inl ErrNotFound)"

section \<open>Default access\<close>

definition LevelNone :: int where "LevelNone = 0"
definition LevelAnon :: int where "LevelAnon = 10"
definition LevelAuth :: int where "LevelAuth = 20"
definition LevelRoot :: int where "LevelRoot = 30"

definition selectAccessMode :: "int \<Rightarrow> access_mode \<Rightarrow> access_mode \<Rightarrow> access_mode \<Rightarrow> access_mode" where
  "selectAccessMode authLvl anonMode authMode rootMode =
     (if authLvl = LevelNone then ModeNone
      else if authLvl = LevelAnon then anonMode
      else if authLvl = LevelAuth then authMode
      else if authLvl = LevelRoot then rootMode
      else ModeNone)"

definition getDefaultAccess :: "tglobals \<Rightarrow> topic_cat \<Rightarrow> bool \<Rightarrow> bool \<Rightarrow> access_mode option" where
  "getDefaultAccess g cat authUser isChan =
     (if \<not> authUser then Some ModeNone
      else case cat of
             TopicCatP2P \<Rightarrow> Some (g_typesModeCP2P g)
           | TopicCatFnd \<Rightarrow> Some ModeNone
           | TopicCatGrp \<Rightarrow> Some (if isChan then ModeCChnWriter else ModeCPublic)
           | TopicCatMe \<Rightarrow> Some ModeCMeFnd
           | TopicCatSlf \<Rightarrow> Some ModeCSelf
           | _ \<Rightarrow> None)"

text \<open>Go evaluates the arguments of a call first, so the default of the category is computed whatever
  the level is.\<close>

definition accessFor :: "tglobals \<Rightarrow> topic \<Rightarrow> int \<Rightarrow> access_mode option" where
  "accessFor g t authLvl =
     map_option (selectAccessMode authLvl (t_accessAnon t) (t_accessAuth t)) (getDefaultAccess g (t_cat t) True False)"

section \<open>Official topics\<close>

definition isOfficialTopic :: "topic \<Rightarrow> bool" where
  "isOfficialTopic t = (case t_official t of None \<Rightarrow> False | Some p \<Rightarrow> op_Official p)"

definition isOfficialReadOnlyChannel :: "topic \<Rightarrow> bool" where
  "isOfficialReadOnlyChannel t =
     (isOfficialTopic t \<and> t_isChan t \<and> (case t_official t of None \<Rightarrow> False | Some p \<Rightarrow> op_ScaleClass p = ''normal''))"

definition isOfficialLargeGroup :: "topic \<Rightarrow> bool" where
  "isOfficialLargeGroup t =
     (case t_official t of None \<Rightarrow> False | Some p \<Rightarrow> op_Official p \<and> op_ScaleClass p = ''large'' \<and> \<not> t_isChan t)"

section \<open>Sessions of a topic\<close>

definition sess_target :: "sess_table \<Rightarrow> sref \<Rightarrow> sref" where
  "sess_target ss sess = (case si_multi (ss sess) of None \<Rightarrow> sess | Some m \<Rightarrow> m)"

definition is_multiplex :: "sess_table \<Rightarrow> sref \<Rightarrow> bool" where
  "is_multiplex ss s = (si_proto (ss s) = MULTIPLEX)"

definition is_proxy :: "sess_table \<Rightarrow> sref \<Rightarrow> bool" where
  "is_proxy ss s = (si_proto (ss s) = PROXY)"

definition addSession :: "sess_table \<Rightarrow> sref \<Rightarrow> uid \<Rightarrow> bool \<Rightarrow> topic \<Rightarrow> topic" where
  "addSession ss sess asUid isChanSub t =
     (let s = sess_target ss sess in
      case map_of (t_sessions t) s of
        Some pssd \<Rightarrow>
          if is_multiplex ss s \<and> \<not> si_background (ss sess)
          then t\<lparr>t_sessions := AList.update s (pssd\<lparr>pssd_muids := pssd_muids pssd @ [asUid]\<rparr>) (t_sessions t)\<rparr>
          else t
      | None \<Rightarrow>
          let pssd =
            (if is_multiplex ss s then
               (if si_background (ss sess) then zero_pssd
                else \<lparr>pssd_uid = 0, pssd_isChanSub = isChanSub, pssd_muids = [asUid]\<rparr>)
             else \<lparr>pssd_uid = asUid, pssd_isChanSub = isChanSub, pssd_muids = []\<rparr>)
          in t\<lparr>t_sessions := AList.update s pssd (t_sessions t)\<rparr>)"

text \<open>The index of the first element equal to \<open>x\<close>, and removal by overwriting it with the last one.\<close>

fun index_of :: "'a \<Rightarrow> 'a list \<Rightarrow> nat option" where
  "index_of x [] = None"
| "index_of x (y # ys) = (if y = x then Some 0 else map_option Suc (index_of x ys))"

definition swap_remove :: "nat \<Rightarrow> 'a list \<Rightarrow> 'a list" where
  "swap_remove i xs = butlast (xs[i := last xs])"

definition remSession :: "sess_table \<Rightarrow> sref \<Rightarrow> uid \<Rightarrow> topic \<Rightarrow> perSessionData option \<times> bool \<times> topic" where
  "remSession ss sess asUid t =
     (let s = sess_target ss sess in
      case map_of (t_sessions t) s of
        None \<Rightarrow> (None, False, t)
      | Some pssd \<Rightarrow>
          if pssd_uid pssd = asUid \<or> uid_IsZero asUid
          then (Some pssd, True, t\<lparr>t_sessions := AList.delete s (t_sessions t)\<rparr>)
          else
            (case index_of asUid (pssd_muids pssd) of
               None \<Rightarrow> (None, False, t)
             | Some i \<Rightarrow>
                 let pssd' = pssd\<lparr>pssd_muids := swap_remove i (pssd_muids pssd)\<rparr> in
                 if pssd_muids pssd' = []
                 then (Some pssd', True, t\<lparr>t_sessions := AList.delete s (t_sessions t)\<rparr>)
                 else (Some pssd', False, t\<lparr>t_sessions := AList.update s pssd' (t_sessions t)\<rparr>)))"

definition isOnline :: "sess_table \<Rightarrow> topic \<Rightarrow> bool" where
  "isOnline ss t =
     list_ex (\<lambda>(s, pssd). (is_multiplex ss s \<and> pssd_muids pssd \<noteq> []) \<or> \<not> si_background (ss s)) (t_sessions t)"

section \<open>Effects\<close>

datatype reply =
    ErrPermissionDeniedReply | ErrMalformedReply | ErrUnknownReply | ErrPolicyReply | ErrUserNotFoundReply
  | ErrNotFoundReply | ErrLockedReply | ErrOperationNotAllowedReply | ErrServiceUnavailableReply
  | ErrCallBusyReply | ErrNotImplementedReply | ErrTooManyRequestsReply int
  | InfoNoActionReply | InfoUseOtherReply string | InfoAlreadySubscribed
  | NoErrReply | NoErrAcceptedReply "(string \<times> any) list" | NoErrParamsReply "(string \<times> any) list"
  | NoErrDeliveredReply "(string \<times> any) list"

record presParams =
  pp_userAgent :: string
  pp_seqID :: int
  pp_delID :: int
  pp_delSeq :: "range list"
  pp_actor :: string
  pp_target :: string
  pp_dWant :: string
  pp_dGiven :: string

definition nilPresParams :: presParams where
  "nilPresParams = \<lparr>pp_userAgent = [], pp_seqID = 0, pp_delID = 0, pp_delSeq = [], pp_actor = [], pp_target = [],
     pp_dWant = [], pp_dGiven = []\<rparr>"

record presFilters =
  pf_filterIn :: access_mode
  pf_filterOut :: access_mode
  pf_singleUser :: string
  pf_excludeUser :: string

definition nilPresFilters :: presFilters where
  "nilPresFilters = \<lparr>pf_filterIn = 0, pf_filterOut = 0, pf_singleUser = [], pf_excludeUser = []\<rparr>"

datatype notice =
    PresSubsOnline string string presParams presFilters string
  | PresSubsOnlineDirect string presParams presFilters string
  | PresSubsOffline string presParams presFilters presFilters string bool
  | PresSingleUserOffline uid access_mode string presParams string bool
  | PresSingleUserOfflineOffline uid string string presParams string
  | PresUsersOfInterest string string
  | PresPubMessageCount uid access_mode int int string
  | PresPubMessageDelete uid access_mode int "range list" string
  | InfoSubsOffline uid string int string

datatype plg_action = PlgActCreate | PlgActUpd | PlgActDel

text \<open>The receipt of a stored message: the recipients with their sessions online and whether their count of
  unread messages grows, and the push topic.\<close>

record push_receipt =
  pr_To :: "(uid \<times> int \<times> bool) list"
  pr_Channel :: string
  pr_data :: "any message"

datatype push_event =
    PushP2PSub uid uid access_mode access_mode | PushGroupSub uid | PushReadRcpt uid int | PushData push_receipt

text \<open>A message or a note on its way to a session: the name of the topic and of the sender as shown there.\<close>

datatype out_msg = OutData string string "any message" | OutInfo string string string int

datatype teffect =
    Reply reply
  | Queue sref out_msg
  | PluginMessage "any message" plg_action
  | RemoveScheduled
  | StatsInc string
  | StopKillTimer
  | ResetKillTimer
  | PluginTopic plg_action
  | Notice notice
  | ChannelSub uid string bool
  | UsersRegister uid bool
  | UsersUpdateUnread uid int bool
  | PluginSubscription subscription plg_action
  | Evicted sref string bool uid
  | DetachSession sref
  | SendPush push_event
  | HubUnreg string
  | AddSub sref
  | DelSub sref
  | UserAgentUpdate string
  | UpdateLastSeen uid string go_time
  | LoadContacts uid
  | FndRemovePublic sref
  | StoreError store_error

record tsys =
  sy_topic :: topic
  sy_db :: subs_db
  sy_log :: "teffect list"

definition emit :: "teffect \<Rightarrow> tsys \<Rightarrow> tsys" where
  "emit e s = s\<lparr>sy_log := sy_log s @ [e]\<rparr>"

definition on_topic :: "(topic \<Rightarrow> topic) \<Rightarrow> tsys \<Rightarrow> tsys" where
  "on_topic f s = s\<lparr>sy_topic := f (sy_topic s)\<rparr>"

lemma tsys_simps [simp]:
  "sy_topic (emit e s) = sy_topic s" "sy_db (emit e s) = sy_db s" "sy_log (emit e s) = sy_log s @ [e]"
  "sy_topic (on_topic f s) = f (sy_topic s)" "sy_db (on_topic f s) = sy_db s" "sy_log (on_topic f s) = sy_log s"
  by (simp_all add: emit_def on_topic_def)

section \<open>Push topics\<close>

definition pushTopicSubUnsub :: "uid \<Rightarrow> bool \<Rightarrow> tsys \<Rightarrow> tsys" where
  "pushTopicSubUnsub u sub s =
     (let t = sy_topic s in
      if t_isChan t then emit (ChannelSub u (GrpToChn (t_name t)) (\<not> sub)) s
      else if isOfficialLargeGroup t then emit (ChannelSub u (t_name t) (\<not> sub)) s
      else s)"

definition channelSubUnsub :: "uid \<Rightarrow> bool \<Rightarrow> tsys \<Rightarrow> tsys" where
  "channelSubUnsub u sub s = pushTopicSubUnsub u sub s"

section \<open>Notifications of a changed subscription\<close>

definition mode_delta :: "access_mode \<Rightarrow> access_mode \<Rightarrow> string" where
  "mode_delta old new =
     (if IsDefined new then
        (if IsDefined old \<and> \<not> IsZero old then Delta old new else acs_String new)
      else acs_String ModeNone)"

definition acs_params :: "uid \<Rightarrow> uid \<Rightarrow> access_mode \<Rightarrow> access_mode \<Rightarrow> access_mode \<Rightarrow> access_mode \<Rightarrow> presParams" where
  "acs_params u actor oldWant oldGiven newWant newGiven =
     nilPresParams\<lparr>pp_target := UserId u, pp_actor := UserId actor,
       pp_dWant := mode_delta oldWant newWant, pp_dGiven := mode_delta oldGiven newGiven\<rparr>"

definition sub_removed :: "topic \<Rightarrow> uid \<Rightarrow> bool \<Rightarrow> access_mode \<Rightarrow> presFilters \<Rightarrow> string \<Rightarrow> notice list option" where
  "sub_removed t u isChan newMode filterSharers skip =
     (if t_cat t = TopicCatP2P then
        (case p2pOtherUser t u of
           None \<Rightarrow> None
         | Some uid2 \<Rightarrow>
             Some [PresSingleUserOffline u newMode ''gone'' nilPresParams skip False,
                   PresSingleUserOfflineOffline uid2 (UserId u) ''off'' nilPresParams []])
      else if t_cat t = TopicCatGrp \<and> \<not> isChan then
        Some [PresSubsOnline ''off'' (UserId u) nilPresParams filterSharers skip,
              PresSingleUserOfflineOffline u (t_name t) ''gone'' nilPresParams skip]
      else Some [])"

definition sub_muted :: "topic \<Rightarrow> uid \<Rightarrow> bool \<Rightarrow> access_mode \<Rightarrow> access_mode \<Rightarrow> notice list option" where
  "sub_muted t u isChan oldMode newMode =
     (if \<not> IsPresencer newMode \<and> IsPresencer oldMode then
        (case (if t_cat t = TopicCatP2P then map_option UserId (p2pOtherUser t u)
               else if t_cat t = TopicCatGrp \<and> \<not> isChan then Some (t_name t)
               else Some []) of
           None \<Rightarrow> None
         | Some source \<Rightarrow>
             Some (if source \<noteq> [] then [PresSingleUserOfflineOffline u source ''off+dis'' nilPresParams []] else []))
      else if IsPresencer newMode \<and> \<not> IsPresencer oldMode then
        Some (if t_cat t = TopicCatGrp \<and> \<not> isChan
              then [PresSingleUserOffline u newMode ''?unkn+en'' nilPresParams [] False]
              else if t_cat t = TopicCatMe then [PresUsersOfInterest ''on+en'' (t_userAgent t)]
              else [])
      else Some [])"

definition notifySubChange ::
  "uid \<Rightarrow> uid \<Rightarrow> bool \<Rightarrow> access_mode \<Rightarrow> access_mode \<Rightarrow> access_mode \<Rightarrow> access_mode \<Rightarrow> string \<Rightarrow> tsys \<Rightarrow> tsys option" where
  "notifySubChange u actor isChan oldWant oldGiven newWant newGiven skip s =
     (let t = sy_topic s;
          unsub = (newWant = ModeUnset \<or> newGiven = ModeUnset);
          params = acs_params u actor oldWant oldGiven newWant newGiven;
          filterSharers = nilPresFilters\<lparr>pf_filterIn := ModeCSharer, pf_excludeUser := UserId u\<rparr>;
          online = [PresSubsOnline ''acs'' (UserId u) params filterSharers skip];
          offline = (if BetterThan newWant newGiven \<or> oldWant = ModeNone
                     then [PresSubsOffline ''acs'' params filterSharers filterSharers skip True] else [])
      in case (if unsub then sub_removed t u isChan (newWant AND newGiven) filterSharers skip
               else map_option (\<lambda>ns. ns @
                      [PresSubsOnlineDirect ''acs'' params (nilPresFilters\<lparr>pf_singleUser := UserId u\<rparr>) skip,
                       PresSingleUserOffline u (newWant AND newGiven) ''acs'' params skip True])
                    (sub_muted t u isChan (oldWant AND oldGiven) (newWant AND newGiven))) of
           None \<Rightarrow> None
         | Some ns \<Rightarrow> Some (s\<lparr>sy_log := sy_log s @ map Notice (online @ offline @ ns)\<rparr>))"

section \<open>Evicting users\<close>

fun evict_sessions :: "sess_table \<Rightarrow> uid \<Rightarrow> bool \<Rightarrow> string \<Rightarrow> string \<Rightarrow> sref list \<Rightarrow> tsys \<Rightarrow> tsys" where
  "evict_sessions ss u unsub skip orig [] s = s"
| "evict_sessions ss u unsub skip orig (sess # rest) s =
     (case remSession ss sess u (sy_topic s) of
        (None, _, _) \<Rightarrow> evict_sessions ss u unsub skip orig rest s
      | (Some _, removed, t') \<Rightarrow>
          let s1 = s\<lparr>sy_topic := t'\<rparr>;
              s2 = (if removed then emit (DetachSession sess) s1 else s1);
              s3 = (if si_sid (ss sess) \<noteq> skip then emit (Evicted sess orig unsub u) s2 else s2)
          in evict_sessions ss u unsub skip orig rest s3)"

definition evictUser :: "sess_table \<Rightarrow> uid \<Rightarrow> bool \<Rightarrow> string \<Rightarrow> tsys \<Rightarrow> tsys option" where
  "evictUser ss u unsub skip s =
     (let t = sy_topic s; pud = pud_of t u; ok = has_pud t u in
      case original t u of
        None \<Rightarrow> None
      | Some orig \<Rightarrow>
          let s1 =
            (if unsub then
               (if t_cat t = TopicCatP2P then on_topic (set_pud u (pud\<lparr>pud_online := 0, pud_deleted := True\<rparr>)) s
                else if ok then
                  (let s' = on_topic (computePerUserAcsUnion \<circ> del_pud u) s in
                   if \<not> pud_isChan pud then emit (UsersRegister u False) s' else s')
                else s)
             else if ok then
               (if pud_isChan pud then on_topic (del_pud u) s
                else on_topic (set_pud u (pud\<lparr>pud_online := 0\<rparr>)) s)
             else s)
          in Some (evict_sessions ss u unsub skip orig (map fst (t_sessions (sy_topic s1))) s1))"

definition evictColdSubscriber :: "uid \<Rightarrow> tsys \<Rightarrow> tsys" where
  "evictColdSubscriber u s =
     (let t = sy_topic s in
      if \<not> isOfficialLargeGroup t \<or> uid_IsZero u then s
      else if \<not> has_pud t u \<or> pud_online (pud_of t u) > 0 then s
      else
        let mode = pud_modeWant (pud_of t u) AND pud_modeGiven (pud_of t u) in
        if IsOwner mode \<or> IsAdmin mode then s
        else
          emit (UsersRegister u False)
            (on_topic (\<lambda>t. computePerUserAcsUnion
               ((del_pud u t)\<lparr>t_officialMemberRefreshed := AList.delete u (t_officialMemberRefreshed t)\<rparr>)) s))"

end
