(* ===== verification/TopicRoles.thy ===== *)
theory TopicRoles
  imports AccessMode Ranges
begin

text \<open>
  Roles and the transition of a user's own subscription: the preset modes of the named roles and the
  role shown for a mode (\<^verbatim>\<open>internal/server/topic_roles.go\<close>), and the modes that follow from a user's
  request on an existing subscription (\<^verbatim>\<open>topic_sub_transition.go\<close>).
\<close>

section \<open>Roles\<close>

record topicRoleAccess =
  ra_Name :: string
  ra_Mode :: access_mode
  ra_ChannelSub :: bool

datatype role_error = InvalidChannelRole | InvalidGroupRole

definition member_mode :: access_mode where
  "member_mode = ModeJoin OR ModeRead OR ModeWrite OR ModePres"

definition resolveTopicRole :: "string \<Rightarrow> bool \<Rightarrow> role_error + topicRoleAccess" where
  "resolveTopicRole role0 channel =
     (let role = ToLower (TrimSpace role0) in
      if role = ''admin'' then Inr \<lparr>ra_Name = role, ra_Mode = ModeCFull AND NOT ModeOwner, ra_ChannelSub = False\<rparr>
      else if role = ''banned'' then Inr \<lparr>ra_Name = role, ra_Mode = ModeNone, ra_ChannelSub = channel\<rparr>
      else if channel then
        (if role = ''publisher'' then Inr \<lparr>ra_Name = role, ra_Mode = member_mode, ra_ChannelSub = False\<rparr>
         else if role = ''subscriber'' \<or> role = ''readonly''
         then Inr \<lparr>ra_Name = ''subscriber'', ra_Mode = ModeCChnReader, ra_ChannelSub = True\<rparr>
         else Inl InvalidChannelRole)
      else if role = ''member'' then Inr \<lparr>ra_Name = role, ra_Mode = member_mode, ra_ChannelSub = False\<rparr>
      else if role = ''readonly'' then Inr \<lparr>ra_Name = role, ra_Mode = ModeCChnReader, ra_ChannelSub = False\<rparr>
      else Inl InvalidGroupRole)"

definition topicRoleFromAccess :: "access_mode \<Rightarrow> bool \<Rightarrow> bool \<Rightarrow> string" where
  "topicRoleFromAccess mode channel channelSub =
     (if \<not> IsJoiner mode then ''banned''
      else if IsOwner mode then ''owner''
      else if channel \<and> channelSub then ''subscriber''
      else if IsAdmin mode then ''admin''
      else if channel \<and> IsWriter mode then ''publisher''
      else if channel then ''readonly''
      else if IsWriter mode then ''member''
      else ''readonly'')"

lemma bit_role_modes [simp, mode_bits]:
  "bit member_mode n \<longleftrightarrow> n < 4" "bit ModeCChnReader n \<longleftrightarrow> n = 0 \<or> n = 1 \<or> n = 3"
  "bit ModeCFull n \<longleftrightarrow> n < 8"
  unfolding member_mode_def ModeCChnReader_def ModeCFull_def
  by (auto simp: bit_simps less_Suc_eq numeral_eq_Suc)

lemma bit_ModeNone [simp]: "\<not> bit ModeNone n" "\<not> bit (ModeNone :: access_mode) n"
  by (simp_all add: ModeNone_def)

lemmas role_tests = mode_tests IsAdmin_def bit_simps

text \<open>The role read off the modes that a role stands for is that role; a role never makes an owner, and
  a channel subscription never writes or administers. What is stored is well formed.\<close>

lemma role_of_resolved:
  assumes "resolveTopicRole role channel = Inr a"
  shows "topicRoleFromAccess (ra_Mode a) channel (ra_ChannelSub a) = ra_Name a"
  using assms
  by (auto simp: resolveTopicRole_def Let_def topicRoleFromAccess_def role_tests split: if_splits)

lemma resolved_mode:
  assumes "resolveTopicRole role channel = Inr a"
  shows "acs_wf (ra_Mode a)" "\<not> IsOwner (ra_Mode a)"
    "ra_ChannelSub a \<Longrightarrow> channel \<and> \<not> IsWriter (ra_Mode a) \<and> \<not> IsAdmin (ra_Mode a)"
    "IsAdmin (ra_Mode a) \<longleftrightarrow> ra_Name a = ''admin''"
    "ra_Name a = ''banned'' \<longleftrightarrow> ra_Mode a = ModeNone"
proof -
  have ne: "ModeCFull AND NOT ModeOwner \<noteq> ModeNone" "member_mode \<noteq> ModeNone" "ModeCChnReader \<noteq> ModeNone"
    by (simp_all add: member_mode_def ModeCFull_def ModeCChnReader_def ModeNone_def mode_consts)
  show "acs_wf (ra_Mode a)" using assms
    by (auto simp: resolveTopicRole_def Let_def acs_wf_bits bit_simps split: if_splits)
  show "\<not> IsOwner (ra_Mode a)"
    "ra_ChannelSub a \<Longrightarrow> channel \<and> \<not> IsWriter (ra_Mode a) \<and> \<not> IsAdmin (ra_Mode a)"
    "IsAdmin (ra_Mode a) \<longleftrightarrow> ra_Name a = ''admin''"
    using assms by (auto simp: resolveTopicRole_def Let_def role_tests split: if_splits)
  show "ra_Name a = ''banned'' \<longleftrightarrow> ra_Mode a = ModeNone"
    using assms ne by (auto simp: resolveTopicRole_def Let_def split: if_splits)
qed

section \<open>Changing one's own subscription\<close>

record selfSubscriptionTransitionInput =
  in_category :: topic_cat
  in_isTopicOwner :: bool
  in_oldWant :: access_mode
  in_oldGiven :: access_mode
  in_requested :: access_mode
  in_defaultAccess :: access_mode
  in_p2pAccess :: access_mode

record selfSubscriptionTransition =
  tr_want :: access_mode
  tr_given :: access_mode
  tr_ownerChange :: bool

datatype transition_error = OwnerCannotStepDown | NotOwner

text \<open>First the granted mode and whether ownership changes hands, or an error.\<close>

definition plan_given :: "selfSubscriptionTransitionInput \<Rightarrow> transition_error + access_mode \<times> bool" where
  "plan_given i =
     (let requested = in_requested i; given = in_oldGiven i in
      if in_isTopicOwner i \<and> (\<not> IsOwner requested \<or> \<not> IsJoiner requested) then Inl OwnerCannotStepDown
      else if IsOwner given then
        Inr (if IsOwner requested \<and> \<not> BetterEqual given requested then given OR requested else given,
             IsOwner requested \<and> \<not> IsOwner (in_oldWant i))
      else if IsOwner requested then Inl NotOwner
      else if in_category i = TopicCatGrp \<and> IsAdmin given \<and> IsAdmin requested then
        (let grantable = requested AND NOT ModeDelete in
         Inr (if \<not> BetterEqual given grantable then given OR grantable else given, False))
      else Inr (given, False))"

definition plan_requested :: "selfSubscriptionTransitionInput \<Rightarrow> access_mode" where
  "plan_requested i =
     (let requested = in_requested i in
      case in_category i of
        TopicCatP2P \<Rightarrow> (requested AND in_p2pAccess i) OR ModeApprove
      | TopicCatSys \<Rightarrow> requested AND ((requested AND ModeCSys) OR ModeWrite)
      | _ \<Rightarrow> requested)"

definition plan_want :: "access_mode \<Rightarrow> access_mode \<Rightarrow> selfSubscriptionTransitionInput \<Rightarrow> access_mode" where
  "plan_want requested given i =
     (if requested = ModeUnset then
        (if \<not> IsJoiner (in_oldWant i) then given OR in_defaultAccess i else in_oldWant i)
      else requested)"

definition planExistingSelfSubscription ::
  "selfSubscriptionTransitionInput \<Rightarrow> transition_error + selfSubscriptionTransition" where
  "planExistingSelfSubscription i =
     (if in_requested i \<noteq> ModeUnset then
        (case plan_given i of
           Inl e \<Rightarrow> Inl e
         | Inr (given, ownerChange) \<Rightarrow>
             Inr \<lparr>tr_want = plan_want (plan_requested i) given i, tr_given = given, tr_ownerChange = ownerChange\<rparr>)
      else
        Inr \<lparr>tr_want = plan_want ModeUnset (in_oldGiven i) i, tr_given = in_oldGiven i, tr_ownerChange = False\<rparr>)"

lemma plan_given_cases:
  assumes "plan_given i = Inr (given, oc)"
  shows "IsOwner given = IsOwner (in_oldGiven i)"
    "bit (in_oldGiven i) n \<Longrightarrow> bit given n"
    "bit given n \<Longrightarrow> \<not> bit (in_oldGiven i) n \<Longrightarrow>
       IsAdmin (in_oldGiven i) \<and> bit (in_requested i) n \<and> (n = 6 \<longrightarrow> IsOwner (in_oldGiven i))"
    "oc \<longleftrightarrow> IsOwner (in_oldGiven i) \<and> IsOwner (in_requested i) \<and> \<not> IsOwner (in_oldWant i)"
    "in_isTopicOwner i \<Longrightarrow> IsOwner (in_requested i) \<and> IsJoiner (in_requested i)"
    "IsOwner (in_requested i) \<Longrightarrow> IsOwner (in_oldGiven i)"
  using assms
  by (auto simp: plan_given_def Let_def role_tests split: if_splits)

lemma plan_requested_grp: "in_category i = TopicCatGrp \<Longrightarrow> plan_requested i = in_requested i"
  by (simp add: plan_requested_def)

text \<open>On the system topic the request is cut down to the modes of that topic; the write permission is
  kept but not added.\<close>

lemma plan_requested_sys:
  "in_category i = TopicCatSys \<Longrightarrow> plan_requested i = in_requested i AND ModeCSys"
  by (auto simp: plan_requested_def Let_def ModeCSys_def word64_eq_iff bit_simps)

lemma plan_Inr:
  assumes "planExistingSelfSubscription i = Inr r"
  obtains "in_requested i = ModeUnset" "tr_given r = in_oldGiven i" "\<not> tr_ownerChange r"
      "tr_want r = (if \<not> IsJoiner (in_oldWant i) then in_oldGiven i OR in_defaultAccess i else in_oldWant i)"
  | "in_requested i \<noteq> ModeUnset" "plan_given i = Inr (tr_given r, tr_ownerChange r)"
      "tr_want r = plan_want (plan_requested i) (tr_given r) i"
  using assms
  by (auto simp: planExistingSelfSubscription_def plan_want_def split: if_splits sum.splits prod.splits)

text \<open>The transition in a group: what a user may reach by asking for it.\<close>

lemma plan_group:
  assumes "planExistingSelfSubscription i = Inr r" "in_category i = TopicCatGrp"
  shows "IsOwner (tr_given r) = IsOwner (in_oldGiven i)"
    and "bit (in_oldGiven i) n \<Longrightarrow> bit (tr_given r) n"
    and "bit (tr_given r) n \<Longrightarrow> \<not> bit (in_oldGiven i) n \<Longrightarrow>
       IsAdmin (in_oldGiven i) \<and> bit (in_requested i) n \<and> (n = 6 \<longrightarrow> IsOwner (in_oldGiven i))"
    and "in_isTopicOwner i \<Longrightarrow> in_requested i \<noteq> ModeUnset \<Longrightarrow> IsOwner (tr_want r) \<and> IsJoiner (tr_want r)"
    and "tr_ownerChange r \<Longrightarrow> IsOwner (tr_want r) \<and> IsOwner (tr_given r) \<and> \<not> IsOwner (in_oldWant i)"
    and "IsOwner (tr_want r AND tr_given r) \<Longrightarrow> \<not> IsOwner (in_defaultAccess i) \<Longrightarrow>
       tr_ownerChange r \<or> IsOwner (in_oldWant i AND in_oldGiven i) \<or>
       (in_requested i = ModeUnset \<and> \<not> IsJoiner (in_oldWant i) \<and> IsOwner (in_oldGiven i))"
proof -
  note g = plan_given_cases and w = plan_want_def plan_requested_grp [OF assms(2)]
  show "IsOwner (tr_given r) = IsOwner (in_oldGiven i)" "bit (in_oldGiven i) n \<Longrightarrow> bit (tr_given r) n"
    "bit (tr_given r) n \<Longrightarrow> \<not> bit (in_oldGiven i) n \<Longrightarrow>
       IsAdmin (in_oldGiven i) \<and> bit (in_requested i) n \<and> (n = 6 \<longrightarrow> IsOwner (in_oldGiven i))"
    by (rule plan_Inr [OF assms(1)]; force dest: g)+
  show "in_isTopicOwner i \<Longrightarrow> in_requested i \<noteq> ModeUnset \<Longrightarrow> IsOwner (tr_want r) \<and> IsJoiner (tr_want r)"
    by (rule plan_Inr [OF assms(1)]; auto simp: w dest: g)
  show "tr_ownerChange r \<Longrightarrow> IsOwner (tr_want r) \<and> IsOwner (tr_given r) \<and> \<not> IsOwner (in_oldWant i)"
    by (rule plan_Inr [OF assms(1)]; auto simp: w dest: g)
  show "IsOwner (tr_want r AND tr_given r) \<Longrightarrow> \<not> IsOwner (in_defaultAccess i) \<Longrightarrow>
       tr_ownerChange r \<or> IsOwner (in_oldWant i AND in_oldGiven i) \<or>
       (in_requested i = ModeUnset \<and> \<not> IsJoiner (in_oldWant i) \<and> IsOwner (in_oldGiven i))"
    by (rule plan_Inr [OF assms(1)]; (frule g(1), frule g(4))?; auto simp: w role_tests split: if_splits)
qed

end
