(* ===== verification/TopicMembers.thy ===== *)
theory TopicMembers
  imports TopicState TopicRoles "HOL-Library.Monad_Syntax"
begin

text \<open>
  The operations that change who belongs to a topic and with which permissions: giving another user a
  role (\<^verbatim>\<open>topic_roles.go\<close>), inviting or changing another user (\<^verbatim>\<open>topic_sub_other.go\<close>), a user's own
  subscription (\<^verbatim>\<open>topic_sub_self.go\<close>), removing a member (\<^verbatim>\<open>topic_meta_delete.go\<close>) and leaving for good
  (\<^verbatim>\<open>topic_sub_leave.go\<close>).

  Each works on the topic, the tables of subscriptions and the log of effects. Every call of the store
  may fail, as the argument \<open>f\<close> says. \<open>None\<close> is a panic; otherwise the result is an error or, if the
  modes changed, the new modes, together with the new state.
\<close>

section \<open>Results\<close>

datatype tsub_error =
    EStore store_error | EAcs acs_error | ERole role_error | ETransition transition_error
  | OfficialOnly | NotGroup | NotAdmin | Suspended | OnlyOwnerPromotes | CannotGrant | OwnerImmutable
  | AdminImmutable | TooManyMembers | NoSuchUser | UserSuspended | NotSharer | ChannelReader
  | SharerSetsMode | OnlyOwnerTransfers | OwnerBan | NoJoin | BadInvite | InviteUsedUp | SysNeedsRoot
  | Banned | OwnerLeaves | SelfDelete | P2PDelete | JoinPending | JoinProtected | JoinUnavailable

record msgAccessMode =
  am_Want :: string
  am_Given :: string
  am_Mode :: string
  am_Role :: string

type_synonym tresult = "((tsub_error + msgAccessMode option) \<times> tsys) option"

datatype store_call =
    CGet | CGetChan | CGetUser | CCreate | CUpdate | CDelete | CUndo | COwnerUpdate | COwnerChange

type_synonym faults = "store_call \<Rightarrow> store_error option"

definition refuse :: "tsub_error \<Rightarrow> reply \<Rightarrow> tsys \<Rightarrow> tresult" where
  "refuse e r s = Some (Inl e, emit (Reply r) s)"

definition set_db :: "subs_db \<Rightarrow> tsys \<Rightarrow> tsys" where
  "set_db db s = s\<lparr>sy_db := db\<rparr>"

lemma set_db_simps [simp]:
  "sy_topic (set_db db s) = sy_topic s" "sy_db (set_db db s) = db" "sy_log (set_db db s) = sy_log s"
  by (simp_all add: set_db_def)

definition eff_mode :: "perUserData \<Rightarrow> access_mode" where
  "eff_mode p = pud_modeGiven p AND pud_modeWant p"

definition access_msg :: "topic \<Rightarrow> perUserData \<Rightarrow> msgAccessMode" where
  "access_msg t p =
     \<lparr>am_Want = acs_String (pud_modeWant p), am_Given = acs_String (pud_modeGiven p),
      am_Mode = acs_String (eff_mode p), am_Role = topicRoleFromAccess (eff_mode p) (t_isChan t) (pud_isChan p)\<rparr>"

definition users_Get :: "db_err \<Rightarrow> uid \<Rightarrow> subs_db \<Rightarrow> store_error + user_row option" where
  "users_Get fault u db = (case fault of Some e \<Rightarrow> Inl e | None \<Rightarrow> Inr (sd_users db u))"

definition topics_OwnerChange :: "db_err \<Rightarrow> string \<Rightarrow> uid \<Rightarrow> subs_db \<Rightarrow> db_err \<times> subs_db" where
  "topics_OwnerChange fault topic newOwner db =
     (case fault of
        Some e \<Rightarrow> (Some e, db)
      | None \<Rightarrow> (None, db\<lparr>sd_owner := (sd_owner db)(topic := map_option (\<lambda>_. newOwner) (sd_owner db topic))\<rparr>))"

section \<open>Giving another user a role\<close>

definition role_guards :: "topic \<Rightarrow> uid \<Rightarrow> bool \<Rightarrow> string \<Rightarrow> (tsub_error \<times> reply) + topicRoleAccess" where
  "role_guards t asUid asChan role =
     (let hostMode = eff_mode (pud_of t asUid) in
      if isOfficialTopic t then Inl (OfficialOnly, ErrPermissionDeniedReply)
      else if t_cat t \<noteq> TopicCatGrp \<or> asChan then Inl (NotGroup, ErrPermissionDeniedReply)
      else if \<not> has_pud t asUid \<or> \<not> IsAdmin hostMode then Inl (NotAdmin, ErrPermissionDeniedReply)
      else if isReadOnly t then Inl (Suspended, ErrPermissionDeniedReply)
      else
        case resolveTopicRole role (t_isChan t) of
          Inl e \<Rightarrow> Inl (ERole e, ErrMalformedReply)
        | Inr requested \<Rightarrow>
            if ra_Name requested = ''admin'' \<and> t_owner t \<noteq> asUid
            then Inl (OnlyOwnerPromotes, ErrPermissionDeniedReply)
            else if t_owner t \<noteq> asUid \<and> \<not> BetterEqual hostMode (ra_Mode requested)
            then Inl (CannotGrant, ErrPermissionDeniedReply)
            else Inr requested)"

text \<open>The subscription the target has now, and whether it is one of a channel reader.\<close>

definition role_current :: "faults \<Rightarrow> topic \<Rightarrow> subs_db \<Rightarrow> uid \<Rightarrow> store_error + (subscription \<times> bool) option" where
  "role_current f t db target =
     (if has_pud t target then
        (let pud = pud_of t target in
         Inr (Some ((new_subscription target (if pud_isChan pud then GrpToChn (t_name t) else t_name t)
            (pud_modeWant pud) (pud_modeGiven pud) (pud_private pud))
              \<lparr>sub_DelId := pud_delID pud, sub_ReadSeqId := pud_readID pud, sub_RecvSeqId := pud_recvID pud\<rparr>,
            pud_isChan pud)))
      else
        case subs_Get (f CGet) (t_name t) target False db of
          Inl e \<Rightarrow> Inl e
        | Inr (Some current) \<Rightarrow> Inr (Some (current, False))
        | Inr None \<Rightarrow>
            if t_isChan t then
              (case subs_Get (f CGetChan) (GrpToChn (t_name t)) target False db of
                 Inl e \<Rightarrow> Inl e
               | Inr None \<Rightarrow> Inr None
               | Inr (Some current) \<Rightarrow> Inr (Some (current, True)))
            else Inr None)"

definition role_protect ::
  "topic \<Rightarrow> uid \<Rightarrow> topicRoleAccess \<Rightarrow> (subscription \<times> bool) option \<Rightarrow> tsub_error + topicRoleAccess" where
  "role_protect t asUid requested cur =
     (case cur of
        None \<Rightarrow> Inr requested
      | Some (current, currentIsChannel) \<Rightarrow>
          let currentMode = sub_ModeWant current AND sub_ModeGiven current in
          if IsOwner currentMode then Inl OwnerImmutable
          else if IsAdmin currentMode \<and> t_owner t \<noteq> asUid then Inl AdminImmutable
          else if ra_Name requested = ''banned'' then Inr (requested\<lparr>ra_ChannelSub := currentIsChannel\<rparr>)
          else Inr requested)"

definition role_noop :: "(subscription \<times> bool) option \<Rightarrow> string \<Rightarrow> topicRoleAccess \<Rightarrow> bool" where
  "role_noop cur targetTopic requested =
     (case cur of
        None \<Rightarrow> False
      | Some (c, _) \<Rightarrow> sub_Topic c = targetTopic \<and> sub_ModeWant c = ra_Mode requested \<and>
          sub_ModeGiven c = ra_Mode requested)"

text \<open>Writing the change to the store: the outcome, the new tables, and whether a subscriber was added.\<close>

definition role_store_new ::
  "tglobals \<Rightarrow> faults \<Rightarrow> go_time \<Rightarrow> topic \<Rightarrow> uid \<Rightarrow> string \<Rightarrow> topicRoleAccess \<Rightarrow> subs_db \<Rightarrow>
   ((tsub_error \<times> reply) option \<times> subs_db) option" where
  "role_store_new g f now t target targetTopic requested db =
     (if \<not> ra_ChannelSub requested \<and> \<not> isOfficialLargeGroup t \<and> subsCount t \<ge> g_maxSubscriberCount g
      then Some (Some (TooManyMembers, ErrPolicyReply), db)
      else
        case users_Get (f CGetUser) target db of
          Inl e \<Rightarrow> Some (Some (EStore e, ErrUnknownReply), db)
        | Inr None \<Rightarrow> Some (Some (NoSuchUser, ErrUserNotFoundReply), db)
        | Inr (Some user) \<Rightarrow>
            if ur_State user \<noteq> StateOK then Some (Some (UserSuspended, ErrPermissionDeniedReply), db)
            else
              (case subs_Create (f CCreate) now
                  [new_subscription target targetTopic (ra_Mode requested) (ra_Mode requested) None] db of
                 None \<Rightarrow> None
               | Some (Some e, db') \<Rightarrow> Some (Some (EStore e, ErrUnknownReply), db')
               | Some (None, db') \<Rightarrow> Some (None, db')))"

definition role_store_move ::
  "faults \<Rightarrow> go_time \<Rightarrow> uid \<Rightarrow> string \<Rightarrow> topicRoleAccess \<Rightarrow> subscription \<Rightarrow> subs_db \<Rightarrow>
   ((tsub_error \<times> reply) option \<times> subs_db) option" where
  "role_store_move f now target targetTopic requested current db =
     (case subs_Create (f CCreate) now
          [new_subscription target targetTopic (ra_Mode requested) (ra_Mode requested) (sub_Private current)] db of
        None \<Rightarrow> None
      | Some (Some e, db1) \<Rightarrow> Some (Some (EStore e, ErrUnknownReply), db1)
      | Some (None, db1) \<Rightarrow>
          (case subs_Delete (f CDelete) now (sub_Topic current) target db1 of
             None \<Rightarrow> None
           | Some (None, db2) \<Rightarrow> Some (None, db2)
           | Some (Some e, db2) \<Rightarrow>
               (case subs_Delete (f CUndo) now targetTopic target db2 of
                  None \<Rightarrow> None
                | Some (_, db3) \<Rightarrow> Some (Some (EStore e, ErrUnknownReply), db3))))"

definition role_store ::
  "tglobals \<Rightarrow> faults \<Rightarrow> go_time \<Rightarrow> topic \<Rightarrow> uid \<Rightarrow> string \<Rightarrow> topicRoleAccess \<Rightarrow> (subscription \<times> bool) option \<Rightarrow>
   subs_db \<Rightarrow> ((tsub_error \<times> reply) option \<times> subs_db) option" where
  "role_store g f now t target targetTopic requested cur db =
     (case cur of
        None \<Rightarrow> role_store_new g f now t target targetTopic requested db
      | Some (current, _) \<Rightarrow>
          if sub_Topic current = targetTopic then
            (case subs_Update (f CUpdate) now targetTopic target (set_modes (ra_Mode requested) (ra_Mode requested)) db of
               (Some e, db') \<Rightarrow> Some (Some (EStore e, ErrUnknownReply), db')
             | (None, db') \<Rightarrow> Some (None, db'))
          else role_store_move f now target targetTopic requested current db)"

text \<open>Applying the stored change to the topic.\<close>

definition role_pud :: "topicRoleAccess \<Rightarrow> perUserData \<Rightarrow> perUserData" where
  "role_pud requested p =
     p\<lparr>pud_modeWant := ra_Mode requested, pud_modeGiven := ra_Mode requested,
       pud_isChan := ra_ChannelSub requested, pud_deleted := False\<rparr>"

definition role_push :: "uid \<Rightarrow> topicRoleAccess \<Rightarrow> bool \<Rightarrow> tsys \<Rightarrow> tsys" where
  "role_push target requested currentIsChannel s =
     (let mode = ra_Mode requested;
          s1 = (if ra_ChannelSub requested then channelSubUnsub target (IsJoiner mode \<and> IsPresencer mode) s
                else if currentIsChannel then channelSubUnsub target False s else s)
      in if isOfficialLargeGroup (sy_topic s1) \<and> \<not> ra_ChannelSub requested
         then pushTopicSubUnsub target (IsJoiner mode \<and> IsReader mode \<and> IsPresencer mode) s1 else s1)"

definition role_plugin :: "uid \<Rightarrow> string \<Rightarrow> topicRoleAccess \<Rightarrow> bool \<Rightarrow> tsys \<Rightarrow> tsys" where
  "role_plugin target targetTopic requested created s =
     (let mode = ra_Mode requested;
          s1 = (if created \<and> \<not> ra_ChannelSub requested \<and> IsJoiner mode then emit (UsersRegister target True) s else s)
      in emit (PluginSubscription (new_subscription target targetTopic mode mode None)
           (if created then PlgActCreate else PlgActUpd)) s1)"

definition role_apply ::
  "sess_table \<Rightarrow> sref \<Rightarrow> uid \<Rightarrow> uid \<Rightarrow> string \<Rightarrow> topicRoleAccess \<Rightarrow> (subscription \<times> bool) option \<Rightarrow> tsys \<Rightarrow> tsys option" where
  "role_apply ss sess asUid target targetTopic requested cur s =
     (let t = sy_topic s;
          wasCached = has_pud t target;
          currentIsChannel = (case cur of None \<Rightarrow> False | Some (_, c) \<Rightarrow> c);
          (oldWant, oldGiven) =
            (case cur of None \<Rightarrow> (ModeUnset, ModeUnset) | Some (c, _) \<Rightarrow> (sub_ModeWant c, sub_ModeGiven c));
          moved = (wasCached \<and> currentIsChannel \<noteq> ra_ChannelSub requested);
          oldPud = (if moved then (pud_of t target)\<lparr>pud_online := 0\<rparr> else pud_of t target);
          mode = ra_Mode requested
      in do {
        s1 \<leftarrow> (if moved then evictUser ss target False [] s else Some s);
        let s2 = (if \<not> ra_ChannelSub requested \<or> wasCached
                  then on_topic (set_pud target (role_pud requested oldPud)) s1 else s1);
        s3 \<leftarrow> notifySubChange target asUid (ra_ChannelSub requested) oldWant oldGiven mode mode (si_sid (ss sess))
                (on_topic computePerUserAcsUnion s2);
        let s4 = role_push target requested currentIsChannel s3;
        s5 \<leftarrow> (if ra_Name requested = ''banned'' then evictUser ss target False [] s4 else Some s4);
        Some (role_plugin target targetTopic requested (cur = None) (evictColdSubscriber target s5))
      })"

definition setAnotherUserRole ::
  "tglobals \<Rightarrow> faults \<Rightarrow> go_time \<Rightarrow> sess_table \<Rightarrow> sref \<Rightarrow> uid \<Rightarrow> uid \<Rightarrow> bool \<Rightarrow> string \<Rightarrow> tsys \<Rightarrow> tresult" where
  "setAnotherUserRole g f now ss sess asUid target asChan role s =
     (let t = sy_topic s in
      case role_guards t asUid asChan role of
        Inl (e, r) \<Rightarrow> refuse e r s
      | Inr requested0 \<Rightarrow>
          (case role_current f t (sy_db s) target of
             Inl e \<Rightarrow> refuse (EStore e) ErrUnknownReply s
           | Inr cur \<Rightarrow>
               (case role_protect t asUid requested0 cur of
                  Inl e \<Rightarrow> refuse e ErrPermissionDeniedReply s
                | Inr requested \<Rightarrow>
                    let targetTopic = (if ra_ChannelSub requested then GrpToChn (t_name t) else t_name t) in
                    if role_noop cur targetTopic requested
                    then Some (Inr None, s)
                    else do {
                      (err, db') \<leftarrow> role_store g f now t target targetTopic requested cur (sy_db s);
                      let s1 = set_db db' s;
                      case err of
                        Some (e, r) \<Rightarrow> refuse e r s1
                      | None \<Rightarrow> do {
                          let s2 = (if cur = None then on_topic (\<lambda>t. t\<lparr>t_subCnt := t_subCnt t + 1\<rparr>) s1 else s1);
                          s3 \<leftarrow> role_apply ss sess asUid target targetTopic requested cur s2;
                          Some (Inr (Some (access_msg t (role_pud requested zero_pud))), s3)
                        }
                    })))"

section \<open>Inviting or changing another user\<close>

text \<open>The checks before anything is read or written; the result is the mode to give, \<open>ModeUnset\<close> if none
  was asked for.\<close>

definition other_guards :: "tglobals \<Rightarrow> topic \<Rightarrow> uid \<Rightarrow> bool \<Rightarrow> string \<Rightarrow> (tsub_error \<times> reply) + access_mode" where
  "other_guards g t asUid asChan mode =
     (let hostMode = eff_mode (pud_of t asUid) in
      if \<not> has_pud t asUid \<or> \<not> IsSharer hostMode then Inl (NotSharer, ErrPermissionDeniedReply)
      else if asChan then Inl (ChannelReader, ErrPermissionDeniedReply)
      else if isReadOnly t then Inl (Suspended, ErrPermissionDeniedReply)
      else
        case (if mode = [] then (None, ModeUnset) else UnmarshalText ModeUnset mode) of
          (Some e, _) \<Rightarrow> Inl (EAcs e, ErrMalformedReply)
        | (None, m) \<Rightarrow>
            let modeGiven = (if mode \<noteq> [] \<and> t_cat t = TopicCatP2P
                             then (m AND g_typesModeCP2P g) OR ModeApprove else m) in
            if modeGiven \<noteq> ModeUnset \<and> \<not> IsAdmin hostMode then Inl (SharerSetsMode, ErrPermissionDeniedReply)
            else if IsOwner modeGiven \<and> t_owner t \<noteq> asUid then Inl (OnlyOwnerTransfers, ErrPermissionDeniedReply)
            else if modeGiven \<noteq> ModeUnset \<and> t_owner t \<noteq> asUid \<and> \<not> BetterEqual hostMode (modeGiven AND NOT ModeOwner)
            then Inl (CannotGrant, ErrPermissionDeniedReply)
            else Inr modeGiven)"

text \<open>The mode an invited user wants: the one of an earlier subscription, or the user's default.\<close>

definition invited_want :: "faults \<Rightarrow> topic \<Rightarrow> uid \<Rightarrow> access_mode \<Rightarrow> subs_db \<Rightarrow> (tsub_error \<times> reply) + access_mode" where
  "invited_want f t target modeGiven db =
     (case subs_Get (f CGet) (t_name t) target True db of
        Inl e \<Rightarrow> Inl (EStore e, ErrUnknownReply)
      | Inr (Some sub) \<Rightarrow> Inr (sub_ModeWant sub)
      | Inr None \<Rightarrow>
          (case users_Get (f CGetUser) target db of
             Inl e \<Rightarrow> Inl (EStore e, ErrUnknownReply)
           | Inr None \<Rightarrow> Inl (NoSuchUser, ErrUserNotFoundReply)
           | Inr (Some user) \<Rightarrow>
               if ur_State user \<noteq> StateOK then Inl (UserSuspended, ErrPermissionDeniedReply)
               else Inr (ur_AccessAuth user AND modeGiven)))"

definition invite_user ::
  "tglobals \<Rightarrow> faults \<Rightarrow> go_time \<Rightarrow> uid \<Rightarrow> uid \<Rightarrow> access_mode \<Rightarrow> tsys \<Rightarrow> (((tsub_error \<times> reply) option) \<times> tsys) option" where
  "invite_user g f now asUid target modeGiven0 s =
     (let t = sy_topic s in
      if t_cat t = TopicCatGrp \<and> \<not> isOfficialLargeGroup t \<and> subsCount t \<ge> g_maxSubscriberCount g
      then Some (Some (TooManyMembers, ErrPolicyReply), s)
      else do {
        modeGiven \<leftarrow> (if modeGiven0 = ModeUnset then map_option (\<lambda>m. m OR ModeJoin) (accessFor g t LevelAuth)
                      else Some modeGiven0);
        case invited_want f t target modeGiven (sy_db s) of
          Inl er \<Rightarrow> Some (Some er, s)
        | Inr modeWant \<Rightarrow>
            if \<not> IsJoiner modeWant then Some (Some (NoJoin, ErrPermissionDeniedReply), s)
            else do {
              let sub = new_subscription target (t_name t) modeWant modeGiven None;
              (err, db') \<leftarrow> subs_Create (f CCreate) now [sub] (sy_db s);
              let s1 = set_db db' s;
              case err of
                Some e \<Rightarrow> Some (Some (EStore e, ErrUnknownReply), s1)
              | None \<Rightarrow>
                  let userData = zero_pud\<lparr>pud_modeGiven := modeGiven, pud_modeWant := modeWant\<rparr>;
                      s2 = on_topic (\<lambda>t. if t_cat t = TopicCatGrp then t\<lparr>t_subCnt := t_subCnt t + 1\<rparr> else t) s1;
                      s3 = on_topic (computePerUserAcsUnion \<circ> set_pud target userData) s2
                  in Some (None, emit (SendPush (PushP2PSub asUid target modeWant modeGiven))
                       (emit (PluginSubscription sub PlgActCreate) (emit (UsersRegister target True) s3)))
            }
      })"

definition unread_change :: "topic \<Rightarrow> uid \<Rightarrow> access_mode \<Rightarrow> perUserData \<Rightarrow> tsys \<Rightarrow> tsys" where
  "unread_change t u oldMode p s =
     (if IsReader oldMode \<and> \<not> IsReader (eff_mode p) then emit (UsersUpdateUnread u (pud_readID p - t_lastID t) True) s
      else if \<not> IsReader oldMode \<and> IsReader (eff_mode p) then emit (UsersUpdateUnread u (t_lastID t - pud_readID p) True) s
      else s)"

text \<open>The end of both branches: notifications, and eviction of a user who may not join any more.\<close>

definition other_finish ::
  "sess_table \<Rightarrow> sref \<Rightarrow> uid \<Rightarrow> uid \<Rightarrow> access_mode \<Rightarrow> access_mode \<Rightarrow> tsys \<Rightarrow> tresult" where
  "other_finish ss sess asUid target oldWant oldGiven s =
     (let t = sy_topic s; userData = pud_of t target; changed = (oldGiven \<noteq> pud_modeGiven userData) in
      do {
        s1 \<leftarrow> (if changed
                then notifySubChange target asUid False oldWant oldGiven (pud_modeWant userData) (pud_modeGiven userData)
                       (si_sid (ss sess)) (unread_change t target (oldWant AND oldGiven) userData s)
                else Some s);
        s2 \<leftarrow> (if \<not> IsJoiner (pud_modeGiven userData) then evictUser ss target False [] s1 else Some s1);
        Some (Inr (if changed then Some (access_msg t userData) else None), evictColdSubscriber target s2)
      })"

definition anotherUserSub ::
  "tglobals \<Rightarrow> faults \<Rightarrow> go_time \<Rightarrow> sess_table \<Rightarrow> sref \<Rightarrow> uid \<Rightarrow> uid \<Rightarrow> bool \<Rightarrow> string \<Rightarrow> tsys \<Rightarrow> tresult" where
  "anotherUserSub g f now ss sess asUid target asChan mode s =
     (let t = sy_topic s in
      case other_guards g t asUid asChan mode of
        Inl (e, r) \<Rightarrow> refuse e r s
      | Inr modeGiven \<Rightarrow>
          let userData = pud_of t target in
          if \<not> has_pud t target \<or> pud_deleted userData then do {
            (err, s1) \<leftarrow> invite_user g f now asUid target modeGiven s;
            case err of
              Some (e, r) \<Rightarrow> refuse e r s1
            | None \<Rightarrow> other_finish ss sess asUid target ModeUnset ModeUnset s1
          }
          else if modeGiven = ModeUnset \<or> modeGiven = pud_modeGiven userData
          then other_finish ss sess asUid target (pud_modeWant userData) (pud_modeGiven userData) s
          else if t_owner t = target \<and> (\<not> IsOwner modeGiven \<or> \<not> IsJoiner modeGiven)
          then refuse OwnerBan ErrPermissionDeniedReply s
          else
            (case subs_Update (f CUpdate) now (t_name t) target (no_update\<lparr>su_ModeGiven := Some modeGiven\<rparr>) (sy_db s) of
               (Some e, db') \<Rightarrow> Some (Inl (EStore e), set_db db' s)
             | (None, db') \<Rightarrow>
                 other_finish ss sess asUid target (pud_modeWant userData) (pud_modeGiven userData)
                   (on_topic (set_pud target (userData\<lparr>pud_modeGiven := modeGiven\<rparr>)) (set_db db' s))))"

section \<open>Removing a member\<close>

text \<open>The subscription to remove: its data, the name it is stored under, and whether it is one of a
  channel reader.\<close>

definition del_target :: "faults \<Rightarrow> topic \<Rightarrow> subs_db \<Rightarrow> uid \<Rightarrow> store_error + (perUserData \<times> string \<times> bool) option" where
  "del_target f t db u =
     (if has_pud t u then
        (let pud = pud_of t u in Inr (Some (pud, if pud_isChan pud then GrpToChn (t_name t) else t_name t, pud_isChan pud)))
      else
        let of_sub = (\<lambda>sub ch. zero_pud\<lparr>pud_modeWant := sub_ModeWant sub, pud_modeGiven := sub_ModeGiven sub,
               pud_private := sub_Private sub, pud_delID := sub_DelId sub, pud_readID := sub_ReadSeqId sub,
               pud_readHistory := sub_ReadHistory sub, pud_recvID := sub_RecvSeqId sub, pud_isChan := ch\<rparr>)
        in case subs_Get (f CGet) (t_name t) u False db of
             Inl e \<Rightarrow> Inl e
           | Inr (Some sub) \<Rightarrow> Inr (Some (of_sub sub False, t_name t, False))
           | Inr None \<Rightarrow>
               if t_isChan t then
                 (case subs_Get (f CGetChan) (GrpToChn (t_name t)) u False db of
                    Inl e \<Rightarrow> Inl e
                  | Inr None \<Rightarrow> Inr None
                  | Inr (Some sub) \<Rightarrow> Inr (Some (of_sub sub True, GrpToChn (t_name t), True)))
               else Inr None)"

definition p2p_empty :: "tsys \<Rightarrow> tsys" where
  "p2p_empty s =
     (if t_cat (sy_topic s) = TopicCatP2P \<and> subsCount (sy_topic s) = 0
      then emit (HubUnreg (t_name (sy_topic s))) (on_topic (markPaused True) s) else s)"

definition del_apply ::
  "sess_table \<Rightarrow> sref \<Rightarrow> uid \<Rightarrow> uid \<Rightarrow> perUserData \<Rightarrow> string \<Rightarrow> bool \<Rightarrow> tsys \<Rightarrow> tsys option" where
  "del_apply ss sess asUid u pud subTopic isChannelSub s =
     (let t = sy_topic s;
          s1 = emit (Reply NoErrReply) s;
          s2 = (if \<not> isChannelSub \<and> IsReader (eff_mode pud)
                then emit (UsersUpdateUnread u (pud_readID pud - t_lastID t) True) s1 else s1)
      in do {
        s3 \<leftarrow> notifySubChange u asUid isChannelSub (pud_modeWant pud) (pud_modeGiven pud) ModeUnset ModeUnset
                (si_sid (ss sess)) s2;
        s4 \<leftarrow> evictUser ss u True [] s3;
        let s5 = (if isChannelSub then channelSubUnsub u False s4
                  else if isOfficialLargeGroup (sy_topic s4) then pushTopicSubUnsub u False s4 else s4);
        let s6 = on_topic (\<lambda>t. if t_cat t = TopicCatGrp \<and> t_subCnt t > 0 then t\<lparr>t_subCnt := t_subCnt t - 1\<rparr> else t) s5;
        Some (p2p_empty (emit (PluginSubscription (new_subscription u subTopic 0 0 None) PlgActDel) s6))
      })"

text \<open>\<open>topic_arg\<close> is the topic name the client used and \<open>user_arg\<close> the user it names.\<close>

definition replyDelSub ::
  "faults \<Rightarrow> go_time \<Rightarrow> sess_table \<Rightarrow> sref \<Rightarrow> uid \<Rightarrow> string \<Rightarrow> string \<Rightarrow> tsys \<Rightarrow> (tsub_error option \<times> tsys) option" where
  "replyDelSub f now ss sess asUid topic_arg user_arg s =
     (let t = sy_topic s;
          no = (\<lambda>e r s. Some (Some e, emit (Reply r) s)) in
      if isOfficialTopic t then no OfficialOnly ErrPermissionDeniedReply s
      else
        case verifyChannelAccess t topic_arg of
          Inl _ \<Rightarrow> no (EStore ErrNotFound) ErrNotFoundReply s
        | Inr True \<Rightarrow> no ChannelReader ErrPermissionDeniedReply s
        | Inr False \<Rightarrow>
            let u = ParseUserId user_arg in
            if \<not> IsAdmin (eff_mode (pud_of t asUid)) then no NotAdmin ErrPermissionDeniedReply s
            else if uid_IsZero u \<or> u = asUid then no SelfDelete ErrPermissionDeniedReply s
            else if t_cat t = TopicCatP2P then no P2PDelete ErrPermissionDeniedReply s
            else
              (case del_target f t (sy_db s) u of
                 Inl e \<Rightarrow> no (EStore e) ErrUnknownReply s
               | Inr None \<Rightarrow> Some (None, emit (Reply InfoNoActionReply) s)
               | Inr (Some (pud, subTopic, isChannelSub)) \<Rightarrow>
                   if IsOwner (eff_mode pud) then no OwnerImmutable ErrPermissionDeniedReply s
                   else if \<not> IsJoiner (eff_mode pud) then no Banned ErrPermissionDeniedReply s
                   else
                     (case subs_Delete (f CDelete) now subTopic u (sy_db s) of
                        None \<Rightarrow> None
                      | Some (Some ErrNotFound, db') \<Rightarrow> Some (None, emit (Reply InfoNoActionReply) (set_db db' s))
                      | Some (Some e, db') \<Rightarrow> no (EStore e) ErrUnknownReply (set_db db' s)
                      | Some (None, db') \<Rightarrow>
                          map_option (\<lambda>s'. (None, s')) (del_apply ss sess asUid u pud subTopic isChannelSub (set_db db' s)))))"

section \<open>Leaving for good\<close>

text \<open>\<open>init\<close> tells a request of the client from one made by the server.\<close>

definition replyLeaveUnsub ::
  "faults \<Rightarrow> go_time \<Rightarrow> sess_table \<Rightarrow> sref \<Rightarrow> bool \<Rightarrow> string \<Rightarrow> uid \<Rightarrow> tsys \<Rightarrow> (tsub_error option \<times> tsys) option" where
  "replyLeaveUnsub f now ss sess init topic_arg asUid s =
     (let t = sy_topic s;
          tell = (\<lambda>r s. if init then emit (Reply r) s else s) in
      if uid_IsZero asUid then None
      else if t_owner t = asUid then Some (Some OwnerLeaves, tell ErrPermissionDeniedReply s)
      else
        case (if init then verifyChannelAccess t topic_arg else Inr False) of
          Inl _ \<Rightarrow> Some (Some ChannelReader, emit (Reply ErrNotFoundReply) s)
        | Inr asChan \<Rightarrow>
            let pud = pud_of t asUid in
            (case subs_Delete (f CDelete) now (if pud_isChan pud then GrpToChn (t_name t) else t_name t) asUid (sy_db s) of
               None \<Rightarrow> None
             | Some (Some e, db') \<Rightarrow>
                 if init \<and> e = ErrNotFound then Some (None, emit (Reply InfoNoActionReply) (set_db db' s))
                 else Some (Some (EStore e), tell ErrUnknownReply (set_db db' s))
             | Some (None, db') \<Rightarrow>
                 let s1 = tell NoErrReply (set_db db' s);
                     (oldWant, oldGiven) =
                       (if \<not> asChan then (pud_modeWant pud, pud_modeGiven pud) else (ModeCChnReader, ModeCChnReader));
                     s2 = (if \<not> asChan then
                             (if IsReader (eff_mode pud)
                              then emit (UsersUpdateUnread asUid (pud_readID pud - t_lastID t) True) s1 else s1)
                           else channelSubUnsub asUid False s1);
                     s3 = (if \<not> asChan \<and> isOfficialLargeGroup t then pushTopicSubUnsub asUid False s2 else s2)
                 in do {
                   s4 \<leftarrow> notifySubChange asUid asUid asChan oldWant oldGiven ModeUnset ModeUnset (si_sid (ss sess)) s3;
                   s5 \<leftarrow> evictUser ss asUid True (si_sid (ss sess)) s4;
                   let s6 = emit (PluginSubscription (new_subscription asUid (t_name t) 0 0 None) PlgActDel) s5;
                   let s7 = on_topic (\<lambda>t. if t_cat t = TopicCatGrp then t\<lparr>t_subCnt := t_subCnt t - 1\<rparr> else t) s6;
                   Some (None, p2p_empty s7)
                 }))"

end
