(* ===== verification/TopicSelfSub.thy ===== *)
theory TopicSelfSub
  imports TopicMembers
begin

text \<open>
  A user's own subscription (\<open>thisUserSub\<close> of \<^verbatim>\<open>internal/server/topic_sub_self.go\<close>): joining a topic,
  coming back with an invitation, changing one's own modes, and accepting the ownership of a group.

  The record \<open>self_request\<close> holds the request and the answers of what the function asks elsewhere: whether
  the invitation is valid and could be used (modelled in \<open>Invites\<close>), the official policy stored with
  the topic, and the outcome of filing a request to join.
\<close>

datatype join_outcome = JoinFiled "(string \<times> any) list" | JoinIsProtected | JoinError

record self_request =
  rq_want :: string
  rq_private :: "any option"
  rq_invite :: string
  rq_newsub :: bool
  rq_Original :: string
  rq_AuthLvl :: int
  rq_inviteValid :: bool
  rq_inviteConsumed :: bool
  rq_policy :: "store_error + officialTopicPolicy option"
  rq_join :: join_outcome

definition nullValue :: string where
  "nullValue = [CHR 0xE2, CHR 0x90, CHR 0xA1]"

definition isNullValue :: "any option \<Rightarrow> bool" where
  "isNullValue i = (i = Some (AStr nullValue))"

section \<open>Joining an official topic\<close>

definition officialPolicyRefreshInterval :: int where "officialPolicyRefreshInterval = 2000000000"

text \<open>\<open>stored\<close> is what reading the topic's row and decoding its policy gives.\<close>

definition refreshOfficialPolicy ::
  "store_error + officialTopicPolicy option \<Rightarrow> go_time \<Rightarrow> topic \<Rightarrow> store_error option \<times> topic" where
  "refreshOfficialPolicy stored now t =
     (if t_official t = None \<or>
         (case t_officialRefreshedAt t of None \<Rightarrow> False | Some refreshed \<Rightarrow> now - refreshed < officialPolicyRefreshInterval)
      then (None, t)
      else case stored of
             Inl e \<Rightarrow> (Some e, t)
           | Inr policy \<Rightarrow> (None, t\<lparr>t_official := policy, t_officialRefreshedAt := Some now\<rparr>))"

definition checkOfficialSelfJoin :: "self_request \<Rightarrow> bool \<Rightarrow> go_time \<Rightarrow> uid \<Rightarrow> tsys \<Rightarrow> (tsub_error option \<times> tsys) option" where
  "checkOfficialSelfJoin rq hasInvite now u s =
     (if \<not> isOfficialTopic (sy_topic s) then Some (None, s)
      else
        case refreshOfficialPolicy (rq_policy rq) now (sy_topic s) of
          (Some e, t) \<Rightarrow> Some (Some (EStore e), emit (Reply ErrServiceUnavailableReply) (on_topic (\<lambda>_. t) s))
        | (None, t) \<Rightarrow>
            let s1 = on_topic (\<lambda>_. t) s;
                denied = Some (Some (EStore ErrPermissionDenied), emit (Reply ErrPermissionDeniedReply) s1)
            in case t_official t of
                 None \<Rightarrow> denied
               | Some p \<Rightarrow>
                   if op_OfficialStatus p \<noteq> ''verified'' then denied
                   else if op_JoinPolicy p = ''open'' then Some (None, s1)
                   else if (op_JoinPolicy p = ''invite'' \<or> op_JoinPolicy p = ''approval'') \<and> hasInvite then Some (None, s1)
                   else if op_JoinPolicy p = ''approval'' then
                     (case rq_join rq of
                        JoinIsProtected \<Rightarrow> Some (Some JoinProtected, emit (Reply ErrPolicyReply) s1)
                      | JoinError \<Rightarrow> Some (Some JoinUnavailable, emit (Reply ErrServiceUnavailableReply) s1)
                      | JoinFiled params \<Rightarrow>
                          (case original t u of
                             None \<Rightarrow> None
                           | Some _ \<Rightarrow> Some (Some JoinPending, emit (Reply (NoErrAcceptedReply params)) s1)))
                   else denied)"

section \<open>Coming back with an invitation\<close>

definition restore_member ::
  "faults \<Rightarrow> go_time \<Rightarrow> sess_table \<Rightarrow> sref \<Rightarrow> self_request \<Rightarrow> uid \<Rightarrow> tsys \<Rightarrow> tresult" where
  "restore_member f now ss sess rq asUid s =
     (let t = sy_topic s; userData = pud_of t asUid in
      if \<not> rq_inviteConsumed rq then refuse InviteUsedUp ErrPermissionDeniedReply s
      else
        let p = userData\<lparr>pud_modeWant := member_mode, pud_modeGiven := member_mode\<rparr> in
        case subs_Update (f CUpdate) now (t_name t) asUid (set_modes member_mode member_mode) (sy_db s) of
          (Some e, db') \<Rightarrow> refuse (EStore e) ErrUnknownReply (set_db db' s)
        | (None, db') \<Rightarrow>
            let s1 = on_topic (set_pud asUid p) (set_db db' s);
                s2 = (if \<not> IsReader (eff_mode userData)
                      then emit (UsersUpdateUnread asUid (t_lastID t - pud_readID p) True) s1 else s1)
            in do {
              s3 \<leftarrow> notifySubChange asUid asUid False (pud_modeWant userData) (pud_modeGiven userData)
                      member_mode member_mode (si_sid (ss sess)) s2;
              Some (Inr (Some (access_msg t p)),
                emit (PluginSubscription (new_subscription asUid (t_name t) member_mode member_mode None) PlgActUpd) s3)
            })"

section \<open>A new subscription\<close>

text \<open>What the branches for the categories decide: the user's data, the subscription found in the store,
  the modes before, and the name to subscribe under.\<close>

record new_sub =
  ns_userData :: perUserData
  ns_sub :: "subscription option"
  ns_oldWant :: access_mode
  ns_oldGiven :: access_mode
  ns_tname :: string

definition new_sub_chan ::
  "faults \<Rightarrow> self_request \<Rightarrow> access_mode \<Rightarrow> uid \<Rightarrow> tsys \<Rightarrow> (tsub_error \<times> reply) + new_sub" where
  "new_sub_chan f rq modeWant asUid s =
     (case subs_Get (f CGet) (rq_Original rq) asUid False (sy_db s) of
        Inl e \<Rightarrow> Inl (EStore e, ErrUnknownReply)
      | Inr sub \<Rightarrow>
          let (oldWant, oldGiven) =
                (case sub of None \<Rightarrow> (ModeCChnReader, ModeCChnReader) | Some b \<Rightarrow> (sub_ModeWant b, sub_ModeGiven b));
              want = (if modeWant \<noteq> ModeUnset then (modeWant AND ModeCChnReader) OR ModeRead OR ModeJoin else oldWant)
          in Inr \<lparr>ns_userData = (pud_of (sy_topic s) asUid)\<lparr>pud_isChan := True, pud_modeGiven := oldGiven, pud_modeWant := want\<rparr>,
                  ns_sub = sub, ns_oldWant = oldWant, ns_oldGiven = oldGiven, ns_tname = rq_Original rq\<rparr>)"

definition new_sub_plain ::
  "tglobals \<Rightarrow> faults \<Rightarrow> self_request \<Rightarrow> bool \<Rightarrow> access_mode \<Rightarrow> uid \<Rightarrow> tsys \<Rightarrow> ((tsub_error \<times> reply) + new_sub) option" where
  "new_sub_plain g f rq hasInvite modeWant asUid s =
     (let t = sy_topic s; userData = pud_of t asUid in
      case (if has_pud t asUid then Inr (pud_modeGiven userData, None)
            else case subs_Get (f CGet) (t_name t) asUid True (sy_db s) of
                   Inl e \<Rightarrow> Inl e
                 | Inr None \<Rightarrow> Inr (ModeUnset, None)
                 | Inr (Some b) \<Rightarrow> Inr (sub_ModeGiven b, Some b)) of
        Inl e \<Rightarrow> Some (Inl (EStore e, ErrUnknownReply))
      | Inr (given0, sub) \<Rightarrow> do {
          given \<leftarrow> (if given0 = ModeUnset then accessFor g t (rq_AuthLvl rq) else Some given0);
          want \<leftarrow> (if modeWant = ModeUnset then accessFor g t (rq_AuthLvl rq) else Some modeWant);
          let (want, given) = (if hasInvite then (member_mode, member_mode) else (want, given));
          Some (Inr \<lparr>ns_userData = userData\<lparr>pud_modeGiven := given, pud_modeWant := want\<rparr>, ns_sub = sub,
                     ns_oldWant = ModeNone, ns_oldGiven = ModeNone, ns_tname = t_name t\<rparr>)
        })"

definition new_sub_modes ::
  "tglobals \<Rightarrow> faults \<Rightarrow> self_request \<Rightarrow> bool \<Rightarrow> bool \<Rightarrow> access_mode \<Rightarrow> uid \<Rightarrow> tsys \<Rightarrow>
   ((tsub_error \<times> reply) + new_sub) option" where
  "new_sub_modes g f rq asChan hasInvite modeWant asUid s =
     (let t = sy_topic s; userData = pud_of t asUid;
          plain = (\<lambda>p. \<lparr>ns_userData = p, ns_sub = None, ns_oldWant = ModeNone, ns_oldGiven = ModeNone, ns_tname = t_name t\<rparr>) in
      if t_cat t = TopicCatP2P then
        (let want = (if modeWant \<noteq> ModeUnset then modeWant else pud_modeWant userData) in
         Some (Inr (plain (userData\<lparr>pud_modeWant := (want AND g_typesModeCP2P g) OR ModeApprove\<rparr>))))
      else if t_cat t = TopicCatSys then
        (if rq_AuthLvl rq \<noteq> LevelRoot then Some (Inl (SysNeedsRoot, ErrPermissionDeniedReply))
         else Some (Inr (plain (userData\<lparr>pud_modeGiven := ModeCSys,
                pud_modeWant := (if modeWant \<noteq> ModeUnset then (modeWant AND ModeCSys) OR ModeWrite OR ModeJoin
                                 else ModeCSys)\<rparr>))))
      else if asChan then Some (new_sub_chan f rq modeWant asUid s)
      else new_sub_plain g f rq hasInvite modeWant asUid s)"

text \<open>Storing the new subscription; the result is the user's data and the modes before.\<close>

definition new_sub_store ::
  "faults \<Rightarrow> go_time \<Rightarrow> self_request \<Rightarrow> bool \<Rightarrow> uid \<Rightarrow> new_sub \<Rightarrow> tsys \<Rightarrow>
   (((tsub_error \<times> reply) + perUserData) \<times> tsys) option" where
  "new_sub_store f now rq asChan asUid n s =
     (let p0 = ns_userData n;
          p1 = (if pud_deleted p0 then p0\<lparr>pud_deleted := False, pud_delID := 0, pud_readID := 0, pud_recvID := 0\<rparr> else p0);
          private = (if isNullValue (rq_private rq) then None else rq_private rq);
          p = p1\<lparr>pud_private := private\<rparr>;
          fresh = new_subscription asUid (ns_tname n) (pud_modeWant p) (pud_modeGiven p) private;
          done = (\<lambda>sub s. Some (Inr p,
                    if asChan then
                      emit (PluginSubscription sub (if pud_modeWant p \<noteq> ns_oldWant n then PlgActCreate else PlgActUpd)) s
                    else emit (PluginSubscription sub PlgActCreate) (emit (UsersRegister asUid True) s)))
      in if \<not> IsJoiner (pud_modeGiven p0) then Some (Inl (NoJoin, ErrPermissionDeniedReply), s)
         else
           (case ns_sub n of
              Some sub \<Rightarrow>
                if sub_DeletedAt sub \<noteq> None then
                  (case subs_Create (f CCreate) now [fresh] (sy_db s) of
                     None \<Rightarrow> None
                   | Some (Some e, db') \<Rightarrow> Some (Inl (EStore e, ErrUnknownReply), set_db db' s)
                   | Some (None, db') \<Rightarrow> done fresh (set_db db' s))
                else if asChan \<and> pud_modeWant p \<noteq> ns_oldWant n then
                  (case subs_Update (f CUpdate) now (ns_tname n) asUid
                      (no_update\<lparr>su_ModeWant := Some (pud_modeWant p)\<rparr>) (sy_db s) of
                     (Some e, db') \<Rightarrow> Some (Inl (EStore e, ErrUnknownReply), set_db db' s)
                   | (None, db') \<Rightarrow> done sub (channelSubUnsub asUid (IsPresencer (pud_modeWant p)) (set_db db' s)))
                else done sub s
            | None \<Rightarrow>
                (case subs_Create (f CCreate) now [fresh] (sy_db s) of
                   None \<Rightarrow> None
                 | Some (Some e, db') \<Rightarrow> Some (Inl (EStore e, ErrUnknownReply), set_db db' s)
                 | Some (None, db') \<Rightarrow> done fresh (set_db db' s))))"

text \<open>The whole branch: policy of official topics, invitation, limit of members, modes, store.\<close>

definition new_subscription_branch ::
  "tglobals \<Rightarrow> faults \<Rightarrow> go_time \<Rightarrow> self_request \<Rightarrow> bool \<Rightarrow> bool \<Rightarrow> access_mode \<Rightarrow> uid \<Rightarrow> tsys \<Rightarrow>
   ((tsub_error + perUserData \<times> access_mode \<times> access_mode) \<times> tsys) option" where
  "new_subscription_branch g f now rq asChan hasInvite modeWant asUid s =
     do {
       (err, s1) \<leftarrow> (if t_cat (sy_topic s) = TopicCatGrp then checkOfficialSelfJoin rq hasInvite now asUid s
                     else Some (None, s));
       case err of
         Some e \<Rightarrow> Some (Inl e, s1)
       | None \<Rightarrow>
           let t = sy_topic s1 in
           if t_cat t = TopicCatGrp \<and> hasInvite \<and> \<not> rq_inviteConsumed rq
           then Some (Inl InviteUsedUp, emit (Reply ErrPermissionDeniedReply) s1)
           else if t_cat t = TopicCatGrp \<and> \<not> asChan \<and> \<not> isOfficialLargeGroup t \<and> subsCount t \<ge> g_maxSubscriberCount g
           then Some (Inl TooManyMembers, emit (Reply ErrPolicyReply) s1)
           else do {
             res \<leftarrow> new_sub_modes g f rq asChan hasInvite modeWant asUid s1;
             case res of
               Inl (e, r) \<Rightarrow> Some (Inl e, emit (Reply r) s1)
             | Inr n \<Rightarrow> do {
                 (out, s2) \<leftarrow> new_sub_store f now rq asChan asUid n s1;
                 case out of
                   Inl (e, r) \<Rightarrow> Some (Inl e, emit (Reply r) s2)
                 | Inr p \<Rightarrow> Some (Inr (p, ns_oldWant n, ns_oldGiven n), s2)
               }
           }
     }"

section \<open>An existing subscription\<close>

definition self_update :: "any option \<Rightarrow> perUserData \<Rightarrow> selfSubscriptionTransition \<Rightarrow> sub_update" where
  "self_update private old tr =
     no_update\<lparr>su_Private := (if isNullValue private then Some None else if private \<noteq> None then Some private else None),
       su_ModeWant := (if tr_want tr \<noteq> pud_modeWant old then Some (tr_want tr) else None),
       su_ModeGiven := (if tr_given tr \<noteq> pud_modeGiven old then Some (tr_given tr) else None)\<rparr>"

definition self_pud :: "any option \<Rightarrow> perUserData \<Rightarrow> selfSubscriptionTransition \<Rightarrow> perUserData" where
  "self_pud private old tr =
     old\<lparr>pud_modeWant := tr_want tr, pud_modeGiven := tr_given tr,
       pud_private := (if isNullValue private then None else if private \<noteq> None then private else pud_private old)\<rparr>"

definition drop_owner :: "perUserData \<Rightarrow> perUserData" where
  "drop_owner p =
     p\<lparr>pud_modeGiven := pud_modeGiven p AND NOT ModeOwner, pud_modeWant := pud_modeWant p AND NOT ModeOwner\<rparr>"

text \<open>Handing over the ownership: the old owner loses it, in the store first.\<close>

definition change_owner :: "faults \<Rightarrow> go_time \<Rightarrow> uid \<Rightarrow> tsys \<Rightarrow> (store_error option \<times> tsys) option" where
  "change_owner f now asUid s =
     (let t = sy_topic s; old = pud_of t (t_owner t); p = drop_owner old in
      case subs_Update (f COwnerUpdate) now (t_name t) (t_owner t) (set_modes (pud_modeWant p) (pud_modeGiven p)) (sy_db s) of
        (Some e, db') \<Rightarrow> Some (Some e, set_db db' s)
      | (None, db') \<Rightarrow>
          (case topics_OwnerChange (f COwnerChange) (t_name t) asUid db' of
             (Some e, db'') \<Rightarrow> Some (Some e, set_db db'' s)
           | (None, db'') \<Rightarrow>
               map_option (\<lambda>s'. (None, on_topic (\<lambda>t. t\<lparr>t_owner := asUid\<rparr>) s'))
                 (notifySubChange (t_owner t) asUid False (pud_modeWant old) (pud_modeGiven old) (pud_modeWant p)
                    (pud_modeGiven p) [] (on_topic (set_pud (t_owner t) p) (set_db db'' s)))))"

definition existing_branch ::
  "tglobals \<Rightarrow> faults \<Rightarrow> go_time \<Rightarrow> self_request \<Rightarrow> bool \<Rightarrow> access_mode \<Rightarrow> uid \<Rightarrow> tsys \<Rightarrow>
   ((tsub_error + perUserData \<times> access_mode \<times> access_mode) \<times> tsys) option" where
  "existing_branch g f now rq asChan modeWant asUid s =
     (let t = sy_topic s; old = pud_of t asUid; private = rq_private rq in
      if \<not> pud_isChan old \<and> asChan
      then Some (Inl (EStore ErrNotFound), emit (Reply (InfoUseOtherReply (t_name t))) s)
      else
        case accessFor g t (rq_AuthLvl rq) of
          None \<Rightarrow> None
        | Some defaultAccess \<Rightarrow>
            (case planExistingSelfSubscription
                \<lparr>in_category = t_cat t, in_isTopicOwner = (t_owner t = asUid), in_oldWant = pud_modeWant old,
                 in_oldGiven = pud_modeGiven old, in_requested = modeWant, in_defaultAccess = defaultAccess,
                 in_p2pAccess = g_typesModeCP2P g\<rparr> of
               Inl e \<Rightarrow> Some (Inl (ETransition e), emit (Reply ErrPermissionDeniedReply) s)
             | Inr tr \<Rightarrow>
                 let p = self_pud private old tr; u = self_update private old tr;
                     sub = new_subscription asUid (t_name t) (opt_or (su_ModeWant u) 0) (opt_or (su_ModeGiven u) 0) private;
                     result = (p, pud_modeWant old, pud_modeGiven old);
                     owner_part = (\<lambda>s1.
                       if tr_ownerChange tr then
                         (case change_owner f now asUid s1 of
                            None \<Rightarrow> None
                          | Some (Some e, s2) \<Rightarrow> Some (Inl (EStore e), s2)
                          | Some (None, s2) \<Rightarrow> Some (Inr result, s2))
                       else Some (Inr result, s1))
                 in if u \<noteq> no_update then
                      (case subs_Update (f CUpdate) now (t_name t) asUid u (sy_db s) of
                         (Some e, db') \<Rightarrow> Some (Inl (EStore e), emit (Reply ErrUnknownReply) (set_db db' s))
                       | (None, db') \<Rightarrow> owner_part (emit (PluginSubscription sub PlgActUpd) (set_db db' s)))
                    else owner_part s))"

section \<open>The end of both branches\<close>

definition self_finish ::
  "sess_table \<Rightarrow> sref \<Rightarrow> self_request \<Rightarrow> bool \<Rightarrow> uid \<Rightarrow> perUserData \<Rightarrow> access_mode \<Rightarrow> access_mode \<Rightarrow> tsys \<Rightarrow> tresult" where
  "self_finish ss sess rq asChan asUid p oldWant oldGiven s =
     (let t = sy_topic s;
          changed = (oldWant \<noteq> pud_modeWant p \<or> oldGiven \<noteq> pud_modeGiven p);
          modeChanged = (if rq_newsub rq \<or> changed then Some (access_msg t p) else None);
          s1 = (if \<not> asChan \<and> IsPresencer (oldWant AND oldGiven) \<and> \<not> IsPresencer (eff_mode p) then
                  emit (Notice (if t_cat t = TopicCatMe then PresUsersOfInterest ''off+dis'' (t_userAgent t)
                     else PresSingleUserOffline asUid (eff_mode p) ''off+dis'' nilPresParams [] False)) s
                else s);
          s2 = on_topic (set_pud asUid p) s1;
          s3 = (if changed \<and> \<not> asChan then unread_change t asUid (oldWant AND oldGiven) p s2 else s2)
      in do {
        s4 \<leftarrow> (if changed
                then notifySubChange asUid asUid asChan oldWant oldGiven (pud_modeWant p) (pud_modeGiven p) (si_sid (ss sess)) s3
                else Some s3);
        if \<not> IsJoiner (pud_modeWant p) then map_option (\<lambda>s5. (Inr modeChanged, s5)) (evictUser ss asUid False [] s4)
        else if \<not> IsJoiner (pud_modeGiven p) then refuse Banned ErrPermissionDeniedReply s4
        else Some (Inr modeChanged, s4)
      })"

definition thisUserSub ::
  "tglobals \<Rightarrow> faults \<Rightarrow> go_time \<Rightarrow> sess_table \<Rightarrow> sref \<Rightarrow> uid \<Rightarrow> bool \<Rightarrow> self_request \<Rightarrow> tsys \<Rightarrow> tresult" where
  "thisUserSub g f now ss sess asUid asChan rq s =
     (let t = sy_topic s in
      case (if rq_want rq \<noteq> [] then UnmarshalText ModeUnset (rq_want rq) else (None, ModeUnset)) of
        (Some e, _) \<Rightarrow> refuse (EAcs e) ErrMalformedReply s
      | (None, modeWant) \<Rightarrow>
          let userData = pud_of t asUid; existingSub = has_pud t asUid;
              hasInvite = (rq_invite rq \<noteq> [] \<and> t_cat t = TopicCatGrp) in
          if hasInvite \<and> \<not> rq_inviteValid rq then refuse BadInvite ErrPermissionDeniedReply s
          else if existingSub \<and> \<not> pud_deleted userData \<and> hasInvite \<and> \<not> IsJoiner (pud_modeGiven userData)
          then restore_member f now ss sess rq asUid s
          else do {
            (out, s1) \<leftarrow> (if \<not> existingSub \<or> pud_deleted userData
                          then new_subscription_branch g f now rq asChan hasInvite modeWant asUid s
                          else existing_branch g f now rq asChan modeWant asUid s);
            case out of
              Inl e \<Rightarrow> Some (Inl e, s1)
            | Inr (p, oldWant, oldGiven) \<Rightarrow> self_finish ss sess rq asChan asUid p oldWant oldGiven s1
          })"

text \<open>The system topic has no default access. A subscriber of it, who is loaded with the topic, cannot
  subscribe again: computing the default panics.\<close>

lemma sys_resubscribe_panics:
  assumes "t_cat (sy_topic s) = TopicCatSys" "has_pud (sy_topic s) asUid" "\<not> pud_deleted (pud_of (sy_topic s) asUid)"
    and "rq_want rq = []" "rq_invite rq = []"
    and "\<not> asChan"
  shows "thisUserSub g f now ss sess asUid asChan rq s = None"
  using assms
  by (simp add: thisUserSub_def existing_branch_def accessFor_def getDefaultAccess_def)

end
