(* ===== verification/TopicOwnership.thy ===== *)
theory TopicOwnership
  imports TopicSelfSub
begin

text \<open>
  Safety of the member operations on a group that is not a channel: nobody takes the ownership from
  the owner, the permissions granted to others are bounded by those of the granting user, and what the
  topic caches of a member agrees with the store.

  The proofs look at a topic through \<open>members\<close>, which gives the modes of each cached user, and at the
  store through \<open>live_subs\<close>.
\<close>

section \<open>The members of a topic\<close>

record member =
  mb_want :: access_mode
  mb_given :: access_mode
  mb_chan :: bool
  mb_deleted :: bool

definition member_of :: "perUserData \<Rightarrow> member" where
  "member_of p = \<lparr>mb_want = pud_modeWant p, mb_given = pud_modeGiven p, mb_chan = pud_isChan p, mb_deleted = pud_deleted p\<rparr>"

definition members :: "topic \<Rightarrow> uid \<rightharpoonup> member" where
  "members t u = map_option member_of (map_of (t_perUser t) u)"

text \<open>What never changes, and who owns the topic.\<close>

definition fixed :: "topic \<Rightarrow> string \<times> topic_cat \<times> bool \<times> access_mode \<times> access_mode" where
  "fixed t = (t_name t, t_cat t, t_isChan t, t_accessAuth t, t_accessAnon t)"

lemma member_of_simps [simp]:
  "mb_want (member_of p) = pud_modeWant p" "mb_given (member_of p) = pud_modeGiven p"
  "mb_chan (member_of p) = pud_isChan p" "mb_deleted (member_of p) = pud_deleted p"
  "member_of (p\<lparr>pud_online := n\<rparr>) = member_of p"
  by (simp_all add: member_of_def)

lemma members_pud:
  "members t u = Some m \<Longrightarrow> member_of (pud_of t u) = m" "has_pud t u \<longleftrightarrow> members t u \<noteq> None"
  "has_pud t u \<Longrightarrow> members t u = Some (member_of (pud_of t u))"
  by (auto simp: members_def pud_of_def has_pud_def)

lemma members_simps [simp]:
  "members (set_pud u p t) = (members t)(u \<mapsto> member_of p)"
  "members (del_pud u t) = (members t)(u := None)"
  "members (computePerUserAcsUnion t) = members t"
  "members (t\<lparr>t_sessions := x\<rparr>) = members t" "members (t\<lparr>t_subCnt := n\<rparr>) = members t"
  "members (t\<lparr>t_officialMemberRefreshed := y\<rparr>) = members t" "members (t\<lparr>t_owner := z\<rparr>) = members t"
  "members (t\<lparr>t_official := a, t_officialRefreshedAt := b\<rparr>) = members t"
  by (auto simp: fun_eq_iff members_def set_pud_def del_pud_def computePerUserAcsUnion_def update_conv' delete_conv'
      Let_def split: prod.split)

lemma fixed_simps [simp]:
  "fixed (set_pud u p t) = fixed t" "fixed (del_pud u t) = fixed t" "fixed (computePerUserAcsUnion t) = fixed t"
  "fixed (t\<lparr>t_sessions := x\<rparr>) = fixed t" "fixed (t\<lparr>t_subCnt := n\<rparr>) = fixed t"
  "fixed (t\<lparr>t_officialMemberRefreshed := y\<rparr>) = fixed t" "fixed (t\<lparr>t_owner := z\<rparr>) = fixed t"
  "fixed (t\<lparr>t_official := a, t_officialRefreshedAt := b\<rparr>) = fixed t"
  by (simp_all add: fixed_def set_pud_def del_pud_def computePerUserAcsUnion_def Let_def split: prod.split)

lemma topic_field_simps [simp]:
  "t_owner (set_pud u p t) = t_owner t" "t_owner (del_pud u t) = t_owner t"
  "t_owner (computePerUserAcsUnion t) = t_owner t"
  "t_cat (set_pud u p t) = t_cat t" "t_cat (del_pud u t) = t_cat t" "t_cat (computePerUserAcsUnion t) = t_cat t"
  "t_isChan (set_pud u p t) = t_isChan t" "t_isChan (del_pud u t) = t_isChan t"
  "t_isChan (computePerUserAcsUnion t) = t_isChan t"
  "t_name (set_pud u p t) = t_name t" "t_name (del_pud u t) = t_name t" "t_name (computePerUserAcsUnion t) = t_name t"
  by (simp_all add: set_pud_def del_pud_def computePerUserAcsUnion_def Let_def split: prod.split)

text \<open>The operations below change a topic in one of these ways; \<open>same_but\<close> says that only the members
  given by \<open>f\<close> differ, and the store is \<open>db\<close>.\<close>

definition same_but :: "((uid \<rightharpoonup> member) \<Rightarrow> (uid \<rightharpoonup> member)) \<Rightarrow> subs_db \<Rightarrow> tsys \<Rightarrow> tsys \<Rightarrow> bool" where
  "same_but f db s s' \<longleftrightarrow>
     fixed (sy_topic s') = fixed (sy_topic s) \<and> t_owner (sy_topic s') = t_owner (sy_topic s) \<and>
     members (sy_topic s') = f (members (sy_topic s)) \<and> sy_db s' = db"

abbreviation unchanged :: "tsys \<Rightarrow> tsys \<Rightarrow> bool" where
  "unchanged s s' \<equiv> same_but id (sy_db s) s s'"

lemma same_but_refl [simp]: "unchanged s s"
  by (simp add: same_but_def)

lemma same_but_trans:
  "same_but f db s s' \<Longrightarrow> same_but g db' s' s'' \<Longrightarrow> same_but (g \<circ> f) db' s s''"
  by (simp add: same_but_def)

lemma same_but_emit [simp]: "same_but f db s (emit e s') \<longleftrightarrow> same_but f db s s'"
  by (simp add: same_but_def)

lemma notifySubChange_same:
  "notifySubChange u actor ch ow og nw ng skip s = Some s' \<Longrightarrow> sy_topic s' = sy_topic s \<and> sy_db s' = sy_db s"
  by (auto simp: notifySubChange_def Let_def split: option.splits)

lemma pushTopicSubUnsub_same [simp]:
  "sy_topic (pushTopicSubUnsub u b s) = sy_topic s" "sy_db (pushTopicSubUnsub u b s) = sy_db s"
  "sy_topic (channelSubUnsub u b s) = sy_topic s" "sy_db (channelSubUnsub u b s) = sy_db s"
  by (simp_all add: pushTopicSubUnsub_def channelSubUnsub_def Let_def)

lemma role_push_same [simp]:
  "sy_topic (role_push u a c s) = sy_topic s" "sy_db (role_push u a c s) = sy_db s"
  "sy_topic (role_plugin u tt a b s) = sy_topic s" "sy_db (role_plugin u tt a b s) = sy_db s"
  by (simp_all add: role_push_def role_plugin_def Let_def)

lemma unread_change_same [simp]:
  "sy_topic (unread_change t u m p s) = sy_topic s" "sy_db (unread_change t u m p s) = sy_db s"
  by (simp_all add: unread_change_def)

lemma remSession_same:
  assumes "remSession ss sess u t = (p, r, t')"
  shows "fixed t' = fixed t" "t_owner t' = t_owner t" "members t' = members t"
  using assms by (auto simp: remSession_def Let_def split: option.splits if_splits)

lemma evict_sessions_unchanged: "unchanged s (evict_sessions ss u unsub skip orig sl s)"
proof (induction sl arbitrary: s)
  case (Cons sess sl)
  obtain p r t' where rem: "remSession ss sess u (sy_topic s) = (p, r, t')" by (metis prod_cases3)
  show ?case
  proof (cases p)
    case None
    with rem Cons show ?thesis by simp
  next
    case (Some a)
    let ?s1 = "s\<lparr>sy_topic := t'\<rparr>"
    let ?s2 = "if r then emit (DetachSession sess) ?s1 else ?s1"
    let ?s3 = "if si_sid (ss sess) \<noteq> skip then emit (Evicted sess orig unsub u) ?s2 else ?s2"
    have "evict_sessions ss u unsub skip orig (sess # sl) s = evict_sessions ss u unsub skip orig sl ?s3"
      using rem Some by (simp add: Let_def)
    then show ?thesis using Cons [of ?s3] remSession_same [OF rem] by (simp add: same_but_def)
  qed
qed simp

text \<open>In a group that is not a channel, eviction removes the user or leaves the modes alone.\<close>

lemma evictUser_same:
  assumes "evictUser ss u unsub skip s = Some s'" "t_cat (sy_topic s) = TopicCatGrp"
    and "\<And>m. members (sy_topic s) u = Some m \<Longrightarrow> \<not> mb_chan m"
  shows "same_but (\<lambda>ms. if unsub then ms(u := None) else ms) (sy_db s) s s'"
proof -
  let ?t = "sy_topic s"
  define s1 where "s1 = (if unsub then
      (if has_pud ?t u then (if \<not> pud_isChan (pud_of ?t u) then emit (UsersRegister u False) (on_topic (computePerUserAcsUnion \<circ> del_pud u) s)
         else on_topic (computePerUserAcsUnion \<circ> del_pud u) s) else s)
    else if has_pud ?t u then (if pud_isChan (pud_of ?t u) then on_topic (del_pud u) s
      else on_topic (set_pud u ((pud_of ?t u)\<lparr>pud_online := 0\<rparr>)) s) else s)"
  obtain orig where s': "s' = evict_sessions ss u unsub skip orig (map fst (t_sessions (sy_topic s1))) s1"
    using assms(1,2) by (auto simp: evictUser_def Let_def s1_def split: option.splits if_splits)
  have "same_but (\<lambda>ms. if unsub then ms(u := None) else ms) (sy_db s) s s1"
  proof (cases "has_pud ?t u")
    case True
    then have "members ?t u = Some (member_of (pud_of ?t u))" by (rule members_pud)
    then show ?thesis using True assms(3) by (auto simp: s1_def same_but_def fun_eq_iff)
  next
    case False
    then have "members ?t u = None" by (simp add: members_pud)
    then show ?thesis using False by (auto simp: s1_def same_but_def fun_eq_iff)
  qed
  moreover have "unchanged s1 s'" unfolding s' by (rule evict_sessions_unchanged)
  moreover have "sy_db s1 = sy_db s" by (simp add: s1_def)
  ultimately show ?thesis by (auto simp: same_but_def)
qed

lemma evictColdSubscriber_same:
  "same_but (\<lambda>ms. if ms u = members (sy_topic (evictColdSubscriber u s)) u then ms else ms(u := None)) (sy_db s) s (evictColdSubscriber u s)"
  "members (sy_topic s) u = Some m \<Longrightarrow> IsOwner (mb_want m) \<Longrightarrow> IsOwner (mb_given m) \<Longrightarrow>
     members (sy_topic (evictColdSubscriber u s)) u = Some m"
  subgoal
    by (auto simp: evictColdSubscriber_def Let_def same_but_def fun_eq_iff)
  subgoal
    using members_pud(1) [of "sy_topic s" u m]
    by (auto simp: evictColdSubscriber_def Let_def role_tests)
  done

section \<open>Plain groups\<close>

definition plain_group :: "tsys \<Rightarrow> bool" where
  "plain_group s \<longleftrightarrow> t_cat (sy_topic s) = TopicCatGrp \<and> \<not> t_isChan (sy_topic s) \<and>
     (\<forall>u m. members (sy_topic s) u = Some m \<longrightarrow> \<not> mb_chan m)"

text \<open>\<open>touches u s s'\<close>: the topic differs at most in the member \<open>u\<close>, who is not a channel reader afterwards.\<close>

definition touches :: "uid \<Rightarrow> tsys \<Rightarrow> tsys \<Rightarrow> bool" where
  "touches u s s' \<longleftrightarrow>
     fixed (sy_topic s') = fixed (sy_topic s) \<and> t_owner (sy_topic s') = t_owner (sy_topic s) \<and>
     (\<forall>v. v \<noteq> u \<longrightarrow> members (sy_topic s') v = members (sy_topic s) v) \<and>
     (\<forall>m. members (sy_topic s') u = Some m \<longrightarrow> \<not> mb_chan m)"

lemma touches_plain: "touches u s s' \<Longrightarrow> plain_group s \<Longrightarrow> plain_group s'"
  unfolding touches_def plain_group_def fixed_def by (metis Pair_inject)

lemma touches_trans: "touches u s s' \<Longrightarrow> touches u s' s'' \<Longrightarrow> touches u s s''"
  by (auto simp: touches_def)

lemma same_touches: "plain_group s \<Longrightarrow> same_but id db s s' \<Longrightarrow> touches u s s'"
  by (auto simp: touches_def same_but_def plain_group_def)

lemma plain_group_cong:
  "fixed (sy_topic s') = fixed (sy_topic s) \<Longrightarrow> members (sy_topic s') = members (sy_topic s) \<Longrightarrow> plain_group s' = plain_group s"
  by (simp add: plain_group_def fixed_def)

lemma evictUser_group:
  assumes "evictUser ss u False skip s = Some s'" "plain_group s"
  shows "unchanged s s'"
  using evictUser_same [OF assms(1)] assms(2) by (simp add: plain_group_def id_def)

lemma evictCold_touches:
  assumes "plain_group s"
  shows "touches u s (evictColdSubscriber u s)" "sy_db (evictColdSubscriber u s) = sy_db s"
    "members (sy_topic (evictColdSubscriber u s)) u \<in> {None, members (sy_topic s) u}"
  using evictColdSubscriber_same(1) [of u s] assms
  by (auto simp: touches_def same_but_def plain_group_def fun_upd_def split: if_splits)

definition role_member :: "topicRoleAccess \<Rightarrow> member" where
  "role_member a = \<lparr>mb_want = ra_Mode a, mb_given = ra_Mode a, mb_chan = ra_ChannelSub a, mb_deleted = False\<rparr>"

lemma member_of_role_pud [simp]: "member_of (role_pud a p) = role_member a"
  by (simp add: member_of_def role_pud_def role_member_def)

lemma role_apply_group:
  assumes "role_apply ss sess asUid target tt a cur s = Some s'" "plain_group s" "\<not> ra_ChannelSub a"
    and "\<And>c b. cur = Some (c, b) \<Longrightarrow> \<not> b"
  shows "touches target s s'" "sy_db s' = sy_db s" "members (sy_topic s') target \<in> {None, Some (role_member a)}"
proof -
  have nc: "(case cur of None \<Rightarrow> False | Some (_, c) \<Rightarrow> c) = False"
    using assms(4) by (auto split: option.split)
  define s2 where "s2 = on_topic computePerUserAcsUnion (on_topic (set_pud target (role_pud a (pud_of (sy_topic s) target))) s)"
  have pg2: "plain_group s2"
    using assms(2,3) by (auto simp: s2_def plain_group_def role_member_def)
  have t2: "touches target s s2" "members (sy_topic s2) target = Some (role_member a)" "sy_db s2 = sy_db s"
    using assms(3) by (simp_all add: touches_def s2_def role_member_def)
  obtain s3 s7 where s3: "sy_topic s3 = sy_topic s2 \<and> sy_db s3 = sy_db s2"
    and s7: "(if ra_Name a = ''banned'' then evictUser ss target False [] (role_push target a False s3)
        else Some (role_push target a False s3)) = Some s7"
    and s': "s' = role_plugin target tt a (cur = None) (evictColdSubscriber target s7)"
    using assms(1,3) nc
    by (auto simp: role_apply_def Let_def s2_def bind_eq_Some_conv split: prod.splits dest!: notifySubChange_same)
  define s4 where "s4 = role_push target a False s3"
  have s4: "sy_topic s4 = sy_topic s2 \<and> sy_db s4 = sy_db s2" using s3 by (simp add: s4_def)
  have pg4: "plain_group s4" using pg2 s4 by (simp add: plain_group_def)
  have "unchanged s4 s7" using s7 evictUser_group [OF _ pg4] by (auto simp: s4_def same_but_def split: if_splits)
  then have 7: "touches target s s7" "members (sy_topic s7) target = Some (role_member a)" "sy_db s7 = sy_db s"
    using s4 t2 by (simp_all add: touches_def same_but_def role_member_def)
  have pg7: "plain_group s7" using touches_plain [OF 7(1) assms(2)] .
  have "touches target s (evictColdSubscriber target s7)"
    using touches_trans [OF 7(1)] evictCold_touches(1) [OF pg7] by blast
  then show "touches target s s'" by (simp add: touches_def s')
  show "sy_db s' = sy_db s" using evictCold_touches(2) [OF pg7] 7(3) by (simp add: s')
  show "members (sy_topic s') target \<in> {None, Some (role_member a)}"
    using evictCold_touches(3) [OF pg7, of target] 7(2) by (simp add: s')
qed

text \<open>Giving a role: either nothing changes in the topic and the store, or the target becomes a member with
  the modes of the role and the store says the same. An owner's role is never changed.\<close>

lemma role_store_group:
  assumes "role_store g f now t target (t_name t) a cur db = Some (err, db')" "acs_wf (ra_Mode a)" "target \<noteq> 0"
    and "\<And>c b. cur = Some (c, b) \<Longrightarrow> sub_Topic c = t_name t"
  shows "if err = None then live_subs db' = (live_subs db)((t_name t, target) :=
      (if cur = None then Some (ra_Mode a, ra_Mode a) else map_option (\<lambda>_. (ra_Mode a, ra_Mode a)) (live_subs db (t_name t, target))))
    else db' = db"
proof (cases cur)
  case None
  then show ?thesis
    using assms(1,2)
    by (auto simp: role_store_def role_store_new_def new_subscription_def
        split: if_splits sum.splits option.splits dest!: subs_Create_live)
next
  case (Some cb)
  obtain c b where cb: "cb = (c, b)" by fastforce
  obtain e db1 where u: "subs_Update (f CUpdate) now (t_name t) target (set_modes (ra_Mode a) (ra_Mode a)) db = (e, db1)"
    by fastforce
  have "err = None \<longleftrightarrow> e = None" "db' = db1"
    using assms(1,4) Some cb u by (auto simp: role_store_def split: option.splits)
  then show ?thesis
    using subs_Update_live [OF u assms(3)] Some assms(2)
    by (auto simp: set_modes_def no_update_def opt_or_def split_def split: if_splits)
qed

lemma role_current_group:
  assumes "role_current f t db target = Inr (Some (c, b))" "\<not> t_isChan t"
    and "\<And>m. members t target = Some m \<Longrightarrow> \<not> mb_chan m"
  shows "\<not> b" "sub_Topic c = t_name t"
    "members t target = Some m \<Longrightarrow> sub_ModeWant c = mb_want m \<and> sub_ModeGiven c = mb_given m"
    "members t target = None \<Longrightarrow> live_subs db (t_name t, target) = Some (sub_ModeWant c, sub_ModeGiven c)"
proof -
  have *: "has_pud t target \<longleftrightarrow> members t target \<noteq> None" by (rule members_pud)
  show "\<not> b" "sub_Topic c = t_name t"
    "members t target = Some m \<Longrightarrow> sub_ModeWant c = mb_want m \<and> sub_ModeGiven c = mb_given m"
    "members t target = None \<Longrightarrow> live_subs db (t_name t, target) = Some (sub_ModeWant c, sub_ModeGiven c)"
    using assms members_pud(3) [of t target] *
    by (auto simp: role_current_def Let_def new_subscription_def subs_Get_def SubscriptionGet_def row_subscription_def
        live_subs_def split: if_splits sum.splits option.splits)
qed

lemma setAnotherUserRole_effect:
  assumes "setAnotherUserRole g f now ss sess asUid target asChan role s = Some (res, s')"
    and "plain_group s" "target \<noteq> 0"
  shows "touches target s s' \<and>
    (members (sy_topic s') = members (sy_topic s) \<and> sy_db s' = sy_db s \<or>
     (\<exists>a. resolveTopicRole role False = Inr a \<and> \<not> ra_ChannelSub a \<and>
        members (sy_topic s') target \<in> {None, Some (role_member a)} \<and>
        (\<forall>m. members (sy_topic s) target = Some m \<longrightarrow> \<not> (IsOwner (mb_want m) \<and> IsOwner (mb_given m))) \<and>
        live_subs (sy_db s') = (live_subs (sy_db s))((t_name (sy_topic s), target) :=
          (if members (sy_topic s) target \<noteq> None \<and> live_subs (sy_db s) (t_name (sy_topic s), target) = None
           then None else Some (ra_Mode a, ra_Mode a)))))"
proof -
  let ?t = "sy_topic s"
  have ch: "\<not> t_isChan ?t" and nc: "\<And>u m. members ?t u = Some m \<Longrightarrow> \<not> mb_chan m"
    using assms(2) by (auto simp: plain_group_def)
  have nct: "\<And>m. members ?t target = Some m \<Longrightarrow> \<not> mb_chan m" using nc by blast
  have idle: ?thesis if "members (sy_topic s') = members ?t" "fixed (sy_topic s') = fixed ?t"
      "t_owner (sy_topic s') = t_owner ?t" "sy_db s' = sy_db s"
    using that nc by (simp add: touches_def)
  note def = assms(1) [unfolded setAnotherUserRole_def Let_def refuse_def]
  show ?thesis
  proof (cases "role_guards ?t asUid asChan role")
    case (Inl er)
    then have "s' = emit (Reply (snd er)) s" using def by (cases er) auto
    then show ?thesis by - (rule idle, simp_all)
  next
    case (Inr a0)
    then have res: "resolveTopicRole role False = Inr a0"
      using ch by (auto simp: role_guards_def Let_def split: if_splits sum.splits)
    then have a0: "\<not> ra_ChannelSub a0" "acs_wf (ra_Mode a0)" using resolved_mode by blast+
    then have upd: "a0\<lparr>ra_ChannelSub := False\<rparr> = a0" by (cases a0) simp
    show ?thesis
    proof (cases "role_current f ?t (sy_db s) target")
      case (Inl e)
      then have "s' = emit (Reply ErrUnknownReply) s" using def Inr by auto
      then show ?thesis by - (rule idle, simp_all)
    next
      case cur: (Inr cur)
      have cur_chan: "\<not> b \<and> sub_Topic c = t_name ?t" if "cur = Some (c, b)" for c b
        using role_current_group(1,2) [OF cur [unfolded that] ch nct] by blast
      show ?thesis
      proof (cases "role_protect ?t asUid a0 cur")
        case (Inl e)
        then have "s' = emit (Reply ErrPermissionDeniedReply) s" using def Inr cur by auto
        then show ?thesis by - (rule idle, simp_all)
      next
        case prot: (Inr a)
        have a: "a = a0"
        proof (cases cur)
          case None
          with prot show ?thesis by (simp add: role_protect_def)
        next
          case (Some cb)
          obtain c b where "cb = (c, b)" by fastforce
          then show ?thesis using prot Some cur_chan [of c b] upd
            by (simp add: role_protect_def Let_def split: if_splits)
        qed
        have not_owner: "\<not> IsOwner (sub_ModeWant c AND sub_ModeGiven c)" if "cur = Some (c, b)" for c b
          using prot that by (auto simp: role_protect_def Let_def split: if_splits)
        show ?thesis
        proof (cases "role_noop cur (t_name ?t) a0")
          case True
          then have "s' = s" using def Inr cur prot a a0(1) by simp
          then show ?thesis by - (rule idle, simp_all)
        next
          case False
          then obtain err db' where st: "role_store g f now ?t target (t_name ?t) a cur (sy_db s) = Some (err, db')"
            using def Inr cur prot a a0(1) by (auto simp: bind_eq_Some_conv)
          have live: "if err = None then live_subs db' = (live_subs (sy_db s))((t_name ?t, target) :=
              (if cur = None then Some (ra_Mode a, ra_Mode a)
               else map_option (\<lambda>_. (ra_Mode a, ra_Mode a)) (live_subs (sy_db s) (t_name ?t, target))))
            else db' = sy_db s"
            using role_store_group [OF st] a0(2) a assms(3) cur_chan by blast
          show ?thesis
          proof (cases err)
            case (Some er)
            then have "s' = emit (Reply (snd er)) (set_db (sy_db s) s)"
              using def Inr cur prot a a0(1) False st live by (cases er) auto
            then show ?thesis by - (rule idle, simp_all)
          next
            case None
            let ?s2 = "if cur = None then on_topic (\<lambda>t. t\<lparr>t_subCnt := t_subCnt t + 1\<rparr>) (set_db db' s) else set_db db' s"
            have ap: "role_apply ss sess asUid target (t_name ?t) a cur ?s2 = Some s'"
              using def Inr cur prot a a0(1) False st None by (auto simp: bind_eq_Some_conv)
            have m2: "members (sy_topic ?s2) = members ?t" "fixed (sy_topic ?s2) = fixed ?t"
              "t_owner (sy_topic ?s2) = t_owner ?t" "sy_db ?s2 = db'" by simp_all
            have pg2: "plain_group ?s2" using plain_group_cong [OF m2(2,1)] assms(2) by simp
            have ach: "\<not> ra_ChannelSub a" using a a0(1) by simp
            note eff = role_apply_group [OF ap pg2 ach cur_chan [THEN conjunct1]]
            have tch: "touches target s s'" using eff(1) m2 by (simp add: touches_def)
            have own: "\<not> (IsOwner (mb_want m) \<and> IsOwner (mb_given m))" if mem: "members ?t target = Some m" for m
            proof -
              obtain c b where c: "cur = Some (c, b)"
                using mem cur members_pud(2) [of ?t target] by (auto simp: role_current_def Let_def)
              then show ?thesis
                using role_current_group(3) [OF cur [unfolded c] ch nct mem] not_owner [OF c] by (simp add: role_tests)
            qed
            have lv: "live_subs db' = (live_subs (sy_db s))((t_name ?t, target) :=
                (if members ?t target \<noteq> None \<and> live_subs (sy_db s) (t_name ?t, target) = None then None
                 else Some (ra_Mode a, ra_Mode a)))"
            proof (cases cur)
              case None
              then have "members ?t target = None"
                using cur members_pud(2) [of ?t target] by (auto simp: role_current_def Let_def split: if_splits)
              with None live \<open>err = None\<close> show ?thesis by simp
            next
              case (Some cb)
              obtain c b where cb: "cb = (c, b)" by fastforce
              have "members ?t target = None \<Longrightarrow> live_subs (sy_db s) (t_name ?t, target) \<noteq> None"
                using role_current_group(4) [OF cur [unfolded Some cb] ch nct] by simp
              with Some live \<open>err = None\<close> show ?thesis by (cases "live_subs (sy_db s) (t_name ?t, target)") auto
            qed
            have "sy_db s' = db'" using eff(2) m2(4) by simp
            with lv have "live_subs (sy_db s') = (live_subs (sy_db s))((t_name ?t, target) :=
                (if members ?t target \<noteq> None \<and> live_subs (sy_db s) (t_name ?t, target) = None then None
                 else Some (ra_Mode a, ra_Mode a)))" by simp
            moreover have "resolveTopicRole role False = Inr a" using res a by simp
            ultimately show ?thesis
              using tch ach eff(3) own by (intro conjI disjI2 exI [of _ a]) simp_all
          qed
        qed
      qed
    qed
  qed
qed

section \<open>The other operations on a member\<close>

text \<open>A member that was set may have been dropped from the cache again, but not an owner.\<close>

definition kept :: "member \<Rightarrow> member option \<Rightarrow> bool" where
  "kept m x \<longleftrightarrow> x = Some m \<or> x = None \<and> \<not> (IsOwner (mb_want m) \<and> IsOwner (mb_given m))"

lemma evictCold_kept:
  "plain_group s \<Longrightarrow> members (sy_topic s) u = Some m \<Longrightarrow> kept m (members (sy_topic (evictColdSubscriber u s)) u)"
  using evictCold_touches(3) [of s u] evictColdSubscriber_same(2) [of s u m] by (auto simp: kept_def)

lemma p2p_empty_group: "t_cat (sy_topic s) = TopicCatGrp \<Longrightarrow> p2p_empty s = s"
  by (simp add: p2p_empty_def)

lemma evictUser_unsub:
  assumes "evictUser ss u True skip s = Some s'" "plain_group s"
  shows "touches u s s'" "sy_db s' = sy_db s" "members (sy_topic s') u = None" "t_cat (sy_topic s') = TopicCatGrp"
  using evictUser_same [OF assms(1)] assms(2)
  by (auto simp: same_but_def touches_def plain_group_def fixed_def)

lemma del_apply_group:
  assumes "del_apply ss sess asUid u pud tp ch s = Some s'" "plain_group s"
  shows "touches u s s'" "sy_db s' = sy_db s" "members (sy_topic s') u = None"
proof -
  obtain s3 s4 where s3: "sy_topic s3 = sy_topic s \<and> sy_db s3 = sy_db s"
    and s4: "evictUser ss u True [] s3 = Some s4"
    and s': "s' = p2p_empty (emit (PluginSubscription (new_subscription u tp 0 0 None) PlgActDel)
      (on_topic (\<lambda>t. if t_cat t = TopicCatGrp \<and> t_subCnt t > 0 then t\<lparr>t_subCnt := t_subCnt t - 1\<rparr> else t)
        (if ch then channelSubUnsub u False s4
         else if isOfficialLargeGroup (sy_topic s4) then pushTopicSubUnsub u False s4 else s4)))"
    using assms(1)
    by (auto simp: del_apply_def Let_def bind_eq_Some_conv dest!: notifySubChange_same split: if_splits)
  have pg3: "plain_group s3" using assms(2) s3 by (simp add: plain_group_def)
  note ev = evictUser_unsub [OF s4 pg3]
  show "touches u s s'" "sy_db s' = sy_db s" "members (sy_topic s') u = None"
    using ev s3 unfolding s' by (auto simp: p2p_empty_group touches_def)
qed

lemma del_target_group:
  assumes "del_target f t db u = Inr (Some (pud, tp, ch))" "\<not> t_isChan t"
    and "\<And>m. members t u = Some m \<Longrightarrow> \<not> mb_chan m"
  shows "tp = t_name t" "\<not> ch" "members t u = Some m \<Longrightarrow> member_of pud = m"
proof -
  have *: "has_pud t u \<longleftrightarrow> members t u \<noteq> None" by (rule members_pud)
  show "tp = t_name t" "\<not> ch" "members t u = Some m \<Longrightarrow> member_of pud = m"
    using assms members_pud(3) [of t u] *
    by (auto simp: del_target_def Let_def split: if_splits sum.splits option.splits)
qed

lemma replyDelSub_effect:
  assumes "replyDelSub f now ss sess asUid topic_arg user_arg s = Some (err, s')" "plain_group s"
  defines "u \<equiv> ParseUserId user_arg"
  shows "touches u s s' \<and>
    (members (sy_topic s') = members (sy_topic s) \<and> sy_db s' = sy_db s \<or>
     members (sy_topic s') u = None \<and> u \<noteq> asUid \<and> IsAdmin (eff_mode (pud_of (sy_topic s) asUid)) \<and>
     (\<forall>m. members (sy_topic s) u = Some m \<longrightarrow> \<not> (IsOwner (mb_want m) \<and> IsOwner (mb_given m))) \<and>
     live_subs (sy_db s') = (live_subs (sy_db s))((t_name (sy_topic s), u) := None))"
proof -
  let ?t = "sy_topic s"
  have ch: "\<not> t_isChan ?t" and nc: "\<And>m. members ?t u = Some m \<Longrightarrow> \<not> mb_chan m"
    using assms(2) by (auto simp: plain_group_def)
  have idle: ?thesis if "members (sy_topic s') = members ?t" "fixed (sy_topic s') = fixed ?t"
      "t_owner (sy_topic s') = t_owner ?t" "sy_db s' = sy_db s"
    using that nc by (simp add: touches_def)
  note def = assms(1) [unfolded replyDelSub_def Let_def, folded u_def]
  show ?thesis
  proof (cases "\<exists>pud tp c db'. del_target f ?t (sy_db s) u = Inr (Some (pud, tp, c)) \<and> \<not> IsOwner (eff_mode pud) \<and>
      subs_Delete (f CDelete) now tp u (sy_db s) = Some (None, db') \<and>
      del_apply ss sess asUid u pud tp c (set_db db' s) = Some s' \<and> u \<noteq> asUid \<and> IsAdmin (eff_mode (pud_of ?t asUid))")
    case False
    have "sy_topic s' = ?t \<and> (sy_db s' = sy_db s \<or>
        (\<exists>e tp db'. subs_Delete (f CDelete) now tp u (sy_db s) = Some (Some e, db') \<and> sy_db s' = db'))"
      using def False by (auto split: if_splits sum.splits option.splits bool.splits prod.splits store_error.splits)
    then show ?thesis using idle subs_Delete_live by fastforce
  next
    case True
    then obtain pud tp c db' where d: "del_target f ?t (sy_db s) u = Inr (Some (pud, tp, c))" "\<not> IsOwner (eff_mode pud)"
      "subs_Delete (f CDelete) now tp u (sy_db s) = Some (None, db')"
      "del_apply ss sess asUid u pud tp c (set_db db' s) = Some s'" "u \<noteq> asUid" "IsAdmin (eff_mode (pud_of ?t asUid))"
      by blast
    note dt = del_target_group [OF d(1) ch nc]
    have "plain_group (set_db db' s)" using assms(2) by (simp add: plain_group_def)
    note ap = del_apply_group [OF d(4) this]
    have "\<not> (IsOwner (mb_want m) \<and> IsOwner (mb_given m))" if "members ?t u = Some m" for m
    proof -
      have "member_of pud = m" using dt(3) that by blast
      then show ?thesis using d(2) by (auto simp: eff_mode_def role_tests)
    qed
    moreover have "live_subs (sy_db s') = (live_subs (sy_db s))((t_name ?t, u) := None)"
      using subs_Delete_live [OF d(3)] ap(2) dt(1) by simp
    ultimately show ?thesis using ap(1,3) d(5,6) by (auto simp: touches_def)
  qed
qed

lemma replyLeaveUnsub_effect:
  assumes "replyLeaveUnsub f now ss sess init topic_arg asUid s = Some (err, s')" "plain_group s"
  shows "touches asUid s s' \<and>
    (members (sy_topic s') = members (sy_topic s) \<and> sy_db s' = sy_db s \<or>
     members (sy_topic s') asUid = None \<and> t_owner (sy_topic s) \<noteq> asUid \<and>
     live_subs (sy_db s') = (live_subs (sy_db s))((t_name (sy_topic s), asUid) := None))"
proof -
  let ?t = "sy_topic s"
  have grp: "t_cat ?t = TopicCatGrp" "\<not> t_isChan ?t" and nc: "\<And>m. members ?t asUid = Some m \<Longrightarrow> \<not> mb_chan m"
    using assms(2) by (auto simp: plain_group_def)
  have tp: "(if pud_isChan (pud_of ?t asUid) then GrpToChn (t_name ?t) else t_name ?t) = t_name ?t"
  proof (cases "has_pud ?t asUid")
    case True
    then show ?thesis using nc members_pud(3) by fastforce
  next
    case False
    then show ?thesis by (simp add: pud_of_def has_pud_def zero_pud_def)
  qed
  have idle: ?thesis if "members (sy_topic s') = members ?t" "fixed (sy_topic s') = fixed ?t"
      "t_owner (sy_topic s') = t_owner ?t" "sy_db s' = sy_db s"
    using that nc by (simp add: touches_def)
  note def = assms(1) [unfolded replyLeaveUnsub_def Let_def tp]
  let ?v = "if init then verifyChannelAccess ?t topic_arg else Inr False"
  show ?thesis
  proof (cases "uid_IsZero asUid \<or> t_owner ?t = asUid \<or> (\<exists>e. ?v = Inl e)")
    case True
    then have "sy_topic s' = ?t \<and> sy_db s' = sy_db s" using def by (auto split: if_splits)
    then show ?thesis using idle by simp
  next
    case False
    then obtain asChan where v: "?v = Inr asChan" and nz: "\<not> uid_IsZero asUid" "t_owner ?t \<noteq> asUid"
      by (cases ?v) auto
    show ?thesis
    proof (cases "\<exists>db'. subs_Delete (f CDelete) now (t_name ?t) asUid (sy_db s) = Some (None, db')")
      case False
      then obtain e db' where del: "subs_Delete (f CDelete) now (t_name ?t) asUid (sy_db s) = Some (Some e, db')"
        using def v nz by (auto split: option.splits)
      then have "sy_topic s' = ?t \<and> sy_db s' = db'" using def v nz by (auto split: if_splits)
      moreover have "db' = sy_db s" using subs_Delete_live [OF del] by simp
      ultimately show ?thesis using idle by simp
    next
      case True
      then obtain db' where del: "subs_Delete (f CDelete) now (t_name ?t) asUid (sy_db s) = Some (None, db')" by blast
      obtain s4 s5 where s: "sy_topic s4 = ?t" "sy_db s4 = db'"
        "evictUser ss asUid True (si_sid (ss sess)) s4 = Some s5"
        "s' = p2p_empty (on_topic (\<lambda>t. if t_cat t = TopicCatGrp then t\<lparr>t_subCnt := t_subCnt t - 1\<rparr> else t)
            (emit (PluginSubscription (new_subscription asUid (t_name ?t) 0 0 None) PlgActDel) s5))"
        using def v nz del
        by (auto simp: bind_eq_Some_conv dest!: notifySubChange_same split: if_splits prod.splits)
      have "plain_group s4" using assms(2) s(1,2) by (simp add: plain_group_def)
      note ev = evictUser_unsub [OF s(3) this]
      show ?thesis
        using ev nz(2) s(1,2) subs_Delete_live [OF del] unfolding s(4)
        by (auto simp: p2p_empty_group touches_def)
    qed
  qed
qed

section \<open>Inviting and changing members\<close>

definition grant_ok :: "topic \<Rightarrow> uid \<Rightarrow> access_mode \<Rightarrow> bool" where
  "grant_ok t asUid given \<longleftrightarrow> IsAdmin (eff_mode (pud_of t asUid)) \<and>
     (t_owner t = asUid \<or> \<not> IsOwner given \<and> BetterEqual (eff_mode (pud_of t asUid)) given)"

lemma UnmarshalText_wf:
  assumes "UnmarshalText ModeUnset txt = (None, m)" "m \<noteq> ModeUnset"
  shows "acs_wf m"
  using assms by (auto simp: UnmarshalText_def split: sum.splits if_splits)

lemma other_guards_Inr:
  assumes "other_guards g t asUid asChan mode = Inr m" "m \<noteq> ModeUnset" "t_cat t = TopicCatGrp"
  shows "grant_ok t asUid m" "acs_wf m" "mode \<noteq> []"
proof -
  have *: "BetterEqual h (m AND NOT ModeOwner) \<Longrightarrow> \<not> IsOwner m \<Longrightarrow> BetterEqual h m" for h
    by (auto simp: BetterEqual_bits bit_simps mode_tests) (metis bit64D)+
  show "grant_ok t asUid m" "acs_wf m" "mode \<noteq> []"
    using assms *
    by (auto simp: other_guards_def Let_def grant_ok_def split: if_splits prod.splits option.splits intro: UnmarshalText_wf)
qed

lemma other_finish_group:
  assumes "other_finish ss sess asUid target ow og s = Some (res, s')" "plain_group s"
    and "members (sy_topic s) target = Some m"
  shows "touches target s s'" "sy_db s' = sy_db s" "kept m (members (sy_topic s') target)" "\<exists>r. res = Inr r"
proof -
  obtain s1 s2 where s1: "sy_topic s1 = sy_topic s \<and> sy_db s1 = sy_db s"
    and s2: "s2 = s1 \<or> evictUser ss target False [] s1 = Some s2"
    and s': "s' = evictColdSubscriber target s2" and r: "\<exists>r. res = Inr r"
    using assms(1)
    by (auto simp: other_finish_def Let_def bind_eq_Some_conv split: if_splits dest!: notifySubChange_same) blast+
  have pg1: "plain_group s1" using assms(2) s1 by (simp add: plain_group_def)
  have "unchanged s1 s2" using s2 evictUser_group [OF _ pg1] by auto
  then have 2: "touches target s s2" "members (sy_topic s2) target = Some m" "sy_db s2 = sy_db s"
    using s1 assms(2,3) by (auto simp: touches_def same_but_def plain_group_def)
  have pg2: "plain_group s2" by (rule touches_plain [OF 2(1) assms(2)])
  show "touches target s s'"
    unfolding s' using touches_trans [OF 2(1) evictCold_touches(1) [OF pg2]] .
  show "sy_db s' = sy_db s" using evictCold_touches(2) [OF pg2] 2(3) by (simp add: s')
  show "kept m (members (sy_topic s') target)" using evictCold_kept [OF pg2 2(2)] by (simp add: s')
  show "\<exists>r. res = Inr r" by (rule r)
qed

lemma accessFor_group:
  "t_cat t = TopicCatGrp \<Longrightarrow> accessFor g t lvl =
     Some (selectAccessMode lvl (t_accessAnon t) (t_accessAuth t) ModeCPublic)"
  by (simp add: accessFor_def getDefaultAccess_def)

lemma invite_user_group:
  assumes "invite_user g f now asUid target m0 s = Some (err, s')" "plain_group s"
  shows "(\<exists>er. err = Some er) \<and> sy_topic s' = sy_topic s \<and> sy_db s' = sy_db s \<or>
    err = None \<and> (\<exists>want given.
      given = (if m0 = ModeUnset then t_accessAuth (sy_topic s) OR ModeJoin else m0) \<and>
      invited_want f (sy_topic s) target given (sy_db s) = Inr want \<and>
      members (sy_topic s') = (members (sy_topic s))(target \<mapsto> \<lparr>mb_want = want, mb_given = given, mb_chan = False, mb_deleted = False\<rparr>) \<and>
      fixed (sy_topic s') = fixed (sy_topic s) \<and> t_owner (sy_topic s') = t_owner (sy_topic s) \<and>
      live_subs (sy_db s') = (live_subs (sy_db s))((t_name (sy_topic s), target) \<mapsto> (db_mode want, db_mode given)))"
proof -
  let ?t = "sy_topic s"
  have grp: "t_cat ?t = TopicCatGrp" using assms(2) by (simp add: plain_group_def)
  let ?given = "if m0 = ModeUnset then t_accessAuth ?t OR ModeJoin else m0"
  have acc: "(if m0 = ModeUnset then map_option (\<lambda>m. m OR ModeJoin) (accessFor g ?t LevelAuth) else Some m0) = Some ?given"
    using grp by (simp add: accessFor_group selectAccessMode_def LevelAuth_def LevelNone_def LevelAnon_def)
  note def = assms(1) [unfolded invite_user_def Let_def acc, simplified]
  show ?thesis
  proof (cases "invited_want f ?t target ?given (sy_db s)")
    case (Inl er)
    then show ?thesis using def by (auto split: if_splits)
  next
    case (Inr want)
    show ?thesis
    proof (cases "subs_Create (f CCreate) now [new_subscription target (t_name ?t) want ?given None] (sy_db s)")
      case None
      then show ?thesis using def Inr by (auto split: if_splits)
    next
      case (Some p)
      obtain e db' where p: "p = (e, db')" by fastforce
      note live = subs_Create_live [OF Some [unfolded p], simplified]
      have "(\<exists>er. err = Some er) \<and> sy_topic s' = ?t \<and> sy_db s' = sy_db s \<or>
        err = None \<and> e = None \<and> sy_db s' = db' \<and>
        members (sy_topic s') = (members ?t)(target \<mapsto> \<lparr>mb_want = want, mb_given = ?given, mb_chan = False, mb_deleted = False\<rparr>) \<and>
        fixed (sy_topic s') = fixed ?t \<and> t_owner (sy_topic s') = t_owner ?t"
        using def Inr Some p live
        by (auto simp: member_of_def zero_pud_def split: if_splits option.splits)
      then show ?thesis using Inr live by (auto simp: new_subscription_def)
    qed
  qed
qed

text \<open>The outcomes of \<open>anotherUserSub\<close>: nothing is stored; a new member is stored; or the mode given to a
  member is changed in the store and in the topic.\<close>

definition other_same :: "uid \<Rightarrow> tsys \<Rightarrow> tsys \<Rightarrow> bool" where
  "other_same target s s' \<longleftrightarrow> sy_db s' = sy_db s \<and>
     (members (sy_topic s') = members (sy_topic s) \<or>
      (\<exists>m. members (sy_topic s) target = Some m \<and> kept m (members (sy_topic s') target)))"

definition other_new :: "faults \<Rightarrow> uid \<Rightarrow> uid \<Rightarrow> string \<Rightarrow> tsys \<Rightarrow> tsys \<Rightarrow> bool" where
  "other_new f asUid target mode s s' \<longleftrightarrow>
     (\<forall>m. members (sy_topic s) target = Some m \<longrightarrow> mb_deleted m) \<and>
     (\<exists>want given. invited_want f (sy_topic s) target given (sy_db s) = Inr want \<and>
        (given = t_accessAuth (sy_topic s) OR ModeJoin \<or> grant_ok (sy_topic s) asUid given \<and> acs_wf given \<and> mode \<noteq> []) \<and>
        kept \<lparr>mb_want = want, mb_given = given, mb_chan = False, mb_deleted = False\<rparr> (members (sy_topic s') target) \<and>
        live_subs (sy_db s') = (live_subs (sy_db s))((t_name (sy_topic s), target) \<mapsto> (db_mode want, db_mode given)))"

definition other_changed :: "uid \<Rightarrow> uid \<Rightarrow> tsys \<Rightarrow> tsys \<Rightarrow> bool" where
  "other_changed asUid target s s' \<longleftrightarrow>
     (\<exists>m given. members (sy_topic s) target = Some m \<and> \<not> mb_deleted m \<and> grant_ok (sy_topic s) asUid given \<and>
        acs_wf given \<and> (target = t_owner (sy_topic s) \<longrightarrow> IsOwner given \<and> IsJoiner given) \<and>
        kept (m\<lparr>mb_given := given\<rparr>) (members (sy_topic s') target) \<and>
        live_subs (sy_db s') = (live_subs (sy_db s))((t_name (sy_topic s), target) :=
          map_option (\<lambda>(w, _). (w, given)) (live_subs (sy_db s) (t_name (sy_topic s), target))))"

lemma anotherUserSub_effect:
  assumes "anotherUserSub g f now ss sess asUid target asChan mode s = Some (res, s')" "plain_group s" "target \<noteq> 0"
  shows "touches target s s' \<and>
    (other_same target s s' \<or> other_new f asUid target mode s s' \<or> other_changed asUid target s s')"
proof -
  let ?t = "sy_topic s"
  have grp: "t_cat ?t = TopicCatGrp" and nc: "\<And>m. members ?t target = Some m \<Longrightarrow> \<not> mb_chan m"
    using assms(2) by (auto simp: plain_group_def)
  have idle: ?thesis if "sy_topic s' = ?t" "sy_db s' = sy_db s"
    using that nc by (simp add: touches_def other_same_def)
  note def = assms(1) [unfolded anotherUserSub_def Let_def refuse_def]
  show ?thesis
  proof (cases "other_guards g ?t asUid asChan mode")
    case (Inl er)
    then have "s' = emit (Reply (snd er)) s" using def by (cases er) auto
    then show ?thesis by - (rule idle, simp_all)
  next
    case (Inr given)
    note guards = other_guards_Inr [OF Inr _ grp]
    let ?p = "pud_of ?t target"
    show ?thesis
    proof (cases "\<not> has_pud ?t target \<or> pud_deleted ?p")
      case True
      then have gone: "\<forall>m. members ?t target = Some m \<longrightarrow> mb_deleted m"
        using members_pud(3) [of ?t target] by (auto simp: members_pud(2))
      obtain err s1 where inv: "invite_user g f now asUid target given s = Some (err, s1)"
        and step: "(case err of Some (e, r) \<Rightarrow> Some (Inl e, emit (Reply r) s1)
          | None \<Rightarrow> other_finish ss sess asUid target ModeUnset ModeUnset s1) = Some (res, s')"
        using def Inr True by (auto simp: bind_eq_Some_conv)
      show ?thesis
      proof (cases err)
        case (Some er)
        then have "sy_topic s' = sy_topic s1 \<and> sy_db s' = sy_db s1" using step by (cases er) auto
        then show ?thesis using invite_user_group [OF inv assms(2)] Some idle by simp
      next
        case None
        let ?m = "\<lambda>want gv. \<lparr>mb_want = want, mb_given = gv, mb_chan = False, mb_deleted = False\<rparr>"
        obtain want gv where i: "gv = (if given = ModeUnset then t_accessAuth ?t OR ModeJoin else given)"
          "invited_want f ?t target gv (sy_db s) = Inr want"
          "members (sy_topic s1) = (members ?t)(target \<mapsto> ?m want gv)"
          "fixed (sy_topic s1) = fixed ?t" "t_owner (sy_topic s1) = t_owner ?t"
          "live_subs (sy_db s1) = (live_subs (sy_db s))((t_name ?t, target) \<mapsto> (db_mode want, db_mode gv))"
          using invite_user_group [OF inv assms(2)] None by auto
        have 1: "touches target s s1" using i(3-5) by (simp add: touches_def)
        have pg1: "plain_group s1" by (rule touches_plain [OF 1 assms(2)])
        have fin: "other_finish ss sess asUid target ModeUnset ModeUnset s1 = Some (res, s')" using step None by simp
        have "members (sy_topic s1) target = Some (?m want gv)" using i(3) by simp
        note of = other_finish_group [OF fin pg1 this]
        have "other_new f asUid target mode s s'"
          unfolding other_new_def using gone i(1,2,6) of(2,3) guards by (intro conjI exI [of _ want] exI [of _ gv]) auto
        then show ?thesis using touches_trans [OF 1 of(1)] by blast
      qed
    next
      case False
      then have m: "members ?t target = Some (member_of ?p)" using members_pud(3) by blast
      show ?thesis
      proof (cases "given = ModeUnset \<or> given = pud_modeGiven ?p")
        case True
        then have "other_finish ss sess asUid target (pud_modeWant ?p) (pud_modeGiven ?p) s = Some (res, s')"
          using def Inr False by simp
        note of = other_finish_group [OF this assms(2) m]
        then show ?thesis using m by (auto simp: other_same_def)
      next
        case explicit: False
        show ?thesis
        proof (cases "t_owner ?t = target \<and> (\<not> IsOwner given \<or> \<not> IsJoiner given)")
          case True
          then have "s' = emit (Reply ErrPermissionDeniedReply) s" using def Inr False explicit by simp
          then show ?thesis by - (rule idle, simp_all)
        next
          case own: False
          then have own': "\<not> (t_owner ?t = target \<and> (IsOwner given \<longrightarrow> \<not> IsJoiner given))" by blast
          obtain e db' where upd: "subs_Update (f CUpdate) now (t_name ?t) target
              (no_update\<lparr>su_ModeGiven := Some given\<rparr>) (sy_db s) = (e, db')" by fastforce
          note live = subs_Update_live [OF upd assms(3)]
          show ?thesis
          proof (cases e)
            case (Some x)
            then have "s' = set_db db' s" using def Inr False explicit upd by (simp add: own')
            then show ?thesis using live Some by - (rule idle, simp_all)
          next
            case None
            let ?s1 = "on_topic (set_pud target (?p\<lparr>pud_modeGiven := given\<rparr>)) (set_db db' s)"
            let ?m = "(member_of ?p)\<lparr>mb_given := given\<rparr>"
            have fin: "other_finish ss sess asUid target (pud_modeWant ?p) (pud_modeGiven ?p) ?s1 = Some (res, s')"
              using def Inr False explicit upd None by (simp add: own')
            have m1: "members (sy_topic ?s1) target = Some ?m" by (simp add: member_of_def)
            have 1: "touches target s ?s1" using nc [OF m] by (simp add: touches_def)
            have pg1: "plain_group ?s1" by (rule touches_plain [OF 1 assms(2)])
            note of = other_finish_group [OF fin pg1 m1]
            have gd: "grant_ok ?t asUid given" "acs_wf given" using guards explicit by blast+
            have lv: "live_subs (sy_db s') = (live_subs (sy_db s))((t_name ?t, target) :=
                map_option (\<lambda>(w, _). (w, given)) (live_subs (sy_db s) (t_name ?t, target)))"
              using live None of(2) gd(2) by (simp add: no_update_def opt_or_def)
            have "other_changed asUid target s s'"
              unfolding other_changed_def using m gd own of(3) False lv
              by (intro exI [of _ "member_of ?p"] exI [of _ given]) auto
            then show ?thesis using touches_trans [OF 1 of(1)] by blast
          qed
        qed
      qed
    qed
  qed
qed

end
