(* ===== verification/TopicSafety.thy ===== *)
theory TopicSafety
  imports TopicOwnership
begin

text \<open>
  The user's own request in a group that is not a channel: all outcomes of \<open>thisUserSub\<close>, in the topic
  and in the store, and what becomes of the ownership of the group.
\<close>

section \<open>The user's own request\<close>

lemma subs_Get_live:
  "subs_Get fault tp u True db = Inr (Some b) \<Longrightarrow> sub_DeletedAt b = None \<Longrightarrow>
     live_subs db (tp, u) = Some (sub_ModeWant b, sub_ModeGiven b)"
  by (auto simp: subs_Get_def SubscriptionGet_def row_subscription_def live_subs_def split: option.splits)

lemma plain_pud: "plain_group s \<Longrightarrow> \<not> pud_isChan (pud_of (sy_topic s) u)"
proof (cases "has_pud (sy_topic s) u")
  case True
  moreover assume "plain_group s"
  ultimately have "\<not> mb_chan (member_of (pud_of (sy_topic s) u))"
    using members_pud(3) [of "sy_topic s" u] unfolding plain_group_def by blast
  then show ?thesis by simp
next
  case False
  then show ?thesis by (simp add: pud_of_def has_pud_def zero_pud_def)
qed

lemma self_finish_group:
  assumes "self_finish ss sess rq False asUid p ow og s = Some (res, s')" "plain_group s" "\<not> pud_isChan p"
  shows "members (sy_topic s') = (members (sy_topic s))(asUid \<mapsto> member_of p)"
    "fixed (sy_topic s') = fixed (sy_topic s)" "t_owner (sy_topic s') = t_owner (sy_topic s)" "sy_db s' = sy_db s"
proof -
  let ?T = "set_pud asUid p (sy_topic s)"
  define s1 where "s1 = (if IsPresencer (ow AND og) \<and> \<not> IsPresencer (eff_mode p) then
      emit (Notice (if t_cat (sy_topic s) = TopicCatMe then PresUsersOfInterest ''off+dis'' (t_userAgent (sy_topic s))
        else PresSingleUserOffline asUid (eff_mode p) ''off+dis'' nilPresParams [] False)) s else s)"
  define changed where "changed \<longleftrightarrow> ow \<noteq> pud_modeWant p \<or> og \<noteq> pud_modeGiven p"
  define s3 where "s3 = (if changed then unread_change (sy_topic s) asUid (ow AND og) p (on_topic (set_pud asUid p) s1)
      else on_topic (set_pud asUid p) s1)"
  have s3: "sy_topic s3 = ?T \<and> sy_db s3 = sy_db s" by (simp add: s3_def s1_def)
  let ?res = "if rq_newsub rq \<or> changed then Some (access_msg (sy_topic s) p) else None"
  have eq: "self_finish ss sess rq False asUid p ow og s = do {
      s4 \<leftarrow> (if changed then notifySubChange asUid asUid False ow og (pud_modeWant p) (pud_modeGiven p) (si_sid (ss sess)) s3
             else Some s3);
      if \<not> IsJoiner (pud_modeWant p) then map_option (\<lambda>s5. (Inr ?res, s5)) (evictUser ss asUid False [] s4)
      else if \<not> IsJoiner (pud_modeGiven p) then refuse Banned ErrPermissionDeniedReply s4
      else Some (Inr ?res, s4) }"
    by (simp add: self_finish_def Let_def s1_def s3_def changed_def)
  obtain s4 where n: "(if changed then notifySubChange asUid asUid False ow og (pud_modeWant p) (pud_modeGiven p)
      (si_sid (ss sess)) s3 else Some s3) = Some s4"
    and fin: "(if \<not> IsJoiner (pud_modeWant p) then evictUser ss asUid False [] s4 = Some s'
      else if \<not> IsJoiner (pud_modeGiven p) then s' = emit (Reply ErrPermissionDeniedReply) s4 else s' = s4)"
    using assms(1) unfolding eq by (auto simp: bind_eq_Some_conv refuse_def split: if_splits)
  have s4: "sy_topic s4 = ?T \<and> sy_db s4 = sy_db s"
    using n s3 by (auto split: if_splits dest!: notifySubChange_same)
  have s': "s' = s4 \<or> evictUser ss asUid False [] s4 = Some s' \<or> (\<exists>e. s' = emit e s4)"
    using fin by (auto split: if_splits)
  have "plain_group s4" using assms(2,3) s4 by (auto simp: plain_group_def)
  then have "unchanged s4 s'" using s' evictUser_group by auto
  then show "members (sy_topic s') = (members (sy_topic s))(asUid \<mapsto> member_of p)"
    "fixed (sy_topic s') = fixed (sy_topic s)" "t_owner (sy_topic s') = t_owner (sy_topic s)" "sy_db s' = sy_db s"
    using s4 by (simp_all add: same_but_def)
qed

definition self_idle :: "tsys \<Rightarrow> tsys \<Rightarrow> bool" where
  "self_idle s s' \<longleftrightarrow> members (sy_topic s') = members (sy_topic s) \<and> fixed (sy_topic s') = fixed (sy_topic s) \<and>
     t_owner (sy_topic s') = t_owner (sy_topic s)"

abbreviation sub_key :: "tsys \<Rightarrow> uid \<Rightarrow> string \<times> uid" where
  "sub_key s u \<equiv> (t_name (sy_topic s), u)"

definition self_restored :: "uid \<Rightarrow> tsys \<Rightarrow> tsys \<Rightarrow> bool" where
  "self_restored u s s' \<longleftrightarrow>
     (\<exists>m. members (sy_topic s) u = Some m \<and> \<not> IsJoiner (mb_given m) \<and>
        members (sy_topic s') = (members (sy_topic s))(u \<mapsto> m\<lparr>mb_want := member_mode, mb_given := member_mode\<rparr>) \<and>
        fixed (sy_topic s') = fixed (sy_topic s) \<and> t_owner (sy_topic s') = t_owner (sy_topic s) \<and>
        live_subs (sy_db s') = (live_subs (sy_db s))(sub_key s u :=
          map_option (\<lambda>_. (member_mode, member_mode)) (live_subs (sy_db s) (sub_key s u))))"

lemma db_mode_member [simp]: "db_mode member_mode = member_mode"
  by (rule db_mode_wf) (auto simp: acs_wf_bits)

lemma restore_member_group:
  assumes "restore_member f now ss sess rq u s = Some (res, s')" "has_pud (sy_topic s) u"
    "\<not> IsJoiner (pud_modeGiven (pud_of (sy_topic s) u))" "u \<noteq> 0"
  shows "self_idle s s' \<and> sy_db s' = sy_db s \<or> self_restored u s s' \<and> rq_inviteConsumed rq"
proof -
  let ?p = "pud_of (sy_topic s) u"
  obtain e db' where upd: "subs_Update (f CUpdate) now (t_name (sy_topic s)) u (set_modes member_mode member_mode) (sy_db s) = (e, db')"
    by fastforce
  note live = subs_Update_live [OF upd assms(4)]
  note def = assms(1) [unfolded restore_member_def Let_def upd refuse_def]
  show ?thesis
  proof (cases "rq_inviteConsumed rq \<and> e = None")
    case False
    then have "sy_topic s' = sy_topic s \<and> sy_db s' = sy_db s"
      using def live by (auto split: if_splits option.splits)
    then show ?thesis by (simp add: self_idle_def)
  next
    case True
    then have "sy_topic s' = set_pud u (?p\<lparr>pud_modeWant := member_mode, pud_modeGiven := member_mode\<rparr>) (sy_topic s)"
      "sy_db s' = db'"
      using def by (auto simp: bind_eq_Some_conv split: if_splits dest!: notifySubChange_same)
    moreover have "members (sy_topic s) u = Some (member_of ?p)" using members_pud(3) assms(2) by blast
    ultimately show ?thesis using True live assms(3)
      by (auto simp: self_restored_def member_of_def set_modes_def no_update_def opt_or_def split_def)
  qed
qed

section \<open>A new subscriber\<close>

lemma checkOfficialSelfJoin_same:
  assumes "checkOfficialSelfJoin rq hasInv now u s = Some (e, s')"
  shows "self_idle s s'" "sy_db s' = sy_db s" "plain_group s' = plain_group s"
proof -
  have "members (snd (refreshOfficialPolicy st now t)) = members t \<and> fixed (snd (refreshOfficialPolicy st now t)) = fixed t \<and>
      t_owner (snd (refreshOfficialPolicy st now t)) = t_owner t" for st t
    by (auto simp: refreshOfficialPolicy_def split: sum.splits option.splits)
  from this [of "rq_policy rq" "sy_topic s"]
  have *: "self_idle s s' \<and> sy_db s' = sy_db s"
    using assms
    by (auto simp: checkOfficialSelfJoin_def Let_def self_idle_def split: if_splits option.splits prod.splits join_outcome.splits)
  then show "self_idle s s'" "sy_db s' = sy_db s" "plain_group s' = plain_group s"
    using plain_group_cong [of s' s] by (simp_all add: self_idle_def)
qed

text \<open>What a new subscriber gets: the modes come from the invitation, from an earlier subscription or
  from the defaults of the topic.\<close>

definition join_given :: "faults \<Rightarrow> tsys \<Rightarrow> uid \<Rightarrow> access_mode \<Rightarrow> bool" where
  "join_given f s u m \<longleftrightarrow>
     m = (if has_pud (sy_topic s) u then pud_modeGiven (pud_of (sy_topic s) u)
          else case subs_Get (f CGet) (t_name (sy_topic s)) u True (sy_db s) of
                 Inr (Some b) \<Rightarrow> sub_ModeGiven b | _ \<Rightarrow> ModeUnset)"

definition join_modes :: "tglobals \<Rightarrow> faults \<Rightarrow> self_request \<Rightarrow> bool \<Rightarrow> access_mode \<Rightarrow> uid \<Rightarrow> tsys \<Rightarrow> access_mode \<Rightarrow> access_mode \<Rightarrow> bool" where
  "join_modes g f rq hasInv modeWant u s want given \<longleftrightarrow>
     (if hasInv then want = member_mode \<and> given = member_mode
      else
        (modeWant \<noteq> ModeUnset \<and> want = modeWant \<or> modeWant = ModeUnset \<and> accessFor g (sy_topic s) (rq_AuthLvl rq) = Some want) \<and>
        (\<exists>m. join_given f s u m \<and>
          (m \<noteq> ModeUnset \<and> given = m \<or> m = ModeUnset \<and> accessFor g (sy_topic s) (rq_AuthLvl rq) = Some given)))"

lemma new_sub_plain_modes:
  assumes "new_sub_plain g f rq hasInv modeWant u s = Some (Inr n)"
  shows "join_modes g f rq hasInv modeWant u s (pud_modeWant (ns_userData n)) (pud_modeGiven (ns_userData n))"
    "ns_tname n = t_name (sy_topic s)" "pud_isChan (ns_userData n) = pud_isChan (pud_of (sy_topic s) u)"
    "ns_sub n = Some b \<Longrightarrow> \<not> has_pud (sy_topic s) u \<and> subs_Get (f CGet) (t_name (sy_topic s)) u True (sy_db s) = Inr (Some b)"
proof -
  define found where "found = (if has_pud (sy_topic s) u then Inr (pud_modeGiven (pud_of (sy_topic s) u), None)
      else case subs_Get (f CGet) (t_name (sy_topic s)) u True (sy_db s) of
             Inl e \<Rightarrow> Inl e | Inr None \<Rightarrow> Inr (ModeUnset, None) | Inr (Some b) \<Rightarrow> Inr (sub_ModeGiven b, Some b))"
  obtain m sub want given where m: "found = Inr (m, sub)"
    "(if m = ModeUnset then accessFor g (sy_topic s) (rq_AuthLvl rq) else Some m) = Some given"
    "(if modeWant = ModeUnset then accessFor g (sy_topic s) (rq_AuthLvl rq) else Some modeWant) = Some want"
    and n: "n = \<lparr>ns_userData = (pud_of (sy_topic s) u)\<lparr>pud_modeGiven := if hasInv then member_mode else given,
        pud_modeWant := if hasInv then member_mode else want\<rparr>, ns_sub = sub,
        ns_oldWant = ModeNone, ns_oldGiven = ModeNone, ns_tname = t_name (sy_topic s)\<rparr>"
    using assms unfolding new_sub_plain_def Let_def found_def [symmetric]
    by (cases found; cases hasInv) (auto simp: bind_eq_Some_conv)
  have g: "join_given f s u m" "\<And>b. sub = Some b \<Longrightarrow> \<not> has_pud (sy_topic s) u \<and>
      subs_Get (f CGet) (t_name (sy_topic s)) u True (sy_db s) = Inr (Some b)"
    using m(1) by (auto simp: found_def join_given_def split: if_splits sum.splits option.splits)
  show "join_modes g f rq hasInv modeWant u s (pud_modeWant (ns_userData n)) (pud_modeGiven (ns_userData n))"
    using g(1) m(2,3) n by (auto simp: join_modes_def split: if_splits)
  show "ns_tname n = t_name (sy_topic s)" "pud_isChan (ns_userData n) = pud_isChan (pud_of (sy_topic s) u)"
    "ns_sub n = Some b \<Longrightarrow> \<not> has_pud (sy_topic s) u \<and> subs_Get (f CGet) (t_name (sy_topic s)) u True (sy_db s) = Inr (Some b)"
    using n g(2) by simp_all
qed

definition store_joined :: "uid \<Rightarrow> perUserData \<Rightarrow> tsys \<Rightarrow> tsys \<Rightarrow> bool" where
  "store_joined u p s s' \<longleftrightarrow>
     live_subs (sy_db s') = (live_subs (sy_db s))(sub_key s u \<mapsto> (db_mode (pud_modeWant p), db_mode (pud_modeGiven p))) \<or>
     sy_db s' = sy_db s \<and> \<not> has_pud (sy_topic s) u \<and> live_subs (sy_db s) (sub_key s u) \<noteq> None"

lemma ParseUid_new [simp]: "ParseUid (sub_User (new_subscription u tp w gv pr)) = u"
  by (simp add: new_subscription_def)

lemma new_sub_store_group:
  assumes "new_sub_store f now rq False u n s = Some (out, s')" "ns_tname n = t_name (sy_topic s)"
    and "\<forall>b. ns_sub n = Some b \<longrightarrow> \<not> has_pud (sy_topic s) u \<and>
      subs_Get (f CGet) (t_name (sy_topic s)) u True (sy_db s) = Inr (Some b)"
  shows "sy_topic s' = sy_topic s"
    "out = Inl e \<Longrightarrow> sy_db s' = sy_db s"
    "out = Inr p \<Longrightarrow> IsJoiner (pud_modeGiven p) \<and> pud_modeWant p = pud_modeWant (ns_userData n) \<and>
       pud_modeGiven p = pud_modeGiven (ns_userData n) \<and> pud_isChan p = pud_isChan (ns_userData n) \<and> \<not> pud_deleted p \<and>
       store_joined u p s s'"
proof -
  note def = assms(1) [unfolded new_sub_store_def Let_def assms(2)]
  show "sy_topic s' = sy_topic s" using def by (auto split: if_splits option.splits)
  show "out = Inl e \<Longrightarrow> sy_db s' = sy_db s"
    using def by (auto split: if_splits option.splits dest!: subs_Create_live)
  show "out = Inr p \<Longrightarrow> IsJoiner (pud_modeGiven p) \<and> pud_modeWant p = pud_modeWant (ns_userData n) \<and>
       pud_modeGiven p = pud_modeGiven (ns_userData n) \<and> pud_isChan p = pud_isChan (ns_userData n) \<and> \<not> pud_deleted p \<and>
       store_joined u p s s'"
    using def assms(3) subs_Get_live
    by (auto simp: store_joined_def new_subscription_def split: if_splits option.splits dest!: subs_Create_live)
qed

lemma new_branch_group:
  assumes "new_subscription_branch g f now rq False hasInv modeWant u s = Some (out, s')" "plain_group s"
  shows "self_idle s s'" "out = Inl e \<Longrightarrow> sy_db s' = sy_db s"
    "out = Inr (p, ow, og) \<Longrightarrow> IsJoiner (pud_modeGiven p) \<and> \<not> pud_isChan p \<and> \<not> pud_deleted p \<and>
       join_modes g f rq hasInv modeWant u s (pud_modeWant p) (pud_modeGiven p) \<and> store_joined u p s s'"
proof -
  have grp: "t_cat (sy_topic s) = TopicCatGrp" using assms(2) by (simp add: plain_group_def)
  obtain err s1 where ck: "checkOfficialSelfJoin rq hasInv now u s = Some (err, s1)"
    using assms(1) grp by (auto simp: new_subscription_branch_def bind_eq_Some_conv)
  note same = checkOfficialSelfJoin_same [OF ck]
  have pg1: "plain_group s1" and t1: "t_name (sy_topic s1) = t_name (sy_topic s)" "t_cat (sy_topic s1) = TopicCatGrp"
    "t_isChan (sy_topic s1) = t_isChan (sy_topic s)" "t_accessAuth (sy_topic s1) = t_accessAuth (sy_topic s)"
    "t_accessAnon (sy_topic s1) = t_accessAnon (sy_topic s)"
    using same assms(2) grp by (auto simp: self_idle_def fixed_def)
  have puds: "t_perUser (sy_topic s1) = t_perUser (sy_topic s)"
  proof -
    have "t_perUser (snd (refreshOfficialPolicy st now t)) = t_perUser t" for st t
      by (auto simp: refreshOfficialPolicy_def split: sum.splits option.splits)
    from this [of "rq_policy rq" "sy_topic s"] show ?thesis
      using ck by (auto simp: checkOfficialSelfJoin_def Let_def split: if_splits option.splits prod.splits join_outcome.splits)
  qed
  have jm: "join_modes g f rq hasInv modeWant u s1 w gv = join_modes g f rq hasInv modeWant u s w gv" for w gv
    using same(2) t1 puds grp by (simp add: join_modes_def join_given_def accessFor_group has_pud_def pud_of_def)
  have sj: "store_joined u p s1 s' = store_joined u p s s'" for p
    using same(2) t1 puds by (simp add: store_joined_def has_pud_def)
  have pud: "pud_of (sy_topic s1) u = pud_of (sy_topic s) u" using puds by (simp add: pud_of_def)
  have nc: "\<not> pud_isChan (pud_of (sy_topic s) u)" by (rule plain_pud [OF assms(2)])
  consider (stop) er r where "out = Inl er" "s' = s1 \<or> s' = emit r s1"
    | (store) n out2 s2 where "new_sub_plain g f rq hasInv modeWant u s1 = Some (Inr n)"
      "new_sub_store f now rq False u n s1 = Some (out2, s2)"
      "(case out2 of Inl (e, r) \<Rightarrow> out = Inl e \<and> s' = emit (Reply r) s2 | Inr p \<Rightarrow> out = Inr (p, ns_oldWant n, ns_oldGiven n) \<and> s' = s2)"
    using assms(1) grp t1(2) ck
    by (auto simp: new_subscription_branch_def Let_def new_sub_modes_def
        split: if_split_asm option.split_asm sum.split_asm prod.split_asm Option.bind_split_asm)
  then have "self_idle s s' \<and> (out = Inl e \<longrightarrow> sy_db s' = sy_db s) \<and>
    (out = Inr (p, ow, og) \<longrightarrow> IsJoiner (pud_modeGiven p) \<and> \<not> pud_isChan p \<and> \<not> pud_deleted p \<and>
       join_modes g f rq hasInv modeWant u s (pud_modeWant p) (pud_modeGiven p) \<and> store_joined u p s s')"
  proof cases
    case stop
    then show ?thesis using same by (auto simp: self_idle_def)
  next
    case store
    note pm = new_sub_plain_modes [OF store(1)]
    have found: "\<forall>b. ns_sub n = Some b \<longrightarrow>
        \<not> has_pud (sy_topic s1) u \<and> subs_Get (f CGet) (t_name (sy_topic s1)) u True (sy_db s1) = Inr (Some b)"
      using pm(4) by blast
    note ns = new_sub_store_group [OF store(2) pm(2) found]
    show ?thesis
    proof (cases out2)
      case (Inl er)
      then show ?thesis using store(3) ns(1) ns(2) [OF Inl] same by (cases er) (auto simp: self_idle_def)
    next
      case (Inr q)
      then have "out = Inr (q, ns_oldWant n, ns_oldGiven n)" "s' = s2" using store(3) by auto
      then show ?thesis using ns(1) ns(3) [OF Inr] same pm(1,3) jm sj pud nc by (auto simp: self_idle_def)
    qed
  qed
  then show "self_idle s s'" "out = Inl e \<Longrightarrow> sy_db s' = sy_db s"
    "out = Inr (p, ow, og) \<Longrightarrow> IsJoiner (pud_modeGiven p) \<and> \<not> pud_isChan p \<and> \<not> pud_deleted p \<and>
       join_modes g f rq hasInv modeWant u s (pud_modeWant p) (pud_modeGiven p) \<and> store_joined u p s s'"
    by blast+
qed

section \<open>A subscriber's request\<close>

text \<open>The input of the plan for a request in a group, and what its outcome does to the row of the user.\<close>

definition self_plan :: "tglobals \<Rightarrow> self_request \<Rightarrow> access_mode \<Rightarrow> uid \<Rightarrow> topic \<Rightarrow> selfSubscriptionTransitionInput" where
  "self_plan g rq modeWant u t =
     \<lparr>in_category = TopicCatGrp, in_isTopicOwner = (t_owner t = u), in_oldWant = pud_modeWant (pud_of t u),
      in_oldGiven = pud_modeGiven (pud_of t u), in_requested = modeWant,
      in_defaultAccess = selectAccessMode (rq_AuthLvl rq) (t_accessAnon t) (t_accessAuth t) ModeCPublic,
      in_p2pAccess = g_typesModeCP2P g\<rparr>"

definition self_row :: "perUserData \<Rightarrow> selfSubscriptionTransition \<Rightarrow> access_mode \<times> access_mode \<Rightarrow> access_mode \<times> access_mode" where
  "self_row old tr = (\<lambda>(w, gv). (if tr_want tr \<noteq> pud_modeWant old then db_mode (tr_want tr) else w,
     if tr_given tr \<noteq> pud_modeGiven old then db_mode (tr_given tr) else gv))"

definition no_owner :: "member \<Rightarrow> member" where
  "no_owner m = m\<lparr>mb_want := mb_want m AND NOT ModeOwner, mb_given := mb_given m AND NOT ModeOwner\<rparr>"

lemma member_of_drop_owner [simp]: "member_of (drop_owner p) = no_owner (member_of p)"
  by (simp add: drop_owner_def member_of_def no_owner_def)

lemma member_of_self_pud [simp]:
  "member_of (self_pud private old tr) = (member_of old)\<lparr>mb_want := tr_want tr, mb_given := tr_given tr\<rparr>"
  by (simp add: self_pud_def member_of_def)

definition self_planned :: "uid \<Rightarrow> selfSubscriptionTransition \<Rightarrow> tsys \<Rightarrow> tsys \<Rightarrow> bool" where
  "self_planned u tr s s' \<longleftrightarrow>
     fixed (sy_topic s') = fixed (sy_topic s) \<and>
     (let old = pud_of (sy_topic s) u; owner = t_owner (sy_topic s); oldOwner = member_of (pud_of (sy_topic s) owner);
          live1 = (live_subs (sy_db s))(sub_key s u := map_option (self_row old tr) (live_subs (sy_db s) (sub_key s u)))
      in if tr_ownerChange tr then
           t_owner (sy_topic s') = u \<and>
           members (sy_topic s') = (members (sy_topic s))(owner \<mapsto> no_owner oldOwner) \<and>
           live_subs (sy_db s') = live1(sub_key s owner := map_option (\<lambda>_.
             (db_mode (mb_want (no_owner oldOwner)), db_mode (mb_given (no_owner oldOwner)))) (live1 (sub_key s owner)))
         else t_owner (sy_topic s') = owner \<and> members (sy_topic s') = members (sy_topic s) \<and> live_subs (sy_db s') = live1)"

lemma plain_upd:
  assumes "plain_group s" "members (sy_topic s') = (members (sy_topic s))(u \<mapsto> m)" "\<not> mb_chan m"
    "fixed (sy_topic s') = fixed (sy_topic s)"
  shows "plain_group s'"
  using assms by (simp add: plain_group_def fixed_def)

lemma planned_plain:
  assumes "self_planned u tr s s'" "plain_group s"
  shows "plain_group s'"
proof -
  have "\<not> mb_chan (no_owner (member_of (pud_of (sy_topic s) v)))" for v
    using plain_pud [OF assms(2)] by (simp add: no_owner_def)
  then show ?thesis using assms
    by (auto simp: self_planned_def Let_def plain_group_def fixed_def split: if_split_asm)
qed

lemma live_OwnerChange [simp]: "topics_OwnerChange fl tp u db = (e, db') \<Longrightarrow> live_subs db' = live_subs db"
  by (auto simp: topics_OwnerChange_def fun_eq_iff live_subs_def split: option.splits)

lemma change_owner_group:
  assumes "change_owner f now u s = Some (e, s')" "t_owner (sy_topic s) \<noteq> 0"
  defines "owner \<equiv> t_owner (sy_topic s)"
  defines "m \<equiv> no_owner (member_of (pud_of (sy_topic s) owner))"
  shows "e = Some er \<Longrightarrow> sy_topic s' = sy_topic s"
    "e = None \<Longrightarrow> fixed (sy_topic s') = fixed (sy_topic s) \<and> t_owner (sy_topic s') = u \<and>
       members (sy_topic s') = (members (sy_topic s))(owner \<mapsto> m) \<and>
       live_subs (sy_db s') = (live_subs (sy_db s))(sub_key s owner :=
         map_option (\<lambda>_. (db_mode (mb_want m), db_mode (mb_given m))) (live_subs (sy_db s) (sub_key s owner)))"
proof -
  let ?p = "drop_owner (pud_of (sy_topic s) owner)"
  obtain e1 db1 where u1: "subs_Update (f COwnerUpdate) now (t_name (sy_topic s)) owner
      (set_modes (pud_modeWant ?p) (pud_modeGiven ?p)) (sy_db s) = (e1, db1)" by fastforce
  obtain e2 db2 where u2: "topics_OwnerChange (f COwnerChange) (t_name (sy_topic s)) u db1 = (e2, db2)" by fastforce
  note live = subs_Update_live [OF u1 assms(2) [folded owner_def]]
  note def = assms(1) [unfolded change_owner_def Let_def, folded owner_def, unfolded u1]
  have m: "mb_want m = pud_modeWant ?p" "mb_given m = pud_modeGiven ?p"
    by (simp_all add: m_def no_owner_def drop_owner_def)
  show "e = Some er \<Longrightarrow> sy_topic s' = sy_topic s"
    using def u2 by (auto split: option.splits)
  show "e = None \<Longrightarrow> fixed (sy_topic s') = fixed (sy_topic s) \<and> t_owner (sy_topic s') = u \<and>
       members (sy_topic s') = (members (sy_topic s))(owner \<mapsto> m) \<and>
       live_subs (sy_db s') = (live_subs (sy_db s))(sub_key s owner :=
         map_option (\<lambda>_. (db_mode (mb_want m), db_mode (mb_given m))) (live_subs (sy_db s) (sub_key s owner)))"
  proof -
    assume "e = None"
    then obtain s1 where "e1 = None" "e2 = None" and n: "notifySubChange owner u False (pud_modeWant (pud_of (sy_topic s) owner))
        (pud_modeGiven (pud_of (sy_topic s) owner)) (pud_modeWant ?p) (pud_modeGiven ?p) []
        (on_topic (set_pud owner ?p) (set_db db2 s)) = Some s1"
      and s': "s' = on_topic (\<lambda>t. t\<lparr>t_owner := u\<rparr>) s1"
      using def u2 by (auto split: option.splits)
    with notifySubChange_same [OF n] live live_OwnerChange [OF u2] show ?thesis
      by (simp add: m [symmetric] set_modes_def no_update_def opt_or_def split_def m_def [symmetric])
  qed
qed

lemma existing_branch_group:
  assumes "existing_branch g f now rq False modeWant u s = Some (out, s')" "plain_group s" "u \<noteq> 0" "t_owner (sy_topic s) \<noteq> 0"
  shows "out = Inl e \<Longrightarrow> self_idle s s' \<and> (sy_db s' = sy_db s \<or>
      (\<exists>tr. planExistingSelfSubscription (self_plan g rq modeWant u (sy_topic s)) = Inr tr \<and> tr_ownerChange tr))"
    "out = Inr (p, ow, og) \<Longrightarrow> \<exists>tr. planExistingSelfSubscription (self_plan g rq modeWant u (sy_topic s)) = Inr tr \<and>
      p = self_pud (rq_private rq) (pud_of (sy_topic s) u) tr \<and> self_planned u tr s s'"
proof -
  let ?t = "sy_topic s"
  let ?old = "pud_of ?t u"
  have grp: "t_cat ?t = TopicCatGrp" using assms(2) by (simp add: plain_group_def)
  have plan: "\<lparr>in_category = t_cat ?t, in_isTopicOwner = (t_owner ?t = u), in_oldWant = pud_modeWant ?old,
      in_oldGiven = pud_modeGiven ?old, in_requested = modeWant,
      in_defaultAccess = selectAccessMode (rq_AuthLvl rq) (t_accessAnon ?t) (t_accessAuth ?t) ModeCPublic,
      in_p2pAccess = g_typesModeCP2P g\<rparr> = self_plan g rq modeWant u ?t"
    using grp by (simp add: self_plan_def)
  have acc: "accessFor g ?t (rq_AuthLvl rq) = Some (selectAccessMode (rq_AuthLvl rq) (t_accessAnon ?t) (t_accessAuth ?t) ModeCPublic)"
    using grp by (simp add: accessFor_group)
  note def = assms(1) [unfolded existing_branch_def Let_def acc, simplified plan option.case]
  have "(\<forall>e. out = Inl e \<longrightarrow> self_idle s s' \<and> (sy_db s' = sy_db s \<or>
      (\<exists>tr. planExistingSelfSubscription (self_plan g rq modeWant u ?t) = Inr tr \<and> tr_ownerChange tr))) \<and>
    (\<forall>p ow og. out = Inr (p, ow, og) \<longrightarrow> (\<exists>tr. planExistingSelfSubscription (self_plan g rq modeWant u ?t) = Inr tr \<and>
      p = self_pud (rq_private rq) ?old tr \<and> self_planned u tr s s'))"
  proof (cases "planExistingSelfSubscription (self_plan g rq modeWant u ?t)")
    case (Inl er)
    then show ?thesis using def by (auto simp: self_idle_def)
  next
    case (Inr tr)
    let ?u = "self_update (rq_private rq) ?old tr"
    let ?live1 = "(live_subs (sy_db s))(sub_key s u := map_option (self_row ?old tr) (live_subs (sy_db s) (sub_key s u)))"
    have row_id: "?live1 = live_subs (sy_db s)" if "?u = no_update"
    proof -
      have "self_row ?old tr = id"
        using that by (auto simp: self_update_def no_update_def self_row_def fun_eq_iff split: if_splits)
      then show ?thesis by (simp add: option.map_id)
    qed
    obtain e1 db1 where upd: "subs_Update (f CUpdate) now (t_name ?t) u ?u (sy_db s) = (e1, db1)" by fastforce
    have row: "(\<lambda>(w, gv). (opt_or (map_option db_mode (su_ModeWant ?u)) w, opt_or (map_option db_mode (su_ModeGiven ?u)) gv)) = self_row ?old tr"
      by (auto simp: self_row_def self_update_def no_update_def opt_or_def fun_eq_iff)
    note live = subs_Update_live [OF upd assms(3), unfolded row]
    show ?thesis
    proof (cases "?u \<noteq> no_update \<and> e1 \<noteq> None")
      case True
      then have "sy_topic s' = ?t \<and> sy_db s' = sy_db s \<and> (\<exists>e. out = Inl e)"
        using def Inr upd live by (auto split: option.splits)
      then show ?thesis by (auto simp: self_idle_def)
    next
      case False
      obtain s1 where s1: "sy_topic s1 = ?t" "live_subs (sy_db s1) = ?live1"
        and rest: "(if tr_ownerChange tr then (case change_owner f now u s1 of
              None \<Rightarrow> None | Some (Some e, s2) \<Rightarrow> Some (Inl (EStore e), s2)
            | Some (None, s2) \<Rightarrow> Some (Inr (self_pud (rq_private rq) ?old tr, pud_modeWant ?old, pud_modeGiven ?old), s2))
          else Some (Inr (self_pud (rq_private rq) ?old tr, pud_modeWant ?old, pud_modeGiven ?old), s1)) = Some (out, s')"
      proof (cases "?u = no_update")
        case True
        then show ?thesis using that [of s] def Inr row_id by simp
      next
        case ne: False
        then have "e1 = None" using False by simp
        then show ?thesis using that [of "emit (PluginSubscription (new_subscription u (t_name ?t) (opt_or (su_ModeWant ?u) 0)
            (opt_or (su_ModeGiven ?u) 0) (rq_private rq)) PlgActUpd) (set_db db1 s)"] def Inr ne upd live by simp
      qed
      show ?thesis
      proof (cases "tr_ownerChange tr")
        case False
        then show ?thesis using rest s1 Inr by (auto simp: self_planned_def)
      next
        case True
        then obtain e2 s2 where co: "change_owner f now u s1 = Some (e2, s2)"
          and s': "(case e2 of Some e \<Rightarrow> out = Inl (EStore e) | None \<Rightarrow>
            out = Inr (self_pud (rq_private rq) ?old tr, pud_modeWant ?old, pud_modeGiven ?old)) \<and> s' = s2"
          using rest by (auto split: option.splits)
        have ow: "t_owner (sy_topic s1) \<noteq> 0" using s1(1) assms(4) by simp
        note cg = change_owner_group [OF co ow, unfolded s1(1)]
        show ?thesis
        proof (cases e2)
          case (Some er)
          then show ?thesis using cg(1) [OF Some] s' True Inr by (simp add: self_idle_def)
        next
          case None
          then show ?thesis using cg(2) [OF None] s' True Inr s1 by (auto simp: self_planned_def Let_def)
        qed
      qed
    qed
  qed
  then show "out = Inl e \<Longrightarrow> self_idle s s' \<and> (sy_db s' = sy_db s \<or>
      (\<exists>tr. planExistingSelfSubscription (self_plan g rq modeWant u (sy_topic s)) = Inr tr \<and> tr_ownerChange tr))"
    "out = Inr (p, ow, og) \<Longrightarrow> \<exists>tr. planExistingSelfSubscription (self_plan g rq modeWant u (sy_topic s)) = Inr tr \<and>
      p = self_pud (rq_private rq) (pud_of (sy_topic s) u) tr \<and> self_planned u tr s s'"
    by blast+
qed

section \<open>All outcomes of the user's own request\<close>

definition asked_mode :: "self_request \<Rightarrow> access_mode" where
  "asked_mode rq = (if rq_want rq \<noteq> [] then snd (UnmarshalText ModeUnset (rq_want rq)) else ModeUnset)"

definition self_joined :: "tglobals \<Rightarrow> faults \<Rightarrow> self_request \<Rightarrow> uid \<Rightarrow> tsys \<Rightarrow> tsys \<Rightarrow> bool" where
  "self_joined g f rq u s s' \<longleftrightarrow>
     (\<forall>m. members (sy_topic s) u = Some m \<longrightarrow> mb_deleted m) \<and>
     (\<exists>p. IsJoiner (pud_modeGiven p) \<and> \<not> pud_isChan p \<and> \<not> pud_deleted p \<and>
        join_modes g f rq (rq_invite rq \<noteq> []) (asked_mode rq) u s (pud_modeWant p) (pud_modeGiven p) \<and>
        (rq_invite rq \<noteq> [] \<longrightarrow> rq_inviteValid rq) \<and> store_joined u p s s' \<and>
        members (sy_topic s') = (members (sy_topic s))(u \<mapsto> member_of p) \<and>
        fixed (sy_topic s') = fixed (sy_topic s) \<and> t_owner (sy_topic s') = t_owner (sy_topic s))"

definition self_changed :: "tglobals \<Rightarrow> self_request \<Rightarrow> uid \<Rightarrow> tsys \<Rightarrow> tsys \<Rightarrow> bool" where
  "self_changed g rq u s s' \<longleftrightarrow>
     has_pud (sy_topic s) u \<and> \<not> pud_deleted (pud_of (sy_topic s) u) \<and>
     (\<exists>tr s1. planExistingSelfSubscription (self_plan g rq (asked_mode rq) u (sy_topic s)) = Inr tr \<and>
        self_planned u tr s s1 \<and>
        members (sy_topic s') = (members (sy_topic s1))(u \<mapsto>
          (member_of (pud_of (sy_topic s) u))\<lparr>mb_want := tr_want tr, mb_given := tr_given tr\<rparr>) \<and>
        fixed (sy_topic s') = fixed (sy_topic s1) \<and> t_owner (sy_topic s') = t_owner (sy_topic s1) \<and> sy_db s' = sy_db s1)"

definition handover :: "tglobals \<Rightarrow> self_request \<Rightarrow> uid \<Rightarrow> tsys \<Rightarrow> bool" where
  "handover g rq u s \<longleftrightarrow> has_pud (sy_topic s) u \<and>
     (\<exists>tr. planExistingSelfSubscription (self_plan g rq (asked_mode rq) u (sy_topic s)) = Inr tr \<and> tr_ownerChange tr)"

lemma thisUserSub_effect:
  assumes "thisUserSub g f now ss sess u False rq s = Some (res, s')" "plain_group s" "u \<noteq> 0" "t_owner (sy_topic s) \<noteq> 0"
  shows "self_idle s s' \<and> (sy_db s' = sy_db s \<or> handover g rq u s) \<or>
    self_restored u s s' \<and> rq_invite rq \<noteq> [] \<and> rq_inviteValid rq \<and> rq_inviteConsumed rq \<or>
    self_joined g f rq u s s' \<or> self_changed g rq u s s'"
proof -
  let ?t = "sy_topic s"
  have grp: "t_cat ?t = TopicCatGrp" using assms(2) by (simp add: plain_group_def)
  note def = assms(1) [unfolded thisUserSub_def Let_def grp simp_thms]
  obtain e w where um: "(if rq_want rq \<noteq> [] then UnmarshalText ModeUnset (rq_want rq) else (None, ModeUnset)) = (e, w)"
    by fastforce
  show ?thesis
  proof (cases "e \<noteq> None \<or> rq_invite rq \<noteq> [] \<and> \<not> rq_inviteValid rq")
    case True
    then have "sy_topic s' = ?t \<and> sy_db s' = sy_db s"
      using def um grp by (auto simp: refuse_def split: option.split_asm)
    then show ?thesis by (simp add: self_idle_def)
  next
    case False
    then have w: "w = asked_mode rq" using um by (auto simp: asked_mode_def split: if_splits)
    let ?restore = "has_pud ?t u \<and> \<not> pud_deleted (pud_of ?t u) \<and> rq_invite rq \<noteq> [] \<and> \<not> IsJoiner (pud_modeGiven (pud_of ?t u))"
    let ?new = "\<not> has_pud ?t u \<or> pud_deleted (pud_of ?t u)"
    show ?thesis
    proof (cases ?restore)
      case True
      then have "restore_member f now ss sess rq u s = Some (res, s')" using def um grp False by auto
      then show ?thesis using restore_member_group True False assms(3) by blast
    next
      case nr: False
      obtain out s1 where br: "(if ?new then new_subscription_branch g f now rq False (rq_invite rq \<noteq> []) (asked_mode rq) u s
          else existing_branch g f now rq False (asked_mode rq) u s) = Some (out, s1)"
        and fin: "(case out of Inl e \<Rightarrow> s' = s1 | Inr (p, ow, og) \<Rightarrow> self_finish ss sess rq False u p ow og s1 = Some (res, s'))"
        using def um grp False nr w
        by (auto simp del: has_pud_def split: sum.split_asm Option.bind_split_asm)
      show ?thesis
      proof (cases ?new)
        case True
        then have nb: "new_subscription_branch g f now rq False (rq_invite rq \<noteq> []) (asked_mode rq) u s = Some (out, s1)"
          using br by auto
        note ng = new_branch_group [OF nb assms(2)]
        have gone: "\<forall>m. members ?t u = Some m \<longrightarrow> mb_deleted m"
          using True members_pud(2,3) [of ?t u] by (metis member_of_simps(4) option.inject option.distinct(1))
        show ?thesis
        proof (cases out)
          case (Inl er)
          then show ?thesis using fin ng(1) ng(2) [OF Inl] by simp
        next
          case (Inr x)
          then obtain p ow og where x: "out = Inr (p, ow, og)" by (metis prod_cases3)
          note np = ng(3) [OF x]
          have pg1: "plain_group s1" using ng(1) plain_group_cong [of s1 s] assms(2) by (simp add: self_idle_def)
          have "self_finish ss sess rq False u p ow og s1 = Some (res, s')" using fin x by simp
          note sf = self_finish_group [OF this pg1 np [THEN conjunct2, THEN conjunct1]]
          have "rq_invite rq \<noteq> [] \<longrightarrow> rq_inviteValid rq" using False by blast
          moreover have "store_joined u p s s'" using np sf(4) by (simp add: store_joined_def)
          ultimately have "self_joined g f rq u s s'"
            unfolding self_joined_def using gone np sf(1-3) ng(1) [unfolded self_idle_def]
            by (intro conjI exI [of _ p]) simp_all
          then show ?thesis by blast
        qed
      next
        case old: False
        then have eb: "existing_branch g f now rq False (asked_mode rq) u s = Some (out, s1)" using br by auto
        note eg = existing_branch_group [OF eb assms(2,3,4)]
        show ?thesis
        proof (cases out)
          case (Inl er)
          then show ?thesis using fin eg(1) [OF Inl] old by (auto simp: handover_def)
        next
          case (Inr x)
          then obtain p ow og where x: "out = Inr (p, ow, og)" by (metis prod_cases3)
          obtain tr where tr: "planExistingSelfSubscription (self_plan g rq (asked_mode rq) u ?t) = Inr tr"
            "p = self_pud (rq_private rq) (pud_of ?t u) tr" "self_planned u tr s s1"
            using eg(2) [OF x] by blast
          have nc: "\<not> pud_isChan p" using tr(2) plain_pud [OF assms(2)] by (simp add: self_pud_def)
          have pg1: "plain_group s1" by (rule planned_plain [OF tr(3) assms(2)])
          have "self_finish ss sess rq False u p ow og s1 = Some (res, s')" using fin x by simp
          note sf = self_finish_group [OF this pg1 nc]
          have "self_changed g rq u s s'"
            unfolding self_changed_def using old tr sf by (intro conjI exI [of _ tr] exI [of _ s1]) auto
          then show ?thesis by blast
        qed
      qed
    qed
  qed
qed

section \<open>The owner\<close>

definition owns :: "member \<Rightarrow> bool" where
  "owns m \<longleftrightarrow> \<not> mb_deleted m \<and> IsOwner (mb_want m) \<and> IsOwner (mb_given m) \<and> IsJoiner (mb_given m)"

definition owner_ok :: "tsys \<Rightarrow> bool" where
  "owner_ok s \<longleftrightarrow> t_owner (sy_topic s) \<noteq> 0 \<and>
     (case members (sy_topic s) (t_owner (sy_topic s)) of None \<Rightarrow> False | Some m \<Rightarrow> owns m)"

lemma owner_okD: "owner_ok s \<Longrightarrow> t_owner (sy_topic s) \<noteq> 0 \<and> (\<exists>m. members (sy_topic s) (t_owner (sy_topic s)) = Some m \<and> owns m)"
  by (simp add: owner_ok_def split: option.splits)

lemma owner_okI: "t_owner (sy_topic s) \<noteq> 0 \<Longrightarrow> members (sy_topic s) (t_owner (sy_topic s)) = Some m \<Longrightarrow> owns m \<Longrightarrow> owner_ok s"
  by (simp add: owner_ok_def)

lemma owner_touches:
  assumes "touches u s s'" "owner_ok s"
    and "\<And>m. u = t_owner (sy_topic s) \<Longrightarrow> members (sy_topic s) u = Some m \<Longrightarrow> owns m \<Longrightarrow>
      \<exists>m'. members (sy_topic s') u = Some m' \<and> owns m'"
  shows "owner_ok s'"
proof -
  obtain m where m: "t_owner (sy_topic s) \<noteq> 0" "members (sy_topic s) (t_owner (sy_topic s)) = Some m" "owns m"
    using owner_okD [OF assms(2)] by blast
  have o: "t_owner (sy_topic s') = t_owner (sy_topic s)" using assms(1) by (simp add: touches_def)
  show ?thesis
  proof (cases "u = t_owner (sy_topic s)")
    case True
    then show ?thesis using assms(3) [OF True] m owner_okI [of s'] o by auto
  next
    case False
    then have "members (sy_topic s') (t_owner (sy_topic s)) = Some m" using assms(1) m(2) by (simp add: touches_def)
    then show ?thesis using owner_okI [of s'] o m by simp
  qed
qed

lemma kept_owner: "kept m x \<Longrightarrow> owns m \<Longrightarrow> x = Some m"
  by (auto simp: kept_def owns_def)

lemma owns_given: "owns m \<Longrightarrow> IsOwner gv \<Longrightarrow> IsJoiner gv \<Longrightarrow> owns (m\<lparr>mb_given := gv\<rparr>)"
  by (simp add: owns_def)

text \<open>In the plan of a group the owner keeps the ownership.\<close>

lemma plan_owner:
  assumes "planExistingSelfSubscription (self_plan g rq modeWant u t) = Inr tr" "owns (member_of (pud_of t u))" "t_owner t = u"
  shows "owns ((member_of (pud_of t u))\<lparr>mb_want := tr_want tr, mb_given := tr_given tr\<rparr>)" "\<not> tr_ownerChange tr"
proof -
  have cat: "in_category (self_plan g rq modeWant u t) = TopicCatGrp" by (simp add: self_plan_def)
  note pg = plan_group [OF assms(1) cat]
  have old: "IsOwner (pud_modeWant (pud_of t u))" "IsOwner (pud_modeGiven (pud_of t u))" "IsJoiner (pud_modeGiven (pud_of t u))"
    "\<not> pud_deleted (pud_of t u)"
    using assms(2) by (simp_all add: owns_def)
  show oc: "\<not> tr_ownerChange tr" using pg(5) old(1) by (auto simp: self_plan_def)
  have "IsJoiner (tr_given tr)" using pg(2) [of 0] old(3) by (simp add: self_plan_def role_tests)
  moreover have "IsOwner (tr_given tr)" using pg(1) old(2) by (simp add: self_plan_def)
  moreover have "IsOwner (tr_want tr)"
  proof (cases "modeWant = ModeUnset")
    case True
    show ?thesis
      by (rule plan_Inr [OF assms(1)]) (use True old in \<open>auto simp: self_plan_def role_tests split: if_splits\<close>)
  next
    case False
    then show ?thesis using pg(4) assms(3) by (simp add: self_plan_def)
  qed
  ultimately show "owns ((member_of (pud_of t u))\<lparr>mb_want := tr_want tr, mb_given := tr_given tr\<rparr>)"
    using old by (simp add: owns_def)
qed

text \<open>A grant of the ownership must come with the permission to join; otherwise the user who accepts it
  becomes an owner who may not join.\<close>

definition grant_joins :: "uid \<Rightarrow> tsys \<Rightarrow> bool" where
  "grant_joins u s \<longleftrightarrow> (case members (sy_topic s) u of None \<Rightarrow> True | Some m \<Rightarrow> IsOwner (mb_given m) \<longrightarrow> IsJoiner (mb_given m))"

definition accepts_ownership :: "uid \<Rightarrow> self_request \<Rightarrow> tsys \<Rightarrow> bool" where
  "accepts_ownership u rq s \<longleftrightarrow> IsOwner (asked_mode rq) \<and>
     (case members (sy_topic s) u of None \<Rightarrow> False | Some m \<Rightarrow> \<not> mb_deleted m \<and> IsOwner (mb_given m) \<and> \<not> IsOwner (mb_want m))"

lemma self_plain:
  assumes "thisUserSub g f now ss sess u False rq s = Some (res, s')" "plain_group s" "u \<noteq> 0" "t_owner (sy_topic s) \<noteq> 0"
  shows "plain_group s'"
proof -
  consider "self_idle s s'" | "self_restored u s s'" | "self_joined g f rq u s s'" | "self_changed g rq u s s'"
    using thisUserSub_effect [OF assms] by blast
  then show ?thesis
  proof cases
    case 1
    then show ?thesis using plain_group_cong [of s' s] assms(2) by (simp add: self_idle_def)
  next
    case 2
    then obtain m where m: "members (sy_topic s) u = Some m"
      "members (sy_topic s') = (members (sy_topic s))(u \<mapsto> m\<lparr>mb_want := member_mode, mb_given := member_mode\<rparr>)"
      "fixed (sy_topic s') = fixed (sy_topic s)" by (auto simp: self_restored_def)
    have "\<not> mb_chan m" using m(1) assms(2) by (auto simp: plain_group_def)
    then show ?thesis using plain_upd [OF assms(2) m(2)] m(3) by simp
  next
    case 3
    then obtain p where "\<not> pud_isChan p" "members (sy_topic s') = (members (sy_topic s))(u \<mapsto> member_of p)"
      "fixed (sy_topic s') = fixed (sy_topic s)" by (auto simp: self_joined_def)
    then show ?thesis using plain_upd [OF assms(2)] by simp
  next
    case 4
    then obtain tr s1 where *: "self_planned u tr s s1" "members (sy_topic s') = (members (sy_topic s1))(u \<mapsto>
        (member_of (pud_of (sy_topic s) u))\<lparr>mb_want := tr_want tr, mb_given := tr_given tr\<rparr>)"
      "fixed (sy_topic s') = fixed (sy_topic s1)"
      by (auto simp: self_changed_def)
    show ?thesis using plain_upd [OF planned_plain [OF *(1) assms(2)] *(2) _ *(3)] plain_pud [OF assms(2)] by simp
  qed
qed

lemma self_owner:
  assumes "thisUserSub g f now ss sess u False rq s = Some (res, s')" "plain_group s" "u \<noteq> 0" "owner_ok s" "grant_joins u s"
  shows "owner_ok s' \<and> (t_owner (sy_topic s') = t_owner (sy_topic s) \<or> t_owner (sy_topic s') = u \<and> accepts_ownership u rq s)"
proof -
  obtain m where m: "t_owner (sy_topic s) \<noteq> 0" "members (sy_topic s) (t_owner (sy_topic s)) = Some m" "owns m"
    using owner_okD [OF assms(4)] by blast
  consider "self_idle s s'" | "self_restored u s s'" | "self_joined g f rq u s s'" | "self_changed g rq u s s'"
    using thisUserSub_effect [OF assms(1-3) m(1)] by blast
  then show ?thesis
  proof cases
    assume "self_idle s s'"
    then show ?thesis using assms(4) by (simp add: self_idle_def owner_ok_def)
  next
    assume "self_restored u s s'"
    then obtain m' where "members (sy_topic s) u = Some m'" "\<not> IsJoiner (mb_given m')" "t_owner (sy_topic s') = t_owner (sy_topic s)"
      "\<forall>v. v \<noteq> u \<longrightarrow> members (sy_topic s') v = members (sy_topic s) v"
      by (auto simp: self_restored_def)
    then show ?thesis using m owner_okI [of s' m] by (cases "u = t_owner (sy_topic s)") (auto simp: owns_def)
  next
    assume "self_joined g f rq u s s'"
    then have "\<forall>m. members (sy_topic s) u = Some m \<longrightarrow> mb_deleted m" "t_owner (sy_topic s') = t_owner (sy_topic s)"
      "\<forall>v. v \<noteq> u \<longrightarrow> members (sy_topic s') v = members (sy_topic s) v"
      by (auto simp: self_joined_def)
    then show ?thesis using m owner_okI [of s' m] by (cases "u = t_owner (sy_topic s)") (auto simp: owns_def)
  next
    assume "self_changed g rq u s s'"
    then obtain tr s1 where ch: "has_pud (sy_topic s) u" "\<not> pud_deleted (pud_of (sy_topic s) u)"
      "planExistingSelfSubscription (self_plan g rq (asked_mode rq) u (sy_topic s)) = Inr tr" "self_planned u tr s s1"
      "members (sy_topic s') = (members (sy_topic s1))(u \<mapsto>
          (member_of (pud_of (sy_topic s) u))\<lparr>mb_want := tr_want tr, mb_given := tr_given tr\<rparr>)"
      "t_owner (sy_topic s') = t_owner (sy_topic s1)"
      by (auto simp: self_changed_def)
    let ?p = "pud_of (sy_topic s) u"
    have mu: "members (sy_topic s) u = Some (member_of ?p)" using members_pud(3) ch(1) by blast
    have cat: "in_category (self_plan g rq (asked_mode rq) u (sy_topic s)) = TopicCatGrp" by (simp add: self_plan_def)
    note pg = plan_group [OF ch(3) cat]
    show ?thesis
    proof (cases "tr_ownerChange tr")
      case True
      have "IsOwner (tr_want tr)" "IsOwner (tr_given tr)" "\<not> IsOwner (pud_modeWant ?p)" "IsOwner (pud_modeGiven ?p)"
        using pg(1,5) True by (auto simp: self_plan_def)
      moreover have "IsOwner (asked_mode rq)"
        by (rule plan_Inr [OF ch(3)]) (use True in \<open>auto simp: self_plan_def dest: plan_given_cases(4)\<close>)
      moreover have "IsJoiner (pud_modeGiven ?p)"
        using assms(5) calculation(4) mu by (simp add: grant_joins_def)
      moreover have "IsJoiner (tr_given tr)" using pg(2) [of 0] calculation(6) by (simp add: self_plan_def role_tests)
      ultimately show ?thesis using ch(2,4-6) True assms(3) mu
        by (auto simp: self_planned_def Let_def owner_ok_def owns_def accepts_ownership_def)
    next
      case False
      then have o: "t_owner (sy_topic s') = t_owner (sy_topic s)" "members (sy_topic s1) = members (sy_topic s)"
        using ch(4,6) by (simp_all add: self_planned_def Let_def)
      show ?thesis
      proof (cases "u = t_owner (sy_topic s)")
        case True
        then have "owns (member_of ?p)" using m mu by simp
        from plan_owner(1) [OF ch(3) this True [symmetric]] show ?thesis
          using o ch(5) True m(1) owner_okI [of s'] by simp
      next
        case False
        then show ?thesis using o ch(5) m owner_okI [of s' m] by auto
      qed
    qed
  qed
qed

end
