(* ===== verification/TopicReturns.thy ===== *)
theory TopicReturns
  imports TopicSafety
begin

text \<open>
  The requests on the members of a group as one operation, and that none of them panics in a group that is
  not a channel, whatever the store answers.
\<close>

section \<open>Operations on members\<close>

text \<open>The five requests; the first argument is the user who asks. A request on a user names one.\<close>

datatype member_req =
    SetRole uid uid string
  | Invite uid uid string
  | Remove uid string string
  | Leave uid bool string
  | SelfSub uid self_request

fun member_op :: "tglobals \<Rightarrow> sess_table \<Rightarrow> faults \<Rightarrow> go_time \<Rightarrow> sref \<Rightarrow> member_req \<Rightarrow> tsys \<Rightarrow> tsys option" where
  "member_op g ss f now sess (SetRole a u role) s = map_option snd (setAnotherUserRole g f now ss sess a u False role s)"
| "member_op g ss f now sess (Invite a u mode) s = map_option snd (anotherUserSub g f now ss sess a u False mode s)"
| "member_op g ss f now sess (Remove a topic user) s = map_option snd (replyDelSub f now ss sess a topic user s)"
| "member_op g ss f now sess (Leave a init topic) s = map_option snd (replyLeaveUnsub f now ss sess init topic a s)"
| "member_op g ss f now sess (SelfSub a rq) s = map_option snd (thisUserSub g f now ss sess a False rq s)"

fun names_user :: "member_req \<Rightarrow> bool" where
  "names_user (SetRole a u _) \<longleftrightarrow> u \<noteq> 0"
| "names_user (Invite a u _) \<longleftrightarrow> u \<noteq> 0"
| "names_user (SelfSub a _) \<longleftrightarrow> a \<noteq> 0"
| "names_user (Leave a _ _) \<longleftrightarrow> a \<noteq> 0"
| "names_user (Remove _ _ _) \<longleftrightarrow> True"

fun req_target :: "member_req \<Rightarrow> uid" where
  "req_target (SetRole a u _) = u"
| "req_target (Invite a u _) = u"
| "req_target (Remove a _ user) = ParseUserId user"
| "req_target (Leave a _ _) = a"
| "req_target (SelfSub a _) = a"

section \<open>No request panics\<close>

definition returns :: "'a option \<Rightarrow> bool" where
  "returns x \<longleftrightarrow> x \<noteq> None"

lemma returns_simps [simp]: "returns (Some z)" "\<not> returns None" "returns (map_option f y) = returns y"
  by (auto simp: returns_def)

lemma returns_bind: "returns x \<Longrightarrow> (\<And>y. x = Some y \<Longrightarrow> returns (f y)) \<Longrightarrow> returns (Option.bind x f)"
  by (cases x) auto

lemma returns_case: "returns x \<Longrightarrow> (\<And>y. x = Some y \<Longrightarrow> returns (f y)) \<Longrightarrow> returns (case x of None \<Rightarrow> None | Some y \<Rightarrow> f y)"
  by (cases x) auto

lemma notifySubChange_returns:
  "t_cat (sy_topic s) = TopicCatGrp \<Longrightarrow> returns (notifySubChange u a ch ow og nw ng skip s)"
  by (simp add: notifySubChange_def Let_def sub_removed_def sub_muted_def)

lemma evictUser_returns: "t_cat (sy_topic s) = TopicCatGrp \<Longrightarrow> returns (evictUser ss u unsub skip s)"
  by (simp add: evictUser_def Let_def original_def)

lemma subs_Create_returns: "GetTopicCat (sub_Topic sub) \<noteq> None \<Longrightarrow> returns (subs_Create fault now [sub] db)"
  by (auto simp: subs_Create_def subscriptionCounterTopic_def IsEphemeralTopic_def split: bool.splits)

lemma subs_Delete_returns: "GetTopicCat tp \<noteq> None \<Longrightarrow> returns (subs_Delete fault now tp u db)"
  by (auto simp: subs_Delete_def SubsDelete_def Let_def split: option.splits)

definition named_group :: "tsys \<Rightarrow> bool" where
  "named_group s \<longleftrightarrow> plain_group s \<and> GetTopicCat (t_name (sy_topic s)) \<noteq> None"

lemma notified_cat:
  "notifySubChange u a ch ow og nw ng skip s0 = Some s \<Longrightarrow> t_cat (sy_topic s0) = TopicCatGrp \<Longrightarrow> t_cat (sy_topic s) = TopicCatGrp"
  using notifySubChange_same by fastforce

lemma new_subscription_Topic [simp]: "sub_Topic (new_subscription u tp w gv pr) = tp"
  by (simp add: new_subscription_def)

lemmas returns_intros = returns_bind notifySubChange_returns evictUser_returns

lemma store_returns [simp]:
  "GetTopicCat tp \<noteq> None \<Longrightarrow> subs_Create fault now [new_subscription u tp w gv pr] db = None \<longleftrightarrow> False"
  "GetTopicCat tp \<noteq> None \<Longrightarrow> subs_Delete fault now tp u db = None \<longleftrightarrow> False"
  using subs_Create_returns [of "new_subscription u tp w gv pr"] subs_Delete_returns by (auto simp: returns_def)

lemma role_apply_returns:
  assumes "plain_group s" "\<not> ra_ChannelSub acc" "\<And>c b. cur = Some (c, b) \<Longrightarrow> \<not> b"
  shows "returns (role_apply ss sess a u tp acc cur s)"
proof -
  have nc: "(case cur of None \<Rightarrow> False | Some (_, c) \<Rightarrow> c) = False" using assms(3) by (auto split: option.split)
  have g: "t_cat (sy_topic s) = TopicCatGrp" using assms(1) by (simp add: plain_group_def)
  show ?thesis
    unfolding role_apply_def Let_def nc using assms(2) g
    by (auto split: prod.split intro!: returns_intros dest!: notified_cat)
qed

lemma setAnotherUserRole_returns:
  assumes "named_group s"
  shows "returns (setAnotherUserRole g f now ss sess a u False role s)"
proof -
  have pl: "plain_group s" and cat: "GetTopicCat (t_name (sy_topic s)) \<noteq> None" using assms by (auto simp: named_group_def)
  have grp: "t_cat (sy_topic s) = TopicCatGrp" "\<not> t_isChan (sy_topic s)" and nc: "\<And>m. members (sy_topic s) u = Some m \<Longrightarrow> \<not> mb_chan m"
    using pl by (auto simp: plain_group_def)
  have store: "returns (role_store g f now (sy_topic s) u (t_name (sy_topic s)) acc cur (sy_db s))"
    if "\<And>c b. cur = Some (c, b) \<Longrightarrow> sub_Topic c = t_name (sy_topic s)" for acc cur
    using that cat
    by (cases cur) (auto simp: role_store_def role_store_new_def simp del: not_None_eq split: option.split sum.split prod.split)
  have chan: "\<not> ra_ChannelSub acc \<and> (\<forall>c b. cur = Some (c, b) \<longrightarrow> \<not> b \<and> sub_Topic c = t_name (sy_topic s))"
    if "role_guards (sy_topic s) a False role = Inr acc0" "role_current f (sy_topic s) (sy_db s) u = Inr cur"
      "role_protect (sy_topic s) a acc0 cur = Inr acc" for acc0 acc cur
  proof -
    have "resolveTopicRole role False = Inr acc0"
      using that(1) grp by (auto simp: role_guards_def Let_def split: if_splits sum.splits)
    then have n0: "\<not> ra_ChannelSub acc0" using resolved_mode by blast
    have cc: "\<not> b' \<and> sub_Topic c' = t_name (sy_topic s)" if "cur = Some (c', b')" for c' b'
      using role_current_group(1,2) [of f "sy_topic s" "sy_db s" u c' b', OF _ grp(2) nc] that
        \<open>role_current f (sy_topic s) (sy_db s) u = Inr cur\<close> by blast
    show ?thesis
    proof (cases cur)
      case None
      then show ?thesis using that(3) n0 by (simp add: role_protect_def)
    next
      case (Some cb)
      obtain c b where cb: "cb = (c, b)" by fastforce
      have "\<not> b \<and> sub_Topic c = t_name (sy_topic s)" by (rule cc) (simp add: Some cb)
      then show ?thesis using that(3) n0 Some cb by (auto simp: role_protect_def Let_def split: if_splits)
    qed
  qed
  show ?thesis
  proof (cases "\<exists>acc0 cur acc. role_guards (sy_topic s) a False role = Inr acc0 \<and>
      role_current f (sy_topic s) (sy_db s) u = Inr cur \<and> role_protect (sy_topic s) a acc0 cur = Inr acc")
    case False
    then show ?thesis by (auto simp: setAnotherUserRole_def Let_def refuse_def split: sum.split)
  next
    case True
    then obtain acc0 cur acc where r: "role_guards (sy_topic s) a False role = Inr acc0"
      "role_current f (sy_topic s) (sy_db s) u = Inr cur" "role_protect (sy_topic s) a acc0 cur = Inr acc" by blast
    note ch = chan [OF r]
    have st: "returns (role_store g f now (sy_topic s) u (t_name (sy_topic s)) acc cur (sy_db s))"
      by (rule store) (use ch in blast)
    have pl2: "plain_group (if cur = None then on_topic (\<lambda>t. t\<lparr>t_subCnt := t_subCnt t + 1\<rparr>) (set_db db' s) else set_db db' s)" for db'
      using plain_group_cong [of _ s] pl by simp
    have "returns (role_apply ss sess a u (t_name (sy_topic s)) acc cur
        (if cur = None then on_topic (\<lambda>t. t\<lparr>t_subCnt := t_subCnt t + 1\<rparr>) (set_db db' s) else set_db db' s))" for db'
      by (rule role_apply_returns [OF pl2]) (use ch in blast)+
    then show ?thesis
      using r ch st by (auto simp: setAnotherUserRole_def Let_def refuse_def split: option.split intro!: returns_bind)
  qed
qed

lemma anotherUserSub_returns:
  assumes "named_group s"
  shows "returns (anotherUserSub g f now ss sess a u False mode s)"
proof -
  have grp: "t_cat (sy_topic s) = TopicCatGrp" and cat: "GetTopicCat (t_name (sy_topic s)) \<noteq> None"
    using assms by (auto simp: named_group_def plain_group_def)
  have fin: "returns (other_finish ss sess a u ow og s1)" if "t_cat (sy_topic s1) = TopicCatGrp" for u ow og s1
    unfolding other_finish_def Let_def using that
    by (auto intro!: returns_intros dest!: notified_cat simp: unread_change_same)
  have inv: "returns (invite_user g f now a u m s)" for m
    unfolding invite_user_def Let_def using grp cat
    by (auto simp: accessFor_group simp del: not_None_eq split: sum.split option.split Option.bind_split)
  have inv_cat: "t_cat (sy_topic s1) = TopicCatGrp" if "invite_user g f now a u m s = Some (None, s1)" for m s1
    using invite_user_group [OF that] assms grp by (auto simp: named_group_def fixed_def)
  show ?thesis
    unfolding anotherUserSub_def Let_def refuse_def using grp inv inv_cat
    by (auto split: sum.split option.split prod.split intro!: returns_bind fin)
qed

lemma replyDelSub_returns:
  assumes "named_group s"
  shows "returns (replyDelSub f now ss sess a topic user s)"
proof -
  have pl: "plain_group s" and grp: "t_cat (sy_topic s) = TopicCatGrp" and cat: "GetTopicCat (t_name (sy_topic s)) \<noteq> None"
    and ch: "\<not> t_isChan (sy_topic s)" and nc: "\<And>u m. members (sy_topic s) u = Some m \<Longrightarrow> \<not> mb_chan m"
    using assms by (auto simp: named_group_def plain_group_def)
  have ap: "returns (del_apply ss sess a u p tp b s1)" if "t_cat (sy_topic s1) = TopicCatGrp" for u p tp b s1
    unfolding del_apply_def Let_def using that
    by (auto intro!: returns_intros dest!: notified_cat)
  have tg: "tp = t_name (sy_topic s)" if "del_target f (sy_topic s) (sy_db s) u = Inr (Some (p, tp, b))" for u p tp b
    using del_target_group(1) [OF that ch nc] .
  show ?thesis
    unfolding replyDelSub_def Let_def
    by (auto split: sum.split option.split bool.split prod.split store_error.split intro!: ap dest!: tg simp: grp cat)
qed

lemma replyLeaveUnsub_returns:
  assumes "named_group s" "a \<noteq> 0"
  shows "returns (replyLeaveUnsub f now ss sess ini topic a s)"
proof -
  have grp: "t_cat (sy_topic s) = TopicCatGrp" and cat: "GetTopicCat (t_name (sy_topic s)) \<noteq> None"
    using assms(1) by (auto simp: named_group_def plain_group_def)
  have nc: "\<not> pud_isChan (pud_of (sy_topic s) a)" using plain_pud assms(1) by (simp add: named_group_def)
  show ?thesis
    unfolding replyLeaveUnsub_def Let_def using grp cat nc assms(2)
    by (auto simp: uid_IsZero_def ZeroUid_def split: sum.split option.split prod.split intro!: returns_intros dest!: notified_cat)
qed

lemma thisUserSub_returns:
  assumes "named_group s" "u \<noteq> 0" "t_owner (sy_topic s) \<noteq> 0"
  shows "returns (thisUserSub g f now ss sess u False rq s)"
proof -
  have pl: "plain_group s" and grp: "t_cat (sy_topic s) = TopicCatGrp" and cat: "GetTopicCat (t_name (sy_topic s)) \<noteq> None"
    using assms(1) by (auto simp: named_group_def plain_group_def)
  have fin: "returns (self_finish ss sess rq False u p ow og s1)" if "t_cat (sy_topic s1) = TopicCatGrp" for p ow og s1
    unfolding self_finish_def Let_def refuse_def using that
    by (auto simp: unread_change_same intro!: returns_intros dest!: notified_cat)
  have restore: "returns (restore_member f now ss sess rq u s)"
    unfolding restore_member_def Let_def refuse_def using grp
    by (auto split: option.split prod.split intro!: returns_intros)
  have check: "returns (checkOfficialSelfJoin rq hasInv now u s)" for hasInv
  proof -
    have "t_cat (snd (refreshOfficialPolicy st now t)) = t_cat t" for st t
      by (auto simp: refreshOfficialPolicy_def split: sum.splits option.splits)
    from this [of "rq_policy rq" "sy_topic s"] show ?thesis
      unfolding checkOfficialSelfJoin_def Let_def using grp
      by (auto simp: original_def split: option.split prod.split join_outcome.split)
  qed
  have new: "returns (new_subscription_branch g f now rq False hasInv modeWant u s)" for hasInv modeWant
  proof -
    have plain: "returns (new_sub_plain g f rq hasInv modeWant u s1)" if "t_cat (sy_topic s1) = TopicCatGrp" for s1
      unfolding new_sub_plain_def Let_def using that
      by (auto simp: accessFor_group split: sum.split option.split prod.split intro!: returns_bind)
    have store: "returns (new_sub_store f now rq False u n s1)" if "ns_tname n = t_name (sy_topic s)" for n s1
      unfolding new_sub_store_def Let_def using that cat
      by (auto simp del: not_None_eq split: option.split prod.split)
    have "t_cat (sy_topic s1) = TopicCatGrp \<and> t_name (sy_topic s1) = t_name (sy_topic s)"
      if "checkOfficialSelfJoin rq hasInv now u s = Some (e, s1)" for e s1
      using checkOfficialSelfJoin_same(1) [OF that] grp by (simp add: self_idle_def fixed_def)
    then show ?thesis
      unfolding new_subscription_branch_def Let_def using grp check
      by (auto simp: new_sub_modes_def split: option.split sum.split prod.split intro!: returns_bind plain store
          dest!: new_sub_plain_modes(2))
  qed
  have ex: "returns (existing_branch g f now rq False modeWant u s)" for modeWant
  proof -
    have "returns (change_owner f now u s1)" if "sy_topic s1 = sy_topic s" for s1
      unfolding change_owner_def Let_def using that grp
      by (auto split: option.split prod.split intro!: notifySubChange_returns)
    then have co: "change_owner f now u s1 = None \<longleftrightarrow> False" if "sy_topic s1 = sy_topic s" for s1
      using that by (auto simp: returns_def)
    show ?thesis
      unfolding existing_branch_def Let_def using grp
      by (auto simp: accessFor_group co split: option.split sum.split prod.split intro!: returns_case)
  qed
  have cats: "t_cat (sy_topic s1) = TopicCatGrp" if "existing_branch g f now rq False modeWant u s = Some (Inr x, s1)" for modeWant x s1
  proof -
    obtain p ow og where "x = (p, ow, og)" by (metis prod_cases3)
    from existing_branch_group(2) [OF that pl assms(2,3) arg_cong [OF this, of Inr]] show ?thesis
      using grp by (auto simp: self_planned_def fixed_def)
  qed
  have catn: "t_cat (sy_topic s1) = TopicCatGrp"
    if "new_subscription_branch g f now rq False hasInv modeWant u s = Some (out, s1)" for hasInv modeWant out s1
    using new_branch_group(1) [OF that pl] grp by (simp add: self_idle_def fixed_def)
  show ?thesis
    unfolding thisUserSub_def Let_def refuse_def using grp cats catn
    by (auto split: option.split sum.split prod.split intro!: returns_bind fin restore new ex)
qed

text \<open>All five together.\<close>

lemma member_op_total:
  assumes "named_group s" "t_owner (sy_topic s) \<noteq> 0" "names_user req"
  shows "returns (member_op g ss f now sess req s)"
  using assms setAnotherUserRole_returns anotherUserSub_returns replyDelSub_returns replyLeaveUnsub_returns thisUserSub_returns
  by (cases req) auto

end
