(* ===== verification/TopicGroup.thy ===== *)
theory TopicGroup
  imports TopicReturns
begin

text \<open>
  Safety of a group that is not a channel, for any sequence of requests on its members and any faults of
  the store: the group always has exactly the owner it had, or the one who accepted the ownership offered
  by the owner; the modes cached for a member are those in the store; and nobody grants more than
  they have.
\<close>

text \<open>A request that is carried out. The one assumption beyond a well-formed request is that an offered
  ownership comes with the permission to join.\<close>

inductive member_step :: "tglobals \<Rightarrow> sess_table \<Rightarrow> member_req \<Rightarrow> tsys \<Rightarrow> tsys \<Rightarrow> bool" for g ss where
  member_step: "member_op g ss f now sess req s = Some s' \<Longrightarrow> names_user req \<Longrightarrow>
    (case req of SelfSub u _ \<Rightarrow> grant_joins u s | _ \<Rightarrow> True) \<Longrightarrow> member_step g ss req s s'"

inductive_cases member_stepE: "member_step g ss req s s'"

lemma member_step_cases:
  assumes "member_step g ss req s s'"
  obtains (Role) a u role f now sess res where "req = SetRole a u role" "u \<noteq> 0"
      "setAnotherUserRole g f now ss sess a u False role s = Some (res, s')"
  | (Invite) a u mode f now sess res where "req = Invite a u mode" "u \<noteq> 0"
      "anotherUserSub g f now ss sess a u False mode s = Some (res, s')"
  | (Remove) a topic user f now sess err where "req = Remove a topic user"
      "replyDelSub f now ss sess a topic user s = Some (err, s')"
  | (Leave) a ini topic f now sess err where "req = Leave a ini topic"
      "replyLeaveUnsub f now ss sess ini topic a s = Some (err, s')"
  | (Self) u rq f now sess res where "req = SelfSub u rq" "u \<noteq> 0" "grant_joins u s"
      "thisUserSub g f now ss sess u False rq s = Some (res, s')"
  using assms by (elim member_stepE; cases req) auto

section \<open>The group keeps its owner\<close>

lemma other_step_touches:
  assumes "member_step g ss req s s'" "plain_group s" "\<forall>u rq. req \<noteq> SelfSub u rq"
  shows "touches (req_target req) s s'"
  using assms(1)
proof (cases rule: member_step_cases)
  case Role
  then show ?thesis using setAnotherUserRole_effect [OF Role(3) assms(2) Role(2)] by simp
next
  case Invite
  then show ?thesis using anotherUserSub_effect [OF Invite(3) assms(2) Invite(2)] by simp
next
  case Remove
  then show ?thesis using replyDelSub_effect [OF Remove(2) assms(2)] by simp
next
  case Leave
  then show ?thesis using replyLeaveUnsub_effect [OF Leave(2) assms(2)] by simp
qed (use assms(3) in simp)

lemma invite_owner:
  assumes "anotherUserSub g f now ss sess a u False mode s = Some (res, s')" "plain_group s" "u \<noteq> 0"
    and "u = t_owner (sy_topic s)" "members (sy_topic s) u = Some m" "owns m"
  shows "\<exists>m'. members (sy_topic s') u = Some m' \<and> owns m'"
proof -
  consider "other_same u s s'" | "other_new f a u mode s s'" | "other_changed a u s s'"
    using anotherUserSub_effect [OF assms(1-3)] by blast
  then show ?thesis
  proof cases
    case 1
    then show ?thesis using assms(5,6) kept_owner by (auto simp: other_same_def)
  next
    case 2
    then show ?thesis using assms(5,6) by (auto simp: other_new_def owns_def)
  next
    case 3
    then obtain gv where "IsOwner gv" "IsJoiner gv" "kept (m\<lparr>mb_given := gv\<rparr>) (members (sy_topic s') u)"
      using assms(4,5) by (auto simp: other_changed_def)
    then show ?thesis using kept_owner owns_given assms(6) by blast
  qed
qed

lemma other_step_owner:
  assumes "member_step g ss req s s'" "plain_group s" "\<forall>u rq. req \<noteq> SelfSub u rq"
    and "req_target req = t_owner (sy_topic s)" "members (sy_topic s) (req_target req) = Some m" "owns m"
  shows "\<exists>m'. members (sy_topic s') (req_target req) = Some m' \<and> owns m'"
proof -
  have o: "\<not> mb_deleted m" "IsOwner (mb_want m)" "IsOwner (mb_given m)" using assms(6) by (simp_all add: owns_def)
  show ?thesis using assms(1)
  proof (cases rule: member_step_cases)
    case Role
    then show ?thesis using setAnotherUserRole_effect [OF Role(3) assms(2) Role(2)] assms(5,6) o by auto
  next
    case Invite
    then show ?thesis using invite_owner [OF Invite(3) assms(2) Invite(2) _ _ assms(6)] assms(4,5) by simp
  next
    case Remove
    then show ?thesis using replyDelSub_effect [OF Remove(2) assms(2)] assms(5,6) o by auto
  next
    case Leave
    then show ?thesis using replyLeaveUnsub_effect [OF Leave(2) assms(2)] assms(4-6) by auto
  qed (use assms(3) in simp)
qed

text \<open>One request keeps the owner of the group, or the user who was offered the ownership asks for it and
  has it from then on.\<close>

lemma member_step_owner:
  assumes "member_step g ss req s s'" "plain_group s" "owner_ok s"
  shows "plain_group s' \<and> owner_ok s' \<and>
    (t_owner (sy_topic s') = t_owner (sy_topic s) \<or>
     (\<exists>u rq. req = SelfSub u rq \<and> t_owner (sy_topic s') = u \<and> accepts_ownership u rq s))"
proof (cases "\<exists>u rq. req = SelfSub u rq")
  case True
  from assms(1) show ?thesis
  proof (cases rule: member_step_cases)
    case Self
    have "t_owner (sy_topic s) \<noteq> 0" using owner_okD [OF assms(3)] by blast
    then show ?thesis using self_plain [OF Self(4) assms(2) Self(2)] self_owner [OF Self(4) assms(2) Self(2) assms(3) Self(3)] Self(1)
      by auto
  qed (use True in auto)
next
  case False
  then have t: "touches (req_target req) s s'" using other_step_touches [OF assms(1,2)] by blast
  have "owner_ok s'"
    by (rule owner_touches [OF t assms(3)]) (use other_step_owner [OF assms(1,2)] False in blast)
  then show ?thesis using t touches_plain [OF t assms(2)] by (simp add: touches_def)
qed

section \<open>The cache agrees with the store\<close>

definition coherent :: "tsys \<Rightarrow> bool" where
  "coherent s \<longleftrightarrow> (\<forall>u m. members (sy_topic s) u = Some m \<longrightarrow>
     \<not> mb_deleted m \<and> live_subs (sy_db s) (sub_key s u) = Some (db_mode (mb_want m), db_mode (mb_given m)))"

lemma coherentD:
  "coherent s \<Longrightarrow> members (sy_topic s) u = Some m \<Longrightarrow>
     \<not> mb_deleted m \<and> live_subs (sy_db s) (sub_key s u) = Some (db_mode (mb_want m), db_mode (mb_given m))"
  by (auto simp: coherent_def)

lemma coherent_upds:
  assumes "coherent s" "fixed (sy_topic s') = fixed (sy_topic s)"
    and "\<forall>v. v \<notin> A \<longrightarrow> members (sy_topic s') v = members (sy_topic s) v"
    and "\<forall>k. k \<notin> sub_key s ` A \<longrightarrow> live_subs (sy_db s') k = live_subs (sy_db s) k"
    and "\<And>v m. v \<in> A \<Longrightarrow> members (sy_topic s') v = Some m \<Longrightarrow>
      \<not> mb_deleted m \<and> live_subs (sy_db s') (sub_key s v) = Some (db_mode (mb_want m), db_mode (mb_given m))"
  shows "coherent s'"
  unfolding coherent_def
proof (intro allI impI)
  fix v m
  assume m: "members (sy_topic s') v = Some m"
  have k: "sub_key s' v = sub_key s v" using assms(2) by (simp add: fixed_def)
  show "\<not> mb_deleted m \<and> live_subs (sy_db s') (sub_key s' v) = Some (db_mode (mb_want m), db_mode (mb_given m))"
  proof (cases "v \<in> A")
    case True
    then show ?thesis using assms(5) m k by simp
  next
    case False
    moreover from this have "sub_key s v \<notin> sub_key s ` A" by auto
    ultimately show ?thesis using assms(3,4) m k coherentD [OF assms(1), of v m] by simp
  qed
qed

lemmas coherent_upd = coherent_upds [of s s' "{u}" for s s' u, simplified]

lemma coherent_same:
  "coherent s \<Longrightarrow> fixed (sy_topic s') = fixed (sy_topic s) \<Longrightarrow> members (sy_topic s') = members (sy_topic s) \<Longrightarrow>
     live_subs (sy_db s') = live_subs (sy_db s) \<Longrightarrow> coherent s'"
  by (simp add: coherent_def fixed_def)

lemma touchesD: "touches u s s' \<Longrightarrow> fixed (sy_topic s') = fixed (sy_topic s) \<and>
    (\<forall>v. v \<noteq> u \<longrightarrow> members (sy_topic s') v = members (sy_topic s) v)"
  by (simp add: touches_def)

lemma invite_coherent:
  assumes "anotherUserSub g f now ss sess a u False mode s = Some (res, s')" "plain_group s" "u \<noteq> 0" "coherent s"
  shows "coherent s'"
proof -
  have t: "touches u s s'" using anotherUserSub_effect [OF assms(1-3)] by blast
  note td = touchesD [OF t]
  consider "other_same u s s'" | "other_new f a u mode s s'" | "other_changed a u s s'"
    using anotherUserSub_effect [OF assms(1-3)] by blast
  then show ?thesis
  proof cases
    case 1
    show ?thesis
      by (rule coherent_upd [where u = u, OF assms(4)])
        (use 1 td coherentD [OF assms(4)] in \<open>auto simp: other_same_def kept_def\<close>)
  next
    case 2
    then obtain want gv where k: "kept \<lparr>mb_want = want, mb_given = gv, mb_chan = False, mb_deleted = False\<rparr> (members (sy_topic s') u)"
      "live_subs (sy_db s') = (live_subs (sy_db s))(sub_key s u \<mapsto> (db_mode want, db_mode gv))"
      by (auto simp: other_new_def)
    show ?thesis
      by (rule coherent_upd [where u = u, OF assms(4)]) (use k td in \<open>auto simp: kept_def\<close>)
  next
    case 3
    then obtain m gv where k: "members (sy_topic s) u = Some m" "acs_wf gv" "kept (m\<lparr>mb_given := gv\<rparr>) (members (sy_topic s') u)"
      "live_subs (sy_db s') = (live_subs (sy_db s))(sub_key s u :=
          map_option (\<lambda>(w, _). (w, gv)) (live_subs (sy_db s) (sub_key s u)))"
      by (auto simp: other_changed_def)
    show ?thesis
      by (rule coherent_upd [where u = u, OF assms(4)]) (use k td coherentD [OF assms(4) k(1)] in \<open>auto simp: kept_def\<close>)
  qed
qed

lemma role_coherent:
  assumes "setAnotherUserRole g f now ss sess a u False role s = Some (res, s')" "plain_group s" "u \<noteq> 0" "coherent s"
  shows "coherent s'"
proof -
  note eff = setAnotherUserRole_effect [OF assms(1-3)]
  then have t: "touches u s s'" by blast
  note td = touchesD [OF t]
  from eff consider "members (sy_topic s') = members (sy_topic s)" "sy_db s' = sy_db s"
    | acc where "resolveTopicRole role False = Inr acc" "members (sy_topic s') u \<in> {None, Some (role_member acc)}"
      "live_subs (sy_db s') = (live_subs (sy_db s))(sub_key s u :=
          (if members (sy_topic s) u \<noteq> None \<and> live_subs (sy_db s) (sub_key s u) = None
           then None else Some (ra_Mode acc, ra_Mode acc)))"
    by blast
  then show ?thesis
  proof cases
    case 1
    then show ?thesis using coherent_same [OF assms(4)] td by simp
  next
    case 2
    have "db_mode (ra_Mode acc) = ra_Mode acc" using resolved_mode(1) [OF 2(1)] by simp
    moreover have "\<not> (members (sy_topic s) u \<noteq> None \<and> live_subs (sy_db s) (sub_key s u) = None)"
      using coherentD [OF assms(4), of u] by (cases "members (sy_topic s) u") auto
    ultimately show ?thesis
      by (intro coherent_upd [where u = u, OF assms(4)]) (use 2 td in \<open>auto simp: role_member_def\<close>)
  qed
qed

lemma gone_coherent:
  assumes "touches u s s'" "coherent s"
    and "members (sy_topic s') = members (sy_topic s) \<and> sy_db s' = sy_db s \<or>
      members (sy_topic s') u = None \<and> live_subs (sy_db s') = (live_subs (sy_db s))(sub_key s u := None)"
  shows "coherent s'"
  using assms(3)
proof
  assume "members (sy_topic s') = members (sy_topic s) \<and> sy_db s' = sy_db s"
  then show ?thesis using coherent_same [OF assms(2)] touchesD [OF assms(1)] by simp
next
  assume *: "members (sy_topic s') u = None \<and> live_subs (sy_db s') = (live_subs (sy_db s))(sub_key s u := None)"
  show ?thesis
    by (rule coherent_upd [where u = u, OF assms(2)]) (use * touchesD [OF assms(1)] in auto)
qed

text \<open>For the user's own request two cases are left out: a subscriber of a large official group who is not
  cached, whom the caller \<open>subscriptionReply\<close> loads first, and a handover of the ownership that the store does
  not complete, after which the code leaves the cache and the store apart.\<close>

definition in_step :: "tglobals \<Rightarrow> uid \<Rightarrow> self_request \<Rightarrow> tsys \<Rightarrow> tsys \<Rightarrow> bool" where
  "in_step g u rq s s' \<longleftrightarrow>
     (has_pud (sy_topic s) u \<or> live_subs (sy_db s) (sub_key s u) = None) \<and>
     (t_owner (sy_topic s') = u \<or> \<not> accepts_ownership u rq s)"

lemma handover_accepts:
  assumes "handover g rq u s" "coherent s"
  shows "accepts_ownership u rq s"
proof -
  obtain tr where tr: "has_pud (sy_topic s) u"
    "planExistingSelfSubscription (self_plan g rq (asked_mode rq) u (sy_topic s)) = Inr tr" "tr_ownerChange tr"
    using assms(1) by (auto simp: handover_def)
  have m: "members (sy_topic s) u = Some (member_of (pud_of (sy_topic s) u))" using members_pud(3) tr(1) by blast
  have cat: "in_category (self_plan g rq (asked_mode rq) u (sy_topic s)) = TopicCatGrp" by (simp add: self_plan_def)
  note pg = plan_group [OF tr(2) cat]
  have "IsOwner (pud_modeGiven (pud_of (sy_topic s) u)) \<and> \<not> IsOwner (pud_modeWant (pud_of (sy_topic s) u))"
    using pg(1,5) tr(3) by (auto simp: self_plan_def)
  moreover have "IsOwner (asked_mode rq)"
    by (rule plan_Inr [OF tr(2)]) (use tr(3) in \<open>auto simp: self_plan_def dest: plan_given_cases(4)\<close>)
  ultimately show ?thesis using m coherentD [OF assms(2) m] by (simp add: accepts_ownership_def)
qed

lemma self_row_sync:
  "self_row old tr (db_mode (pud_modeWant old), db_mode (pud_modeGiven old)) = (db_mode (tr_want tr), db_mode (tr_given tr))"
  by (simp add: self_row_def)

lemma self_coherent:
  assumes "thisUserSub g f now ss sess u False rq s = Some (res, s')" "plain_group s" "u \<noteq> 0" "owner_ok s" "coherent s"
    and "in_step g u rq s s'"
  shows "coherent s'"
proof -
  obtain m where m: "t_owner (sy_topic s) \<noteq> 0" "members (sy_topic s) (t_owner (sy_topic s)) = Some m" "owns m"
    using owner_okD [OF assms(4)] by blast
  consider "self_idle s s' \<and> (sy_db s' = sy_db s \<or> handover g rq u s)" | "self_restored u s s'"
    | "self_joined g f rq u s s'" | "self_changed g rq u s s'"
    using thisUserSub_effect [OF assms(1-3) m(1)] by blast
  then show ?thesis
  proof cases
    case 1
    have "\<not> handover g rq u s"
    proof
      assume "handover g rq u s"
      then have acc: "accepts_ownership u rq s" using handover_accepts assms(5) by blast
      then have "t_owner (sy_topic s) = u" using assms(6) 1 by (simp add: in_step_def self_idle_def)
      then show False using acc m by (auto simp: accepts_ownership_def owns_def)
    qed
    then show ?thesis using 1 coherent_same [OF assms(5)] by (simp add: self_idle_def)
  next
    case 2
    then obtain m' where *: "members (sy_topic s) u = Some m'" "fixed (sy_topic s') = fixed (sy_topic s)"
      "members (sy_topic s') = (members (sy_topic s))(u \<mapsto> m'\<lparr>mb_want := member_mode, mb_given := member_mode\<rparr>)"
      "live_subs (sy_db s') = (live_subs (sy_db s))(sub_key s u :=
          map_option (\<lambda>_. (member_mode, member_mode)) (live_subs (sy_db s) (sub_key s u)))"
      by (auto simp: self_restored_def)
    show ?thesis
      by (rule coherent_upd [where u = u, OF assms(5)]) (use * coherentD [OF assms(5) *(1)] in auto)
  next
    case 3
    then obtain p where *: "\<not> pud_deleted p" "store_joined u p s s'" "fixed (sy_topic s') = fixed (sy_topic s)"
      "members (sy_topic s') = (members (sy_topic s))(u \<mapsto> member_of p)"
      by (auto simp: self_joined_def)
    have "live_subs (sy_db s') = (live_subs (sy_db s))(sub_key s u \<mapsto> (db_mode (pud_modeWant p), db_mode (pud_modeGiven p)))"
      using *(2) assms(6) by (auto simp: store_joined_def in_step_def)
    then show ?thesis
      by (intro coherent_upd [where u = u, OF assms(5)]) (use * in auto)
  next
    case 4
    then obtain tr s1 where ch: "has_pud (sy_topic s) u"
      "planExistingSelfSubscription (self_plan g rq (asked_mode rq) u (sy_topic s)) = Inr tr" "self_planned u tr s s1"
      "members (sy_topic s') = (members (sy_topic s1))(u \<mapsto>
          (member_of (pud_of (sy_topic s) u))\<lparr>mb_want := tr_want tr, mb_given := tr_given tr\<rparr>)"
      "fixed (sy_topic s') = fixed (sy_topic s1)" "sy_db s' = sy_db s1"
      by (auto simp: self_changed_def)
    let ?p = "pud_of (sy_topic s) u"
    have mu: "members (sy_topic s) u = Some (member_of ?p)" using members_pud(3) ch(1) by blast
    note cu = coherentD [OF assms(5) mu]
    show ?thesis
    proof (cases "tr_ownerChange tr")
      case False
      then show ?thesis
        by (intro coherent_upd [where u = u, OF assms(5)])
          (use ch(3-6) cu self_row_sync in \<open>auto simp: self_planned_def Let_def\<close>)
    next
      case True
      have ne: "t_owner (sy_topic s) \<noteq> u"
        using plan_owner(2) [OF ch(2)] True m mu by auto
      have po: "member_of (pud_of (sy_topic s) (t_owner (sy_topic s))) = m" using members_pud(1) m(2) by blast
      note co = coherentD [OF assms(5) m(2)]
      show ?thesis
        by (rule coherent_upds [where A = "{u, t_owner (sy_topic s)}", OF assms(5)])
          (use ch(3-6) True ne cu co m(3) po self_row_sync in \<open>auto simp: self_planned_def Let_def no_owner_def owns_def split: if_splits\<close>)
    qed
  qed
qed

end
