(* ===== verification/GroupSafety.thy ===== *)
theory GroupSafety
  imports TopicGroup
begin

text \<open>
  The guarantees of a group that is not a channel, each with an instance in a small group of three: the
  owner 1, the member 2 who may invite, and the member 3 to whom the ownership is offered.
\<close>

section \<open>A small group\<close>

definition group_pud :: "access_mode \<Rightarrow> access_mode \<Rightarrow> perUserData" where
  "group_pud want given = zero_pud\<lparr>pud_modeWant := want, pud_modeGiven := given\<rparr>"

definition group_row :: "perUserData \<Rightarrow> sub_row" where
  "group_row p = \<lparr>sr_createdat = 0, sr_updatedat = 0, sr_deletedat = None, sr_delid = 0, sr_recvseqid = 0, sr_readseqid = 0,
     sr_readhistory = [], sr_modewant = pud_modeWant p, sr_modegiven = pud_modeGiven p, sr_private = None\<rparr>"

definition small_puds :: "(uid \<times> perUserData) list" where
  "small_puds = [(1, group_pud 0xFF 0xFF), (2, group_pud 0x2F 0x2F), (3, group_pud 0x0F 0xFF)]"

definition small_group :: tsys where
  "small_group =
     \<lparr>sy_topic = \<lparr>t_name = ''grpX'', t_xoriginal = ''grpX'', t_cat = TopicCatGrp, t_touched = 0, t_lastID = 3, t_delID = 0,
        t_subCnt = 3, t_userAgent = [], t_owner = 1, t_accessAuth = member_mode, t_accessAnon = 0, t_aux = [], t_official = None,
        t_officialRefreshedAt = None, t_officialMemberRefreshed = [], t_moderationCache = [], t_perUser = small_puds, t_modeWantUnion = 0xFF,
        t_modeGivenUnion = 0xFF, t_sessions = [], t_status = topicStatusLoaded, t_isChan = False, t_isProxy = False\<rparr>,
      sy_db = \<lparr>sd_subs = (\<lambda>(tp, u). if tp = ''grpX'' then map_option group_row (map_of small_puds u) else None),
        sd_owner = [''grpX'' \<mapsto> 1], sd_subcnt = [''grpX'' \<mapsto> 3], sd_dellog = [],
        sd_users = (\<lambda>u. if u < 10 then Some \<lparr>ur_State = StateOK, ur_AccessAuth = member_mode\<rparr> else None)\<rparr>,
      sy_log = []\<rparr>"

definition small_globals :: tglobals where
  "small_globals = \<lparr>g_maxSubscriberCount = 10, g_typesModeCP2P = ModeCP2P\<rparr>"

definition no_sessions :: sess_table where
  "no_sessions = (\<lambda>_. \<lparr>si_sid = [], si_uid = 0, si_proto = NONE, si_multi = None, si_background = False,
     si_lastAction = 0, si_userAgent = []\<rparr>)"

definition plain_request :: "string \<Rightarrow> self_request" where
  "plain_request modes = \<lparr>rq_want = modes, rq_private = None, rq_invite = [], rq_newsub = False, rq_Original = ''grpX'',
     rq_AuthLvl = LevelAuth, rq_inviteValid = False, rq_inviteConsumed = False, rq_policy = Inr None, rq_join = JoinError\<rparr>"

lemma plain_request_simps [simp]: "rq_want (plain_request m) = m" "rq_invite (plain_request m) = []"
  "rq_private (plain_request m) = None" "rq_AuthLvl (plain_request m) = LevelAuth"
  by (simp_all add: plain_request_def)

lemma small_topic:
  "t_cat (sy_topic small_group) = TopicCatGrp" "\<not> t_isChan (sy_topic small_group)" "t_owner (sy_topic small_group) = 1"
  "t_accessAuth (sy_topic small_group) = member_mode" "t_accessAnon (sy_topic small_group) = 0"
  "t_name (sy_topic small_group) = ''grpX''" "t_official (sy_topic small_group) = None"
  "t_sessions (sy_topic small_group) = []"
  by (simp_all add: small_group_def)

lemma small_users:
  "has_pud (sy_topic small_group) 1" "has_pud (sy_topic small_group) 2" "has_pud (sy_topic small_group) 3"
  "pud_of (sy_topic small_group) 1 = group_pud 0xFF 0xFF"
  "pud_of (sy_topic small_group) 2 = group_pud 0x2F 0x2F"
  "pud_of (sy_topic small_group) 3 = group_pud 0x0F 0xFF"
  by (simp_all add: small_group_def small_puds_def has_pud_def pud_of_def)

lemma group_pud_simps [simp]:
  "pud_modeWant (group_pud w gv) = w" "pud_modeGiven (group_pud w gv) = gv" "\<not> pud_isChan (group_pud w gv)"
  "\<not> pud_deleted (group_pud w gv)" "pud_private (group_pud w gv) = None" "pud_topicName (group_pud w gv) = []"
  by (simp_all add: group_pud_def zero_pud_def)

lemma small_plain: "plain_group small_group"
proof -
  have "\<forall>x \<in> set (t_perUser (sy_topic small_group)). \<not> pud_isChan (snd x)"
    by (simp add: small_group_def small_puds_def)
  then show ?thesis
    unfolding plain_group_def members_def member_of_def by (auto simp: small_topic dest!: map_of_SomeD)
qed

lemma small_owner: "owner_ok small_group"
  by code_simp

lemma small_named: "named_group small_group"
proof -
  have "GetTopicCat ''grpX'' \<noteq> None" by code_simp
  then show ?thesis by (simp add: named_group_def small_plain small_topic)
qed

lemma small_coherent: "coherent small_group"
proof -
  have "db_mode 0xFF = 0xFF" "db_mode 0x2F = 0x2F" "db_mode 0x0F = 0x0F" by code_simp+
  then show ?thesis
    by (auto simp: coherent_def members_def member_of_def live_subs_def small_group_def small_puds_def group_row_def split: if_splits)
qed

text \<open>Any request of the small group on a user returns.\<close>

lemma small_step:
  assumes "names_user req" "case req of SelfSub u _ \<Rightarrow> grant_joins u small_group | _ \<Rightarrow> True"
  shows "\<exists>s'. member_step small_globals no_sessions req small_group s'"
proof -
  have "returns (member_op small_globals no_sessions (\<lambda>_. None) 7 0 req small_group)"
    by (rule member_op_total [OF small_named]) (simp_all add: assms small_topic)
  then show ?thesis using assms by (auto simp: returns_def intro: member_step)
qed

lemma offered: "UnmarshalText ModeUnset ''JRWPASDO'' = (None, 0xFF)"
  by code_simp

lemma offered_plan: "planExistingSelfSubscription
    \<lparr>in_category = TopicCatGrp, in_isTopicOwner = False, in_oldWant = 0x0F, in_oldGiven = 0xFF, in_requested = 0xFF,
     in_defaultAccess = selectAccessMode LevelAuth 0 member_mode ModeCPublic, in_p2pAccess = g_typesModeCP2P small_globals\<rparr> =
   Inr \<lparr>tr_want = 0xFF, tr_given = 0xFF, tr_ownerChange = True\<rparr>"
  by code_simp

lemma change_owner_ok:
  assumes "t_cat (sy_topic s) = TopicCatGrp"
    "pud_modeWant (drop_owner (pud_of (sy_topic s) (t_owner (sy_topic s)))) \<noteq> ModeInvalid"
    "pud_modeGiven (drop_owner (pud_of (sy_topic s) (t_owner (sy_topic s)))) \<noteq> ModeInvalid"
  shows "\<exists>s1. change_owner (\<lambda>_. None) now u s = Some (None, s1)"
  using assms notifySubChange_returns
  by (auto simp: change_owner_def Let_def subs_Update_def SubsUpdate_def set_modes_def no_update_def topics_OwnerChange_def
      returns_def split: option.split)

text \<open>Member 3 accepts the ownership.\<close>

lemma accepted:
  "\<exists>s'. member_op small_globals no_sessions (\<lambda>_. None) 7 0 (SelfSub 3 (plain_request ''JRWPASDO'')) small_group = Some s' \<and>
     t_owner (sy_topic s') = 3"
proof -
  let ?rq = "plain_request ''JRWPASDO''" and ?f = "\<lambda>_. None"
  have drop: "pud_modeWant (drop_owner (group_pud 0xFF 0xFF)) = 0x7F" "pud_modeGiven (drop_owner (group_pud 0xFF 0xFF)) = 0x7F"
    by code_simp+
  have valid: "ModeInvalid \<noteq> (0x7F :: access_mode)" "ModeInvalid \<noteq> (0xFF :: access_mode)" by code_simp+
  have co: "\<exists>s2. change_owner ?f 7 3 s1 = Some (None, s2)" if "sy_topic s1 = sy_topic small_group" for s1
    by (rule change_owner_ok) (use that valid in \<open>simp_all add: small_topic small_users drop\<close>)
  obtain db' where upd: "subs_Update None 7 ''grpX'' 3 (no_update\<lparr>su_ModeWant := Some 0xFF\<rparr>) (sy_db small_group) = (None, db')"
    using valid by (auto simp: subs_Update_def SubsUpdate_def no_update_def)
  let ?sub = "new_subscription 3 ''grpX'' 0xFF 0 None"
  obtain s2 where s2: "change_owner ?f 7 3 (emit (PluginSubscription ?sub PlgActUpd) (set_db db' small_group)) = Some (None, s2)"
    using co by fastforce
  have o2: "t_owner (sy_topic s2) = 3"
    using change_owner_group(2) [OF s2] by (simp add: small_topic)
  let ?p = "(group_pud 0x0F 0xFF)\<lparr>pud_modeWant := 0xFF\<rparr>"
  have eb: "existing_branch small_globals ?f 7 ?rq False 0xFF 3 small_group = Some (Inr (?p, 0x0F, 0xFF), s2)"
    using upd s2
    by (simp add: existing_branch_def accessFor_def getDefaultAccess_def small_topic small_users offered_plan
        Let_def self_update_def self_pud_def no_update_def isNullValue_def opt_or_def group_pud_def zero_pud_def)
  have pg: "plain_group s2"
    using existing_branch_group(2) [OF eb small_plain] planned_plain small_plain by (auto simp: small_topic)
  have "returns (thisUserSub small_globals ?f 7 no_sessions 0 3 False ?rq small_group)"
    by (rule thisUserSub_returns [OF small_named]) (simp_all add: small_topic)
  then obtain res s' where r: "thisUserSub small_globals ?f 7 no_sessions 0 3 False ?rq small_group = Some (res, s')"
    by (auto simp: returns_def)
  have "self_finish no_sessions 0 ?rq False 3 ?p 0x0F 0xFF s2 = Some (res, s')"
    using r eb by (simp add: thisUserSub_def offered small_users Let_def)
  from self_finish_group(3) [OF this pg] have "t_owner (sy_topic s') = 3" using o2 by simp
  then show ?thesis using r by auto
qed

section \<open>Guarantees\<close>







text \<open>C26. No request on the members of a group panics, whatever the store answers.\<close>

theorem requests_return:
  assumes "named_group s" "t_owner (sy_topic s) \<noteq> 0" "names_user req"
  shows "member_op g ss f now sess req s \<noteq> None"
  using member_op_total [OF assms] by (simp add: returns_def)

theorem requests_return_witness:
  "member_op small_globals no_sessions (\<lambda>_. Some ErrNotFound) 7 0 (Leave 2 True ''grpX'') small_group \<noteq> None"
  by (rule requests_return [OF small_named]) (simp_all add: small_topic)

text \<open>C22. A user who is not the owner cannot give another more than they have: after an invitation the
  invited user has what was given before, or the default of the topic, or a part of the modes of the inviting
  administrator, and never the ownership.\<close>

theorem invite_no_escalation:
  assumes "anotherUserSub g f now ss sess a u False mode s = Some (res, s')" "plain_group s" "u \<noteq> 0"
    and "t_owner (sy_topic s) \<noteq> a" "members (sy_topic s') u = Some m'"
  shows "(\<exists>m. members (sy_topic s) u = Some m \<and> mb_given m' = mb_given m) \<or>
    mb_given m' = t_accessAuth (sy_topic s) OR ModeJoin \<or>
    IsAdmin (eff_mode (pud_of (sy_topic s) a)) \<and> \<not> IsOwner (mb_given m') \<and>
    BetterEqual (eff_mode (pud_of (sy_topic s) a)) (mb_given m')"
proof -
  consider "other_same u s s'" | "other_new f a u mode s s'" | "other_changed a u s s'"
    using anotherUserSub_effect [OF assms(1-3)] by blast
  then show ?thesis
    by cases (use assms(4,5) in \<open>auto simp: other_same_def other_new_def other_changed_def kept_def grant_ok_def\<close>)
qed

theorem invite_no_escalation_witness:
  "\<exists>res s'. anotherUserSub small_globals (\<lambda>_. None) 7 no_sessions 0 2 3 False ''JRWPASDO'' small_group = Some (res, s') \<and>
     (\<forall>m'. members (sy_topic s') 3 = Some m' \<longrightarrow> mb_given m' = 0xFF \<or> \<not> IsOwner (mb_given m'))"
proof -
  have "returns (anotherUserSub small_globals (\<lambda>_. None) 7 no_sessions 0 2 3 False ''JRWPASDO'' small_group)"
    by (rule anotherUserSub_returns [OF small_named])
  then obtain res s' where r: "anotherUserSub small_globals (\<lambda>_. None) 7 no_sessions 0 2 3 False ''JRWPASDO'' small_group = Some (res, s')"
    by (auto simp: returns_def)
  have m: "members (sy_topic small_group) 3 = Some (member_of (group_pud 0x0F 0xFF))"
    using members_pud(3) [of "sy_topic small_group" 3] by (simp add: small_users)
  have d: "\<not> IsOwner (member_mode OR ModeJoin)" by (simp add: role_tests)
  have "mb_given m' = 0xFF \<or> \<not> IsOwner (mb_given m')" if "members (sy_topic s') 3 = Some m'" for m'
    using invite_no_escalation [OF r small_plain _ _ that] m d by (auto simp: small_topic)
  then show ?thesis using r by blast
qed

text \<open>C23. Nobody gets more permissions by asking for them: a mode newly given to an active member by their own
  request comes from a valid invitation of a member who was banned, or the member is an administrator
  who asked for it. It is never the ownership, and the permission to delete only for a user who was
  given the ownership.\<close>

theorem self_no_escalation:
  assumes "thisUserSub g f now ss sess u False rq s = Some (res, s')" "plain_group s" "owner_ok s" "u \<noteq> 0"
    and "members (sy_topic s) u = Some m" "\<not> mb_deleted m" "members (sy_topic s') u = Some m'"
    and "bit (mb_given m') n" "\<not> bit (mb_given m) n"
  shows "\<not> IsJoiner (mb_given m) \<and> rq_inviteValid rq \<and> rq_inviteConsumed rq \<and> n < 4 \<or>
    IsAdmin (mb_given m) \<and> bit (asked_mode rq) n \<and> n \<noteq> 7 \<and> (n = 6 \<longrightarrow> IsOwner (mb_given m))"
proof -
  obtain m0 where own: "t_owner (sy_topic s) \<noteq> 0" "members (sy_topic s) (t_owner (sy_topic s)) = Some m0" "owns m0"
    using owner_okD [OF assms(3)] by blast
  consider "self_idle s s'" | "self_restored u s s'" "rq_inviteValid rq" "rq_inviteConsumed rq"
    | "self_joined g f rq u s s'" | "self_changed g rq u s s'"
    using thisUserSub_effect [OF assms(1,2,4) own(1)] by blast
  then show ?thesis
  proof cases
    case 1
    then show ?thesis using assms(5,7-9) by (simp add: self_idle_def)
  next
    case 2
    then show ?thesis using assms(5,7,8) by (auto simp: self_restored_def)
  next
    case 3
    then show ?thesis using assms(5,6) by (auto simp: self_joined_def)
  next
    case 4
    then obtain tr where ch: "planExistingSelfSubscription (self_plan g rq (asked_mode rq) u (sy_topic s)) = Inr tr"
      "members (sy_topic s') u = Some ((member_of (pud_of (sy_topic s) u))\<lparr>mb_want := tr_want tr, mb_given := tr_given tr\<rparr>)"
      by (auto simp: self_changed_def)
    have old: "in_oldGiven (self_plan g rq (asked_mode rq) u (sy_topic s)) = mb_given m" "in_requested (self_plan g rq (asked_mode rq) u (sy_topic s)) = asked_mode rq"
      using members_pud(1) [OF assms(5)] by (auto simp: self_plan_def)
    have cat: "in_category (self_plan g rq (asked_mode rq) u (sy_topic s)) = TopicCatGrp" by (simp add: self_plan_def)
    have new: "bit (tr_given tr) n" using ch(2) assms(7,8) by auto
    note pg = plan_group [OF ch(1) cat, unfolded old]
    have "n \<noteq> 7" using pg(1) new assms(9) by (auto simp: role_tests)
    then show ?thesis using pg(3) new assms(9) by blast
  qed
qed

theorem self_no_escalation_witness:
  "\<exists>res s'. thisUserSub small_globals (\<lambda>_. None) 7 no_sessions 0 2 False (plain_request ''JRWPASDO'') small_group = Some (res, s') \<and>
     (\<forall>m'. members (sy_topic s') 2 = Some m' \<longrightarrow> \<not> IsAdmin (mb_given m'))"
proof -
  have "returns (thisUserSub small_globals (\<lambda>_. None) 7 no_sessions 0 2 False (plain_request ''JRWPASDO'') small_group)"
    by (rule thisUserSub_returns [OF small_named]) (simp_all add: small_topic)
  then obtain res s' where r: "thisUserSub small_globals (\<lambda>_. None) 7 no_sessions 0 2 False (plain_request ''JRWPASDO'') small_group = Some (res, s')"
    by (auto simp: returns_def)
  have m: "members (sy_topic small_group) 2 = Some (member_of (group_pud 0x2F 0x2F))"
    using members_pud(3) [of "sy_topic small_group" 2] by (simp add: small_users)
  have "\<not> bit (mb_given m') n" if "members (sy_topic s') 2 = Some m'" "n = 4 \<or> n = 7" for m' n
  proof
    assume b: "bit (mb_given m') n"
    have nb: "\<not> bit (mb_given (member_of (group_pud 0x2F 0x2F))) n" using that(2) by auto
    from self_no_escalation [OF r small_plain small_owner _ m _ that(1) b nb] show False
      by (simp add: IsAdmin_def role_tests) 
  qed
  then show ?thesis using r by (auto simp: role_tests)
qed

text \<open>Each named role is the one read back from the modes it stands for.\<close>

theorem role_roundtrip:
  assumes "resolveTopicRole role channel = Inr a"
  shows "topicRoleFromAccess (ra_Mode a) channel (ra_ChannelSub a) = ra_Name a"
  by (rule role_of_resolved [OF assms])

theorem role_roundtrip_witness:
  "topicRoleFromAccess (ModeCFull AND NOT ModeOwner) True False = ''admin''"
proof -
  have "resolveTopicRole '' Admin '' True = Inr \<lparr>ra_Name = ''admin'', ra_Mode = ModeCFull AND NOT ModeOwner, ra_ChannelSub = False\<rparr>"
    by code_simp
  from role_roundtrip [OF this] show ?thesis by simp
qed

text \<open>A subscriber of the system topic cannot subscribe to it again: the default access that is computed on
  the way does not exist for that topic.\<close>

theorem resubscribing_to_sys_panics:
  assumes "t_cat (sy_topic s) = TopicCatSys" "has_pud (sy_topic s) u" "\<not> pud_deleted (pud_of (sy_topic s) u)"
    and "rq_want rq = []" "rq_invite rq = []" "\<not> asChan"
  shows "thisUserSub g f now ss sess u asChan rq s = None"
  by (rule sys_resubscribe_panics [OF assms])

theorem resubscribing_to_sys_panics_witness:
  "thisUserSub small_globals (\<lambda>_. None) 7 no_sessions 0 2 False (plain_request [])
     (on_topic (\<lambda>t. t\<lparr>t_cat := TopicCatSys\<rparr>) small_group) = None"
  by (rule resubscribing_to_sys_panics) (simp_all add: has_pud_def pud_of_def small_group_def small_puds_def)



end
