(* ===== verification/TopicSessions.thy ===== *)
theory TopicSessions
  imports TopicSelfSub
begin

text \<open>
  Sessions that attach to a topic and leave it (\<^verbatim>\<open>internal/server/topic_sub.go\<close>,
  \<^verbatim>\<open>topic_pres.go\<close>): the reply to a subscription request, the notifications that follow it, a session
  that returns from the background, and a session that leaves; with the number of sessions each user has
  in the foreground.
\<close>

section \<open>Loading subscribers of large groups\<close>

definition cacheSubscriber :: "subscription \<Rightarrow> topic \<Rightarrow> topic" where
  "cacheSubscriber sub t =
     (let uid = ParseUid (sub_User sub) in
      if uid_IsZero uid then t
      else
        let t1 = set_pud uid (zero_pud\<lparr>pud_delID := sub_DelId sub, pud_readID := sub_ReadSeqId sub, pud_recvID := sub_RecvSeqId sub,
               pud_readHistory := sub_ReadHistory sub, pud_private := sub_Private sub, pud_modeWant := sub_ModeWant sub,
               pud_modeGiven := sub_ModeGiven sub\<rparr>) t
        in if IsOwner (sub_ModeGiven sub AND sub_ModeWant sub) then t1\<lparr>t_owner := uid\<rparr> else t1)"

definition loadSubscriber :: "faults \<Rightarrow> go_time \<Rightarrow> uid \<Rightarrow> tsys \<Rightarrow> (store_error + bool) \<times> tsys" where
  "loadSubscriber f now uid s =
     (let t = sy_topic s in
      if uid_IsZero uid then (Inr False, s)
      else if has_pud t uid \<and> \<not> pud_deleted (pud_of t uid) then (Inr True, s)
      else
        case subs_Get (f CGet) (t_name t) uid False (sy_db s) of
          Inl e \<Rightarrow> (Inl e, s)
        | Inr None \<Rightarrow> (Inr False, s)
        | Inr (Some sub) \<Rightarrow>
            let s1 = on_topic (cacheSubscriber sub) s in
            (Inr True,
             if isOfficialLargeGroup (sy_topic s1)
             then on_topic (\<lambda>t. t\<lparr>t_officialMemberRefreshed := AList.update uid now (t_officialMemberRefreshed t)\<rparr>) s1
             else s1))"

section \<open>Notifications of a subscription\<close>

definition readFilter :: presFilters where
  "readFilter = nilPresFilters\<lparr>pf_filterIn := ModeRead\<rparr>"

definition sendSubNotifications :: "uid \<Rightarrow> string \<Rightarrow> string \<Rightarrow> tsys \<Rightarrow> tsys" where
  "sendSubNotifications asUid sid userAgent s =
     (let t = sy_topic s in
      case t_cat t of
        TopicCatMe \<Rightarrow>
          if \<not> isLoaded t
          then emit (Notice (PresUsersOfInterest ''on'' userAgent)) (emit (LoadContacts asUid) (on_topic markLoaded s))
          else s
      | TopicCatGrp \<Rightarrow>
          let pud = pud_of t asUid in
          if pud_isChan pud then s
          else if \<not> isLoaded t then
            emit (Notice (PresSubsOffline (if IsPresencer (eff_mode pud) then ''on+en'' else ''on'') nilPresParams
               nilPresFilters nilPresFilters [] False)) (on_topic markLoaded s)
          else if pud_online pud = 1
          then emit (Notice (PresSubsOnline ''on'' (UserId asUid) nilPresParams readFilter sid)) s
          else s
      | _ \<Rightarrow> s)"

text \<open>\<open>created\<close> tells that the request created the topic; \<open>asOrig\<close> is the name it used.\<close>

definition sendImmediateSubNotifications ::
  "uid \<Rightarrow> msgAccessMode \<Rightarrow> bool \<Rightarrow> bool \<Rightarrow> string \<Rightarrow> string \<Rightarrow> tsys \<Rightarrow> tsys option" where
  "sendImmediateSubNotifications asUid acs created newsub asOrig sid s =
     (let t = sy_topic s;
          parsed = (\<lambda>str. case ParseAcs str of Inl _ \<Rightarrow> ModeUnset | Inr m \<Rightarrow> m);
          mode = parsed (am_Want acs) AND parsed (am_Given acs);
          asChan = (t_isChan t \<and> IsChannel asOrig)
      in do {
        s1 \<leftarrow>
          (if t_cat t = TopicCatP2P then do {
             uid2 \<leftarrow> p2pOtherUser t asUid;
             let pud2 = pud_of t uid2;
             let mode2 = (if pud_deleted pud2 then ModeInvalid else eff_mode pud2);
             let sc = (if created then emit (Notice (PresSingleUserOffline uid2 mode2 ''acs''
                  (nilPresParams\<lparr>pp_dWant := acs_String (pud_modeWant pud2), pp_dGiven := acs_String (pud_modeGiven pud2),
                     pp_actor := UserId asUid\<rparr>) [] False)) s else s);
             Some (if newsub then
                 emit (SendPush (PushP2PSub asUid uid2 (pud_modeWant pud2) (pud_modeGiven pud2)))
                   (emit (Notice (PresSingleUserOffline uid2 mode2 (if IsPresencer mode2 then ''?unkn+en'' else ''?unkn'')
                        nilPresParams [] False))
                     (emit (Notice (PresSingleUserOffline asUid mode ''?none+en'' nilPresParams [] False)) sc))
               else sc)
           }
           else if t_cat t = TopicCatGrp \<and> \<not> asChan \<and> newsub
           then Some (if has_pud t asUid then emit (SendPush (PushGroupSub asUid)) s else s)
           else Some s);
        Some (if newsub then
            (let s2 = emit (Notice (PresSingleUserOffline asUid mode ''acs''
                (nilPresParams\<lparr>pp_dWant := am_Want acs, pp_dGiven := am_Given acs, pp_actor := UserId asUid\<rparr>) sid False)) s1
             in if asChan then channelSubUnsub asUid True s2 else s2)
          else s1)
      })"

section \<open>Attaching a session\<close>

text \<open>The request: a new subscription or one that the client says is new, whether it created the topic,
  and the modes and invitation it carries. \<open>ar_user\<close> and \<open>ar_role\<close> must be empty.\<close>

record attach_req =
  ar_self :: self_request
  ar_created :: bool
  ar_user :: string
  ar_role :: string

definition bump_online :: "uid \<Rightarrow> int \<Rightarrow> topic \<Rightarrow> topic" where
  "bump_online u n t = set_pud u ((pud_of t u)\<lparr>pud_online := pud_online (pud_of t u) + n\<rparr>) t"

definition attach :: "sess_table \<Rightarrow> sref \<Rightarrow> uid \<Rightarrow> bool \<Rightarrow> bool \<Rightarrow> tsys \<Rightarrow> tsys" where
  "attach ss sess asUid asChan newsub s =
     (let s1 = on_topic (addSession ss sess asUid asChan) (emit (AddSub sess) s);
          s2 = (if \<not> si_background (ss sess) then on_topic (bump_online asUid 1) s1 else s1);
          s3 = (if t_cat (sy_topic s2) = TopicCatGrp \<and> newsub then on_topic (\<lambda>t. t\<lparr>t_subCnt := t_subCnt t + 1\<rparr>) s2 else s2)
      in if isOfficialLargeGroup (sy_topic s3) \<and> newsub then pushTopicSubUnsub asUid True s3 else s3)"

definition acs_param :: "msgAccessMode option \<Rightarrow> (string \<times> any) list" where
  "acs_param m =
     (case m of
        None \<Rightarrow> []
      | Some a \<Rightarrow> [(''acs'', AMap ([(''want'', AStr (am_Want a)), (''given'', AStr (am_Given a)), (''mode'', AStr (am_Mode a)),
          (''role'', AStr (am_Role a))]))])"

text \<open>What follows an accepted request: the session is attached if the user may join, the client is answered and
  the notifications are sent.\<close>

definition has_joined :: "msgAccessMode option \<Rightarrow> bool" where
  "has_joined modeChanged =
     (case modeChanged of
        None \<Rightarrow> True
      | Some m \<Rightarrow> (case ParseAcs (am_Mode m) of Inl _ \<Rightarrow> True | Inr acs \<Rightarrow> IsJoiner acs))"

definition accepted_reply ::
  "sess_table \<Rightarrow> sref \<Rightarrow> uid \<Rightarrow> bool \<Rightarrow> bool \<Rightarrow> attach_req \<Rightarrow> msgAccessMode option \<Rightarrow> tsys \<Rightarrow> tsys option" where
  "accepted_reply ss sess asUid asChan newsub req modeChanged s1 =
     (let hasJoined = has_joined modeChanged;
          orig0 = rq_Original (ar_self req);
          s2 = (if hasJoined then attach ss sess asUid asChan newsub s1 else s1)
      in do {
        toriginal \<leftarrow> original (sy_topic s2) asUid;
        let params = acs_param modeChanged @
          (if ar_created req \<and> orig0 \<noteq> toriginal then [(''tmpname'', AStr orig0)] else []);
        let orig = (if ar_created req then toriginal else orig0);
        let s3 = emit (Reply (if params = [] then NoErrReply else NoErrParamsReply params)) s2;
        s4 \<leftarrow> (case modeChanged of
            None \<Rightarrow> Some s3
          | Some m \<Rightarrow> sendImmediateSubNotifications asUid m (ar_created req) newsub orig (si_sid (ss sess)) s3);
        Some (if \<not> si_background (ss sess) \<and> hasJoined
          then sendSubNotifications asUid (si_sid (ss sess)) (si_userAgent (ss sess)) s4 else s4)
      })"

definition subscriptionReply ::
  "tglobals \<Rightarrow> faults \<Rightarrow> go_time \<Rightarrow> sess_table \<Rightarrow> sref \<Rightarrow> uid \<Rightarrow> bool \<Rightarrow> attach_req \<Rightarrow> tsys \<Rightarrow>
   (tsub_error option \<times> tsys) option" where
  "subscriptionReply g f now ss sess asUid asChan req s =
     (case (if isOfficialLargeGroup (sy_topic s) then loadSubscriber f now asUid s else (Inr True, s)) of
        (Inl e, s0) \<Rightarrow> Some (Some (EStore e), emit (Reply ErrUnknownReply) s0)
      | (Inr _, s0) \<Rightarrow>
          let t = sy_topic s0;
              newsub = (rq_newsub (ar_self req) \<or>
                (t_cat t = TopicCatP2P \<or> t_cat t = TopicCatGrp) \<and> (\<not> has_pud t asUid \<or> pud_deleted (pud_of t asUid)))
          in if ar_user req \<noteq> [] \<or> ar_role req \<noteq> []
             then Some (Some (EStore ErrMalformed), emit (Reply ErrMalformedReply) s0)
             else
               (case thisUserSub g f now ss sess asUid asChan ((ar_self req)\<lparr>rq_newsub := newsub\<rparr>) s0 of
                  None \<Rightarrow> None
                | Some (Inl e, s1) \<Rightarrow> Some (Some e, s1)
                | Some (Inr modeChanged, s1) \<Rightarrow>
                    map_option (\<lambda>s'. (None, s')) (accepted_reply ss sess asUid asChan newsub req modeChanged s1)))"

text \<open>\<open>subscribed\<close> tells whether the session's own list has the topic, and \<open>orig\<close> is the name the client used.
  The \<^verbatim>\<open>{meta}\<close> replies that the request may ask for as well are not part of the model.\<close>

definition registerSession ::
  "tglobals \<Rightarrow> faults \<Rightarrow> go_time \<Rightarrow> sess_table \<Rightarrow> sref \<Rightarrow> bool \<Rightarrow> uid \<Rightarrow> attach_req \<Rightarrow> tsys \<Rightarrow> tsys option" where
  "registerSession g f now ss sess subscribed asUid req s =
     (if isInactive (sy_topic s) then Some (emit (Reply ErrLockedReply) s)
      else if subscribed then Some (emit (Reply InfoAlreadySubscribed) s)
      else do {
        let s1 = emit StopKillTimer s;
        (err, s2) \<leftarrow> (case verifyChannelAccess (sy_topic s1) (rq_Original (ar_self req)) of
            Inl e \<Rightarrow> Some (Some (EStore e), emit (Reply ErrNotFoundReply) s1)
          | Inr asChan \<Rightarrow> subscriptionReply g f now ss sess asUid asChan req s1);
        Some (case err of
            None \<Rightarrow> if ar_created req then emit (PluginTopic PlgActCreate) s2 else s2
          | Some _ \<Rightarrow> if t_sessions (sy_topic s2) = [] \<and> t_cat (sy_topic s2) \<noteq> TopicCatSys then emit ResetKillTimer s2 else s2)
      })"

section \<open>Back to the foreground\<close>

text \<open>The entry of the session is read into a copy; the user that a multiplexing session adds to it is not
  written back.\<close>

definition sessToForeground :: "sess_table \<Rightarrow> sref \<Rightarrow> tsys \<Rightarrow> tsys" where
  "sessToForeground ss sess s =
     (let s' = sess_target ss sess in
      case map_of (t_sessions (sy_topic s)) s' of
        None \<Rightarrow> s
      | Some pssd \<Rightarrow>
          if pssd_isChanSub pssd then s
          else
            let uid = (if is_multiplex ss s' then si_uid (ss sess) else pssd_uid pssd) in
            sendSubNotifications uid (si_sid (ss sess)) (si_userAgent (ss sess)) (on_topic (bump_online uid 1) s))"

section \<open>Leaving\<close>

fun latest_session :: "sess_table \<Rightarrow> (sref \<times> perSessionData) list \<Rightarrow> int \<Rightarrow> sref option \<Rightarrow> sref option" where
  "latest_session ss [] latest best = best"
| "latest_session ss ((s, _) # rest) latest best =
     (if si_lastAction (ss s) > latest then latest_session ss rest (si_lastAction (ss s)) (Some s)
      else latest_session ss rest latest best)"

definition mostRecentSession :: "sess_table \<Rightarrow> topic \<Rightarrow> sref option" where
  "mostRecentSession ss t = latest_session ss (t_sessions t) 0 None"

text \<open>A user went offline in a group: the entry of a channel reader is dropped.\<close>

definition went_offline :: "bool \<Rightarrow> uid \<Rightarrow> tsys \<Rightarrow> tsys" where
  "went_offline asChan uid s =
     (if asChan then on_topic (del_pud uid) s
      else evictColdSubscriber uid (emit (Notice (PresSubsOnline ''off'' (UserId uid) nilPresParams readFilter [])) s))"

fun muids_offline :: "bool \<Rightarrow> uid list \<Rightarrow> tsys \<Rightarrow> tsys" where
  "muids_offline asChan [] s = s"
| "muids_offline asChan (u # us) s =
     muids_offline asChan us (if pud_online (pud_of (sy_topic s) u) = 0 then went_offline asChan u s else s)"

text \<open>\<open>lv_init\<close> tells a request of the client from the end of a session.\<close>

record leave_req =
  lv_init :: bool
  lv_Unsub :: bool
  lv_asUser :: uid
  lv_Original :: string

definition leave_left :: "sess_table \<Rightarrow> sref \<Rightarrow> go_time \<Rightarrow> bool \<Rightarrow> uid \<Rightarrow> int \<Rightarrow> perSessionData \<Rightarrow> tsys \<Rightarrow> tsys" where
  "leave_left ss sess now asChan uid online pssd s =
     (case t_cat (sy_topic s) of
        TopicCatMe \<Rightarrow>
          (let recent = mostRecentSession ss (sy_topic s);
               mrs = (case recent of None \<Rightarrow> sess | Some r \<Rightarrow> r);
               s1 = (case recent of None \<Rightarrow> s | Some r \<Rightarrow> emit (UserAgentUpdate (si_userAgent (ss r))) s);
               meUid = (if uid_IsZero uid \<and> pssd_muids pssd \<noteq> [] then hd (pssd_muids pssd) else uid)
           in if \<not> uid_IsZero meUid then emit (UpdateLastSeen meUid (si_userAgent (ss mrs)) now) s1 else s1)
      | TopicCatFnd \<Rightarrow> emit (FndRemovePublic sess) s
      | TopicCatGrp \<Rightarrow>
          if \<not> uid_IsZero uid then (if online = 0 then went_offline asChan uid s else s)
          else muids_offline asChan (pssd_muids pssd) s
      | _ \<Rightarrow> s)"

definition handleLeaveRequest ::
  "faults \<Rightarrow> go_time \<Rightarrow> sess_table \<Rightarrow> sref \<Rightarrow> leave_req \<Rightarrow> tsys \<Rightarrow> tsys option" where
  "handleLeaveRequest f now ss sess req s =
     (let ini = lv_init req;
          asUid = (if ini then lv_asUser req else 0);
          access = (if ini then verifyChannelAccess (sy_topic s) (lv_Original req) else Inr False);
          asChan = (case access of Inl _ \<Rightarrow> False | Inr c \<Rightarrow> c);
          s0 = (case access of Inl _ \<Rightarrow> emit (Reply ErrNotFoundReply) s | Inr _ \<Rightarrow> s)
      in if isInactive (sy_topic s0)
         then Some (if \<not> uid_IsZero asUid \<and> ini then emit (Reply ErrLockedReply) s0 else s0)
         else if ini \<and> lv_Unsub req then map_option snd (replyLeaveUnsub f now ss sess ini (lv_Original req) asUid s0)
         else
           (case remSession ss sess asUid (sy_topic s0) of
              (None, _, _) \<Rightarrow> Some s0
            | (Some pssd, _, t1) \<Rightarrow>
                let s1 = s0\<lparr>sy_topic := t1\<rparr>;
                    s2 = (if \<not> is_proxy ss sess then emit (DelSub sess) s1 else s1)
                in if pssd_isChanSub pssd \<noteq> asChan
                   then Some (if ini then emit (Reply ErrNotFoundReply) s2 else s2)
                   else
                     let uid = (if is_proxy ss sess then asUid else pssd_uid pssd);
                         pud = pud_of (sy_topic s2) uid;
                         online = (if si_background (ss sess) then pud_online pud else pud_online pud - 1)
                     in if uid_IsZero uid \<and> pssd_muids pssd = [] \<and> \<not> (is_proxy ss sess \<or> is_multiplex ss sess) then None
                        else
                          let s3 = (if \<not> uid_IsZero uid
                                    then (if si_background (ss sess) then s2 else on_topic (bump_online uid (- 1)) s2)
                                    else on_topic (fold (\<lambda>u. bump_online u (- 1)) (pssd_muids pssd)) s2);
                              s4 = leave_left ss sess now asChan uid online pssd s3
                          in Some (if \<not> uid_IsZero uid \<and> ini then emit (Reply NoErrReply) s4 else s4)))"

end
