(* ===== verification/OnlineCount.thy ===== *)
theory OnlineCount
  imports TopicSessions TopicOwnership
begin

text \<open>
  The number of sessions a user has in the foreground of a topic: for ordinary sessions it is the number of
  those that are attached, whatever sessions attach, leave, return from the background or are evicted.
  For channel readers and multiplexing sessions of the cluster the code loses the count.
\<close>

section \<open>Counting\<close>

definition foreground :: "sess_table \<Rightarrow> topic \<Rightarrow> uid \<Rightarrow> sref set" where
  "foreground ss t u = {s. case map_of (t_sessions t) s of None \<Rightarrow> False
     | Some p \<Rightarrow> pssd_uid p = u \<and> \<not> si_background (ss s)}"

definition ordinary :: "sess_table \<Rightarrow> sref \<Rightarrow> bool" where
  "ordinary ss s \<longleftrightarrow> si_multi (ss s) = None \<and> \<not> is_proxy ss s \<and> \<not> is_multiplex ss s"

definition ordinary_sessions :: "sess_table \<Rightarrow> topic \<Rightarrow> bool" where
  "ordinary_sessions ss t \<longleftrightarrow>
     (\<forall>s p. map_of (t_sessions t) s = Some p \<longrightarrow>
        ordinary ss s \<and> \<not> pssd_isChanSub p \<and> pssd_muids p = [] \<and> pssd_uid p \<noteq> 0)"

definition online_ok :: "sess_table \<Rightarrow> topic \<Rightarrow> bool" where
  "online_ok ss t \<longleftrightarrow> \<not> t_isChan t \<and> ordinary_sessions ss t \<and>
     (\<forall>u. pud_online (pud_of t u) = int (card (foreground ss t u)))"

lemma finite_foreground [simp]: "finite (foreground ss t u)"
proof -
  have "foreground ss t u \<subseteq> fst ` set (t_sessions t)"
    by (force simp: foreground_def dest: map_of_SomeD split: option.splits)
  then show ?thesis by (rule finite_subset) simp
qed

lemma foreground_cong: "t_sessions t' = t_sessions t \<Longrightarrow> foreground ss t' u = foreground ss t u"
  by (simp add: foreground_def)

lemma pud_of_simps [simp]:
  "pud_of (set_pud u p t) v = (if v = u then p else pud_of t v)"
  "pud_of (del_pud u t) v = (if v = u then zero_pud else pud_of t v)"
  "pud_of (computePerUserAcsUnion t) v = pud_of t v"
  "pud_of (t\<lparr>t_sessions := x\<rparr>) v = pud_of t v" "pud_of (t\<lparr>t_subCnt := n\<rparr>) v = pud_of t v"
  "pud_of (t\<lparr>t_officialMemberRefreshed := y\<rparr>) v = pud_of t v" "pud_of (t\<lparr>t_status := st\<rparr>) v = pud_of t v"
  by (auto simp: pud_of_def set_pud_def del_pud_def computePerUserAcsUnion_def update_conv' delete_conv' Let_def
      split: prod.split)

lemma sessions_simps [simp]:
  "t_sessions (set_pud u p t) = t_sessions t" "t_sessions (del_pud u t) = t_sessions t"
  "t_sessions (computePerUserAcsUnion t) = t_sessions t" "t_isChan (set_pud u p t) = t_isChan t"
  "t_isChan (del_pud u t) = t_isChan t" "t_isChan (computePerUserAcsUnion t) = t_isChan t"
  by (simp_all add: set_pud_def del_pud_def computePerUserAcsUnion_def Let_def split: prod.split)

lemma zero_online [simp]: "pud_online zero_pud = 0"
  by (simp add: zero_pud_def)

text \<open>Only the sessions and the counters matter.\<close>

lemma online_ok_cong:
  assumes "t_sessions t' = t_sessions t" "\<And>u. pud_online (pud_of t' u) = pud_online (pud_of t u)" "t_isChan t' = t_isChan t"
  shows "online_ok ss t' = online_ok ss t"
  using assms by (simp add: online_ok_def ordinary_sessions_def foreground_def)

lemma status_online [simp]:
  "online_ok ss (markLoaded t) = online_ok ss t" "online_ok ss (markPaused b t) = online_ok ss t"
  "online_ok ss (t\<lparr>t_subCnt := n\<rparr>) = online_ok ss t"
  by (rule online_ok_cong; simp add: markLoaded_def markPaused_def statusChangeBits_def)+

lemma sendSub_online: "online_ok ss (sy_topic (sendSubNotifications u sid ua s)) = online_ok ss (sy_topic s)"
  by (simp add: sendSubNotifications_def Let_def split: topic_cat.split)

lemma pushTopic_same: "sy_topic (pushTopicSubUnsub u b s) = sy_topic s"
  by (simp add: pushTopicSubUnsub_def Let_def)

section \<open>Attaching\<close>

lemma attach_online:
  assumes "online_ok ss (sy_topic s)" "ordinary ss sess" "u \<noteq> 0" "map_of (t_sessions (sy_topic s)) sess = None"
  shows "online_ok ss (sy_topic (attach ss sess u False newsub s))"
proof -
  let ?t = "sy_topic s"
  let ?pssd = "\<lparr>pssd_uid = u, pssd_isChanSub = False, pssd_muids = []\<rparr>"
  have add: "addSession ss sess u False ?t = ?t\<lparr>t_sessions := AList.update sess ?pssd (t_sessions ?t)\<rparr>"
    using assms(2,4) by (simp add: addSession_def sess_target_def ordinary_def Let_def)
  have fg: "foreground ss (?t\<lparr>t_sessions := AList.update sess ?pssd (t_sessions ?t)\<rparr>) v =
      (if v = u \<and> \<not> si_background (ss sess) then insert sess (foreground ss ?t v) else foreground ss ?t v)" for v
    using assms(4) by (auto simp: foreground_def update_conv' split: if_splits option.splits)
  have new: "sess \<notin> foreground ss ?t v" for v using assms(4) by (simp add: foreground_def)
  have ord: "ordinary_sessions ss (?t\<lparr>t_sessions := AList.update sess ?pssd (t_sessions ?t)\<rparr>)"
    using assms(1-3) by (auto simp: online_ok_def ordinary_sessions_def update_conv')
  define t1 where "t1 = (if \<not> si_background (ss sess)
      then bump_online u 1 (?t\<lparr>t_sessions := AList.update sess ?pssd (t_sessions ?t)\<rparr>)
      else ?t\<lparr>t_sessions := AList.update sess ?pssd (t_sessions ?t)\<rparr>)"
  have "foreground ss t1 v = foreground ss (?t\<lparr>t_sessions := AList.update sess ?pssd (t_sessions ?t)\<rparr>) v" for v
    by (auto simp: t1_def bump_online_def intro!: foreground_cong)
  then have ok1: "online_ok ss t1"
    using assms(1) ord new fg by (auto simp: online_ok_def t1_def bump_online_def ordinary_sessions_def)
  have "t_sessions (sy_topic (attach ss sess u False newsub s)) = t_sessions t1 \<and>
      (\<forall>v. pud_of (sy_topic (attach ss sess u False newsub s)) v = pud_of t1 v) \<and>
      t_isChan (sy_topic (attach ss sess u False newsub s)) = t_isChan t1"
    by (simp add: attach_def Let_def add t1_def pushTopic_same)
  then show ?thesis using ok1 online_ok_cong by metis
qed

section \<open>Evicting\<close>

lemma remSession_ordinary:
  assumes "ordinary_sessions ss t" "ordinary ss sess"
  shows "remSession ss sess u t =
    (case map_of (t_sessions t) sess of
       None \<Rightarrow> (None, False, t)
     | Some p \<Rightarrow> if pssd_uid p = u \<or> u = 0 then (Some p, True, t\<lparr>t_sessions := AList.delete sess (t_sessions t)\<rparr>)
                 else (None, False, t))"
  using assms
  by (auto simp: remSession_def sess_target_def ordinary_def ordinary_sessions_def Let_def uid_IsZero_def ZeroUid_def
      split: option.split)

lemma ordinary_delete:
  "ordinary_sessions ss t \<Longrightarrow> ordinary_sessions ss (t\<lparr>t_sessions := AList.delete sess (t_sessions t)\<rparr>)"
  by (auto simp: ordinary_sessions_def delete_conv' split: if_splits)

definition evicted_from :: "uid \<Rightarrow> sref set \<Rightarrow> topic \<Rightarrow> topic \<Rightarrow> bool" where
  "evicted_from u S t t' \<longleftrightarrow>
     map_of (t_sessions t') = (\<lambda>k. case map_of (t_sessions t) k of None \<Rightarrow> None
       | Some p \<Rightarrow> if k \<in> S \<and> pssd_uid p = u then None else Some p) \<and>
     (\<forall>v. pud_of t' v = pud_of t v) \<and> t_isChan t' = t_isChan t"

lemma evicted_from_trans:
  "evicted_from u S t t' \<Longrightarrow> evicted_from u S' t' t'' \<Longrightarrow> evicted_from u (S \<union> S') t t''"
  by (auto simp: evicted_from_def fun_eq_iff split: option.splits if_splits)

lemma evict_sessions_rest:
  assumes "ordinary_sessions ss (sy_topic s)" "\<forall>x \<in> set sl. ordinary ss x" "u \<noteq> 0"
  shows "evicted_from u (set sl) (sy_topic s) (sy_topic (evict_sessions ss u unsub skip orig sl s))"
  using assms(1,2)
proof (induction sl arbitrary: s)
  case Nil
  then show ?case by (auto simp: evicted_from_def fun_eq_iff split: option.split)
next
  case (Cons x sl)
  define P where "P = (case map_of (t_sessions (sy_topic s)) x of None \<Rightarrow> False | Some p \<Rightarrow> pssd_uid p = u)"
  define t1 where "t1 = (if P then (sy_topic s)\<lparr>t_sessions := AList.delete x (t_sessions (sy_topic s))\<rparr> else sy_topic s)"
  obtain s2 where s2: "sy_topic s2 = t1"
    "evict_sessions ss u unsub skip orig (x # sl) s = evict_sessions ss u unsub skip orig sl s2"
  proof -
    have rem: "remSession ss x u (sy_topic s) = (if P then (map_of (t_sessions (sy_topic s)) x, True, t1) else (None, False, t1))"
      using remSession_ordinary [of ss "sy_topic s" x u] Cons.prems assms(3)
      by (auto simp: P_def t1_def split: option.split)
    show ?thesis
    proof (cases P)
      case True
      then obtain p where "map_of (t_sessions (sy_topic s)) x = Some p" by (auto simp: P_def split: option.splits)
      then show ?thesis
        using rem True that [of "if si_sid (ss x) \<noteq> skip then emit (Evicted x orig unsub u) (emit (DetachSession x) (s\<lparr>sy_topic := t1\<rparr>))
          else emit (DetachSession x) (s\<lparr>sy_topic := t1\<rparr>)"] by (simp add: Let_def)
    next
      case False
      then show ?thesis using rem that [of s] by (simp add: t1_def)
    qed
  qed
  have "evicted_from u {x} (sy_topic s) t1"
    by (auto simp: t1_def P_def evicted_from_def delete_conv' fun_eq_iff split: option.splits)
  moreover have "ordinary_sessions ss (sy_topic s2)"
    using ordinary_delete Cons.prems(1) by (simp add: s2 t1_def)
  then have "evicted_from u (set sl) t1 (sy_topic (evict_sessions ss u unsub skip orig (x # sl) s))"
    using Cons.IH [of s2] Cons.prems(2) s2 by simp
  ultimately show ?case using evicted_from_trans [of u "{x}"] by simp
qed

definition no_session_added :: "topic \<Rightarrow> topic \<Rightarrow> bool" where
  "no_session_added t t' \<longleftrightarrow> (\<forall>x. map_of (t_sessions t) x = None \<longrightarrow> map_of (t_sessions t') x = None)"

lemma evictUser_online:
  assumes "evictUser ss u unsub skip s = Some s'" "online_ok ss (sy_topic s)" "u \<noteq> 0"
  shows "online_ok ss (sy_topic s')" "no_session_added (sy_topic s) (sy_topic s')"
proof -
  let ?t = "sy_topic s"
  have ord: "ordinary_sessions ss ?t" and ch: "\<not> t_isChan ?t" and cnt: "\<And>v. pud_online (pud_of ?t v) = int (card (foreground ss ?t v))"
    using assms(2) by (simp_all add: online_ok_def)
  define s1 where "s1 = (if unsub then
      (if t_cat ?t = TopicCatP2P then on_topic (set_pud u ((pud_of ?t u)\<lparr>pud_online := 0, pud_deleted := True\<rparr>)) s
       else if has_pud ?t u then (if \<not> pud_isChan (pud_of ?t u) then emit (UsersRegister u False) (on_topic (computePerUserAcsUnion \<circ> del_pud u) s)
         else on_topic (computePerUserAcsUnion \<circ> del_pud u) s) else s)
    else if has_pud ?t u then (if pud_isChan (pud_of ?t u) then on_topic (del_pud u) s
      else on_topic (set_pud u ((pud_of ?t u)\<lparr>pud_online := 0\<rparr>)) s) else s)"
  obtain orig where s': "s' = evict_sessions ss u unsub skip orig (map fst (t_sessions (sy_topic s1))) s1"
    using assms(1) by (auto simp: evictUser_def Let_def s1_def split: option.splits if_splits)
  have no: "pud_online (pud_of ?t u) = 0" if "\<not> has_pud ?t u"
    using that by (simp add: pud_of_def has_pud_def)
  have 1: "t_sessions (sy_topic s1) = t_sessions ?t" "t_isChan (sy_topic s1) = t_isChan ?t"
    "pud_online (pud_of (sy_topic s1) v) = (if v = u then 0 else pud_online (pud_of ?t v))" for v
    using no by (auto simp: s1_def)
  have ord1: "ordinary_sessions ss (sy_topic s1)" using ord 1(1) by (simp add: ordinary_sessions_def)
  have all: "\<forall>x \<in> set (map fst (t_sessions (sy_topic s1))). ordinary ss x"
    using ord 1(1) by (force simp: ordinary_sessions_def dest: weak_map_of_SomeI)
  have ev: "evicted_from u (set (map fst (t_sessions ?t))) (sy_topic s1) (sy_topic s')"
    using evict_sessions_rest [OF ord1 all assms(3)] s' 1(1) by simp
  have left: "map_of (t_sessions (sy_topic s')) k =
      (case map_of (t_sessions ?t) k of None \<Rightarrow> None | Some p \<Rightarrow> if pssd_uid p = u then None else Some p)" for k
    using ev 1(1) by (force simp: evicted_from_def dest: map_of_SomeD split: option.splits)
  have fg: "foreground ss (sy_topic s') v = (if v = u then {} else foreground ss ?t v)" for v
    by (auto simp: foreground_def left split: option.splits if_splits)
  have "ordinary_sessions ss (sy_topic s')"
    using ord by (auto simp: ordinary_sessions_def left split: option.splits if_splits)
  moreover have "pud_online (pud_of (sy_topic s') v) = int (card (foreground ss (sy_topic s') v))" for v
    using ev 1(3) cnt fg by (simp add: evicted_from_def)
  ultimately show "online_ok ss (sy_topic s')" using ev 1(2) ch by (simp add: online_ok_def evicted_from_def)
  show "no_session_added (sy_topic s) (sy_topic s')" by (simp add: no_session_added_def left)
qed

section \<open>Leaving\<close>

lemma evictCold_online:
  assumes "online_ok ss (sy_topic s)"
  shows "online_ok ss (sy_topic (evictColdSubscriber u s))"
proof -
  have "pud_online (pud_of (sy_topic s) u) = 0" if "\<not> pud_online (pud_of (sy_topic s) u) > 0"
    using assms that by (simp add: online_ok_def)
  then show ?thesis
    by (intro online_ok_cong [THEN iffD2, OF _ _ _ assms]) (auto simp: evictColdSubscriber_def Let_def)
qed

lemma leave_left_online:
  assumes "online_ok ss (sy_topic s)" "pssd_muids pssd = []"
  shows "online_ok ss (sy_topic (leave_left ss sess now False uid n pssd s))"
  using assms evictCold_online
  by (auto simp: leave_left_def went_offline_def Let_def split: topic_cat.split option.split)

lemma unsub_online:
  assumes "replyLeaveUnsub f now ss sess ini tp u s = Some (err, s')" "online_ok ss (sy_topic s)"
  shows "online_ok ss (sy_topic s')"
proof -
  let ?t = "sy_topic s"
  have nz: "u \<noteq> 0" using assms(1) by (auto simp: replyLeaveUnsub_def uid_IsZero_def ZeroUid_def Let_def)
  have asChan: "(if ini then verifyChannelAccess ?t tp else Inr False) = Inr False \<or>
      (\<exists>e. (if ini then verifyChannelAccess ?t tp else Inr False) = Inl e)"
    using assms(2) by (simp add: verifyChannelAccess_def online_ok_def)
  note def = assms(1) [unfolded replyLeaveUnsub_def Let_def]
  show ?thesis
  proof (cases "t_owner ?t = u \<or> (\<exists>e. (if ini then verifyChannelAccess ?t tp else Inr False) = Inl e)")
    case True
    then have "sy_topic s' = ?t" using def nz by (auto simp: uid_IsZero_def ZeroUid_def split: if_splits)
    then show ?thesis using assms(2) by simp
  next
    case False
    then have acc: "(if ini then verifyChannelAccess ?t tp else Inr False) = Inr False" using asChan by blast
    have own: "(t_owner ?t = u) = False" "uid_IsZero u = False" using False nz by (simp_all add: uid_IsZero_def ZeroUid_def)
    note def' = def [unfolded acc own if_False sum.case]
    obtain r db where del: "subs_Delete (f CDelete) now (if pud_isChan (pud_of ?t u) then GrpToChn (t_name ?t) else t_name ?t) u (sy_db s) = Some (r, db)"
      using def' by (cases "subs_Delete (f CDelete) now (if pud_isChan (pud_of ?t u) then GrpToChn (t_name ?t) else t_name ?t) u (sy_db s)") auto
    show ?thesis
    proof (cases r)
      case (Some e)
      then have "sy_topic s' = ?t" using def' del by (auto split: if_splits)
      then show ?thesis using assms(2) by simp
    next
      case None
      then obtain s3 s4 s5 where s3: "sy_topic s3 = ?t"
        and s4: "notifySubChange u u False (pud_modeWant (pud_of ?t u)) (pud_modeGiven (pud_of ?t u)) ModeUnset ModeUnset (si_sid (ss sess)) s3 = Some s4"
        and s5: "evictUser ss u True (si_sid (ss sess)) s4 = Some s5"
        and s': "s' = p2p_empty (on_topic (\<lambda>t. if t_cat t = TopicCatGrp then t\<lparr>t_subCnt := t_subCnt t - 1\<rparr> else t)
          (emit (PluginSubscription (new_subscription u (t_name ?t) 0 0 None) PlgActDel) s5))"
        using def' del by (clarsimp simp: bind_eq_Some_conv) (rule that [rotated], assumption, assumption, simp_all)
      have "sy_topic s4 = ?t" using notifySubChange_same [OF s4] s3 by simp
      then have "online_ok ss (sy_topic s5)" using evictUser_online [OF s5 _ nz] assms(2) by simp
      then show ?thesis using s' by (simp add: p2p_empty_def)
    qed
  qed
qed

lemma leave_online:
  assumes "handleLeaveRequest f now ss sess req s = Some s'" "online_ok ss (sy_topic s)" "ordinary ss sess"
  shows "online_ok ss (sy_topic s')"
proof -
  let ?t = "sy_topic s"
  define asUid where "asUid = (if lv_init req then lv_asUser req else 0)"
  define s0 where "s0 = (case if lv_init req then verifyChannelAccess ?t (lv_Original req) else Inr False of
      Inl _ \<Rightarrow> emit (Reply ErrNotFoundReply) s | Inr _ \<Rightarrow> s)"
  have ord: "ordinary_sessions ss ?t" and ch: "\<not> t_isChan ?t" and cnt: "\<And>v. pud_online (pud_of ?t v) = int (card (foreground ss ?t v))"
    using assms(2) by (simp_all add: online_ok_def)
  have s0: "sy_topic s0 = ?t" by (auto simp: s0_def split: sum.split)
  have asChan: "(case if lv_init req then verifyChannelAccess ?t (lv_Original req) else Inr False of Inl _ \<Rightarrow> False | Inr c \<Rightarrow> c) = False"
    using ch by (simp add: verifyChannelAccess_def)
  have px: "\<not> is_proxy ss sess" "\<not> is_multiplex ss sess" using assms(3) by (simp_all add: ordinary_def)
  note def = assms(1) [unfolded handleLeaveRequest_def Let_def, folded asUid_def s0_def, unfolded asChan]
  show ?thesis
  proof (cases "isInactive ?t \<or> lv_init req \<and> lv_Unsub req")
    case inactive: True
    then consider "isInactive ?t" | err where
      "replyLeaveUnsub f now ss sess True (lv_Original req) asUid s0 = Some (err, s')"
      using def s0 by (auto simp: map_option_case split: option.splits if_splits)
    then show ?thesis
    proof cases
      case 1
      then have "sy_topic s' = ?t" using def s0 by (auto split: if_splits)
      then show ?thesis using assms(2) by simp
    next
      case 2
      then show ?thesis using unsub_online assms(2) s0 by metis
    qed
  next
    case False
    then have go: "isInactive (sy_topic s0) = False" "(lv_init req \<and> lv_Unsub req) = False" using s0 by auto
    note def = def [unfolded go if_False, unfolded s0]
    note rem = remSession_ordinary [OF ord assms(3), of asUid]
    show ?thesis
    proof (cases "map_of (t_sessions ?t) sess")
      case None
      then have "s' = s0" using def rem by simp
      then show ?thesis using assms(2) s0 by simp
    next
      case (Some p)
      have p: "\<not> pssd_isChanSub p" "pssd_muids p = []" "pssd_uid p \<noteq> 0"
        using ord Some by (auto simp: ordinary_sessions_def)
      show ?thesis
      proof (cases "pssd_uid p = asUid \<or> asUid = 0")
        case nomatch: False
        then have "s' = s0" using def rem Some by simp
        then show ?thesis using assms(2) s0 by simp
      next
        case match: True
        let ?t1 = "?t\<lparr>t_sessions := AList.delete sess (t_sessions ?t)\<rparr>"
        let ?u = "pssd_uid p"
        define t3 where "t3 = (if si_background (ss sess) then ?t1 else bump_online ?u (- 1) ?t1)"
        obtain s3 n where s3: "sy_topic s3 = t3" and s': "sy_topic s' = sy_topic (leave_left ss sess now False ?u n p s3)"
        proof -
          let ?s2 = "emit (DelSub sess) (s0\<lparr>sy_topic := ?t1\<rparr>)"
          show thesis
            using def rem Some match p px
              that [of "if si_background (ss sess) then ?s2 else on_topic (bump_online ?u (- 1)) ?s2"
                "if si_background (ss sess) then pud_online (pud_of (sy_topic ?s2) ?u) else pud_online (pud_of (sy_topic ?s2) ?u) - 1"]
            by (auto simp: t3_def uid_IsZero_def ZeroUid_def split: if_splits)
        qed
        have fg: "foreground ss ?t1 v = foreground ss ?t v - {sess}" for v
          by (auto simp: foreground_def delete_conv' split: if_splits)
        have mem: "sess \<in> foreground ss ?t v \<longleftrightarrow> v = ?u \<and> \<not> si_background (ss sess)" for v
          using Some by (auto simp: foreground_def)
        have ord1: "ordinary_sessions ss ?t1" by (rule ordinary_delete [OF ord])
        have "foreground ss t3 v = foreground ss ?t1 v" for v
          by (auto simp: t3_def bump_online_def intro!: foreground_cong)
        moreover have "ordinary_sessions ss t3"
          using ord1 by (auto simp: t3_def bump_online_def ordinary_sessions_def)
        moreover have "pud_online (pud_of t3 v) = int (card (foreground ss ?t v - {sess}))" for v
        proof -
          have pos: "card (foreground ss ?t ?u) > 0" if "\<not> si_background (ss sess)"
            using mem [of ?u] that by (auto simp: card_gt_0_iff)
          show ?thesis using cnt mem [of v] pos by (auto simp: t3_def bump_online_def card_Diff_singleton_if)
        qed
        ultimately have "online_ok ss t3" using ch fg by (simp add: online_ok_def t3_def bump_online_def)
        then show ?thesis using leave_left_online [of ss s3 p] s3 s' p(2) by simp
      qed
    qed
  qed
qed

section \<open>Back to the foreground\<close>

definition woken :: "sref \<Rightarrow> sess_table \<Rightarrow> sess_table" where
  "woken sess ss = ss(sess := (ss sess)\<lparr>si_background := False\<rparr>)"

lemma woken_ordinary: "ordinary (woken sess ss) x = ordinary ss x"
  by (auto simp: woken_def ordinary_def is_proxy_def is_multiplex_def)

lemma foreground_online:
  assumes "online_ok ss (sy_topic s)" "si_background (ss sess)" "ordinary ss sess"
  shows "online_ok (woken sess ss) (sy_topic (sessToForeground (woken sess ss) sess s))"
proof -
  let ?t = "sy_topic s" and ?ss = "woken sess ss"
  have ord: "ordinary_sessions ss ?t" and ch: "\<not> t_isChan ?t" and cnt: "\<And>v. pud_online (pud_of ?t v) = int (card (foreground ss ?t v))"
    using assms(1) by (simp_all add: online_ok_def)
  have target: "sess_target ?ss sess = sess" "\<not> is_multiplex ?ss sess"
    using woken_ordinary [of sess ss sess] assms(3) by (simp_all add: sess_target_def ordinary_def)
  show ?thesis
  proof (cases "map_of (t_sessions ?t) sess")
    case None
    then have "foreground ?ss ?t v = foreground ss ?t v" for v
      by (auto simp: foreground_def woken_def split: option.splits)
    then have "online_ok ?ss ?t" using ord ch cnt by (simp add: online_ok_def ordinary_sessions_def woken_ordinary)
    then show ?thesis using None target by (simp add: sessToForeground_def)
  next
    case p: (Some p)
    have pp: "\<not> pssd_isChanSub p" using ord p by (auto simp: ordinary_sessions_def)
    have fg: "foreground ?ss ?t v = (if v = pssd_uid p then insert sess (foreground ss ?t v) else foreground ss ?t v)" for v
      using p by (auto simp: foreground_def woken_def split: option.splits if_splits)
    have new: "sess \<notin> foreground ss ?t v" for v using p assms(2) by (simp add: foreground_def)
    let ?t1 = "bump_online (pssd_uid p) 1 ?t"
    have "foreground ?ss ?t1 v = foreground ?ss ?t v" for v by (rule foreground_cong) (simp add: bump_online_def)
    moreover have "ordinary_sessions ?ss ?t1" using ord by (simp add: ordinary_sessions_def bump_online_def woken_ordinary)
    ultimately have ok: "online_ok ?ss ?t1" using ch cnt fg new by (simp add: online_ok_def bump_online_def)
    have "\<exists>sid ua. sessToForeground ?ss sess s = sendSubNotifications (pssd_uid p) sid ua (on_topic (bump_online (pssd_uid p) 1) s)"
      using p pp target by (auto simp: sessToForeground_def Let_def)
    then show ?thesis using ok sendSub_online [of ?ss] by fastforce
  qed
qed

section \<open>Registering\<close>

text \<open>What a request writes about its user keeps the counter.\<close>

definition same_count :: "topic \<Rightarrow> topic \<Rightarrow> bool" where
  "same_count t t' \<longleftrightarrow> t_sessions t' = t_sessions t \<and> t_isChan t' = t_isChan t \<and>
     (\<forall>v. pud_online (pud_of t' v) = pud_online (pud_of t v))"

lemma same_count_refl [simp]: "same_count t t"
  by (simp add: same_count_def)

lemma same_count_trans: "same_count t t' \<Longrightarrow> same_count t' t'' \<Longrightarrow> same_count t t''"
  by (simp add: same_count_def)

lemma same_count_set [simp]: "same_count t (set_pud u p t) \<longleftrightarrow> pud_online p = pud_online (pud_of t u)"
  by (auto simp: same_count_def)

lemma same_count_online: "same_count t t' \<Longrightarrow> online_ok ss t \<Longrightarrow> online_ok ss t'"
  using online_ok_cong [of t' t ss] by (simp add: same_count_def)

lemma same_count_sessions: "same_count t t' \<Longrightarrow> no_session_added t t'"
  by (simp add: same_count_def no_session_added_def)

lemma no_session_added_trans: "no_session_added t t' \<Longrightarrow> no_session_added t' t'' \<Longrightarrow> no_session_added t t''"
  by (simp add: no_session_added_def)

lemma restore_count:
  "restore_member f now ss sess rq u s = Some (res, s') \<Longrightarrow> same_count (sy_topic s) (sy_topic s')"
  by (auto simp: restore_member_def refuse_def Let_def bind_eq_Some_conv dest!: notifySubChange_same split: if_splits prod.splits option.splits)

lemma pud_of_policy [simp]:
  "pud_of (t\<lparr>t_official := x, t_officialRefreshedAt := y\<rparr>) v = pud_of t v" "pud_of (t\<lparr>t_owner := w\<rparr>) v = pud_of t v"
  by (simp_all add: pud_of_def)

lemma policy_count: "refreshOfficialPolicy st now t = (e, t') \<Longrightarrow> same_count t t'"
  by (auto simp: refreshOfficialPolicy_def same_count_def split: if_splits sum.splits)

lemma join_count:
  "checkOfficialSelfJoin rq hi now u s = Some (e, s') \<Longrightarrow> same_count (sy_topic s) (sy_topic s')"
  using policy_count
  by (fastforce simp: checkOfficialSelfJoin_def Let_def split: if_splits prod.splits option.splits join_outcome.splits)

lemma modes_count:
  "new_sub_modes g f rq False hi w u s = Some (Inr n) \<Longrightarrow> pud_online (ns_userData n) = pud_online (pud_of (sy_topic s) u)"
  by (auto simp: new_sub_modes_def new_sub_plain_def Let_def bind_eq_Some_conv split: if_splits sum.splits option.splits prod.splits)

lemma store_count:
  assumes "new_sub_store f now rq False u n s = Some (out, s')"
  shows "sy_topic s' = sy_topic s" "out = Inr p \<Longrightarrow> pud_online p = pud_online (ns_userData n)"
  using assms by (auto simp: new_sub_store_def Let_def split: if_splits option.splits prod.splits)

lemma new_branch_count:
  assumes "new_subscription_branch g f now rq False hi w u s = Some (out, s')"
  shows "same_count (sy_topic s) (sy_topic s')"
    "out = Inr (p, ow, og) \<Longrightarrow> pud_online p = pud_online (pud_of (sy_topic s) u)"
proof -
  obtain err s1 where ck: "(if t_cat (sy_topic s) = TopicCatGrp then checkOfficialSelfJoin rq hi now u s
      else Some (None, s)) = Some (err, s1)"
    using assms by (auto simp: new_subscription_branch_def bind_eq_Some_conv)
  then have 1: "same_count (sy_topic s) (sy_topic s1)" using join_count by (auto split: if_splits)
  consider (stop) er r where "out = Inl er" "s' = s1 \<or> s' = emit r s1"
    | (store) n out2 s2 where "new_sub_modes g f rq False hi w u s1 = Some (Inr n)"
      "new_sub_store f now rq False u n s1 = Some (out2, s2)"
      "(case out2 of Inl (e, r) \<Rightarrow> out = Inl e \<and> s' = emit (Reply r) s2 | Inr p \<Rightarrow> out = Inr (p, ns_oldWant n, ns_oldGiven n) \<and> s' = s2)"
    using assms ck
    by (auto simp: new_subscription_branch_def Let_def
        split: if_split_asm option.split_asm sum.split_asm prod.split_asm Option.bind_split_asm)
  then have "same_count (sy_topic s) (sy_topic s') \<and>
      (out = Inr (p, ow, og) \<longrightarrow> pud_online p = pud_online (pud_of (sy_topic s) u))"
  proof cases
    case stop
    then show ?thesis using 1 by auto
  next
    case store
    note sc = store_count [OF store(2)]
    have "pud_online (ns_userData n) = pud_online (pud_of (sy_topic s) u)"
      using modes_count [OF store(1)] 1 by (simp add: same_count_def)
    then show ?thesis using store(3) sc 1 by (auto split: sum.splits)
  qed
  then show "same_count (sy_topic s) (sy_topic s')"
    "out = Inr (p, ow, og) \<Longrightarrow> pud_online p = pud_online (pud_of (sy_topic s) u)" by blast+
qed

lemma change_owner_count:
  "change_owner f now u s = Some (e, s') \<Longrightarrow> same_count (sy_topic s) (sy_topic s')"
  by (auto simp: change_owner_def drop_owner_def Let_def same_count_def dest!: notifySubChange_same split: prod.splits option.splits)

lemma existing_count:
  assumes "existing_branch g f now rq False w u s = Some (out, s')"
  shows "same_count (sy_topic s) (sy_topic s')"
    "out = Inr (p, ow, og) \<Longrightarrow> pud_online p = pud_online (pud_of (sy_topic s) u)"
  using assms
  by (auto simp: existing_branch_def self_pud_def Let_def dest!: change_owner_count
      split: if_splits sum.splits option.splits prod.splits)

lemma finish_online:
  assumes "self_finish ss sess rq False u p ow og s = Some (res, s')" "online_ok ss (sy_topic s)" "u \<noteq> 0"
    "pud_online p = pud_online (pud_of (sy_topic s) u)"
  shows "online_ok ss (sy_topic s') \<and> no_session_added (sy_topic s) (sy_topic s')"
proof -
  let ?T = "set_pud u p (sy_topic s)"
  have same: "same_count (sy_topic s) ?T" using assms(4) by simp
  consider "sy_topic s' = ?T" | s4 where "evictUser ss u False [] s4 = Some s'" "sy_topic s4 = ?T"
    using assms(1)
    by (auto simp: self_finish_def Let_def bind_eq_Some_conv refuse_def unread_change_def dest!: notifySubChange_same split: if_splits)
  then show ?thesis
  proof cases
    case 1
    then show ?thesis using same same_count_online same_count_sessions assms(2) by metis
  next
    case 2
    have "online_ok ss (sy_topic s4)" using same same_count_online assms(2) 2(2) by metis
    then show ?thesis
      using evictUser_online [OF 2(1) _ assms(3)] 2(2) same_count_sessions [OF same] no_session_added_trans by metis
  qed
qed

lemma thisUserSub_online:
  assumes "thisUserSub g f now ss sess u False rq s = Some (res, s')" "online_ok ss (sy_topic s)" "u \<noteq> 0"
  shows "online_ok ss (sy_topic s') \<and> no_session_added (sy_topic s) (sy_topic s')"
proof -
  consider (stop) "sy_topic s' = sy_topic s"
    | (restore) "restore_member f now ss sess rq u s = Some (res, s')"
    | (new) hi w out s1 where "new_subscription_branch g f now rq False hi w u s = Some (out, s1)"
        "(case out of Inl e \<Rightarrow> s' = s1 | Inr (p, ow, og) \<Rightarrow> self_finish ss sess rq False u p ow og s1 = Some (res, s'))"
    | (old) w out s1 where "existing_branch g f now rq False w u s = Some (out, s1)"
        "(case out of Inl e \<Rightarrow> s' = s1 | Inr (p, ow, og) \<Rightarrow> self_finish ss sess rq False u p ow og s1 = Some (res, s'))"
    using assms(1)
    by (auto simp: thisUserSub_def Let_def refuse_def
        split: if_split_asm option.split_asm sum.split_asm prod.split_asm Option.bind_split_asm)
  then show ?thesis
  proof cases
    case stop
    then show ?thesis using assms(2) by (simp add: no_session_added_def)
  next
    case restore
    then show ?thesis using restore_count same_count_online same_count_sessions assms(2) by blast
  next
    case new
    note nb = new_branch_count [OF new(1)]
    have ok: "online_ok ss (sy_topic s1)" using nb(1) same_count_online assms(2) by blast
    show ?thesis
    proof (cases out)
      case (Inl e)
      then show ?thesis using new(2) ok same_count_sessions [OF nb(1)] by simp
    next
      case (Inr x)
      then obtain p ow og where x: "out = Inr (p, ow, og)" by (metis prod_cases3)
      have "self_finish ss sess rq False u p ow og s1 = Some (res, s')" using new(2) x by simp
      then have "online_ok ss (sy_topic s') \<and> no_session_added (sy_topic s1) (sy_topic s')"
        using finish_online [OF _ ok assms(3)] nb(2) [OF x] nb(1) by (simp add: same_count_def)
      then show ?thesis using no_session_added_trans same_count_sessions [OF nb(1)] by blast
    qed
  next
    case old
    note eb = existing_count [OF old(1)]
    have ok: "online_ok ss (sy_topic s1)" using eb(1) same_count_online assms(2) by blast
    show ?thesis
    proof (cases out)
      case (Inl e)
      then show ?thesis using old(2) ok same_count_sessions [OF eb(1)] by simp
    next
      case (Inr x)
      then obtain p ow og where x: "out = Inr (p, ow, og)" by (metis prod_cases3)
      have "self_finish ss sess rq False u p ow og s1 = Some (res, s')" using old(2) x by simp
      then have "online_ok ss (sy_topic s') \<and> no_session_added (sy_topic s1) (sy_topic s')"
        using finish_online [OF _ ok assms(3)] eb(2) [OF x] eb(1) by (simp add: same_count_def)
      then show ?thesis using no_session_added_trans same_count_sessions [OF eb(1)] by blast
    qed
  qed
qed

lemma subs_Get_user: "subs_Get fault tp u kd db = Inr (Some b) \<Longrightarrow> ParseUid (sub_User b) = u"
  by (auto simp: subs_Get_def SubscriptionGet_def row_subscription_def split: option.splits if_splits)

lemma load_count:
  assumes "loadSubscriber f now u s = (r, s')" "pud_deleted (pud_of (sy_topic s) u) \<longrightarrow> pud_online (pud_of (sy_topic s) u) = 0"
  shows "same_count (sy_topic s) (sy_topic s')"
proof -
  have *: "pud_online (pud_of (sy_topic s) u) = 0" if "\<not> (has_pud (sy_topic s) u \<and> \<not> pud_deleted (pud_of (sy_topic s) u))"
    using that assms(2) by (auto simp: has_pud_def pud_of_def split: option.splits)
  have cs: "same_count t (cacheSubscriber b t)" if "pud_online (pud_of t (ParseUid (sub_User b))) = 0" for b t
    using that by (auto simp: cacheSubscriber_def Let_def same_count_def)
  have ref: "same_count t (t1\<lparr>t_officialMemberRefreshed := y\<rparr>) = same_count t t1" for t t1 y
    by (simp add: same_count_def)
  show ?thesis
    using assms(1) * cs ref by (auto simp: loadSubscriber_def Let_def dest!: subs_Get_user split: if_splits sum.splits option.splits)
qed

lemma channelSubUnsub_same: "sy_topic (channelSubUnsub u b s) = sy_topic s"
  by (simp add: channelSubUnsub_def pushTopicSubUnsub_def Let_def)

lemma immediate_same:
  "sendImmediateSubNotifications u acs created newsub orig sid s = Some s' \<Longrightarrow> sy_topic s' = sy_topic s"
  unfolding sendImmediateSubNotifications_def Let_def bind_eq_Some_conv
  by (cases "t_cat (sy_topic s) = TopicCatP2P"; cases newsub;
      cases "t_isChan (sy_topic s) \<and> IsChannel orig"; cases "t_cat (sy_topic s) = TopicCatGrp"; cases "p2pOtherUser (sy_topic s) u")
    (auto simp: if_distrib [of sy_topic] channelSubUnsub_same)

definition removed_offline :: "topic \<Rightarrow> uid \<Rightarrow> bool" where
  "removed_offline t u \<longleftrightarrow>
     (isOfficialLargeGroup t \<and> pud_deleted (pud_of t u) \<longrightarrow> pud_online (pud_of t u) = 0)"

lemma accepted_online:
  assumes "accepted_reply ss sess u False newsub req m s = Some s'" "online_ok ss (sy_topic s)"
    and "u \<noteq> 0" "ordinary ss sess" "map_of (t_sessions (sy_topic s)) sess = None"
  shows "online_ok ss (sy_topic s')"
proof -
  define s2 where "s2 = (if has_joined m then attach ss sess u False newsub s else s)"
  have ok: "online_ok ss (sy_topic s2)" using attach_online [OF assms(2,4,3,5)] assms(2) by (simp add: s2_def)
  obtain s4 where s4: "sy_topic s4 = sy_topic s2" "s' = s4 \<or> (\<exists>sid ua. s' = sendSubNotifications u sid ua s4)"
  proof -
    note def = assms(1) [unfolded accepted_reply_def Let_def, folded s2_def]
    obtain tor where tor: "original (sy_topic s2) u = Some tor" using def by (cases "original (sy_topic s2) u") simp_all
    obtain r orig where def2: "(case m of None \<Rightarrow> Some (emit r s2)
        | Some a \<Rightarrow> sendImmediateSubNotifications u a (ar_created req) newsub orig (si_sid (ss sess)) (emit r s2)) \<bind>
        (\<lambda>s4. Some (if \<not> si_background (ss sess) \<and> has_joined m
          then sendSubNotifications u (si_sid (ss sess)) (si_userAgent (ss sess)) s4 else s4)) = Some s'"
      using def unfolding tor Option.bind.bind_lunit by blast
    then obtain s4 where s4: "(case m of None \<Rightarrow> Some (emit r s2)
        | Some a \<Rightarrow> sendImmediateSubNotifications u a (ar_created req) newsub orig (si_sid (ss sess)) (emit r s2)) = Some s4"
      "s' = (if \<not> si_background (ss sess) \<and> has_joined m
          then sendSubNotifications u (si_sid (ss sess)) (si_userAgent (ss sess)) s4 else s4)"
      unfolding bind_eq_Some_conv by blast
    have "sy_topic s4 = sy_topic s2" using s4(1) immediate_same by (cases m) auto
    then show thesis using that s4(2) by (cases "\<not> si_background (ss sess) \<and> has_joined m") auto
  qed
  show ?thesis using s4 ok sendSub_online by metis
qed

lemma subscription_online:
  assumes "subscriptionReply g f now ss sess u False req s = Some (err, s')" "online_ok ss (sy_topic s)"
    and "u \<noteq> 0" "ordinary ss sess" "map_of (t_sessions (sy_topic s)) sess = None" "removed_offline (sy_topic s) u"
  shows "online_ok ss (sy_topic s')"
proof -
  obtain l s0 where load: "(if isOfficialLargeGroup (sy_topic s) then loadSubscriber f now u s else (Inr True, s)) = (l, s0)"
    by fastforce
  have same: "same_count (sy_topic s) (sy_topic s0)"
    using load load_count [of f now u s l s0] assms(6) by (auto simp: removed_offline_def split: if_splits)
  have ok0: "online_ok ss (sy_topic s0)" using same same_count_online assms(2) by blast
  consider (stop) "sy_topic s' = sy_topic s0"
    | (failed) rq e where "thisUserSub g f now ss sess u False rq s0 = Some (Inl e, s')"
    | (joined) rq m s1 newsub where "thisUserSub g f now ss sess u False rq s0 = Some (Inr m, s1)"
        "accepted_reply ss sess u False newsub req m s1 = Some s'"
  proof -
    note def = assms(1) [unfolded subscriptionReply_def Let_def load prod.case]
    show thesis
    proof (cases l)
      case (Inl e)
      then have "s' = emit (Reply ErrUnknownReply) s0" using def by auto
      then show thesis using stop by simp
    next
      case (Inr b)
      note def = def [unfolded Inr sum.case]
      show thesis
      proof (cases "ar_user req \<noteq> [] \<or> ar_role req \<noteq> []")
        case True
        then have "s' = emit (Reply ErrMalformedReply) s0" using def by auto
        then show thesis using stop by simp
      next
        case False
        then show thesis using def by (auto split: sum.split_asm option.split_asm prod.split_asm intro: failed joined)
      qed
    qed
  qed
  then show ?thesis
  proof cases
    case stop
    then show ?thesis using ok0 by simp
  next
    case failed
    then show ?thesis using thisUserSub_online [OF _ ok0 assms(3)] by blast
  next
    case joined
    note tu = thisUserSub_online [OF joined(1) ok0 assms(3)]
    have "map_of (t_sessions (sy_topic s1)) sess = None"
      using tu assms(5) same by (simp add: no_session_added_def same_count_def)
    then show ?thesis using accepted_online [OF joined(2) _ assms(3,4)] tu by blast
  qed
qed

lemma register_online:
  assumes "registerSession g f now ss sess subscribed u req s = Some s'" "online_ok ss (sy_topic s)"
    and "u \<noteq> 0" "ordinary ss sess" "map_of (t_sessions (sy_topic s)) sess \<noteq> None \<longrightarrow> subscribed"
    and "removed_offline (sy_topic s) u"
  shows "online_ok ss (sy_topic s')"
proof -
  have ch: "\<not> t_isChan (sy_topic s)" using assms(2) by (simp add: online_ok_def)
  show ?thesis
  proof (cases "isInactive (sy_topic s) \<or> subscribed \<or> (\<exists>e. verifyChannelAccess (sy_topic s) (rq_Original (ar_self req)) = Inl e)")
    case True
    then have "sy_topic s' = sy_topic s" using assms(1) by (auto simp: registerSession_def Let_def split: if_splits)
    then show ?thesis using assms(2) by simp
  next
    case False
    then have acc: "verifyChannelAccess (sy_topic s) (rq_Original (ar_self req)) = Inr False"
      using ch by (auto simp: verifyChannelAccess_def split: if_splits)
    obtain err s2 where sr: "subscriptionReply g f now ss sess u False req (emit StopKillTimer s) = Some (err, s2)"
      and s': "sy_topic s' = sy_topic s2"
      using assms(1) False acc by (auto simp: registerSession_def Let_def bind_eq_Some_conv split: option.splits if_splits)
    show ?thesis using subscription_online [OF sr] assms(2-6) False s' by simp
  qed
qed

end
