(* ===== verification/OnlineSteps.thy ===== *)
theory OnlineSteps
  imports OnlineCount GroupSafety
begin

text \<open>
  Sessions come and go: the steps of ordinary sessions on a topic that is not a channel, the count of each
  user's sessions in the foreground as an invariant of them, and two ways in which the code loses the count.
\<close>

section \<open>Steps\<close>

inductive session_step :: "tglobals \<Rightarrow> sess_table \<times> tsys \<Rightarrow> sess_table \<times> tsys \<Rightarrow> bool" for g where
  Register:
    "registerSession g f now ss sess subscribed u req s = Some s' \<Longrightarrow> u \<noteq> 0 \<Longrightarrow> ordinary ss sess \<Longrightarrow>
     (map_of (t_sessions (sy_topic s)) sess \<noteq> None \<longrightarrow> subscribed) \<Longrightarrow> removed_offline (sy_topic s) u \<Longrightarrow>
     session_step g (ss, s) (ss, s')"
| Leave:
    "handleLeaveRequest f now ss sess req s = Some s' \<Longrightarrow> ordinary ss sess \<Longrightarrow> session_step g (ss, s) (ss, s')"
| Foreground:
    "si_background (ss sess) \<Longrightarrow> ordinary ss sess \<Longrightarrow>
     session_step g (ss, s) (woken sess ss, sessToForeground (woken sess ss) sess s)"
| Evict:
    "evictUser ss u unsub skip s = Some s' \<Longrightarrow> u \<noteq> 0 \<Longrightarrow> session_step g (ss, s) (ss, s')"

lemma session_step_online:
  "session_step g x y \<Longrightarrow> online_ok (fst x) (sy_topic (snd x)) \<Longrightarrow> online_ok (fst y) (sy_topic (snd y))"
proof (induction rule: session_step.induct)
  case Register
  then show ?case using register_online by auto
next
  case Leave
  then show ?case using leave_online by auto
next
  case Foreground
  then show ?case using foreground_online by auto
next
  case Evict
  then show ?case using evictUser_online(1) by auto
qed

lemma session_steps_online:
  "(session_step g)\<^sup>*\<^sup>* x y \<Longrightarrow> online_ok (fst x) (sy_topic (snd x)) \<Longrightarrow> online_ok (fst y) (sy_topic (snd y))"
  by (induction rule: rtranclp_induct) (auto dest: session_step_online)

section \<open>Example\<close>

text \<open>A member of the small group with two sessions, one of them in the background.\<close>

definition two_sessions :: sess_table where
  "two_sessions = no_sessions(0 := (no_sessions 0)\<lparr>si_sid := ''a''\<rparr>, 2 := (no_sessions 2)\<lparr>si_sid := ''b'', si_background := True\<rparr>)"

definition plain_attach :: attach_req where
  "plain_attach = \<lparr>ar_self = plain_request [], ar_created = False, ar_user = [], ar_role = []\<rparr>"

lemma keep_plan: "planExistingSelfSubscription
    \<lparr>in_category = TopicCatGrp, in_isTopicOwner = False, in_oldWant = 0x2F, in_oldGiven = 0x2F, in_requested = ModeUnset,
     in_defaultAccess = selectAccessMode LevelAuth 0 member_mode ModeCPublic, in_p2pAccess = g_typesModeCP2P small_globals\<rparr> =
   Inr \<lparr>tr_want = 0x2F, tr_given = 0x2F, tr_ownerChange = False\<rparr>"
  by code_simp

lemma joiner: "IsJoiner 0x2F" "IsPresencer 0x2F" "(0x2F :: access_mode) AND 0x2F = 0x2F"
  by code_simp+

lemma group_pud_same: "group_pud w gv\<lparr>pud_modeWant := w, pud_modeGiven := gv, pud_private := None\<rparr> = group_pud w gv"
  by (simp add: group_pud_def zero_pud_def)

lemma small_set_same: "set_pud 2 (group_pud 0x2F 0x2F) (sy_topic small_group) = sy_topic small_group"
  by (simp add: set_pud_def small_group_def small_puds_def)

lemma plain_newsub: "\<not> rq_newsub (plain_request m)" "rq_Original (plain_request m) = ''grpX''"
  "plain_request m\<lparr>rq_newsub := False\<rparr> = plain_request m"
  by (simp_all add: plain_request_def)

lemma small_subscribes:
  "thisUserSub small_globals f now two_sessions sess 2 False (plain_request []) (emit e small_group) =
     Some (Inr None, emit e small_group)"
  by (simp add: plain_newsub thisUserSub_def existing_branch_def small_users small_topic accessFor_group keep_plan self_update_def
      self_pud_def self_finish_def joiner isNullValue_def no_update_def eff_mode_def group_pud_same small_set_same
      on_topic_def Let_def)

lemma small_active: "\<not> isInactive (sy_topic small_group)" "isLoaded (sy_topic small_group)"
  "\<not> isOfficialLargeGroup (sy_topic small_group)"
  by code_simp+

lemma sendSub_sessions: "t_sessions (sy_topic (sendSubNotifications u sid ua s)) = t_sessions (sy_topic s)"
  by (simp add: sendSubNotifications_def markLoaded_def statusChangeBits_def Let_def split: topic_cat.split)

lemma two_sessions_simps: "\<not> si_background (two_sessions 0)" "ordinary two_sessions 0"
  "addSession two_sessions 0 u False (sy_topic small_group) = (sy_topic small_group)\<lparr>t_sessions :=
     [(0, \<lparr>pssd_uid = u, pssd_isChanSub = False, pssd_muids = []\<rparr>)]\<rparr>"
  by (simp_all add: two_sessions_def no_sessions_def ordinary_def is_proxy_def is_multiplex_def addSession_def
      sess_target_def small_topic)

lemma small_registers:
  "\<exists>s. registerSession small_globals f now two_sessions 0 False 2 plain_attach small_group = Some s \<and>
     map_of (t_sessions (sy_topic s)) 0 \<noteq> None"
proof -
  have ch: "\<not> IsChannel ''grpX''" by code_simp
  show ?thesis
    by (simp add: ch plain_newsub registerSession_def subscriptionReply_def accepted_reply_def has_joined_def attach_def small_active
        small_subscribes small_topic small_users verifyChannelAccess_def original_def plain_attach_def
        two_sessions_simps sendSub_sessions acs_param_def bump_online_def set_pud_def Let_def)
qed

definition plain_leave :: leave_req where
  "plain_leave = \<lparr>lv_init = False, lv_Unsub = False, lv_asUser = 0, lv_Original = []\<rparr>"

section \<open>Properties\<close>


lemma small_online: "online_ok two_sessions (sy_topic small_group)"
proof -
  have "pud_online (pud_of (sy_topic small_group) u) = 0" for u
    by (simp add: pud_of_def small_group_def small_puds_def group_pud_def zero_pud_def)
  then show ?thesis by (simp add: online_ok_def small_topic ordinary_sessions_def foreground_def)
qed


lemma active_cong: "isInactive (t\<lparr>t_sessions := x\<rparr>) = isInactive t"
  "isOfficialLargeGroup (t\<lparr>t_sessions := x\<rparr>) = isOfficialLargeGroup t"
  "isOfficialLargeGroup (bump_online u n t) = isOfficialLargeGroup t"
  by (simp_all add: isInactive_def isOfficialLargeGroup_def bump_online_def set_pud_def cong: option.case_cong)

lemma leave_left_small:
  assumes "\<not> isOfficialLargeGroup (sy_topic s)" "pssd_muids p = []"
  shows "sy_topic (leave_left ss sess now False u n p s) = sy_topic s"
  using assms
  by (simp add: leave_left_def went_offline_def evictColdSubscriber_def Let_def split: topic_cat.split option.split)

text \<open>C39. A session that ends is first taken out of the background without being counted, and then leaves: one session
  too many is subtracted.\<close>

theorem background_end_miscounts:
  assumes "handleLeaveRequest f now (woken sess ss) sess req s = Some s'" "online_ok ss (sy_topic s)"
    and "map_of (t_sessions (sy_topic s)) sess = Some p" "si_background (ss sess)" "\<not> lv_init req"
    and "\<not> isInactive (sy_topic s)" "\<not> isOfficialLargeGroup (sy_topic s)"
  shows "pud_online (pud_of (sy_topic s') (pssd_uid p)) =
    int (card (foreground (woken sess ss) (sy_topic s') (pssd_uid p))) - 1"
proof -
  let ?t = "sy_topic s" and ?W = "woken sess ss" and ?u = "pssd_uid p"
  let ?t1 = "?t\<lparr>t_sessions := AList.delete sess (t_sessions ?t)\<rparr>"
  have ord: "ordinary_sessions ?W ?t" using assms(2) by (simp add: online_ok_def ordinary_sessions_def woken_ordinary)
  then have p: "ordinary ?W sess" "\<not> pssd_isChanSub p" "pssd_muids p = []" "?u \<noteq> 0"
    using assms(3) by (auto simp: ordinary_sessions_def)
  then have px: "\<not> is_proxy ?W sess" "\<not> is_multiplex ?W sess" by (simp_all add: ordinary_def)
  have rem: "remSession ?W sess 0 ?t = (Some p, True, ?t1)"
    using remSession_ordinary [OF ord p(1), of 0] assms(3) by simp
  have "\<not> si_background (?W sess)" by (simp add: woken_def)
  then obtain n where "s' = leave_left ?W sess now False ?u n p
      (on_topic (bump_online ?u (- 1)) (emit (DelSub sess) (s\<lparr>sy_topic := ?t1\<rparr>)))"
    using assms(1,5,6) rem p px by (auto simp: handleLeaveRequest_def Let_def uid_IsZero_def ZeroUid_def)
  then have s': "sy_topic s' = bump_online ?u (- 1) ?t1"
    using leave_left_small [where p = p] p(3) assms(7) by (simp add: active_cong)
  have "foreground ?W (bump_online ?u (- 1) ?t1) ?u = foreground ss ?t ?u"
    using assms(3,4) by (auto simp: foreground_def bump_online_def delete_conv' woken_def split: option.splits if_splits)
  then show ?thesis using assms(2) by (simp add: s' online_ok_def bump_online_def)
qed

definition in_background :: tsys where
  "in_background = on_topic (\<lambda>t. t\<lparr>t_sessions := [(2, \<lparr>pssd_uid = 2, pssd_isChanSub = False, pssd_muids = []\<rparr>)]\<rparr>) small_group"

lemma in_background_online: "online_ok two_sessions (sy_topic in_background)"
proof -
  have "pud_online (pud_of (sy_topic small_group) u) = 0" for u
    by (simp add: pud_of_def small_group_def small_puds_def group_pud_def zero_pud_def)
  then show ?thesis
    by (auto simp: online_ok_def in_background_def small_topic ordinary_sessions_def foreground_def ordinary_def
        two_sessions_def no_sessions_def is_proxy_def is_multiplex_def split: if_splits)
qed

theorem background_end_miscounts_witness:
  "\<exists>s'. handleLeaveRequest (\<lambda>_. None) 9 (woken 2 two_sessions) 2 plain_leave in_background = Some s' \<and>
     pud_online (pud_of (sy_topic s') 2) = int (card (foreground (woken 2 two_sessions) (sy_topic s') 2)) - 1"
proof -
  have "handleLeaveRequest (\<lambda>_. None) 9 (woken 2 two_sessions) 2 plain_leave in_background \<noteq> None"
    by (simp add: handleLeaveRequest_def plain_leave_def in_background_def active_cong small_active remSession_def
        sess_target_def woken_def two_sessions_def no_sessions_def uid_IsZero_def ZeroUid_def is_proxy_def Let_def)
  then obtain s' where s': "handleLeaveRequest (\<lambda>_. None) 9 (woken 2 two_sessions) 2 plain_leave in_background = Some s'"
    by blast
  then show ?thesis
    using background_end_miscounts [OF s' in_background_online]
    by (simp add: in_background_def plain_leave_def active_cong small_active two_sessions_def)
qed

text \<open>The session of a channel reader that ends is detached, but its reader is neither counted down nor dropped.\<close>

theorem reader_end_keeps_count:
  assumes "handleLeaveRequest f now ss sess req s = Some s'" "\<not> lv_init req" "si_multi (ss sess) = None"
    and "map_of (t_sessions (sy_topic s)) sess = Some p" "pssd_isChanSub p" "\<not> isInactive (sy_topic s)"
  shows "map_of (t_sessions (sy_topic s')) sess = None \<and> t_perUser (sy_topic s') = t_perUser (sy_topic s)"
  using assms
  by (auto simp: handleLeaveRequest_def remSession_def sess_target_def uid_IsZero_def ZeroUid_def delete_conv' Let_def split: if_splits)

definition read_channel :: tsys where
  "read_channel = on_topic (\<lambda>t. (set_pud 5 ((group_pud 0x2F 0x2F)\<lparr>pud_isChan := True, pud_online := 1\<rparr>) t)\<lparr>t_isChan := True,
     t_sessions := [(0, \<lparr>pssd_uid = 5, pssd_isChanSub = True, pssd_muids = []\<rparr>)]\<rparr>) small_group"

theorem reader_end_keeps_count_witness:
  "\<exists>s'. handleLeaveRequest (\<lambda>_. None) 9 two_sessions 0 plain_leave read_channel = Some s' \<and>
     map_of (t_sessions (sy_topic s')) 0 = None \<and> t_perUser (sy_topic s') = t_perUser (sy_topic read_channel) \<and>
     pud_online (pud_of (sy_topic read_channel) 5) = 1"
proof -
  have on: "pud_online (pud_of (sy_topic read_channel) 5) = 1" "\<not> isInactive (sy_topic read_channel)"
    using small_active(1) by (simp_all add: read_channel_def pud_of_def set_pud_def isInactive_def update_conv')
  have "handleLeaveRequest (\<lambda>_. None) 9 two_sessions 0 plain_leave read_channel \<noteq> None"
    by (simp add: handleLeaveRequest_def plain_leave_def on, simp add: read_channel_def remSession_def
        sess_target_def two_sessions_def no_sessions_def uid_IsZero_def ZeroUid_def Let_def)
  then obtain s' where s': "handleLeaveRequest (\<lambda>_. None) 9 two_sessions 0 plain_leave read_channel = Some s'" by blast
  show ?thesis
    using reader_end_keeps_count [OF s'] s' on
    by (simp add: plain_leave_def two_sessions_def no_sessions_def read_channel_def)
qed

end
