(* ===== verification/OfficialTopics.thy ===== *)
theory OfficialTopics
  imports TopicSessions PCache
begin

text \<open>
  Publishing in official topics (\<^verbatim>\<open>internal/server/official_topics.go\<close>, \<^verbatim>\<open>business_policy.go\<close>): the
  refresh of a member's modes and of the policy, moderation of single members, the check before every
  publication, and the slow mode, which several nodes keep with the compare and swap of the persistent cache.

  The record \<open>official_env\<close> holds what the functions ask elsewhere: the clock, the policy stored with the
  topic, the faults of the store, and the JSON decoder of a stored moderation state.
\<close>

record official_env =
  oe_now :: go_time
  oe_faults :: faults
  oe_policy :: "store_error + officialTopicPolicy option"
  oe_kvfault :: "store_error option"
  oe_decode :: "string \<Rightarrow> store_error + officialModerationState"

definition officialModerationKeyPrefix :: string where
  "officialModerationKeyPrefix = ''official-topic:moderation:''"
definition officialModerationCacheTTL :: int where "officialModerationCacheTTL = 1000000000"
definition officialSlowModeKeyPrefix :: string where "officialSlowModeKeyPrefix = ''official-topic:slow-mode:''"

section \<open>Refreshing\<close>

definition refresh_policy :: "official_env \<Rightarrow> tsys \<Rightarrow> store_error option \<times> tsys" where
  "refresh_policy env s =
     (case refreshOfficialPolicy (oe_policy env) (oe_now env) (sy_topic s) of (e, t) \<Rightarrow> (e, on_topic (\<lambda>_. t) s))"

definition official_verified :: "topic \<Rightarrow> bool" where
  "official_verified t = (case t_official t of None \<Rightarrow> False | Some p \<Rightarrow> op_OfficialStatus p = ''verified'')"

definition refreshOfficialChannelMember :: "official_env \<Rightarrow> uid \<Rightarrow> tsys \<Rightarrow> store_error option \<times> tsys" where
  "refreshOfficialChannelMember env uid s =
     (if \<not> isOfficialReadOnlyChannel (sy_topic s) then (None, s)
      else
        case refresh_policy env (on_topic (\<lambda>t. t\<lparr>t_officialRefreshedAt := None\<rparr>) s) of
          (Some e, s1) \<Rightarrow> (Some e, s1)
        | (None, s1) \<Rightarrow>
            let t = sy_topic s1; f = oe_faults env in
            if \<not> official_verified t then (Some ErrPermissionDenied, s1)
            else
              case (case subs_Get (f CGet) (t_name t) uid False (sy_db s1) of
                      Inr None \<Rightarrow>
                        map_sum id (map_option (\<lambda>b. (b, True))) (subs_Get (f CGetChan) (GrpToChn (t_name t)) uid False (sy_db s1))
                    | r \<Rightarrow> map_sum id (map_option (\<lambda>b. (b, False))) r) of
                Inl e \<Rightarrow> (Some e, s1)
              | Inr None \<Rightarrow>
                  (Some ErrPermissionDenied,
                   on_topic (set_pud uid ((pud_of t uid)\<lparr>pud_modeWant := ModeNone, pud_modeGiven := ModeNone, pud_isChan := True\<rparr>)) s1)
              | Inr (Some (sub, isChannelSubscriber)) \<Rightarrow>
                  (None,
                   on_topic (set_pud uid ((pud_of t uid)\<lparr>pud_modeWant := sub_ModeWant sub, pud_modeGiven := sub_ModeGiven sub,
                     pud_isChan := isChannelSubscriber, pud_deleted := False\<rparr>)) s1))"

definition refreshed_at :: "uid \<Rightarrow> go_time \<Rightarrow> topic \<Rightarrow> topic" where
  "refreshed_at uid now t = t\<lparr>t_officialMemberRefreshed := AList.update uid now (t_officialMemberRefreshed t)\<rparr>"

definition refreshOfficialLargeMember :: "official_env \<Rightarrow> uid \<Rightarrow> tsys \<Rightarrow> store_error option \<times> tsys" where
  "refreshOfficialLargeMember env uid s =
     (let t = sy_topic s; now = oe_now env in
      if \<not> isOfficialLargeGroup t then (None, s)
      else if (case map_of (t_officialMemberRefreshed t) uid of None \<Rightarrow> False | Some seen \<Rightarrow> now - seen < officialModerationCacheTTL)
      then (None, s)
      else
        case subs_Get (oe_faults env CGet) (t_name t) uid False (sy_db s) of
          Inl e \<Rightarrow> (Some e, s)
        | Inr None \<Rightarrow>
            (Some ErrPermissionDenied,
             on_topic (refreshed_at uid now \<circ>
               (if has_pud t uid
                then set_pud uid ((pud_of t uid)\<lparr>pud_modeWant := ModeNone, pud_modeGiven := ModeNone, pud_deleted := True\<rparr>)
                else id)) s)
        | Inr (Some sub) \<Rightarrow>
            (None,
             on_topic (\<lambda>t. let t1 = cacheSubscriber sub t in
               refreshed_at uid now (set_pud uid ((pud_of t1 uid)\<lparr>pud_online := pud_online (pud_of t uid)\<rparr>) t1)) s))"

section \<open>Moderation\<close>

definition officialModerationKey :: "string \<Rightarrow> uid \<Rightarrow> string" where
  "officialModerationKey topic uid = officialModerationKeyPrefix @ topic @ '':'' @ uid_String uid"

definition cache_moderation :: "uid \<Rightarrow> officialModerationState option \<Rightarrow> go_time \<Rightarrow> topic \<Rightarrow> topic" where
  "cache_moderation uid st now t = t\<lparr>t_moderationCache := AList.update uid (st, now) (t_moderationCache t)\<rparr>"

definition read_moderation ::
  "official_env \<Rightarrow> pcache \<Rightarrow> uid \<Rightarrow> tsys \<Rightarrow> (store_error + officialModerationState option) \<times> tsys" where
  "read_moderation env kv uid s =
     (case PCacheGet (oe_kvfault env) (officialModerationKey (t_name (sy_topic s)) uid) kv of
        Inl e \<Rightarrow> if e = ErrNotFound then (Inr None, on_topic (cache_moderation uid None (oe_now env)) s) else (Inl e, s)
      | Inr raw \<Rightarrow>
          (case oe_decode env raw of
             Inl e \<Rightarrow> (Inl e, s)
           | Inr st \<Rightarrow> (Inr (Some st), on_topic (cache_moderation uid (Some st) (oe_now env)) s)))"

definition loadOfficialModeration ::
  "official_env \<Rightarrow> pcache \<Rightarrow> uid \<Rightarrow> tsys \<Rightarrow> (store_error + officialModerationState option) \<times> tsys" where
  "loadOfficialModeration env kv uid s =
     (case map_of (t_moderationCache (sy_topic s)) uid of
        Some (st, loaded) \<Rightarrow>
          if oe_now env - loaded < officialModerationCacheTTL then (Inr st, s) else read_moderation env kv uid s
      | None \<Rightarrow> read_moderation env kv uid s)"

definition moderationApplies :: "officialModerationState option \<Rightarrow> string \<Rightarrow> go_time \<Rightarrow> bool" where
  "moderationApplies state scope now =
     (case state of
        None \<Rightarrow> False
      | Some st \<Rightarrow>
          if ms_Action st \<noteq> ''mute'' \<or> now < ms_StartsAt st \<or>
             (case ms_ExpiresAt st of None \<Rightarrow> False | Some expires \<Rightarrow> \<not> expires > now)
          then False
          else ms_Scope st = ''all'' \<or> ms_Scope st = scope)"

text \<open>Storing and removing the state of a member; the encoder is an argument.\<close>

definition saveOfficialModeration ::
  "(officialModerationState \<Rightarrow> store_error + string) \<Rightarrow> store_error option \<Rightarrow> go_time \<Rightarrow> uid \<Rightarrow>
   officialModerationState \<Rightarrow> pcache \<Rightarrow> store_error option \<times> pcache" where
  "saveOfficialModeration encode f now target state kv =
     (case encode state of
        Inl e \<Rightarrow> (Some e, kv)
      | Inr raw \<Rightarrow> PCacheUpsert f now (officialModerationKey (ms_Topic state) target) raw False kv)"

definition clearOfficialModeration ::
  "store_error option \<Rightarrow> string \<Rightarrow> uid \<Rightarrow> pcache \<Rightarrow> store_error option \<times> pcache" where
  "clearOfficialModeration f topic uid kv =
     (case PCacheDelete f (officialModerationKey topic uid) kv of
        (e, kv') \<Rightarrow> (if e = Some ErrNotFound then None else e, kv'))"

definition validModerationScope :: "string \<Rightarrow> bool" where
  "validModerationScope scope = (ToLower (TrimSpace scope) \<in> {''message'', ''media'', ''call'', ''all''})"

section \<open>The check before a publication\<close>

text \<open>The MIME type that the content claims: the first one of a custom entity.\<close>

fun entity_mime :: "any list \<Rightarrow> string" where
  "entity_mime [] = []"
| "entity_mime (AMap entity # rest) =
     (if map_of entity ''tp'' \<noteq> Some (AStr ''CE'') then entity_mime rest
      else case map_of entity ''data'' of
             Some (AMap data) \<Rightarrow>
               (case map_of data ''mime'' of
                  Some (AStr mime) \<Rightarrow> if mime \<noteq> [] then ToLower (TrimSpace mime) else entity_mime rest
                | _ \<Rightarrow> entity_mime rest)
           | _ \<Rightarrow> entity_mime rest)"
| "entity_mime (_ # rest) = entity_mime rest"

definition draftyCustomMIME :: "any option \<Rightarrow> string" where
  "draftyCustomMIME content =
     (case content of
        Some (AMap document) \<Rightarrow> (case map_of document ''ent'' of Some (AList entities) \<Rightarrow> entity_mime entities | _ \<Rightarrow> [])
      | _ \<Rightarrow> [])"

text \<open>The kind of a publication, from the head, the content and the attachments.\<close>

definition head_str :: "(string \<rightharpoonup> any) \<Rightarrow> string \<Rightarrow> string" where
  "head_str head key = (case head key of Some (AStr v) \<Rightarrow> v | _ \<Rightarrow> [])"

definition headMessageKind :: string where "headMessageKind = ''x-kind''"
definition headReplyTo :: string where "headReplyTo = ''x-reply''"
definition headForwarded :: string where "headForwarded = ''x-forward''"
definition headGroupID :: string where "headGroupID = ''x-group''"
definition headEditedAt :: string where "headEditedAt = ''x-edited''"
definition headReactions :: string where "headReactions = ''x-reactions''"

text \<open>The fields of the head that only the server writes are removed from what a client sends.\<close>

definition stripServerMessageHead :: "(string \<rightharpoonup> any) \<Rightarrow> (string \<rightharpoonup> any)" where
  "stripServerMessageHead head =
     head |` (- {headMessageKind, headReplyTo, headForwarded, headGroupID, headEditedAt, headReactions})"

definition businessPolicyAction :: "(string \<rightharpoonup> any) \<Rightarrow> any option \<Rightarrow> string list \<Rightarrow> string" where
  "businessPolicyAction head content attachments =
     (if head_str head ''x-business-action'' = ''batch_greeting'' then ''batch_greeting''
      else if head ''webrtc'' \<noteq> None then ''call''
      else if head_str head ''mime'' = ''application/x-chat-payment'' then ''payment''
      else if head_str head headMessageKind = ''file'' then ''document''
      else if draftyCustomMIME content = ''application/x-chat-payment'' then ''payment''
      else if attachments \<noteq> [] then ''media''
      else ''message'')"

definition may_publish :: "perUserData \<Rightarrow> bool" where
  "may_publish p = (\<not> pud_isChan p \<and> IsJoiner (eff_mode p) \<and> IsWriter (eff_mode p))"

definition checkOfficialPublish ::
  "official_env \<Rightarrow> pcache \<Rightarrow> uid \<Rightarrow> string \<Rightarrow> tsys \<Rightarrow> store_error option \<times> tsys" where
  "checkOfficialPublish env kv uid scope s =
     (if isOfficialReadOnlyChannel (sy_topic s) then
        (case refreshOfficialChannelMember env uid s of
           (Some e, s1) \<Rightarrow> (Some e, s1)
         | (None, s1) \<Rightarrow> (if may_publish (pud_of (sy_topic s1) uid) then None else Some ErrPermissionDenied, s1))
      else if \<not> isOfficialLargeGroup (sy_topic s) then (None, s)
      else
        case refresh_policy env s of
          (Some e, s1) \<Rightarrow> (Some e, s1)
        | (None, s1) \<Rightarrow>
            if \<not> official_verified (sy_topic s1) then (Some ErrPermissionDenied, s1)
            else
              case refreshOfficialLargeMember env uid s1 of
                (Some e, s2) \<Rightarrow> (Some e, s2)
              | (None, s2) \<Rightarrow>
                  let t = sy_topic s2; p = pud_of t uid; mode = eff_mode p;
                      allMuted = (case t_official t of None \<Rightarrow> False | Some q \<Rightarrow> op_AllMuted q)
                  in if \<not> has_pud t uid \<or> \<not> may_publish p then (Some ErrPermissionDenied, s2)
                     else if allMuted \<and> \<not> IsOwner mode \<and> \<not> IsAdmin mode then (Some ErrPermissionDenied, s2)
                     else
                       case loadOfficialModeration env kv uid s2 of
                         (Inl e, s3) \<Rightarrow> (Some e, s3)
                       | (Inr state, s3) \<Rightarrow>
                           (if moderationApplies state scope (oe_now env) then Some ErrPermissionDenied else None, s3))"

section \<open>Slow mode\<close>

datatype slow_error = SlowStore store_error | SlowParse | SlowActive | SlowConflict

text \<open>Formatting and parsing a time are arguments. \<open>sl_others n\<close> is what other nodes do to the cache before
  the read (odd \<open>n\<close>) and before the write (even \<open>n\<close>) of an attempt, and \<open>sl_get\<close>, \<open>sl_put\<close> give the
  error of a statement that fails.\<close>

record slow_env =
  sl_format :: "go_time \<Rightarrow> string"
  sl_parse :: "string \<Rightarrow> go_time option"
  sl_get :: "nat \<Rightarrow> store_error option"
  sl_put :: "nat \<Rightarrow> store_error option"
  sl_others :: "nat \<Rightarrow> pcache \<Rightarrow> pcache"

fun slow_loop :: "slow_env \<Rightarrow> string \<Rightarrow> int \<Rightarrow> go_time \<Rightarrow> nat \<Rightarrow> pcache \<Rightarrow> (slow_error \<times> int) option \<times> pcache" where
  "slow_loop e key window now 0 kv = (Some (SlowConflict, 0), kv)"
| "slow_loop e key window now (Suc n) kv =
     (let kv1 = sl_others e (2 * n + 1) kv; newValue = sl_format e now in
      case PCacheGet (sl_get e n) key kv1 of
        Inl err \<Rightarrow>
          if err = ErrNotFound then
            (case PCacheUpsert (sl_put e n) now key newValue True (sl_others e (2 * n) kv1) of
               (None, kv2) \<Rightarrow> (None, kv2)
             | (Some _, kv2) \<Rightarrow> slow_loop e key window now n kv2)
          else (Some (SlowStore err, 0), kv1)
      | Inr oldValue \<Rightarrow>
          (case sl_parse e oldValue of
             None \<Rightarrow> (Some (SlowParse, 0), kv1)
           | Some last_time \<Rightarrow>
               let availableAt = last_time + window in
               if now < availableAt then (Some (SlowActive, availableAt - now), kv1)
               else
                 (case PCacheCompareAndSwap (sl_put e n) now key oldValue newValue (sl_others e (2 * n) kv1) of
                    (Inl err, kv2) \<Rightarrow> (Some (SlowStore err, 0), kv2)
                  | (Inr True, kv2) \<Rightarrow> (None, kv2)
                  | (Inr False, kv2) \<Rightarrow> slow_loop e key window now n kv2)))"

definition slowModeKey :: "string \<Rightarrow> uid \<Rightarrow> string" where
  "slowModeKey topic uid = officialSlowModeKeyPrefix @ topic @ '':'' @ uid_String uid"

definition enforceOfficialSlowMode ::
  "slow_env \<Rightarrow> topic \<Rightarrow> uid \<Rightarrow> string \<Rightarrow> go_time \<Rightarrow> pcache \<Rightarrow> (slow_error \<times> int) option \<times> pcache" where
  "enforceOfficialSlowMode e t uid scope now kv =
     (let seconds = (case t_official t of None \<Rightarrow> 0 | Some p \<Rightarrow> op_SlowModeSeconds p); mode = eff_mode (pud_of t uid) in
      if \<not> isOfficialLargeGroup t \<or> seconds \<le> 0 \<or> scope = ''call'' then (None, kv)
      else if \<not> has_pud t uid then (Some (SlowStore ErrPermissionDenied, 0), kv)
      else if IsOwner mode \<or> IsAdmin mode then (None, kv)
      else slow_loop e (slowModeKey (t_name t) uid) (seconds * 1000000000) now 8 kv)"

section \<open>Slow mode as a protocol\<close>

text \<open>What the nodes do to the value under a key: nothing, or store the time \<open>now\<close> when there is no value or one
  that is at least a window older. The list holds the times stored, in order.\<close>

inductive slow_run :: "slow_env \<Rightarrow> string \<Rightarrow> int \<Rightarrow> go_time list \<Rightarrow> pcache \<Rightarrow> pcache \<Rightarrow> bool" for e key window where
  Rest: "pc_value kv' key = pc_value kv key \<Longrightarrow> slow_run e key window [] kv kv'"
| Reserve:
    "slow_run e key window ts kv kv1 \<Longrightarrow>
     (case pc_value kv1 key of None \<Rightarrow> True
      | Some old \<Rightarrow> \<exists>last_time. sl_parse e old = Some last_time \<and> last_time + window \<le> now) \<Longrightarrow>
     pc_value kv2 key = Some (sl_format e now) \<Longrightarrow> slow_run e key window (ts @ [now]) kv kv2"

lemma slow_run_rest: "slow_run e key w ts kv kv1 \<Longrightarrow> pc_value kv2 key = pc_value kv1 key \<Longrightarrow> slow_run e key w ts kv kv2"
proof (induction rule: slow_run.induct)
  case (Rest kv' kv)
  then show ?case by (auto intro: slow_run.Rest)
next
  case (Reserve ts kv kv1 now kv2')
  show ?case by (rule slow_run.Reserve [OF Reserve.hyps(1,2)]) (use Reserve in simp)
qed

lemma slow_run_append:
  assumes "slow_run e key w us kv1 kv2" "slow_run e key w ts kv kv1"
  shows "slow_run e key w (ts @ us) kv kv2"
  using assms
proof (induction rule: slow_run.induct)
  case (Rest kv' kv1)
  then show ?case using slow_run_rest by fastforce
next
  case (Reserve us kv1 kv2 now kv3)
  then show ?case using slow_run.Reserve [of e key w "ts @ us" kv kv2 now kv3] by simp
qed

text \<open>The times are a window apart, and the value in the store is the last of them.\<close>

lemma slow_run_spaced:
  assumes "slow_run e key w ts kv kv'" "pc_value kv key = None" "w > 0" "\<And>t. sl_parse e (sl_format e t) = Some t"
  shows "sorted_wrt (\<lambda>a b. a + w \<le> b) ts \<and>
    pc_value kv' key = (if ts = [] then None else Some (sl_format e (last ts)))"
  using assms(1,2)
proof (induction rule: slow_run.induct)
  case (Rest kv' kv)
  then show ?case by simp
next
  case (Reserve ts kv kv1 now kv2)
  have IH: "sorted_wrt (\<lambda>a b. a + w \<le> b) ts" "pc_value kv1 key = (if ts = [] then None else Some (sl_format e (last ts)))"
    using Reserve.IH Reserve.prems by blast+
  have "a + w \<le> now" if "a \<in> set ts" for a
  proof -
    have ne: "ts \<noteq> []" using that by auto
    then have "last ts + w \<le> now" using Reserve.hyps(2) IH(2) assms(4) by simp
    moreover have "a = last ts \<or> a + w \<le> last ts"
      using IH(1) that ne by (cases ts rule: rev_cases) (auto simp: sorted_wrt_append)
    ultimately show ?thesis using assms(3) by auto
  qed
  then show ?case using IH(1) Reserve.hyps(3) by (simp add: sorted_wrt_append)
qed

text \<open>An attempt of this node, with the other nodes keeping to the protocol, is such a run; the time is stored in
  it if the attempt is accepted.\<close>

lemma slow_loop_run:
  assumes "\<And>n kv. \<exists>ts. slow_run e key w ts kv (sl_others e n kv)" "slow_loop e key w now k kv = (r, kv')"
  shows "\<exists>ts. slow_run e key w ts kv kv' \<and> (r = None \<longrightarrow> now \<in> set ts)"
  using assms(2)
proof (induction k arbitrary: kv)
  case 0
  then show ?case by (auto intro: slow_run.Rest exI [of _ "[]"])
next
  case (Suc n)
  let ?kv1 = "sl_others e (2 * n + 1) kv" and ?kv2 = "sl_others e (2 * n) (sl_others e (2 * n + 1) kv)"
  obtain ts1 where 1: "slow_run e key w ts1 kv ?kv1" using assms(1) by blast
  obtain ts2 where 2: "slow_run e key w ts2 ?kv1 ?kv2" using assms(1) by blast
  have 12: "slow_run e key w (ts1 @ ts2) kv ?kv2" by (rule slow_run_append [OF 2 1])
  have reserve: "\<exists>ts. slow_run e key w ts kv kv3 \<and> now \<in> set ts"
    if "pc_value kv3 key = Some (sl_format e now)" "case pc_value ?kv2 key of None \<Rightarrow> True
      | Some old \<Rightarrow> \<exists>l. sl_parse e old = Some l \<and> l + w \<le> now" for kv3
    using slow_run.Reserve [OF 12 that(2,1)] by auto
  have again: "\<exists>ts. slow_run e key w ts kv kv' \<and> (r = None \<longrightarrow> now \<in> set ts)"
    if run: "slow_run e key w ts kv kv3" and loop: "slow_loop e key w now n kv3 = (r, kv')" for kv3 ts
  proof -
    obtain us where "slow_run e key w us kv3 kv' \<and> (r = None \<longrightarrow> now \<in> set us)" using Suc.IH [OF loop] by blast
    then show ?thesis using slow_run_append [OF _ run] by fastforce
  qed
  note def = Suc.prems [unfolded slow_loop.simps Let_def]
  show ?case
  proof (cases "PCacheGet (sl_get e n) key ?kv1")
    case missing: (Inl err)
    show ?thesis
    proof (cases "err = ErrNotFound")
      case False
      then show ?thesis using def missing 1 by auto
    next
      case True
      obtain x kv3 where up: "PCacheUpsert (sl_put e n) now key (sl_format e now) True ?kv2 = (x, kv3)" by fastforce
      note val = PCacheUpsert_value [OF up]
      show ?thesis
      proof (cases x)
        case None
        then have "kv' = kv3" using def missing True up by simp
        then show ?thesis using reserve [of kv3] val None by auto
      next
        case (Some er)
        then show ?thesis using def missing True up again [of "ts1 @ ts2" kv3] 12 val by simp
      qed
    qed
  next
    case found: (Inr old)
    show ?thesis
    proof (cases "sl_parse e old")
      case None
      then show ?thesis using def found 1 by auto
    next
      case (Some l)
      note parsed = this
      show ?thesis
      proof (cases "now < l + w")
        case True
        then show ?thesis using def found parsed 1 by auto
      next
        case False
        obtain x kv3 where sw: "PCacheCompareAndSwap (sl_put e n) now key old (sl_format e now) ?kv2 = (x, kv3)" by fastforce
        note val = PCacheCompareAndSwap_value [OF sw]
        have stored: "pc_value kv3 key = Some (sl_format e now) \<and> pc_value ?kv2 key = Some old \<or> kv3 = ?kv2 \<and> x \<noteq> Inr True"
          using val by (auto split: if_splits)
        then obtain ts where ts: "slow_run e key w ts kv kv3" "x = Inr True \<longrightarrow> now \<in> set ts"
          using reserve [of kv3] parsed False 12 by fastforce
        have step: "(case x of Inl er \<Rightarrow> (Some (SlowStore er, 0), kv3) | Inr True \<Rightarrow> (None, kv3)
            | Inr False \<Rightarrow> slow_loop e key w now n kv3) = (r, kv')"
          using def unfolding found sum.case parsed option.case sw prod.case by (simp only: False if_False)
        show ?thesis
        proof (cases x)
          case (Inl er)
          then show ?thesis using step ts(1) by auto
        next
          case (Inr b)
          then show ?thesis using step ts again [OF ts(1)] by (cases b) auto
        qed
      qed
    qed
  qed
qed

end
