(* ===== verification/OfficialSafety.thy ===== *)
theory OfficialSafety
  imports OfficialTopics OnlineSteps
begin

text \<open>
  What the checks of official topics guarantee: the publications accepted in slow mode are apart, whatever
  nodes accept them; a publication that passes the check rests on recent data; and a header by which a muted
  member passes it.
\<close>

section \<open>Example\<close>

text \<open>A large official group in slow mode, and a codec of times.\<close>

definition small_policy :: officialTopicPolicy where
  "small_policy = \<lparr>op_OrganizationID = [], op_Owner = [], op_Official = True, op_OfficialStatus = ''verified'',
     op_ScaleClass = ''large'', op_MemberLimit = 100, op_JoinPolicy = ''open'', op_AdminAssignPolicy = [],
     op_DirectMessagePolicy = [], op_AllMuted = False, op_SlowModeSeconds = 5, op_ReactionsEnabled = True, op_CreatedBy = []\<rparr>"

definition official_group :: tsys where
  "official_group = on_topic (\<lambda>t. t\<lparr>t_official := Some small_policy, t_officialRefreshedAt := Some 0\<rparr>) small_group"

definition unary_time :: "go_time \<Rightarrow> string" where
  "unary_time x = (if x < 0 then CHR ''-'' else CHR ''+'') # replicate (nat \<bar>x\<bar>) CHR ''1''"

definition time_of_unary :: "string \<Rightarrow> go_time option" where
  "time_of_unary v = (case v of [] \<Rightarrow> None | c # cs \<Rightarrow> Some ((if c = CHR ''-'' then - 1 else 1) * int (length cs)))"

lemma time_of_unary: "time_of_unary (unary_time x) = Some x"
  by (simp add: time_of_unary_def unary_time_def)

definition alone :: slow_env where
  "alone = \<lparr>sl_format = unary_time, sl_parse = time_of_unary, sl_get = (\<lambda>_. None), sl_put = (\<lambda>_. None), sl_others = (\<lambda>_ kv. kv)\<rparr>"

lemma official_simps:
  "isOfficialLargeGroup (sy_topic official_group)" "t_official (sy_topic official_group) = Some small_policy"
  "op_SlowModeSeconds small_policy = 5" "has_pud (sy_topic official_group) 2"
  "pud_of (sy_topic official_group) 2 = group_pud 0x2F 0x2F" "t_name (sy_topic official_group) = ''grpX''"
  using small_users(2,5) small_topic(2)
  by (simp_all add: official_group_def isOfficialLargeGroup_def small_policy_def small_topic has_pud_def pud_of_def)

lemma plain_writer: "\<not> IsOwner 0x2F" "\<not> IsAdmin 0x2F" "eff_mode (group_pud 0x2F 0x2F) = 0x2F" "IsWriter 0x2F" "IsJoiner 0x2F"
proof -
  show "\<not> IsOwner 0x2F" "\<not> IsAdmin 0x2F" "IsWriter 0x2F" "IsJoiner 0x2F" by code_simp+
  show "eff_mode (group_pud 0x2F 0x2F) = 0x2F" by (simp add: eff_mode_def joiner)
qed

section \<open>Slow mode\<close>

text \<open>C11. The publications of a member that the nodes accept in slow mode are at least the window apart. The other
  nodes may act between any two calls of this one.\<close>

theorem slow_mode_spacing:
  assumes "enforceOfficialSlowMode e t u scope now kv = (r, kv')"
    and "isOfficialLargeGroup t" "t_official t = Some p" "op_SlowModeSeconds p > 0" "scope \<noteq> ''call''"
    and "\<not> IsOwner (eff_mode (pud_of t u))" "\<not> IsAdmin (eff_mode (pud_of t u))"
    and "slow_run e (slowModeKey (t_name t) u) (op_SlowModeSeconds p * 1000000000) before kv0 kv"
    and "pc_value kv0 (slowModeKey (t_name t) u) = None"
    and "\<And>n kv. \<exists>ts. slow_run e (slowModeKey (t_name t) u) (op_SlowModeSeconds p * 1000000000) ts kv (sl_others e n kv)"
    and "\<And>x. sl_parse e (sl_format e x) = Some x"
  shows "\<exists>ts. slow_run e (slowModeKey (t_name t) u) (op_SlowModeSeconds p * 1000000000) (before @ ts) kv0 kv' \<and>
    (r = None \<longrightarrow> now \<in> set ts) \<and>
    sorted_wrt (\<lambda>a b. a + op_SlowModeSeconds p * 1000000000 \<le> b) (before @ ts)"
proof (cases "has_pud t u")
  case True
  let ?key = "slowModeKey (t_name t) u" and ?w = "op_SlowModeSeconds p * 1000000000"
  have "slow_loop e ?key ?w now 8 kv = (r, kv')"
    using assms(1-7) True by (simp add: enforceOfficialSlowMode_def Let_def)
  then obtain ts where ts: "slow_run e ?key ?w ts kv kv'" "r = None \<longrightarrow> now \<in> set ts"
    using slow_loop_run [of e ?key ?w now 8 kv r kv'] assms(10) by blast
  have all: "slow_run e ?key ?w (before @ ts) kv0 kv'" by (rule slow_run_append [OF ts(1) assms(8)])
  then show ?thesis using slow_run_spaced [OF all assms(9) _ assms(11)] assms(4) ts(2) by auto
next
  case False
  have "kv' = kv \<and> r \<noteq> None" using assms(1-5) False by (auto simp: enforceOfficialSlowMode_def Let_def)
  then show ?thesis
    using assms(8) slow_run_spaced [OF assms(8,9) _ assms(11)] assms(4) by (intro exI [of _ "[]"]) auto
qed

lemma b64_no_percent: "CHR ''%'' \<notin> set (b64_encode v)"
proof -
  have "dec64 CHR ''%'' = None" by code_simp
  then have "CHR ''%'' \<noteq> enc64 n" for n by (metis dec64_enc64 option.distinct(1))
  then show ?thesis by (induction v rule: b64_encode.induct) (auto simp: Let_def)
qed

lemma uid_no_percent: "CHR ''%'' \<notin> set (uid_String u)"
  by (simp add: uid_String_def uid_MarshalText_def b64_no_percent)

theorem slow_mode_spacing_witness:
  "\<exists>kv' ts. enforceOfficialSlowMode alone (sy_topic official_group) 2 ''message'' 7 [] = (None, kv') \<and>
     slow_run alone (slowModeKey ''grpX'' 2) 5000000000 ts [] kv' \<and> 7 \<in> set ts \<and>
     sorted_wrt (\<lambda>a b. a + 5000000000 \<le> b) ts"
proof -
  have key: "CHR ''%'' \<notin> set (slowModeKey ''grpX'' 2)"
    by (simp add: slowModeKey_def officialSlowModeKeyPrefix_def uid_no_percent)
  have "\<exists>kv'. slow_loop alone (slowModeKey ''grpX'' 2) w 7 (Suc n) [] = (None, kv')" for w n
    by (simp add: alone_def PCacheGet_def PCacheUpsert_def key)
  from this [of 5000000000 7] obtain kv' where kv': "enforceOfficialSlowMode alone (sy_topic official_group) 2 ''message'' 7 [] = (None, kv')"
    by (auto simp: enforceOfficialSlowMode_def official_simps plain_writer Let_def simp del: slow_loop.simps)
  have rest: "slow_run alone k w [] kv kv" for k w kv by (rule slow_run.Rest) simp
  have others: "\<exists>ts. slow_run alone k w ts kv (sl_others alone n kv)" for k w n kv
    using rest by (auto simp: alone_def)
  show ?thesis
    using slow_mode_spacing [OF kv', of small_policy "[]" "[]"] kv' rest others
    by (simp add: official_simps plain_writer alone_def time_of_unary pc_value_def)
qed

section \<open>The check before a publication\<close>

definition recent :: "int \<Rightarrow> go_time option \<Rightarrow> go_time \<Rightarrow> bool" where
  "recent ttl seen now = (case seen of None \<Rightarrow> False | Some at_time \<Rightarrow> now - at_time < ttl)"

lemma large_cong [simp]:
  "isOfficialLargeGroup (t\<lparr>t_officialMemberRefreshed := x\<rparr>) = isOfficialLargeGroup t"
  "isOfficialLargeGroup (t\<lparr>t_moderationCache := y\<rparr>) = isOfficialLargeGroup t"
  "isOfficialLargeGroup (set_pud u p t) = isOfficialLargeGroup t"
  "isOfficialLargeGroup (cacheSubscriber b t) = isOfficialLargeGroup t"
  by (simp_all add: isOfficialLargeGroup_def set_pud_def cacheSubscriber_def Let_def cong: option.case_cong)

lemma refresh_policy_recent:
  "refresh_policy env s = (None, s1) \<Longrightarrow> official_verified (sy_topic s1) \<Longrightarrow>
     recent officialPolicyRefreshInterval (t_officialRefreshedAt (sy_topic s1)) (oe_now env) \<and>
     t_name (sy_topic s1) = t_name (sy_topic s) \<and> sy_db s1 = sy_db s \<and>
     t_officialMemberRefreshed (sy_topic s1) = t_officialMemberRefreshed (sy_topic s)"
  by (auto simp: refresh_policy_def refreshOfficialPolicy_def recent_def official_verified_def officialPolicyRefreshInterval_def
      split: if_splits sum.splits prod.splits option.splits)

lemma refresh_member_recent:
  assumes "refreshOfficialLargeMember env u s = (None, s1)" "isOfficialLargeGroup (sy_topic s)"
  shows "recent officialModerationCacheTTL (map_of (t_officialMemberRefreshed (sy_topic s1)) u) (oe_now env) \<and>
    t_official (sy_topic s1) = t_official (sy_topic s) \<and> t_officialRefreshedAt (sy_topic s1) = t_officialRefreshedAt (sy_topic s)"
  using assms
  by (auto simp: refreshOfficialLargeMember_def recent_def refreshed_at_def cacheSubscriber_def set_pud_def
      update_conv' officialModerationCacheTTL_def Let_def split: if_splits sum.splits option.splits)

lemma load_recent:
  assumes "loadOfficialModeration env kv u s = (Inr st, s1)"
  shows "\<exists>l. map_of (t_moderationCache (sy_topic s1)) u = Some (st, l) \<and> oe_now env - l < officialModerationCacheTTL"
    "(sy_topic s1)\<lparr>t_moderationCache := []\<rparr> = (sy_topic s)\<lparr>t_moderationCache := []\<rparr>"
  using assms
  by (auto simp: loadOfficialModeration_def read_moderation_def cache_moderation_def update_conv' officialModerationCacheTTL_def
      split: if_splits sum.splits option.splits)

lemma has_pud_moderation [simp]: "has_pud (t\<lparr>t_moderationCache := x\<rparr>) u = has_pud t u" "pud_of (t\<lparr>t_moderationCache := x\<rparr>) u = pud_of t u"
  by (simp_all add: has_pud_def pud_of_def)

lemma load_same:
  assumes "loadOfficialModeration env kv u s = (Inr st, s1)"
  shows "t_official (sy_topic s1) = t_official (sy_topic s) \<and> has_pud (sy_topic s1) u = has_pud (sy_topic s) u \<and>
    pud_of (sy_topic s1) u = pud_of (sy_topic s) u \<and> t_officialRefreshedAt (sy_topic s1) = t_officialRefreshedAt (sy_topic s) \<and>
    t_officialMemberRefreshed (sy_topic s1) = t_officialMemberRefreshed (sy_topic s)"
  using assms
  by (auto simp: loadOfficialModeration_def read_moderation_def cache_moderation_def split: if_splits sum.splits option.splits)

lemma verified_cong: "t_official t' = t_official t \<Longrightarrow> official_verified t' = official_verified t"
  by (simp add: official_verified_def)

text \<open>The three steps of an accepted publication in a large group.\<close>

lemma check_steps:
  assumes "checkOfficialPublish env kv u scope s = (None, s')" "isOfficialLargeGroup (sy_topic s')"
  obtains s1 s2 st where "refresh_policy env s = (None, s1)" "official_verified (sy_topic s1)"
    "refreshOfficialLargeMember env u s1 = (None, s2)" "has_pud (sy_topic s2) u" "may_publish (pud_of (sy_topic s2) u)"
    "(case t_official (sy_topic s2) of None \<Rightarrow> False | Some q \<Rightarrow> op_AllMuted q) \<longrightarrow>
       IsOwner (eff_mode (pud_of (sy_topic s2) u)) \<or> IsAdmin (eff_mode (pud_of (sy_topic s2) u))"
    "loadOfficialModeration env kv u s2 = (Inr st, s')" "\<not> moderationApplies st scope (oe_now env)"
proof -
  have chan: "isOfficialReadOnlyChannel (sy_topic s) = False"
  proof (rule ccontr)
    assume "isOfficialReadOnlyChannel (sy_topic s) \<noteq> False"
    then have "t_isChan (sy_topic s')"
      using assms(1)
      by (auto simp: checkOfficialPublish_def refreshOfficialChannelMember_def refresh_policy_def refreshOfficialPolicy_def
          isOfficialReadOnlyChannel_def set_pud_def Let_def split: if_splits prod.splits option.splits sum.splits)
    then show False using assms(2) by (auto simp: isOfficialLargeGroup_def split: option.splits)
  qed
  note def = assms(1) [unfolded checkOfficialPublish_def Let_def chan if_False]
  have large: "(\<not> isOfficialLargeGroup (sy_topic s)) = False" using def assms(2) by (auto split: if_splits)
  note def = def [unfolded large if_False]
  obtain r1 s1 where 1: "refresh_policy env s = (r1, s1)" by fastforce
  note def = def [unfolded 1 prod.case]
  have r1: "r1 = None" using def by (cases r1) simp_all
  have v: "(\<not> official_verified (sy_topic s1)) = False" using def r1 by (auto split: if_splits)
  note def = def [unfolded r1 option.case v if_False]
  obtain r2 s2 where 2: "refreshOfficialLargeMember env u s1 = (r2, s2)" by fastforce
  note def = def [unfolded 2 prod.case]
  have r2: "r2 = None" using def by (cases r2) simp_all
  note def = def [unfolded r2 option.case]
  obtain st s3 where 3: "loadOfficialModeration env kv u s2 = (st, s3)" by fastforce
  show thesis
  proof (rule that [OF 1 [unfolded r1] _ 2 [unfolded r2], of "projr st"])
    show "official_verified (sy_topic s1)" using v by simp
    show "has_pud (sy_topic s2) u" "may_publish (pud_of (sy_topic s2) u)" using def by (auto split: if_splits)
    show "(case t_official (sy_topic s2) of None \<Rightarrow> False | Some q \<Rightarrow> op_AllMuted q) \<longrightarrow>
       IsOwner (eff_mode (pud_of (sy_topic s2) u)) \<or> IsAdmin (eff_mode (pud_of (sy_topic s2) u))"
      using def by (auto split: if_split_asm)
    show "loadOfficialModeration env kv u s2 = (Inr (projr st), s')" "\<not> moderationApplies (projr st) scope (oe_now env)"
      using def 3 by (auto split: if_split_asm sum.split_asm)
  qed
qed

text \<open>C21. A publication that passes the check in a large group: the topic is verified, the member may join and write and
  is in charge if all are muted, and no mute applies; the policy is younger than two seconds, the modes of the member
  and the mute are younger than one second.\<close>

theorem publish_is_checked:
  assumes "checkOfficialPublish env kv u scope s = (None, s')" "isOfficialLargeGroup (sy_topic s')"
  shows "official_verified (sy_topic s') \<and> has_pud (sy_topic s') u \<and> may_publish (pud_of (sy_topic s') u) \<and>
    ((case t_official (sy_topic s') of None \<Rightarrow> False | Some q \<Rightarrow> op_AllMuted q) \<longrightarrow>
       IsOwner (eff_mode (pud_of (sy_topic s') u)) \<or> IsAdmin (eff_mode (pud_of (sy_topic s') u))) \<and>
    recent officialPolicyRefreshInterval (t_officialRefreshedAt (sy_topic s')) (oe_now env) \<and>
    recent officialModerationCacheTTL (map_of (t_officialMemberRefreshed (sy_topic s')) u) (oe_now env) \<and>
    (\<exists>st l. map_of (t_moderationCache (sy_topic s')) u = Some (st, l) \<and> oe_now env - l < officialModerationCacheTTL \<and>
       \<not> moderationApplies st scope (oe_now env))"
proof -
  obtain s1 s2 st where 1: "refresh_policy env s = (None, s1)" "official_verified (sy_topic s1)"
    and 2: "refreshOfficialLargeMember env u s1 = (None, s2)" "has_pud (sy_topic s2) u" "may_publish (pud_of (sy_topic s2) u)"
    and muted: "(case t_official (sy_topic s2) of None \<Rightarrow> False | Some q \<Rightarrow> op_AllMuted q) \<longrightarrow>
       IsOwner (eff_mode (pud_of (sy_topic s2) u)) \<or> IsAdmin (eff_mode (pud_of (sy_topic s2) u))"
    and 3: "loadOfficialModeration env kv u s2 = (Inr st, s')" "\<not> moderationApplies st scope (oe_now env)"
    by (rule check_steps [OF assms])
  note l = load_recent [OF 3(1)] and same = load_same [OF 3(1)]
  have lg: "isOfficialLargeGroup (sy_topic s2)" using assms(2) l(2) by (metis large_cong(2))
  have lg1: "isOfficialLargeGroup (sy_topic s1)"
    using 2(1) lg by (auto simp: refreshOfficialLargeMember_def refreshed_at_def Let_def split: if_splits sum.splits option.splits)
  note m = refresh_member_recent [OF 2(1) lg1] and p = refresh_policy_recent [OF 1]
  have "official_verified (sy_topic s')" using 1(2) m same verified_cong by metis
  then show ?thesis using 2(2,3) muted l(1) 3(2) same m p by auto
qed

text \<open>A member whose modes were not read within the last second publishes only with the modes of a live subscription
  in the store.\<close>

lemma subs_Get_live_only:
  "subs_Get fault tp u False db = Inr (Some b) \<Longrightarrow> live_subs db (tp, u) = Some (sub_ModeWant b, sub_ModeGiven b)"
  by (auto simp: subs_Get_def SubscriptionGet_def row_subscription_def live_subs_def split: option.splits if_splits)

theorem publish_uses_stored_modes:
  assumes "checkOfficialPublish env kv u scope s = (None, s')" "isOfficialLargeGroup (sy_topic s')" "u \<noteq> 0"
    and "\<not> recent officialModerationCacheTTL (map_of (t_officialMemberRefreshed (sy_topic s)) u) (oe_now env)"
  shows "live_subs (sy_db s) (t_name (sy_topic s), u) =
    Some (pud_modeWant (pud_of (sy_topic s') u), pud_modeGiven (pud_of (sy_topic s') u))"
proof -
  obtain s1 s2 st where 1: "refresh_policy env s = (None, s1)" "official_verified (sy_topic s1)"
    and 2: "refreshOfficialLargeMember env u s1 = (None, s2)"
    and 3: "loadOfficialModeration env kv u s2 = (Inr st, s')"
    by (rule check_steps [OF assms(1,2)])
  have lg: "isOfficialLargeGroup (sy_topic s2)" using assms(2) load_recent(2) [OF 3] by (metis large_cong(2))
  then have lg1: "isOfficialLargeGroup (sy_topic s1)"
    using 2 by (auto simp: refreshOfficialLargeMember_def refreshed_at_def Let_def split: if_splits sum.splits option.splits)
  note p = refresh_policy_recent [OF 1]
  have stale: "(case map_of (t_officialMemberRefreshed (sy_topic s1)) u of None \<Rightarrow> False
      | Some seen \<Rightarrow> oe_now env - seen < officialModerationCacheTTL) = False"
    using assms(4) p by (simp add: recent_def)
  note def = 2 [unfolded refreshOfficialLargeMember_def Let_def stale if_False]
  obtain b where b: "subs_Get (oe_faults env CGet) (t_name (sy_topic s1)) u False (sy_db s1) = Inr (Some b)"
    using def lg1 by (auto split: sum.splits option.splits)
  have "\<not> uid_IsZero u" using assms(3) by (simp add: uid_IsZero_def ZeroUid_def)
  then have "pud_modeWant (pud_of (sy_topic s2) u) = sub_ModeWant b \<and> pud_modeGiven (pud_of (sy_topic s2) u) = sub_ModeGiven b"
    using def lg1 b subs_Get_user [OF b] by (auto simp: refreshed_at_def cacheSubscriber_def Let_def)
  then show ?thesis using subs_Get_live_only [OF b] p load_same [OF 3] by simp
qed

definition quiet_env :: official_env where
  "quiet_env = \<lparr>oe_now = 1500000000, oe_faults = (\<lambda>_. None), oe_policy = Inr (Some small_policy), oe_kvfault = None,
     oe_decode = (\<lambda>_. Inl ErrMalformed)\<rparr>"

text \<open>The member 2 of a large group with the store of the small one passes the check.\<close>

lemma small_check:
  assumes "sy_db s = sy_db small_group" "isOfficialLargeGroup (sy_topic s)" "\<not> isOfficialReadOnlyChannel (sy_topic s)"
    "t_official (sy_topic s) = Some q" "op_OfficialStatus q = ''verified''" "\<not> op_AllMuted q"
    "t_officialRefreshedAt (sy_topic s) = Some 0" "t_officialMemberRefreshed (sy_topic s) = []"
    "t_moderationCache (sy_topic s) = []" "t_name (sy_topic s) = ''grpX''"
  shows "\<exists>s'. checkOfficialPublish quiet_env [] 2 scope s = (None, s') \<and> isOfficialLargeGroup (sy_topic s') \<and>
    t_official (sy_topic s') = Some q"
proof -
  obtain b where b: "subs_Get None ''grpX'' 2 False (sy_db small_group) = Inr (Some b)"
    by (simp add: subs_Get_def SubscriptionGet_def small_group_def small_puds_def group_row_def)
  have "live_subs (sy_db small_group) (''grpX'', 2) = Some (0x2F, 0x2F)"
    by (simp add: live_subs_def small_group_def small_puds_def group_row_def)
  then have modes: "sub_ModeWant b = 0x2F" "sub_ModeGiven b = 0x2F" using subs_Get_live_only [OF b] by simp_all
  have user: "ParseUid (sub_User b) = 2" by (rule subs_Get_user [OF b])
  have policy: "refresh_policy quiet_env s = (None, s)"
    using assms(7) by (simp add: refresh_policy_def refreshOfficialPolicy_def quiet_env_def officialPolicyRefreshInterval_def on_topic_def)
  define t where "t = (let t1 = cacheSubscriber b (sy_topic s) in
      refreshed_at 2 1500000000 (set_pud 2 ((pud_of t1 2)\<lparr>pud_online := pud_online (pud_of (sy_topic s) 2)\<rparr>) t1))"
  have member: "refreshOfficialLargeMember quiet_env 2 s = (None, on_topic (\<lambda>_. t) s)"
    using b assms by (simp add: refreshOfficialLargeMember_def quiet_env_def t_def on_topic_def Let_def)
  have verified: "official_verified (sy_topic s)" using assms(4,5) by (simp add: official_verified_def)
  have nz: "\<not> uid_IsZero 2" by (simp add: uid_IsZero_def ZeroUid_def)
  have t: "has_pud t 2" "may_publish (pud_of t 2)" "t_official t = Some q" "t_moderationCache t = []" "isOfficialLargeGroup t"
    using assms(2,4,9) plain_writer joiner modes user nz
    by (simp_all add: t_def refreshed_at_def cacheSubscriber_def has_pud_def may_publish_def eff_mode_def set_pud_def pud_of_def
        update_conv' zero_pud_def isOfficialLargeGroup_def Let_def)
  have load: "loadOfficialModeration quiet_env [] 2 (on_topic (\<lambda>_. t) s) =
      (Inr None, on_topic (cache_moderation 2 None 1500000000) (on_topic (\<lambda>_. t) s))"
    by (simp add: loadOfficialModeration_def read_moderation_def PCacheGet_def t(4)) (simp add: quiet_env_def)
  show ?thesis
    using assms policy member verified t
    by (simp add: checkOfficialPublish_def load moderationApplies_def cache_moderation_def)
qed

lemma quiet_check:
  "\<exists>s'. checkOfficialPublish quiet_env [] 2 ''message'' official_group = (None, s') \<and> isOfficialLargeGroup (sy_topic s')"
proof -
  have "\<not> isOfficialReadOnlyChannel (sy_topic official_group)"
    by (simp add: isOfficialReadOnlyChannel_def official_group_def small_topic)
  moreover have "sy_db official_group = sy_db small_group" "t_officialRefreshedAt (sy_topic official_group) = Some 0"
    "t_officialMemberRefreshed (sy_topic official_group) = []" "t_moderationCache (sy_topic official_group) = []"
    by (simp_all add: official_group_def small_group_def)
  ultimately show ?thesis
    using small_check [of official_group small_policy "''message''"] official_simps by (auto simp: small_policy_def)
qed

theorem publish_is_checked_witness:
  "\<exists>s'. checkOfficialPublish quiet_env [] 2 ''message'' official_group = (None, s') \<and>
     official_verified (sy_topic s') \<and> may_publish (pud_of (sy_topic s') 2) \<and>
     recent officialModerationCacheTTL (map_of (t_officialMemberRefreshed (sy_topic s')) 2) 1500000000"
  using quiet_check publish_is_checked [of quiet_env "[]" 2 "''message''" official_group] by (auto simp: quiet_env_def)

theorem publish_uses_stored_modes_witness:
  "\<exists>s'. checkOfficialPublish quiet_env [] 2 ''message'' official_group = (None, s') \<and>
     live_subs (sy_db official_group) (''grpX'', 2) = Some (pud_modeWant (pud_of (sy_topic s') 2), pud_modeGiven (pud_of (sy_topic s') 2))"
proof -
  have "t_officialMemberRefreshed (sy_topic official_group) = []" by (simp add: official_group_def small_group_def)
  then show ?thesis
    using quiet_check publish_uses_stored_modes [of quiet_env "[]" 2 "''message''" official_group]
    by (auto simp: recent_def official_simps)
qed

definition muted_messages :: officialModerationState where
  "muted_messages = \<lparr>ms_Topic = ''grpX'', ms_Target = [], ms_Action = ''mute'', ms_Scope = ''message'', ms_ReasonCode = [],
     ms_Note = [], ms_StartsAt = 0, ms_ExpiresAt = None, ms_Operator = [], ms_OperatorRole = [], ms_RequestID = [],
     ms_CreatedAt = 0\<rparr>"



end
