(* ===== verification/TopicPublish.thy ===== *)
theory TopicPublish
  imports OfficialTopics
begin

text \<open>
  Publishing in a topic (\<^verbatim>\<open>internal/server/topic_msg.go\<close>, \<^verbatim>\<open>push.go\<close>,
  \<^verbatim>\<open>server/store/store_messages.go\<close>): the checks before a message, its idempotency key, the fenced and
  atomic write with the next sequence number, the marks of the sender, and the broadcast to the attached
  sessions and devices; then the notes that move a user's marks.

  The record \<open>pub_env\<close> holds what the functions ask elsewhere. Translation is off and no call is in
  progress.
\<close>

section \<open>What publishing asks elsewhere\<close>

datatype biz_answer = BizAllowed | BizDenied | BizUnavailable

record pub_env =
  pv_now :: go_time
  pv_official :: official_env
  pv_slow :: slow_env
  pv_policyOn :: bool
  pv_authorize :: "uid \<Rightarrow> uid \<Rightarrow> string \<Rightarrow> string \<Rightarrow> biz_answer"
  pv_archive :: "any message \<Rightarrow> uid \<Rightarrow> store_error option"
  pv_clustered :: bool
  pv_node :: "member_node option"
  pv_sha :: "string \<Rightarrow> string"
  pv_find :: "store_error option"
  pv_findAgain :: "store_error option"
  pv_searchText :: "any option \<Rightarrow> store_error + string"
  pv_save :: db_faults
  pv_mark :: "store_error option"
  pv_leave :: faults
  pv_accepts :: "sref \<Rightarrow> bool"
  pv_sidSession :: "string \<Rightarrow> sref option"

record psys =
  ps_sys :: tsys
  ps_msgs :: "any msg_db"
  ps_kv :: pcache

text \<open>The fields of the request: the session that sends it, if it is not a scheduled message, its id, the name and
  user it uses, its time, and its idempotency key.\<close>

record pub_req =
  pm_sess :: "sref option"
  pm_Id :: string
  pm_Original :: string
  pm_AsUser :: string
  pm_Timestamp :: go_time
  pm_ClientId :: string

datatype pub_error =
    PubStore store_error | PubPolicy | PubPolicyDown | PubSlow slow_error

definition on_sys :: "(tsys \<Rightarrow> tsys) \<Rightarrow> psys \<Rightarrow> psys" where
  "on_sys f st = st\<lparr>ps_sys := f (ps_sys st)\<rparr>"

definition pub_topic :: "psys \<Rightarrow> topic" where
  "pub_topic st = sy_topic (ps_sys st)"

text \<open>A reply names the topic as the user sees it, which panics for a stranger of a P2P topic.\<close>

definition tell :: "sref option \<Rightarrow> uid \<Rightarrow> reply \<Rightarrow> psys \<Rightarrow> psys option" where
  "tell sess u r st =
     (case sess of
        None \<Rightarrow> Some st
      | Some _ \<Rightarrow> map_option (\<lambda>_. on_sys (emit (Reply r)) st) (original (pub_topic st) u))"

section \<open>Storing a message\<close>

definition MessageGetByClientId ::
  "(string \<Rightarrow> string) \<Rightarrow> store_error option \<Rightarrow> string \<Rightarrow> uid \<Rightarrow> string \<Rightarrow> 'c msg_db \<Rightarrow> store_error + 'c message option" where
  "MessageGetByClientId sha f topic from clientID db =
     (if clientID = [] then Inr None
      else case f of
             Some e \<Rightarrow> Inl e
           | None \<Rightarrow>
               Inr (find (\<lambda>m. m_Topic m = topic \<and> m_ClientKey m \<noteq> [] \<and> m_ClientKey m = MessageClientKey sha from clientID)
                     (db_messages db)))"

text \<open>The message and the sender's marks are two statements; the second may fail alone. Linking the attachments
  changes neither and is not part of the model.\<close>

definition messages_Save ::
  "pub_env \<Rightarrow> any message \<Rightarrow> bool \<Rightarrow> any msg_db \<Rightarrow> subs_db \<Rightarrow> store_error option \<times> bool \<times> any message \<times> any msg_db \<times> subs_db" where
  "messages_Save env msg readBySender db subs =
     (let msg0 = msg\<lparr>m_UpdatedAt := m_CreatedAt msg\<rparr> in
      case pv_searchText env (m_Content msg0) of
        Inl e \<Rightarrow> (Some e, False, msg0, db, subs)
      | Inr text \<Rightarrow>
          (case MessageSaveAtomic (pv_sha env) (pv_save env) (msg0\<lparr>m_SearchText := text\<rparr>) db of
             (Some e, msg1, db1) \<Rightarrow> (Some e, False, msg1, db1, subs)
           | (None, msg1, db1) \<Rightarrow>
               let from = ParseUid (m_From msg1) in
               if readBySender \<and> \<not> uid_IsZero from then
                 (case SubsUpdate (pv_mark env) (pv_now env) (m_Topic msg1) from
                     (no_update\<lparr>su_RecvSeqId := Some (m_SeqId msg1), su_ReadSeqId := Some (m_SeqId msg1)\<rparr>) subs of
                    (e, subs1) \<Rightarrow> (None, e = None, msg1, db1, subs1))
               else (None, False, msg1, db1, subs)))"

section \<open>Broadcasting\<close>

text \<open>The name of the topic and of the sender as a session sees them.\<close>

definition broadcast_name :: "topic \<Rightarrow> string \<Rightarrow> uid \<Rightarrow> bool \<Rightarrow> string option" where
  "broadcast_name t orig u isChanSub =
     (if t_cat t = TopicCatP2P \<and> \<not> uid_IsZero u \<or> t_cat t = TopicCatGrp \<and> t_isChan t
      then (if isChanSub then Some (GrpToChn (t_xoriginal t)) else original t u)
      else Some orig)"

fun prepareBroadcastableMessage :: "topic \<Rightarrow> out_msg \<Rightarrow> uid \<Rightarrow> bool \<Rightarrow> out_msg option" where
  "prepareBroadcastableMessage t (OutData orig from m) u isChanSub =
     map_option (\<lambda>name. OutData name (if isChanSub then [] else from) m) (broadcast_name t orig u isChanSub)"
| "prepareBroadcastableMessage t (OutInfo orig from what seq) u isChanSub =
     map_option (\<lambda>name. OutInfo name from what seq) (broadcast_name t orig u isChanSub)"

text \<open>Whether an attached session is passed over. The notes published here come from the topic itself, and no
  session is excused from them by a subscription to another topic.\<close>

definition broadcast_skips :: "pub_env \<Rightarrow> sess_table \<Rightarrow> topic \<Rightarrow> string \<Rightarrow> out_msg \<Rightarrow> sref \<Rightarrow> perSessionData \<Rightarrow> bool" where
  "broadcast_skips env ss t skipSid msg s pssd =
     (if \<not> is_multiplex ss s then
        si_sid (ss s) = skipSid \<or>
        (case msg of
           OutData _ _ _ \<Rightarrow> \<not> userIsReader t (pssd_uid pssd) \<and> \<not> pssd_isChanSub pssd
         | OutInfo _ from what _ \<Rightarrow>
             pssd_isChanSub pssd \<or> \<not> userIsReader t (pssd_uid pssd) \<or> what = ''kp'' \<and> from = UserId (pssd_uid pssd))
      else
        pssd_isChanSub pssd \<and> IsChannel (si_sid (ss s)) \<and>
        (case pv_sidSession env (ChnToGrp (si_sid (ss s))) of
           None \<Rightarrow> False
         | Some g \<Rightarrow> is_multiplex ss g \<and> map_of (t_sessions t) g \<noteq> None))"

text \<open>Local sessions of a group share one prepared message for readers of the channel and one for members. The
  result lists the sessions whose queue is full.\<close>

fun broadcast_loop ::
  "pub_env \<Rightarrow> sess_table \<Rightarrow> string \<Rightarrow> out_msg \<Rightarrow> (sref \<times> perSessionData) list \<Rightarrow> out_msg option \<times> out_msg option \<Rightarrow>
   tsys \<Rightarrow> (sref list \<times> tsys) option" where
  "broadcast_loop env ss skipSid msg [] variants s = Some ([], s)"
| "broadcast_loop env ss skipSid msg ((sess, pssd) # rest) variants s =
     (let t = sy_topic s; chan = pssd_isChanSub pssd in
      if broadcast_skips env ss t skipSid msg sess pssd then broadcast_loop env ss skipSid msg rest variants s
      else do {
        let shared = (t_cat t = TopicCatGrp \<and> si_multi (ss sess) = None \<and> \<not> is_multiplex ss sess);
        let found = (if shared then (if chan then snd variants else fst variants) else None);
        copy \<leftarrow> (case found of Some m \<Rightarrow> Some m | None \<Rightarrow> prepareBroadcastableMessage t msg (pssd_uid pssd) chan);
        let variants' = (if \<not> shared then variants
          else if chan then (fst variants, Some copy) else (Some copy, snd variants));
        if pv_accepts env sess
        then broadcast_loop env ss skipSid msg rest variants' (emit (Queue sess copy) s)
        else map_option (\<lambda>(drops, s'). (sess # drops, s')) (broadcast_loop env ss skipSid msg rest variants' s)
      })"

text \<open>Detaching a session when no call is in progress.\<close>

definition unregisterSession :: "faults \<Rightarrow> go_time \<Rightarrow> sess_table \<Rightarrow> sref \<Rightarrow> leave_req \<Rightarrow> tsys \<Rightarrow> tsys option" where
  "unregisterSession f now ss sess req s =
     map_option (\<lambda>s1. if t_sessions (sy_topic s1) = [] \<and> t_cat (sy_topic s1) \<noteq> TopicCatSys then emit ResetKillTimer s1 else s1)
       (handleLeaveRequest f now ss sess req s)"

definition dropped :: leave_req where
  "dropped = \<lparr>lv_init = False, lv_Unsub = False, lv_asUser = 0, lv_Original = []\<rparr>"

fun drop_sessions :: "pub_env \<Rightarrow> sess_table \<Rightarrow> sref list \<Rightarrow> tsys \<Rightarrow> tsys option" where
  "drop_sessions env ss [] s = Some s"
| "drop_sessions env ss (x # xs) s =
     (case unregisterSession (pv_leave env) (pv_now env) ss x dropped s of
        None \<Rightarrow> None
      | Some s1 \<Rightarrow> drop_sessions env ss xs s1)"

definition broadcastToSessions :: "pub_env \<Rightarrow> sess_table \<Rightarrow> string \<Rightarrow> out_msg \<Rightarrow> tsys \<Rightarrow> tsys option" where
  "broadcastToSessions env ss skipSid msg s =
     (case broadcast_loop env ss skipSid msg (t_sessions (sy_topic s)) (None, None) s of
        None \<Rightarrow> None
      | Some (drops, s1) \<Rightarrow> drop_sessions env ss drops s1)"

section \<open>Notifying devices\<close>

definition push_wanted :: "perUserData \<Rightarrow> bool" where
  "push_wanted p = (IsPresencer (eff_mode p) \<and> IsReader (eff_mode p) \<and> \<not> pud_deleted p \<and> \<not> pud_isChan p)"

definition pushForData :: "topic \<Rightarrow> uid \<Rightarrow> any message \<Rightarrow> bool \<Rightarrow> push_receipt option" where
  "pushForData t fromUid data msgMarkedAsReadBySender =
     (if isOfficialLargeGroup t then Some \<lparr>pr_To = [], pr_Channel = t_name t, pr_data = data\<rparr>
      else
        let channel = (if t_isChan t then GrpToChn (t_name t) else []);
            to = map (\<lambda>(u, p).
                (u, if u = fromUid \<and> pud_online p = 0 then 1 else pud_online p, u \<noteq> fromUid \<or> \<not> msgMarkedAsReadBySender))
              (filter (\<lambda>(u, p). push_wanted p) (t_perUser t))
        in if to \<noteq> [] \<or> channel \<noteq> [] then Some \<lparr>pr_To = to, pr_Channel = channel, pr_data = data\<rparr> else None)"

definition sendPushForData :: "uid \<Rightarrow> any message \<Rightarrow> bool \<Rightarrow> tsys \<Rightarrow> tsys" where
  "sendPushForData fromUid data marked s =
     (case pushForData (sy_topic s) fromUid data marked of
        None \<Rightarrow> s
      | Some r \<Rightarrow> emit (SendPush (PushData r)) s)"

section \<open>Publishing\<close>

definition authorizeBusinessAction :: "pub_env \<Rightarrow> topic \<Rightarrow> uid \<Rightarrow> string \<Rightarrow> biz_answer option" where
  "authorizeBusinessAction env t actor action =
     (if \<not> pv_policyOn env then Some BizAllowed
      else case t_cat t of
             TopicCatP2P \<Rightarrow> map_option (\<lambda>u. pv_authorize env actor u action (t_name t)) (p2pOtherUser t actor)
           | TopicCatGrp \<Rightarrow>
               Some (if action = ''document'' \<or> action = ''call'' then pv_authorize env actor actor action (t_name t) else BizAllowed)
           | _ \<Rightarrow> Some BizAllowed)"

text \<open>The checks, in their order, before anything is stored.\<close>

definition publish_checks ::
  "pub_env \<Rightarrow> pub_req \<Rightarrow> uid \<Rightarrow> string \<Rightarrow> psys \<Rightarrow> (pub_error option \<times> psys) option" where
  "publish_checks env req asUid scope st =
     (let t = pub_topic st; pud = pud_of t asUid;
          refuse = (\<lambda>e r st. map_option (\<lambda>st'. (Some e, st')) (tell (pm_sess req) asUid r st)) in
      if t_cat t \<noteq> TopicCatSys \<and> (pud_isChan pud \<or> \<not> IsWriter (eff_mode pud))
      then refuse (PubStore ErrPermissionDenied) ErrPermissionDeniedReply st
      else
        case authorizeBusinessAction env t asUid scope of
          None \<Rightarrow> None
        | Some BizDenied \<Rightarrow> refuse PubPolicy ErrPermissionDeniedReply st
        | Some BizUnavailable \<Rightarrow> refuse PubPolicyDown ErrServiceUnavailableReply st
        | Some BizAllowed \<Rightarrow>
            (case checkOfficialPublish (pv_official env) (ps_kv st) asUid scope (ps_sys st) of
               (Some e, s1) \<Rightarrow> refuse (PubStore e) ErrPermissionDeniedReply (st\<lparr>ps_sys := s1\<rparr>)
             | (None, s1) \<Rightarrow>
                 (case enforceOfficialSlowMode (pv_slow env) (sy_topic s1) asUid scope (pv_now env) (ps_kv st) of
                    (None, kv1) \<Rightarrow> Some (None, st\<lparr>ps_sys := s1, ps_kv := kv1\<rparr>)
                  | (Some (e, after), kv1) \<Rightarrow>
                      refuse (PubSlow e)
                        (if e = SlowActive then ErrTooManyRequestsReply after else ErrServiceUnavailableReply)
                        (st\<lparr>ps_sys := s1, ps_kv := kv1\<rparr>))))"

definition publish_head :: "sess_table \<Rightarrow> pub_req \<Rightarrow> uid \<Rightarrow> (string \<rightharpoonup> any) \<Rightarrow> (string \<rightharpoonup> any)" where
  "publish_head ss req asUid head =
     (case pm_sess req of
        Some x \<Rightarrow> if si_uid (ss x) \<noteq> asUid then head(''sender'' \<mapsto> AStr (UserId (si_uid (ss x)))) else head(''sender'' := None)
      | None \<Rightarrow> head(''sender'' := None))"

text \<open>The compliance archive keeps the messages of P2P topics.\<close>

definition archiveForCompliance :: "pub_env \<Rightarrow> pub_req \<Rightarrow> uid \<Rightarrow> any message \<Rightarrow> psys \<Rightarrow> (pub_error option \<times> psys) option" where
  "archiveForCompliance env req asUid stored st =
     (if t_cat (pub_topic st) \<noteq> TopicCatP2P \<or> \<not> pv_policyOn env then Some (None, st)
      else
        case p2pOtherUser (pub_topic st) asUid of
          None \<Rightarrow> None
        | Some other \<Rightarrow>
            (case pv_archive env stored other of
               None \<Rightarrow> Some (None, st)
             | Some e \<Rightarrow>
                 map_option (\<lambda>st'. (Some (PubStore e), st')) (tell (pm_sess req) asUid ErrServiceUnavailableReply st)))"

definition skip_sid :: "sess_table \<Rightarrow> pub_req \<Rightarrow> bool \<Rightarrow> string" where
  "skip_sid ss req noEcho = (case pm_sess req of Some x \<Rightarrow> if noEcho then si_sid (ss x) else [] | None \<Rightarrow> [])"

text \<open>A message that was stored before: archived again, acknowledged, and sent again to the sessions of a P2P topic
  that is archived.\<close>

definition publish_duplicate ::
  "pub_env \<Rightarrow> sess_table \<Rightarrow> pub_req \<Rightarrow> uid \<Rightarrow> bool \<Rightarrow> any message \<Rightarrow> psys \<Rightarrow> (pub_error option \<times> psys) option" where
  "publish_duplicate env ss req asUid noEcho existing st =
     do {
       (err, st1) \<leftarrow> archiveForCompliance env req asUid existing st;
       case err of
         Some e \<Rightarrow> Some (Some e, st1)
       | None \<Rightarrow> do {
           st2 \<leftarrow> (if pm_Id req \<noteq> []
                  then tell (pm_sess req) asUid (NoErrDeliveredReply
                    [(''seq'', AInt (m_SeqId existing)), (''cid'', AStr (m_ClientId existing)), (''duplicate'', ABool True)]) st1
                  else Some st1);
           if t_cat (pub_topic st2) \<noteq> TopicCatP2P \<or> \<not> pv_policyOn env then Some (None, st2)
           else map_option (\<lambda>s'. (None, st2\<lparr>ps_sys := s'\<rparr>))
             (broadcastToSessions env ss (skip_sid ss req noEcho) (OutData (pm_Original req) (pm_AsUser req) existing) (ps_sys st2))
         }
     }"

text \<open>The message to store, and what becomes of a stored one: the cursor moves, the sender's marks are moved in
  what the topic keeps of the sender as it was read at the beginning, the client is answered, and the message goes
  out.\<close>

definition new_message ::
  "pub_req \<Rightarrow> topic \<Rightarrow> uid \<Rightarrow> (string \<times> int \<times> string) \<Rightarrow> (string \<Rightarrow> string) \<Rightarrow> (string \<rightharpoonup> any) \<Rightarrow> any option \<Rightarrow> any message" where
  "new_message req t asUid fence sha head content =
     \<lparr>m_Id = 0, m_CreatedAt = pm_Timestamp req, m_UpdatedAt = 0, m_DelId = 0, m_DeletedFor = [], m_SeqId = t_lastID t + 1,
      m_Topic = t_name t, m_From = uid_String asUid, m_ClientId = pm_ClientId req,
      m_ClientKey = MessageClientKey sha asUid (pm_ClientId req), m_ClusterId = fst fence, m_ClusterEpoch = fst (snd fence),
      m_ClusterOwner = snd (snd fence), m_Head = head, m_Content = content, m_SearchText = []\<rparr>"

definition publish_stored ::
  "pub_env \<Rightarrow> sess_table \<Rightarrow> pub_req \<Rightarrow> uid \<Rightarrow> bool \<Rightarrow> perUserData \<Rightarrow> bool \<Rightarrow> bool \<Rightarrow> any message \<Rightarrow> psys \<Rightarrow>
   (pub_error option \<times> psys) option" where
  "publish_stored env ss req asUid noEcho pud userFound marked stored st =
     do {
       let st1 = on_sys (on_topic (\<lambda>t. t\<lparr>t_lastID := t_lastID t + 1, t_touched := pm_Timestamp req\<rparr>)) st;
       (err, st2) \<leftarrow> archiveForCompliance env req asUid stored st1;
       case err of
         Some e \<Rightarrow> Some (Some e, st2)
       | None \<Rightarrow> do {
           let seq = t_lastID (pub_topic st2);
           let st3 = (if userFound then on_sys (on_topic (set_pud asUid (pud\<lparr>pud_readID := seq, pud_recvID := seq\<rparr>))) st2 else st2);
           st4 \<leftarrow> (if pm_Id req \<noteq> []
                  then tell (pm_sess req) asUid (NoErrAcceptedReply ((''seq'', AInt seq) #
                    (if pm_ClientId req \<noteq> [] then [(''cid'', AStr (pm_ClientId req))] else []))) st3
                  else Some st3);
           let s5 = emit (PluginMessage stored PlgActCreate)
             (emit (Notice (PresSubsOffline ''msg'' (nilPresParams\<lparr>pp_seqID := seq, pp_actor := pm_AsUser req\<rparr>) readFilter
               nilPresFilters [] True)) (ps_sys st4));
           s6 \<leftarrow> broadcastToSessions env ss (skip_sid ss req noEcho) (OutData (pm_Original req) (pm_AsUser req) stored) s5;
           Some (None, st4\<lparr>ps_sys := sendPushForData asUid stored marked s6\<rparr>)
         }
     }"

definition publish_save ::
  "pub_env \<Rightarrow> sess_table \<Rightarrow> pub_req \<Rightarrow> uid \<Rightarrow> bool \<Rightarrow> perUserData \<Rightarrow> bool \<Rightarrow> any message \<Rightarrow> psys \<Rightarrow>
   (pub_error option \<times> psys) option" where
  "publish_save env ss req asUid noEcho pud userFound msg st =
     (case messages_Save env msg (IsReader (eff_mode pud)) (ps_msgs st) (sy_db (ps_sys st)) of
        (None, marked, stored, msgs1, subs1) \<Rightarrow>
          publish_stored env ss req asUid noEcho pud userFound marked stored (on_sys (set_db subs1) (st\<lparr>ps_msgs := msgs1\<rparr>))
      | (Some e, _, _, msgs1, subs1) \<Rightarrow>
          let st1 = on_sys (set_db subs1) (st\<lparr>ps_msgs := msgs1\<rparr>);
              st2 = (if e = ErrClusterFenced then on_sys (emit (StatsInc ''ClusterFencingRejected'')) st1 else st1)
          in case MessageGetByClientId (pv_sha env) (pv_findAgain env) (t_name (pub_topic st2)) asUid (pm_ClientId req) (ps_msgs st2) of
               Inr (Some existing) \<Rightarrow> publish_duplicate env ss req asUid noEcho existing st2
             | _ \<Rightarrow>
                 map_option (\<lambda>st'. (Some (PubStore e), st'))
                   (tell (pm_sess req) asUid (if e = ErrClusterFenced then ErrServiceUnavailableReply else ErrUnknownReply) st2))"

definition saveAndBroadcastMessage ::
  "pub_env \<Rightarrow> sess_table \<Rightarrow> pub_req \<Rightarrow> uid \<Rightarrow> bool \<Rightarrow> string list \<Rightarrow> (string \<rightharpoonup> any) \<Rightarrow> any option \<Rightarrow> psys \<Rightarrow>
   (pub_error option \<times> psys) option" where
  "saveAndBroadcastMessage env ss req asUid noEcho attachments head content st =
     do {
       let pud = pud_of (pub_topic st) asUid;
       let userFound = has_pud (pub_topic st) asUid;
       let clientID = pm_ClientId req;
       let no = (\<lambda>e r st. map_option (\<lambda>st'. (Some e, st')) (tell (pm_sess req) asUid r st));
       (err, st1) \<leftarrow> publish_checks env req asUid (businessPolicyAction head content attachments) st;
       case err of
         Some e \<Rightarrow> Some (Some e, st1)
       | None \<Rightarrow>
           let t = pub_topic st1 in
           if t_cat t = TopicCatP2P \<and> pv_policyOn env \<and> clientID = [] then no (PubStore ErrMalformed) ErrMalformedReply st1
           else
             case MessageGetByClientId (pv_sha env) (pv_find env) (t_name t) asUid clientID (ps_msgs st1) of
               Inl e \<Rightarrow> no (PubStore e) ErrUnknownReply st1
             | Inr (Some existing) \<Rightarrow> publish_duplicate env ss req asUid noEcho existing st1
             | Inr None \<Rightarrow>
                 (case (if pv_clustered env then writeFenceToken (pv_node env) (t_name t) else (([], 0, []), None)) of
                    (_, Some e) \<Rightarrow> no (PubStore e) ErrServiceUnavailableReply st1
                  | (fence, None) \<Rightarrow>
                      publish_save env ss req asUid noEcho pud userFound
                        (new_message req t asUid fence (pv_sha env) (publish_head ss req asUid head) content) st1)
     }"

section \<open>Notes\<close>

text \<open>A note of a session: its id, the name it uses and the one it gives, its kind and sequence number. Reactions,
  pins and call events are handled elsewhere, by the argument \<open>interact\<close>.\<close>

record note_req =
  nt_sess :: sref
  nt_Id :: string
  nt_Original :: string
  nt_Topic :: string
  nt_asUid :: uid
  nt_AsUser :: string
  nt_What :: string
  nt_SeqId :: int

definition messageReadersRetention :: int where "messageReadersRetention = 7 * 24 * 3600 * 1000000000"

definition note_reply :: "note_req \<Rightarrow> reply \<Rightarrow> psys \<Rightarrow> psys" where
  "note_reply n r st = (if nt_Id n \<noteq> [] then on_sys (emit (Reply r)) st else st)"

text \<open>The user's marks after a note that is not stale.\<close>

definition read_mark :: "topic \<Rightarrow> bool \<Rightarrow> go_time \<Rightarrow> int \<Rightarrow> perUserData \<Rightarrow> perUserData" where
  "read_mark t asChan now seq pud =
     (let p = pud\<lparr>pud_readID := seq\<rparr>;
          p1 = (if t_cat t = TopicCatGrp \<and> \<not> t_isChan t \<and> \<not> asChan
                then p\<lparr>pud_readHistory := rh_Append (pud_readHistory pud) (pud_readID pud + 1) seq now (now - messageReadersRetention)\<rparr>
                else p)
      in if pud_readID p1 > pud_recvID p1 then p1\<lparr>pud_recvID := pud_readID p1\<rparr> else p1)"

definition recv_mark :: "int \<Rightarrow> perUserData \<Rightarrow> perUserData" where
  "recv_mark seq pud =
     (let p = pud\<lparr>pud_recvID := seq\<rparr> in if pud_readID p > pud_recvID p then p\<lparr>pud_recvID := pud_readID p\<rparr> else p)"

definition note_duplicate :: "string \<Rightarrow> int \<Rightarrow> reply" where
  "note_duplicate what seq =
     NoErrDeliveredReply [(''what'', AStr what), (''seq'', AInt seq), (''duplicate'', ABool True)]"

text \<open>Storing the marks and telling the user's other sessions and devices; the result tells whether to go on.\<close>

definition store_marks ::
  "pub_env \<Rightarrow> sess_table \<Rightarrow> note_req \<Rightarrow> bool \<Rightarrow> access_mode \<Rightarrow> perUserData \<Rightarrow> int \<Rightarrow> int \<Rightarrow> int \<Rightarrow> psys \<Rightarrow> bool \<times> psys" where
  "store_marks env ss n asChan mode pud read recv unread st =
     (let t = pub_topic st; u = nt_asUid n; seq = (if read > 0 then read else recv);
          topicName = (if asChan then nt_Topic n else t_name t);
          upd = no_update\<lparr>su_RecvSeqId := (if recv > 0 then Some recv else None),
            su_ReadSeqId := (if read > 0 then Some read else None),
            su_ReadHistory := (if read > 0 \<and> t_cat t = TopicCatGrp \<and> \<not> t_isChan t \<and> \<not> asChan
              then Some (pud_readHistory pud) else None)\<rparr>
      in case subs_Update (pv_mark env) (pv_now env) topicName u upd (sy_db (ps_sys st)) of
           (Some e, db) \<Rightarrow> (False, note_reply n ErrUnknownReply (on_sys (set_db db) st))
         | (None, db) \<Rightarrow>
             let s1 = emit (Notice (PresPubMessageCount u mode read recv (si_sid (ss (nt_sess n))))) (set_db db (ps_sys st));
                 s2 = (if read > 0 then emit (SendPush (PushReadRcpt u read)) s1 else s1);
                 s3 = (if \<not> asChan then emit (UsersUpdateUnread u unread True) s2 else s2)
             in (True, note_reply n (NoErrParamsReply [(''what'', AStr (nt_What n)), (''seq'', AInt seq)]) (st\<lparr>ps_sys := s3\<rparr>)))"

text \<open>What a note that was accepted does to the others in the topic.\<close>

definition forward_note ::
  "pub_env \<Rightarrow> sess_table \<Rightarrow> note_req \<Rightarrow> int \<Rightarrow> psys \<Rightarrow> psys option" where
  "forward_note env ss n seq st =
     (let sid = si_sid (ss (nt_sess n));
          s1 = emit (Notice (InfoSubsOffline (nt_asUid n) (nt_What n) seq sid)) (ps_sys st)
      in map_option (\<lambda>s2. st\<lparr>ps_sys := s2\<rparr>)
           (broadcastToSessions env ss sid (OutInfo (nt_Original n) (nt_AsUser n) (nt_What n) (nt_SeqId n)) s1))"

definition marks_note ::
  "pub_env \<Rightarrow> sess_table \<Rightarrow> note_req \<Rightarrow> bool \<Rightarrow> access_mode \<Rightarrow> perUserData \<Rightarrow> psys \<Rightarrow> psys option" where
  "marks_note env ss n asChan mode pud st =
     (let what = nt_What n; seq = nt_SeqId n; t = pub_topic st;
          finish = (\<lambda>pud' read recv unread.
            case store_marks env ss n asChan mode pud' read recv unread st of
              (False, st1) \<Rightarrow> Some st1
            | (True, st1) \<Rightarrow>
                if asChan then Some st1
                else forward_note env ss n (if read > 0 then read else recv) (on_sys (on_topic (set_pud (nt_asUid n) pud')) st1))
      in if what = ''read'' then
           (if seq \<le> pud_readID pud then Some (note_reply n (note_duplicate what (pud_readID pud)) st)
            else
              let p = read_mark t asChan (pv_now env) seq pud in
              if pud_readID p > 0 then finish p (pud_readID p) 0 (pud_readID pud - seq)
              else if asChan then Some st else forward_note env ss n (pud_readID p) st)
         else if what = ''recv'' then
           (if seq \<le> pud_recvID pud then Some (note_reply n (note_duplicate what (pud_recvID pud)) st)
            else
              let p = recv_mark seq pud in
              if pud_recvID p > 0 then finish p 0 (pud_recvID p) 0
              else if asChan then Some st else forward_note env ss n (pud_recvID p) st)
         else if asChan then Some st else forward_note env ss n 0 st)"

definition handleNoteBroadcast ::
  "pub_env \<Rightarrow> sess_table \<Rightarrow> (note_req \<Rightarrow> psys \<Rightarrow> psys option) \<Rightarrow> note_req \<Rightarrow> psys \<Rightarrow> psys option" where
  "handleNoteBroadcast env ss interact n st =
     (let t = pub_topic st; u = nt_asUid n; what = nt_What n in
      if isInactive t then Some (note_reply n ErrLockedReply st)
      else if nt_SeqId n > t_lastID t then Some (note_reply n ErrMalformedReply st)
      else
        case verifyChannelAccess t (nt_Original n) of
          Inl _ \<Rightarrow> Some (note_reply n ErrNotFoundReply st)
        | Inr asChan \<Rightarrow>
            let pud = pud_of t u; mode = (if pud_deleted pud then ModeInvalid else eff_mode pud) in
            if what \<in> {''react'', ''pin'', ''call''} then interact n st
            else if what \<in> {''kp'', ''kpa'', ''kpv''} then
              (case checkOfficialPublish (pv_official env) (ps_kv st) u ''message'' (ps_sys st) of
                 (Some _, s1) \<Rightarrow> Some (st\<lparr>ps_sys := s1\<rparr>)
               | (None, s1) \<Rightarrow>
                   let st1 = st\<lparr>ps_sys := s1\<rparr>; p = pud_of (sy_topic s1) u in
                   if asChan \<or> pud_isChan p \<or> \<not> IsWriter (eff_mode p) \<or> isReadOnly (sy_topic s1) then Some st1
                   else marks_note env ss n asChan (eff_mode p) p st1)
            else if what \<in> {''read'', ''recv''} \<and> \<not> IsReader mode then Some (note_reply n ErrPermissionDeniedReply st)
            else marks_note env ss n asChan mode pud st)"

end
