(* ===== verification/PublishSafety.thy ===== *)
theory PublishSafety
  imports TopicPublish OfficialSafety
begin

text \<open>
  What publishing guarantees: the sequence of a topic has no gaps and no duplicates and agrees with the store; a
  message that is sent again is stored once; the marks of every user stay within the sequence; and who is
  told of a message. And a refreshed member who gets back the modes from before.
\<close>

section \<open>What the topic keeps\<close>

definition marks :: "topic \<Rightarrow> uid \<Rightarrow> int \<times> int" where
  "marks t v = (pud_readID (pud_of t v), pud_recvID (pud_of t v))"

definition keeps :: "topic \<Rightarrow> topic \<Rightarrow> bool" where
  "keeps t t' \<longleftrightarrow> t_name t' = t_name t \<and> t_lastID t' = t_lastID t \<and> t_cat t' = t_cat t \<and>
     set (t_sessions t') \<subseteq> set (t_sessions t) \<and>
     (\<forall>v. marks t' v = marks t v \<or> marks t' v = (0, 0))"

lemma keeps_refl [simp]: "keeps t t"
  by (simp add: keeps_def)

lemma keeps_trans [trans]: "keeps t t' \<Longrightarrow> keeps t' t'' \<Longrightarrow> keeps t t''"
  unfolding keeps_def by (metis subset_trans)

lemma marks_simps [simp]:
  "marks (set_pud u p t) v = (if v = u then (pud_readID p, pud_recvID p) else marks t v)"
  "marks (del_pud u t) v = (if v = u then (0, 0) else marks t v)"
  "marks (t\<lparr>t_sessions := x\<rparr>) v = marks t v" "marks (computePerUserAcsUnion t) v = marks t v"
  "marks (bump_online u n t) v = marks t v" "marks (t\<lparr>t_officialMemberRefreshed := y\<rparr>) v = marks t v"
  "marks (t\<lparr>t_moderationCache := z\<rparr>) v = marks t v"
  "marks (t\<lparr>t_official := o1, t_officialRefreshedAt := o2\<rparr>) v = marks t v"
  "marks (t\<lparr>t_officialRefreshedAt := o2\<rparr>) v = marks t v" "marks (t\<lparr>t_official := o1\<rparr>) v = marks t v"
  "marks (t\<lparr>t_lastID := i, t_touched := j\<rparr>) v = marks t v"
  by (simp_all add: marks_def bump_online_def zero_pud_def) (simp_all add: pud_of_def)

lemma topic_simps [simp]:
  "t_name (set_pud u p t) = t_name t" "t_lastID (set_pud u p t) = t_lastID t" "t_cat (set_pud u p t) = t_cat t"
  "t_name (del_pud u t) = t_name t" "t_lastID (del_pud u t) = t_lastID t" "t_cat (del_pud u t) = t_cat t"
  "t_sessions (set_pud u p t) = t_sessions t" "t_sessions (del_pud u t) = t_sessions t" "t_sessions (bump_online u n t) = t_sessions t"
  "t_sessions (computePerUserAcsUnion t) = t_sessions t"
  "t_name (bump_online u n t) = t_name t" "t_lastID (bump_online u n t) = t_lastID t" "t_cat (bump_online u n t) = t_cat t"
  "t_name (computePerUserAcsUnion t) = t_name t" "t_lastID (computePerUserAcsUnion t) = t_lastID t"
  "t_cat (computePerUserAcsUnion t) = t_cat t"
  by (simp_all add: set_pud_def del_pud_def bump_online_def computePerUserAcsUnion_def Let_def split: prod.split)

section \<open>A session that is dropped\<close>

lemma evictCold_keeps: "keeps (sy_topic s) (sy_topic (evictColdSubscriber u s))" "sy_db (evictColdSubscriber u s) = sy_db s"
  by (auto simp: evictColdSubscriber_def keeps_def Let_def)

lemma offline_keeps: "keeps (sy_topic s) (sy_topic (went_offline c u s))" "sy_db (went_offline c u s) = sy_db s"
  using evictCold_keeps [where u = u and s = "emit (Notice (PresSubsOnline ''off'' (UserId u) nilPresParams readFilter [])) s"]
  by (auto simp: went_offline_def keeps_def)

lemma muids_keeps: "keeps (sy_topic s) (sy_topic (muids_offline c us s)) \<and> sy_db (muids_offline c us s) = sy_db s"
proof (induction us arbitrary: s)
  case (Cons u us)
  have "keeps (sy_topic s) (sy_topic (if b then went_offline c u s else s)) \<and>
      sy_db (if b then went_offline c u s else s) = sy_db s" for b
    using offline_keeps by simp
  then show ?case using Cons.IH keeps_trans by (metis muids_offline.simps(2))
qed simp

lemma left_keeps:
  "keeps (sy_topic s) (sy_topic (leave_left ss sess now c u n p s)) \<and> sy_db (leave_left ss sess now c u n p s) = sy_db s"
  using offline_keeps muids_keeps by (auto simp: leave_left_def Let_def split: topic_cat.split option.split)

lemma fold_bump_keeps: "keeps t (fold (\<lambda>u. bump_online u n) us t)"
proof (induction us arbitrary: t)
  case (Cons u us)
  have "keeps t (bump_online u n t)" by (simp add: keeps_def)
  then show ?case using Cons.IH keeps_trans by simp
qed simp

lemma rem_keeps: "remSession ss sess 0 t = (r, b, t') \<Longrightarrow> keeps t t'"
  by (auto simp: remSession_def keeps_def Let_def uid_IsZero_def ZeroUid_def AList.delete_eq split: option.splits if_splits)

lemma leave_keeps:
  assumes "handleLeaveRequest f now ss sess dropped s = Some s'"
  shows "keeps (sy_topic s) (sy_topic s') \<and> sy_db s' = sy_db s"
proof (cases "isInactive (sy_topic s)")
  case True
  then show ?thesis using assms by (simp add: handleLeaveRequest_def dropped_def)
next
  case False
  obtain r b t1 where rem: "remSession ss sess 0 (sy_topic s) = (r, b, t1)" by (metis prod_cases3)
  note def = assms [unfolded handleLeaveRequest_def Let_def, simplified dropped_def leave_req.simps if_False sum.case
      simp_thms False rem prod.case]
  show ?thesis
  proof (cases r)
    case None
    then show ?thesis using def by simp
  next
    case (Some p)
    have 1: "keeps (sy_topic s) t1" by (rule rem_keeps [OF rem])
    define s2 where "s2 = (if \<not> is_proxy ss sess then emit (DelSub sess) (s\<lparr>sy_topic := t1\<rparr>) else s\<lparr>sy_topic := t1\<rparr>)"
    have s2: "sy_topic s2 = t1" "sy_db s2 = sy_db s" by (simp_all add: s2_def)
    note def = def [unfolded Some option.case prod.case, folded s2_def]
    consider s2 where "sy_topic s2 = t1" "sy_db s2 = sy_db s" "s' = s2"
      | s3 u n where "keeps t1 (sy_topic s3)" "sy_db s3 = sy_db s" "s' = leave_left ss sess now False u n p s3"
    proof -
      define u where "u = (if is_proxy ss sess then 0 else pssd_uid p)"
      define s3 where "s3 = (if \<not> uid_IsZero u then (if si_background (ss sess) then s2 else on_topic (bump_online u (- 1)) s2)
          else on_topic (fold (\<lambda>u. bump_online u (- 1)) (pssd_muids p)) s2)"
      have "keeps t1 (sy_topic s3)" "sy_db s3 = sy_db s"
        using s2 fold_bump_keeps by (simp_all add: s3_def keeps_def)
      moreover have "s' = s2 \<or> (\<exists>n. s' = leave_left ss sess now False u n p s3)"
        using def unfolding u_def [symmetric] s3_def [symmetric] by (auto split: if_splits)
      ultimately show thesis using that s2 by blast
    qed
    then show ?thesis using 1 left_keeps keeps_trans by cases metis+
  qed
qed

lemma drop_keeps:
  "drop_sessions env ss xs s = Some s' \<Longrightarrow> keeps (sy_topic s) (sy_topic s') \<and> sy_db s' = sy_db s"
proof (induction xs arbitrary: s)
  case (Cons x xs)
  obtain s1 where s1: "unregisterSession (pv_leave env) (pv_now env) ss x dropped s = Some s1" "drop_sessions env ss xs s1 = Some s'"
    using Cons.prems by (auto split: option.splits)
  have "keeps (sy_topic s) (sy_topic s1) \<and> sy_db s1 = sy_db s"
    using s1(1) leave_keeps by (auto simp: unregisterSession_def)
  then show ?case using Cons.IH [OF s1(2)] keeps_trans by metis
qed simp

section \<open>The broadcast\<close>

lemma broadcast_loop_same:
  "broadcast_loop env ss skip msg xs vs s = Some (ds, s') \<Longrightarrow> sy_topic s' = sy_topic s \<and> sy_db s' = sy_db s"
proof (induction xs arbitrary: vs s ds)
  case (Cons x xs)
  obtain sess pssd where x: "x = (sess, pssd)" by fastforce
  show ?case
  proof (cases "broadcast_skips env ss (sy_topic s) skip msg sess pssd")
    case True
    then show ?thesis using Cons by (simp add: x Let_def)
  next
    case False
    obtain copy vs' where step: "(if pv_accepts env sess then broadcast_loop env ss skip msg xs vs' (emit (Queue sess copy) s)
        else map_option (\<lambda>(drops, s'). (sess # drops, s')) (broadcast_loop env ss skip msg xs vs' s)) = Some (ds, s')"
      using Cons.prems False unfolding x broadcast_loop.simps Let_def if_not_P [OF False] bind_eq_Some_conv by blast
    show ?thesis
    proof (cases "pv_accepts env sess")
      case True
      then show ?thesis using step Cons.IH [of vs' "emit (Queue sess copy) s" ds] by simp
    next
      case False
      then obtain ds' where "broadcast_loop env ss skip msg xs vs' s = Some (ds', s')" using step by auto
      then show ?thesis by (rule Cons.IH)
    qed
  qed
qed simp

lemma broadcast_keeps:
  "broadcastToSessions env ss skip msg s = Some s' \<Longrightarrow> keeps (sy_topic s) (sy_topic s') \<and> sy_db s' = sy_db s"
  using drop_keeps broadcast_loop_same by (fastforce simp: broadcastToSessions_def split: option.splits)

section \<open>The checks\<close>

text \<open>A refresh may load the marks stored for the member.\<close>

definition row_marks :: "subs_db \<Rightarrow> string \<times> uid \<Rightarrow> (int \<times> int) option" where
  "row_marks db k = map_option (\<lambda>r. (sr_readseqid r, sr_recvseqid r)) (sd_subs db k)"

definition loads :: "subs_db \<Rightarrow> topic \<Rightarrow> topic \<Rightarrow> bool" where
  "loads db t t' \<longleftrightarrow> t_name t' = t_name t \<and> t_lastID t' = t_lastID t \<and> t_cat t' = t_cat t \<and>
     set (t_sessions t') \<subseteq> set (t_sessions t) \<and>
     (\<forall>v. marks t' v = marks t v \<or> marks t' v = (0, 0) \<or> row_marks db (t_name t, v) = Some (marks t' v))"

lemma loads_refl [simp]: "loads db t t"
  by (simp add: loads_def)

lemma keeps_loads: "keeps t t' \<Longrightarrow> loads db t t'"
  by (auto simp: keeps_def loads_def)

lemma loads_trans: "loads db t t' \<Longrightarrow> loads db t' t'' \<Longrightarrow> loads db t t''"
  unfolding loads_def by (metis subset_trans)

lemma policy_keeps: "refresh_policy env s = (e, s') \<Longrightarrow> keeps (sy_topic s) (sy_topic s') \<and> sy_db s' = sy_db s"
  by (auto simp: refresh_policy_def refreshOfficialPolicy_def keeps_def split: if_splits sum.splits)

lemma channel_member_keeps:
  assumes "refreshOfficialChannelMember env u s = (e, s')"
  shows "keeps (sy_topic s) (sy_topic s') \<and> sy_db s' = sy_db s"
proof (cases "isOfficialReadOnlyChannel (sy_topic s)")
  case False
  then show ?thesis using assms by (simp add: refreshOfficialChannelMember_def)
next
  case True
  obtain r s1 where r: "refresh_policy env (on_topic (\<lambda>t. t\<lparr>t_officialRefreshedAt := None\<rparr>) s) = (r, s1)" by fastforce
  have 1: "keeps (sy_topic s) (sy_topic s1) \<and> sy_db s1 = sy_db s"
    using policy_keeps [OF r] by (simp add: keeps_def)
  have "keeps t (set_pud u p t)" if "pud_readID p = pud_readID (pud_of t u)" "pud_recvID p = pud_recvID (pud_of t u)" for t p
    using that by (simp add: keeps_def marks_def)
  then have "keeps (sy_topic s1) (sy_topic s') \<and> sy_db s' = sy_db s1"
    using assms True r by (auto simp: refreshOfficialChannelMember_def Let_def split: option.splits if_splits sum.splits prod.splits)
  then show ?thesis using 1 keeps_trans by metis
qed

lemma subs_Get_marks: "subs_Get fault tp u kd db = Inr (Some b) \<Longrightarrow> row_marks db (tp, u) = Some (sub_ReadSeqId b, sub_RecvSeqId b)"
  by (auto simp: subs_Get_def SubscriptionGet_def row_subscription_def row_marks_def split: option.splits if_splits)

lemma large_member_loads:
  assumes "refreshOfficialLargeMember env u s = (e, s')"
  shows "loads (sy_db s) (sy_topic s) (sy_topic s') \<and> sy_db s' = sy_db s"
proof -
  have cached: "loads (sy_db s) t (refreshed_at u n (set_pud u ((pud_of (cacheSubscriber b t) u)\<lparr>pud_online := k\<rparr>) (cacheSubscriber b t)))"
    if "subs_Get fault (t_name t) u False (sy_db s) = Inr (Some b)" for t b k n fault
  proof -
    have "cacheSubscriber b t = t \<and> u = 0 \<or> marks (cacheSubscriber b t) u = (sub_ReadSeqId b, sub_RecvSeqId b)"
      using subs_Get_user [OF that] by (auto simp: cacheSubscriber_def Let_def uid_IsZero_def ZeroUid_def marks_def)
    moreover have "marks (cacheSubscriber b t) v = marks t v" if "v \<noteq> u" for v
      using subs_Get_user [OF \<open>subs_Get fault (t_name t) u False (sy_db s) = Inr (Some b)\<close>] that
      by (auto simp: cacheSubscriber_def Let_def marks_def)
    moreover have "t_name (cacheSubscriber b t) = t_name t" "t_lastID (cacheSubscriber b t) = t_lastID t" "t_cat (cacheSubscriber b t) = t_cat t"
      "t_sessions (cacheSubscriber b t) = t_sessions t"
      by (simp_all add: cacheSubscriber_def Let_def)
    ultimately show ?thesis using subs_Get_marks [OF that] by (auto simp: loads_def refreshed_at_def marks_def)
  qed
  show ?thesis
    using assms cached [of _ "sy_topic s"]
    by (auto simp: refreshOfficialLargeMember_def Let_def split: if_splits sum.splits option.splits)
      (auto simp: loads_def refreshed_at_def marks_def)
qed

lemma moderation_keeps:
  "loadOfficialModeration env kv u s = (e, s') \<Longrightarrow> keeps (sy_topic s) (sy_topic s') \<and> sy_db s' = sy_db s"
  by (auto simp: loadOfficialModeration_def read_moderation_def cache_moderation_def keeps_def split: if_splits sum.splits option.splits)

lemma loads_then: "loads db t t' \<and> d = db \<Longrightarrow> loads d t' t'' \<Longrightarrow> loads db t t''"
  using loads_trans by blast

lemma checks_load:
  assumes "checkOfficialPublish env kv u scope s = (e, s')"
  shows "loads (sy_db s) (sy_topic s) (sy_topic s') \<and> sy_db s' = sy_db s"
proof -
  obtain r1 s1 where 1: "refresh_policy env s = (r1, s1)" by fastforce
  obtain r2 s2 where 2: "refreshOfficialLargeMember env u s1 = (r2, s2)" by fastforce
  obtain r3 s3 where 3: "loadOfficialModeration env kv u s2 = (r3, s3)" by fastforce
  obtain r0 s0 where 0: "refreshOfficialChannelMember env u s = (r0, s0)" by fastforce
  have l0: "loads (sy_db s) (sy_topic s) (sy_topic s0) \<and> sy_db s0 = sy_db s"
    using channel_member_keeps [OF 0] keeps_loads by blast
  have l1: "loads (sy_db s) (sy_topic s) (sy_topic s1) \<and> sy_db s1 = sy_db s"
    using policy_keeps [OF 1] keeps_loads by blast
  have l2: "loads (sy_db s) (sy_topic s) (sy_topic s2) \<and> sy_db s2 = sy_db s"
    using large_member_loads [OF 2] l1 loads_trans by metis
  have l3: "loads (sy_db s) (sy_topic s) (sy_topic s3) \<and> sy_db s3 = sy_db s"
    using moderation_keeps [OF 3] keeps_loads l2 loads_trans by metis
  have "s' \<in> {s, s0, s1, s2, s3}"
    using assms 0 1 2 3
    by (auto simp: checkOfficialPublish_def Let_def split: if_split_asm option.split_asm sum.split_asm)
  then show ?thesis using l0 l1 l2 l3 by auto
qed

section \<open>Publishing\<close>

definition pub_db :: "psys \<Rightarrow> subs_db" where
  "pub_db st = sy_db (ps_sys st)"

text \<open>Nothing is stored.\<close>

definition unsaved :: "psys \<Rightarrow> psys \<Rightarrow> bool" where
  "unsaved st st' \<longleftrightarrow> ps_msgs st' = ps_msgs st \<and> pub_db st' = pub_db st \<and> loads (pub_db st) (pub_topic st) (pub_topic st')"

lemma unsaved_refl [simp]: "unsaved st st"
  by (simp add: unsaved_def)

lemma unsaved_trans [trans]: "unsaved st st' \<Longrightarrow> unsaved st' st'' \<Longrightarrow> unsaved st st''"
  unfolding unsaved_def using loads_trans by metis

lemma pub_simps [simp]:
  "pub_topic (st\<lparr>ps_kv := kv\<rparr>) = pub_topic st" "pub_db (st\<lparr>ps_kv := kv\<rparr>) = pub_db st"
  "pub_topic (st\<lparr>ps_msgs := m\<rparr>) = pub_topic st" "pub_db (st\<lparr>ps_msgs := m\<rparr>) = pub_db st"
  "pub_topic (st\<lparr>ps_sys := s\<rparr>) = sy_topic s" "pub_db (st\<lparr>ps_sys := s\<rparr>) = sy_db s"
  "pub_topic (on_sys (emit e) st) = pub_topic st" "pub_db (on_sys (emit e) st) = pub_db st"
  "pub_topic (on_sys (set_db d) st) = pub_topic st" "pub_db (on_sys (set_db d) st) = d"
  "pub_topic (on_sys (on_topic h) st) = h (pub_topic st)" "pub_db (on_sys (on_topic h) st) = pub_db st"
  "ps_msgs (on_sys k st) = ps_msgs st" "ps_kv (on_sys k st) = ps_kv st"
  by (simp_all add: pub_topic_def pub_db_def on_sys_def)

lemma tell_same:
  "tell sess u r st = Some st' \<Longrightarrow> pub_topic st' = pub_topic st \<and> pub_db st' = pub_db st \<and> ps_msgs st' = ps_msgs st \<and> ps_kv st' = ps_kv st"
  by (auto simp: tell_def split: option.splits)

lemma tell_unsaved: "tell sess u r st = Some st' \<Longrightarrow> unsaved st st'"
  using tell_same by (fastforce simp: unsaved_def)

lemma archive_unsaved:
  "archiveForCompliance env req u m st = Some (e, st') \<Longrightarrow>
     pub_topic st' = pub_topic st \<and> pub_db st' = pub_db st \<and> ps_msgs st' = ps_msgs st"
  by (auto simp: archiveForCompliance_def dest!: tell_same split: if_splits option.splits)

lemma duplicate_unsaved:
  assumes "publish_duplicate env ss req u noEcho m st = Some (e, st')"
  shows "unsaved st st'"
proof -
  obtain err st1 where 1: "archiveForCompliance env req u m st = Some (err, st1)"
    using assms by (auto simp: publish_duplicate_def bind_eq_Some_conv)
  have u1: "unsaved st st1" using archive_unsaved [OF 1] by (simp add: unsaved_def)
  show ?thesis
  proof (cases err)
    case (Some e)
    then show ?thesis using assms 1 u1 by (simp add: publish_duplicate_def)
  next
    case None
    obtain st2 where 2: "(if pm_Id req \<noteq> [] then tell (pm_sess req) u (NoErrDeliveredReply
          [(''seq'', AInt (m_SeqId m)), (''cid'', AStr (m_ClientId m)), (''duplicate'', ABool True)]) st1 else Some st1) = Some st2"
      and 3: "st' = st2 \<or> (\<exists>s'. broadcastToSessions env ss (skip_sid ss req noEcho) (OutData (pm_Original req) (pm_AsUser req) m)
          (ps_sys st2) = Some s' \<and> st' = st2\<lparr>ps_sys := s'\<rparr>)"
      using assms 1 None by (auto simp: publish_duplicate_def bind_eq_Some_conv split: if_split_asm)
    have "unsaved st1 st2" using 2 tell_unsaved by (auto split: if_split_asm)
    moreover have "unsaved st2 st'"
      using 3 broadcast_keeps keeps_loads by (fastforce simp: unsaved_def pub_topic_def pub_db_def)
    ultimately show ?thesis using u1 unsaved_trans by blast
  qed
qed

lemma publish_checks_unsaved:
  assumes "publish_checks env req u scope st = Some (e, st')"
  shows "unsaved st st'"
proof -
  let ?r = "\<lambda>e r st. map_option (\<lambda>st'. (Some e, st')) (tell (pm_sess req) u r st)"
  obtain r s1 where c: "checkOfficialPublish (pv_official env) (ps_kv st) u scope (ps_sys st) = (r, s1)" by fastforce
  obtain r2 kv1 where sl: "enforceOfficialSlowMode (pv_slow env) (sy_topic s1) u scope (pv_now env) (ps_kv st) = (r2, kv1)"
    by fastforce
  have u1: "unsaved st (st\<lparr>ps_sys := s1\<rparr>)"
    using checks_load [OF c] by (simp add: unsaved_def) (simp add: pub_topic_def pub_db_def)
  have u2: "unsaved st (st\<lparr>ps_sys := s1, ps_kv := kv1\<rparr>)"
    using u1 by (simp add: unsaved_def pub_topic_def pub_db_def)
  have told: "unsaved st st'" if "unsaved st x" "?r err rep x = Some (e, st')" for x err rep
    using that tell_unsaved unsaved_trans by blast
  note def = assms [unfolded publish_checks_def Let_def c sl prod.case]
  show ?thesis
  proof (cases "t_cat (pub_topic st) \<noteq> TopicCatSys \<and> (pud_isChan (pud_of (pub_topic st) u) \<or> \<not> IsWriter (eff_mode (pud_of (pub_topic st) u)))")
    case True
    then show ?thesis using def told [OF unsaved_refl] by (metis (no_types, lifting))
  next
    case False
    note def = def [unfolded if_not_P [OF False]]
    consider a where "authorizeBusinessAction env (pub_topic st) u scope = Some a" "a \<noteq> BizAllowed"
      | "authorizeBusinessAction env (pub_topic st) u scope = Some BizAllowed"
      using def by (cases "authorizeBusinessAction env (pub_topic st) u scope") auto
    then show ?thesis
    proof cases
      case 1
      then show ?thesis using def told [OF unsaved_refl] by (cases a) auto
    next
      case 2
      note def = def [unfolded 2 option.case biz_answer.case]
      show ?thesis
      proof (cases r)
        case (Some x)
        then show ?thesis using def told [OF u1] by auto
      next
        case None
        then show ?thesis using def told [OF u2] u2 by (cases r2) auto
      qed
    qed
  qed
qed

end
