(* ===== verification/PublishSteps.thy ===== *)
theory PublishSteps
  imports PublishSafety
begin

text \<open>
  Sequences of publishing and notes: what a publish stores, and what every step keeps.
\<close>

section \<open>What a publish stores\<close>

definition marked_as :: "int \<Rightarrow> string \<Rightarrow> uid \<Rightarrow> subs_db \<Rightarrow> subs_db \<Rightarrow> bool" where
  "marked_as seq name u db db' \<longleftrightarrow>
     (\<forall>k. row_marks db' k = row_marks db k \<or> k = (name, u) \<and> row_marks db' k = Some (seq, seq))"

lemma marked_refl [simp]: "marked_as seq name u db db"
  by (simp add: marked_as_def)

lemma SubsUpdate_marks:
  assumes "SubsUpdate fault now topic u upd db = (e, db')" "u \<noteq> 0"
  shows "row_marks db' k =
    (if k = (topic, u) \<and> e = None
     then map_option (\<lambda>(rd, rv). (opt_or (su_ReadSeqId upd) rd, opt_or (su_RecvSeqId upd) rv)) (row_marks db k)
     else row_marks db k)"
  using assms
  by (cases k) (auto simp: SubsUpdate_def row_marks_def uid_IsZero_def ZeroUid_def update_row_def option.map_comp o_def
      split: option.splits if_splits)

text \<open>The message that a successful save adds.\<close>

definition stored_as :: "(string \<Rightarrow> string) \<Rightarrow> any message \<Rightarrow> any message \<Rightarrow> bool" where
  "stored_as sha msg m \<longleftrightarrow> m_Topic m = m_Topic msg \<and> m_SeqId m = m_SeqId msg \<and> m_From m = m_From msg \<and>
     m_ClientId m = m_ClientId msg \<and> m_Head m = m_Head msg \<and> m_Content m = m_Content msg \<and>
     m_ClientKey m = m_ClientKey (InitClientKey sha msg)"

definition adds :: "any message \<Rightarrow> any msg_db \<Rightarrow> any msg_db \<Rightarrow> bool" where
  "adds m db db' \<longleftrightarrow> db_messages db' = db_messages db @ [m] \<and> insert_allowed db m \<and>
     (\<forall>tp. map_option tr_seqid (db_topics db' tp) = (if tp = m_Topic m then Some (m_SeqId m) else map_option tr_seqid (db_topics db tp)))"

lemma save_adds:
  assumes "MessageSaveAtomic sha fail msg db = (None, m1, db')"
  shows "adds (InitClientKey sha msg) db db' \<and> m_SeqId m1 = m_SeqId msg \<and> m_Topic m1 = m_Topic msg \<and> m_From m1 = m_From msg"
proof -
  have "m1 = (InitClientKey sha msg)\<lparr>m_Id := of_nat (db_nextid db)\<rparr>"
    using assms by (auto simp: MessageSaveAtomic_def Let_def split: option.splits sum.splits if_splits)
  moreover have "adds (InitClientKey sha msg) db db'"
    using assms by (cases rule: MessageSaveAtomic_cases) (auto simp: adds_def)
  ultimately show ?thesis by (simp add: InitClientKey_def)
qed

lemma messages_Save_cases:
  assumes "messages_Save env msg rd db subs = (e, marked, m1, db1, subs1)"
  obtains (fail) err where "e = Some err" "db1 = db" "subs1 = subs"
  | (ok) m where "e = None" "stored_as (pv_sha env) msg m" "adds m db db1"
      "marked_as (m_SeqId msg) (m_Topic msg) (ParseUid (m_From msg)) subs subs1"
proof (cases e)
  case (Some err)
  obtain r1 r2 r3 idx where "idx \<noteq> Inl err \<Longrightarrow> MessageSaveAtomic (pv_sha env) (pv_save env)
      (msg\<lparr>m_UpdatedAt := m_CreatedAt msg, m_SearchText := projr idx\<rparr>) db = (r1, r2, r3)"
    "pv_searchText env (m_Content msg) = idx" by (metis prod_cases3)
  then have "db1 = db \<and> subs1 = subs"
    using assms Some
    by (auto simp: messages_Save_def Let_def split: sum.splits option.splits prod.splits if_splits elim: MessageSaveAtomic_cases)
  then show thesis using fail Some by blast
next
  case None
  obtain idx m2 where t: "pv_searchText env (m_Content msg) = Inr idx"
    and s: "MessageSaveAtomic (pv_sha env) (pv_save env) (msg\<lparr>m_UpdatedAt := m_CreatedAt msg, m_SearchText := idx\<rparr>) db = (None, m2, db1)"
    using assms None by (auto simp: messages_Save_def Let_def split: sum.splits option.splits prod.splits if_splits)
  note a = save_adds [OF s]
  define m where "m = InitClientKey (pv_sha env) (msg\<lparr>m_UpdatedAt := m_CreatedAt msg, m_SearchText := idx\<rparr>)"
  have "stored_as (pv_sha env) msg m" by (simp add: stored_as_def m_def InitClientKey_def)
  moreover have "marked_as (m_SeqId msg) (m_Topic msg) (ParseUid (m_From msg)) subs subs1"
  proof (cases "rd \<and> \<not> uid_IsZero (ParseUid (m_From msg))")
    case True
    obtain e2 where "SubsUpdate (pv_mark env) (pv_now env) (m_Topic msg) (ParseUid (m_From msg))
        (no_update\<lparr>su_RecvSeqId := Some (m_SeqId msg), su_ReadSeqId := Some (m_SeqId msg)\<rparr>) subs = (e2, subs1)"
      using assms None t s a True by (simp add: messages_Save_def Let_def split: prod.splits)
    from SubsUpdate_marks [OF this] show ?thesis using True
      by (auto simp: marked_as_def no_update_def opt_or_def uid_IsZero_def ZeroUid_def row_marks_def)
  next
    case False
    then have "subs1 = subs" using assms None t s a by (auto simp: messages_Save_def Let_def)
    then show ?thesis by simp
  qed
  ultimately show thesis using ok None a m_def by blast
qed

text \<open>What a publish that stores does to the whole: one message, the next number, and no mark that is not the
  sender's new one or one that was kept or stored before.\<close>

definition appended :: "uid \<Rightarrow> string \<Rightarrow> any message \<Rightarrow> psys \<Rightarrow> psys \<Rightarrow> bool" where
  "appended u cid m st st' \<longleftrightarrow>
     m_Topic m = t_name (pub_topic st) \<and> m_SeqId m = t_lastID (pub_topic st) + 1 \<and> m_From m = uid_String u \<and> m_ClientId m = cid \<and>
     adds m (ps_msgs st) (ps_msgs st') \<and>
     t_name (pub_topic st') = t_name (pub_topic st) \<and> t_cat (pub_topic st') = t_cat (pub_topic st) \<and>
     t_lastID (pub_topic st') = t_lastID (pub_topic st) + 1 \<and> set (t_sessions (pub_topic st')) \<subseteq> set (t_sessions (pub_topic st)) \<and>
     marked_as (m_SeqId m) (m_Topic m) u (pub_db st) (pub_db st') \<and>
     (\<forall>v. marks (pub_topic st') v \<in> {marks (pub_topic st) v, (0, 0), (m_SeqId m, m_SeqId m)} \<or>
       row_marks (pub_db st) (m_Topic m, v) = Some (marks (pub_topic st') v))"

text \<open>What happens to the topic once a message is in the store.\<close>

definition moved_on :: "psys \<Rightarrow> psys \<Rightarrow> bool" where
  "moved_on st st' \<longleftrightarrow>
     ps_msgs st' = ps_msgs st \<and> pub_db st' = pub_db st \<and>
     t_name (pub_topic st') = t_name (pub_topic st) \<and> t_cat (pub_topic st') = t_cat (pub_topic st) \<and>
     t_lastID (pub_topic st') = t_lastID (pub_topic st) + 1 \<and> set (t_sessions (pub_topic st')) \<subseteq> set (t_sessions (pub_topic st)) \<and>
     (\<forall>v. marks (pub_topic st') v \<in> {marks (pub_topic st) v, (0, 0), (t_lastID (pub_topic st) + 1, t_lastID (pub_topic st) + 1)})"

lemma publish_stored_moves:
  assumes "publish_stored env ss req u noEcho pud found marked stored st = Some (e, st')"
  shows "moved_on st st'"
proof -
  define st1 where "st1 = on_sys (on_topic (\<lambda>t. t\<lparr>t_lastID := t_lastID t + 1, t_touched := pm_Timestamp req\<rparr>)) st"
  obtain err st2 where a: "archiveForCompliance env req u stored st1 = Some (err, st2)"
    and rest: "err = None \<longrightarrow> (\<exists>st4 s6.
        (if pm_Id req \<noteq> [] then tell (pm_sess req) u (NoErrAcceptedReply ((''seq'', AInt (t_lastID (pub_topic st2))) #
            (if pm_ClientId req \<noteq> [] then [(''cid'', AStr (pm_ClientId req))] else [])))
            (if found then on_sys (on_topic (set_pud u (pud\<lparr>pud_readID := t_lastID (pub_topic st2), pud_recvID := t_lastID (pub_topic st2)\<rparr>))) st2 else st2)
         else Some (if found then on_sys (on_topic (set_pud u (pud\<lparr>pud_readID := t_lastID (pub_topic st2), pud_recvID := t_lastID (pub_topic st2)\<rparr>))) st2 else st2)) = Some st4 \<and>
        broadcastToSessions env ss (skip_sid ss req noEcho) (OutData (pm_Original req) (pm_AsUser req) stored)
          (emit (PluginMessage stored PlgActCreate)
             (emit (Notice (PresSubsOffline ''msg'' (nilPresParams\<lparr>pp_seqID := t_lastID (pub_topic st2), pp_actor := pm_AsUser req\<rparr>) readFilter
               nilPresFilters [] True)) (ps_sys st4))) = Some s6 \<and>
        st' = st4\<lparr>ps_sys := sendPushForData u stored marked s6\<rparr>)"
    and err: "err \<noteq> None \<longrightarrow> st' = st2"
    using assms unfolding publish_stored_def st1_def Let_def
    by (cases "archiveForCompliance env req u stored st1") (auto simp: bind_eq_Some_conv st1_def Let_def split: option.splits)
  note same = archive_unsaved [OF a]
  have 1: "ps_msgs st1 = ps_msgs st" "pub_db st1 = pub_db st" "t_name (pub_topic st1) = t_name (pub_topic st)"
    "t_cat (pub_topic st1) = t_cat (pub_topic st)" "t_lastID (pub_topic st1) = t_lastID (pub_topic st) + 1"
    "t_sessions (pub_topic st1) = t_sessions (pub_topic st)" "marks (pub_topic st1) v = marks (pub_topic st) v" for v
    by (simp_all add: st1_def)
  have seq: "t_lastID (pub_topic st2) = t_lastID (pub_topic st) + 1" using same 1 by simp
  show ?thesis
  proof (cases err)
    case (Some x)
    then show ?thesis using err same 1 by (simp add: moved_on_def)
  next
    case None
    define st3 where "st3 = (if found then on_sys (on_topic (set_pud u (pud\<lparr>pud_readID := t_lastID (pub_topic st2), pud_recvID := t_lastID (pub_topic st2)\<rparr>))) st2 else st2)"
    have m3: "ps_msgs st3 = ps_msgs st" "pub_db st3 = pub_db st" "t_name (pub_topic st3) = t_name (pub_topic st)"
      "t_cat (pub_topic st3) = t_cat (pub_topic st)" "t_lastID (pub_topic st3) = t_lastID (pub_topic st) + 1"
      "t_sessions (pub_topic st3) = t_sessions (pub_topic st)"
      "marks (pub_topic st3) v \<in> {marks (pub_topic st) v, (t_lastID (pub_topic st) + 1, t_lastID (pub_topic st) + 1)}" for v
      using same 1 seq by (simp_all add: st3_def)
    obtain st4 s6 where t4: "(if pm_Id req \<noteq> [] then tell (pm_sess req) u (NoErrAcceptedReply ((''seq'', AInt (t_lastID (pub_topic st2))) #
            (if pm_ClientId req \<noteq> [] then [(''cid'', AStr (pm_ClientId req))] else []))) st3 else Some st3) = Some st4"
      and b: "broadcastToSessions env ss (skip_sid ss req noEcho) (OutData (pm_Original req) (pm_AsUser req) stored)
          (emit (PluginMessage stored PlgActCreate)
             (emit (Notice (PresSubsOffline ''msg'' (nilPresParams\<lparr>pp_seqID := t_lastID (pub_topic st2), pp_actor := pm_AsUser req\<rparr>) readFilter
               nilPresFilters [] True)) (ps_sys st4))) = Some s6"
      and st': "st' = st4\<lparr>ps_sys := sendPushForData u stored marked s6\<rparr>"
      using rest None unfolding st3_def by blast
    have 4: "pub_topic st4 = pub_topic st3 \<and> pub_db st4 = pub_db st3 \<and> ps_msgs st4 = ps_msgs st3"
      using t4 tell_same by (auto split: if_split_asm)
    have 5: "keeps (pub_topic st4) (sy_topic s6)" "sy_db s6 = pub_db st4"
      using broadcast_keeps [OF b] by (simp_all add: pub_topic_def pub_db_def)
    have 6: "pub_topic st' = sy_topic s6" "pub_db st' = sy_db s6" "ps_msgs st' = ps_msgs st4"
      by (auto simp: st' sendPushForData_def split: option.split)
    have k: "t_name (pub_topic st') = t_name (pub_topic st3)" "t_cat (pub_topic st') = t_cat (pub_topic st3)"
      "t_lastID (pub_topic st') = t_lastID (pub_topic st3)" "set (t_sessions (pub_topic st')) \<subseteq> set (t_sessions (pub_topic st3))"
      "marks (pub_topic st') v = marks (pub_topic st3) v \<or> marks (pub_topic st') v = (0, 0)" for v
      using 4 5 6 by (auto simp: keeps_def)
    show ?thesis unfolding moved_on_def
    proof (intro conjI allI)
      show "marks (pub_topic st') v \<in> {marks (pub_topic st) v, (0, 0), (t_lastID (pub_topic st) + 1, t_lastID (pub_topic st) + 1)}" for v
        using k(5) [of v] m3(7) [of v] by auto
    qed (use 4 5 6 k(1-4) m3(1-6) in simp_all)
  qed
qed

lemma new_message_simps [simp]:
  "m_Topic (new_message req t u fence sha head content) = t_name t"
  "m_SeqId (new_message req t u fence sha head content) = t_lastID t + 1"
  "m_From (new_message req t u fence sha head content) = uid_String u"
  "m_ClientId (new_message req t u fence sha head content) = pm_ClientId req"
  "m_Head (new_message req t u fence sha head content) = head"
  "m_Content (new_message req t u fence sha head content) = content"
  "m_ClientKey (InitClientKey sha (new_message req t u fence sha head content)) = MessageClientKey sha u (pm_ClientId req)"
  by (simp_all add: new_message_def InitClientKey_def)

definition publishes :: "(string \<Rightarrow> string) \<Rightarrow> uid \<Rightarrow> string \<Rightarrow> psys \<Rightarrow> any message \<Rightarrow> psys \<Rightarrow> bool" where
  "publishes sha u cid st m st' \<longleftrightarrow> appended u cid m st st' \<and> m_ClientKey m = MessageClientKey sha u cid"

lemma publish_save_cases:
  assumes "publish_save env ss req u noEcho pud found (new_message req (pub_topic st) u fence (pv_sha env) head content) st = Some (e, st')"
  shows "unsaved st st' \<or> (\<exists>m. publishes (pv_sha env) u (pm_ClientId req) st m st')"
proof -
  let ?msg = "new_message req (pub_topic st) u fence (pv_sha env) head content"
  obtain r marked m1 db1 subs1 where
    s: "messages_Save env ?msg (IsReader (eff_mode pud)) (ps_msgs st) (sy_db (ps_sys st)) = (r, marked, m1, db1, subs1)"
    by (metis prod_cases5)
  note def = assms [unfolded publish_save_def s prod.case]
  let ?st1 = "on_sys (set_db subs1) (st\<lparr>ps_msgs := db1\<rparr>)"
  from s show ?thesis
  proof (cases rule: messages_Save_cases)
    case (fail err)
    define st2 where "st2 = (if err = ErrClusterFenced then on_sys (emit (StatsInc ''ClusterFencingRejected'')) ?st1 else ?st1)"
    have u2: "unsaved st st2" using fail by (simp add: st2_def unsaved_def) (simp add: pub_db_def)
    let ?find = "MessageGetByClientId (pv_sha env) (pv_findAgain env) (t_name (pub_topic st2)) u (pm_ClientId req) (ps_msgs st2)"
    have "(case ?find of Inr (Some existing) \<Rightarrow> publish_duplicate env ss req u noEcho existing st2
        | _ \<Rightarrow> map_option (\<lambda>st'. (Some (PubStore err), st'))
            (tell (pm_sess req) u (if err = ErrClusterFenced then ErrServiceUnavailableReply else ErrUnknownReply) st2)) = Some (e, st')"
      using def fail(1) by (simp only: option.case Let_def st2_def)
    then have "(\<exists>m. publish_duplicate env ss req u noEcho m st2 = Some (e, st')) \<or>
        (\<exists>rep. tell (pm_sess req) u rep st2 = Some st')"
      by (auto split: sum.split_asm option.split_asm)
    then have "unsaved st2 st'" using duplicate_unsaved tell_unsaved by blast
    then show ?thesis using u2 unsaved_trans by blast
  next
    case (ok m)
    have "publish_stored env ss req u noEcho pud found marked m1 ?st1 = Some (e, st')"
      using def ok(1) by simp
    then have mv: "moved_on ?st1 st'" by (rule publish_stored_moves)
    have m: "m_Topic m = t_name (pub_topic st)" "m_SeqId m = t_lastID (pub_topic st) + 1" "m_From m = uid_String u"
      "m_ClientId m = pm_ClientId req" "m_ClientKey m = MessageClientKey (pv_sha env) u (pm_ClientId req)"
      using ok(2) by (simp_all add: stored_as_def)
    have "appended u (pm_ClientId req) m st st'"
      using mv ok(3,4) m unfolding moved_on_def appended_def by (simp, auto simp: pub_db_def)
    then show ?thesis using m by (auto simp: publishes_def)
  qed
qed

lemma publishes_after_unsaved:
  assumes "unsaved st st1" "publishes sha u cid st1 m st'"
  shows "publishes sha u cid st m st'"
proof -
  note a = assms [unfolded unsaved_def publishes_def appended_def loads_def]
  have "marks (pub_topic st') v \<in> {marks (pub_topic st) v, (0, 0), (m_SeqId m, m_SeqId m)} \<or>
       row_marks (pub_db st) (m_Topic m, v) = Some (marks (pub_topic st') v)" for v
    using a by (metis (no_types, lifting) insert_iff)
  then show ?thesis using a unfolding publishes_def appended_def by auto
qed

lemma publish_cases:
  assumes "saveAndBroadcastMessage env ss req u noEcho atts head content st = Some (e, st')"
  obtains (unsaved) "unsaved st st'" | (saved) m where "publishes (pv_sha env) u (pm_ClientId req) st m st'"
proof -
  let ?pud = "pud_of (pub_topic st) u" and ?found = "has_pud (pub_topic st) u"
  obtain err st1 where c: "publish_checks env req u (businessPolicyAction head content atts) st = Some (err, st1)"
    using assms by (cases "publish_checks env req u (businessPolicyAction head content atts) st")
      (auto simp: saveAndBroadcastMessage_def Let_def)
  have u1: "unsaved st st1" by (rule publish_checks_unsaved [OF c])
  let ?no = "\<lambda>e' r. map_option (\<lambda>st'. (Some e', st')) (tell (pm_sess req) u r st1) = Some (e, st')"
  have "st' = st1 \<or> (\<exists>e' r. ?no e' r) \<or> (\<exists>m. publish_duplicate env ss req u noEcho m st1 = Some (e, st')) \<or>
      (\<exists>fence. publish_save env ss req u noEcho ?pud ?found
        (new_message req (pub_topic st1) u fence (pv_sha env) (publish_head ss req u head) content) st1 = Some (e, st'))"
    using assms c
    by (auto simp: saveAndBroadcastMessage_def Let_def split: option.split_asm sum.split_asm if_split_asm prod.split_asm)
  then consider "unsaved st1 st'" | m where "publishes (pv_sha env) u (pm_ClientId req) st1 m st'"
  proof (elim disjE exE)
    assume "st' = st1"
    then show thesis using that(1) by simp
  next
    fix e' r assume "?no e' r"
    then show thesis using that(1) tell_unsaved by auto
  next
    fix m assume "publish_duplicate env ss req u noEcho m st1 = Some (e, st')"
    then show thesis using that(1) duplicate_unsaved by blast
  next
    fix fence assume "publish_save env ss req u noEcho ?pud ?found
        (new_message req (pub_topic st1) u fence (pv_sha env) (publish_head ss req u head) content) st1 = Some (e, st')"
    then show thesis using that publish_save_cases by blast
  qed
  then show thesis using that u1 unsaved_trans publishes_after_unsaved by cases blast+
qed

section \<open>Notes\<close>

text \<open>A pair of marks that the sequence has reached.\<close>

definition mark_in :: "int \<Rightarrow> int \<times> int \<Rightarrow> bool" where
  "mark_in n p \<longleftrightarrow> 0 \<le> fst p \<and> fst p \<le> n \<and> 0 \<le> snd p \<and> snd p \<le> n"

definition marks_ok :: "psys \<Rightarrow> bool" where
  "marks_ok st \<longleftrightarrow> 0 \<le> t_lastID (pub_topic st) \<and> (\<forall>v. mark_in (t_lastID (pub_topic st)) (marks (pub_topic st) v)) \<and>
     (\<forall>v p. row_marks (pub_db st) (t_name (pub_topic st), v) = Some p \<longrightarrow> mark_in (t_lastID (pub_topic st)) p)"

lemma mark_in_zero [simp]: "mark_in n (0, 0) \<longleftrightarrow> 0 \<le> n"
  by (simp add: mark_in_def)

lemma marks_ok_loads:
  assumes "marks_ok st" "loads (pub_db st) (pub_topic st) (pub_topic st')" "pub_db st' = pub_db st"
  shows "marks_ok st'"
  using assms unfolding marks_ok_def loads_def by (metis (no_types, lifting) mark_in_zero)

lemma marks_ok_keeps:
  "marks_ok st \<Longrightarrow> keeps (pub_topic st) (pub_topic st') \<Longrightarrow> pub_db st' = pub_db st \<Longrightarrow> marks_ok st'"
  using marks_ok_loads keeps_loads by blast

definition same_log :: "psys \<Rightarrow> psys \<Rightarrow> bool" where
  "same_log st st' \<longleftrightarrow> ps_msgs st' = ps_msgs st \<and> t_name (pub_topic st') = t_name (pub_topic st) \<and>
     t_lastID (pub_topic st') = t_lastID (pub_topic st) \<and> t_cat (pub_topic st') = t_cat (pub_topic st) \<and>
     set (t_sessions (pub_topic st')) \<subseteq> set (t_sessions (pub_topic st))"

lemma same_log_refl [simp]: "same_log st st"
  by (simp add: same_log_def)

lemma same_log_trans [trans]: "same_log st st' \<Longrightarrow> same_log st' st'' \<Longrightarrow> same_log st st''"
  unfolding same_log_def by (metis subset_trans)

lemma note_reply_simps [simp]:
  "pub_topic (note_reply n r st) = pub_topic st" "pub_db (note_reply n r st) = pub_db st" "ps_msgs (note_reply n r st) = ps_msgs st"
  by (simp_all add: note_reply_def)

lemma forward_keeps:
  assumes "forward_note env ss n seq st = Some st'"
  shows "same_log st st' \<and> (marks_ok st \<longrightarrow> marks_ok st')"
proof -
  obtain s' where b: "broadcastToSessions env ss (si_sid (ss (nt_sess n)))
      (OutInfo (nt_Original n) (nt_AsUser n) (nt_What n) (nt_SeqId n))
      (emit (Notice (InfoSubsOffline (nt_asUid n) (nt_What n) seq (si_sid (ss (nt_sess n))))) (ps_sys st)) = Some s'"
    and st': "st' = st\<lparr>ps_sys := s'\<rparr>"
    using assms by (auto simp: forward_note_def Let_def)
  have k: "keeps (pub_topic st) (pub_topic st')" "pub_db st' = pub_db st" "ps_msgs st' = ps_msgs st"
    using broadcast_keeps [OF b] by (simp_all add: st' pub_topic_def pub_db_def)
  show ?thesis using marks_ok_keeps [OF _ k(1,2)] k by (auto simp: same_log_def keeps_def)
qed

lemma store_marks_same:
  assumes "store_marks env ss n asChan mode pud rd rv unread st = (b, st')"
  shows "pub_topic st' = pub_topic st \<and> ps_msgs st' = ps_msgs st"
  using assms by (auto simp: store_marks_def Let_def pub_topic_def on_sys_def note_reply_def split: prod.split_asm option.split_asm if_split_asm)

lemma store_marks_rows:
  assumes "store_marks env ss n asChan mode pud rd rv unread st = (b, st')" "nt_asUid n \<noteq> 0"
  shows "row_marks (pub_db st') k = row_marks (pub_db st) k \<or>
    (\<exists>x y. row_marks (pub_db st) k = Some (x, y) \<and>
      row_marks (pub_db st') k = Some (if rd > 0 then rd else x, if rv > 0 then rv else y))"
proof -
  let ?upd = "no_update\<lparr>su_RecvSeqId := (if rv > 0 then Some rv else None), su_ReadSeqId := (if rd > 0 then Some rd else None),
      su_ReadHistory := (if rd > 0 \<and> t_cat (pub_topic st) = TopicCatGrp \<and> \<not> t_isChan (pub_topic st) \<and> \<not> asChan
        then Some (pud_readHistory pud) else None)\<rparr>"
  obtain e db where u: "SubsUpdate (pv_mark env) (pv_now env) (if asChan then nt_Topic n else t_name (pub_topic st)) (nt_asUid n)
      ?upd (sy_db (ps_sys st)) = (e, db)" by fastforce
  have "pub_db st' = db"
    using assms(1) u by (auto simp: store_marks_def Let_def subs_Update_def pub_db_def note_reply_def on_sys_def
        split: prod.split_asm option.split_asm if_split_asm)
  then show ?thesis using SubsUpdate_marks [OF u assms(2), of k]
    by (cases "row_marks (pub_db st) k") (auto simp: pub_db_def no_update_def opt_or_def split: if_splits)
qed

lemma read_mark_in:
  "mark_in n (pud_readID p, pud_recvID p) \<Longrightarrow> pud_readID p < seq \<Longrightarrow> seq \<le> n \<Longrightarrow>
     mark_in n (pud_readID (read_mark t c now seq p), pud_recvID (read_mark t c now seq p)) \<and> pud_readID (read_mark t c now seq p) = seq"
  by (auto simp: read_mark_def mark_in_def Let_def)

lemma recv_mark_in:
  "mark_in n (pud_readID p, pud_recvID p) \<Longrightarrow> pud_recvID p < seq \<Longrightarrow> seq \<le> n \<Longrightarrow>
     mark_in n (pud_readID (recv_mark seq p), pud_recvID (recv_mark seq p))"
  by (auto simp: recv_mark_def mark_in_def Let_def)

text \<open>Storing new marks and going on.\<close>

lemma finish_keeps:
  assumes "store_marks env ss n asChan mode p rd rv unread st = (b, st1)" "nt_asUid n \<noteq> 0" "marks_ok st"
    "mark_in (t_lastID (pub_topic st)) (pud_readID p, pud_recvID p)" "mark_in (t_lastID (pub_topic st)) (rd, rv)"
  shows "marks_ok st1 \<and> marks_ok (on_sys (on_topic (set_pud (nt_asUid n) p)) st1)"
proof -
  have t: "pub_topic st1 = pub_topic st" using store_marks_same [OF assms(1)] by simp
  have "mark_in (t_lastID (pub_topic st)) q" if q: "row_marks (pub_db st1) (t_name (pub_topic st), v) = Some q" for v q
  proof -
    have old: "mark_in (t_lastID (pub_topic st)) q'" if "row_marks (pub_db st) (t_name (pub_topic st), v) = Some q'" for q'
      using that assms(3) by (cases q') (simp add: marks_ok_def)
    from store_marks_rows [OF assms(1,2), of "(t_name (pub_topic st), v)"] show ?thesis
    proof (elim disjE exE conjE)
      assume "row_marks (pub_db st1) (t_name (pub_topic st), v) = row_marks (pub_db st) (t_name (pub_topic st), v)"
      then show ?thesis using q old by simp
    next
      fix x y
      assume "row_marks (pub_db st) (t_name (pub_topic st), v) = Some (x, y)"
        and "row_marks (pub_db st1) (t_name (pub_topic st), v) = Some (if rd > 0 then rd else x, if rv > 0 then rv else y)"
      then show ?thesis using q old [of "(x, y)"] assms(5) by (auto simp: mark_in_def)
    qed
  qed
  then show ?thesis using t assms(3,4) by (simp add: marks_ok_def)
qed

text \<open>A note moves no number, and moves marks only within the sequence.\<close>

definition quiet_note :: "psys \<Rightarrow> psys \<Rightarrow> bool" where
  "quiet_note st st' \<longleftrightarrow> same_log st st' \<and> (marks_ok st \<longrightarrow> marks_ok st')"

lemma quiet_refl [simp]: "quiet_note st st"
  by (simp add: quiet_note_def)

lemma quiet_trans [trans]: "quiet_note st st' \<Longrightarrow> quiet_note st' st'' \<Longrightarrow> quiet_note st st''"
  unfolding quiet_note_def using same_log_trans by blast

lemma quiet_reply [simp]: "quiet_note st (note_reply n r st)"
  by (simp add: quiet_note_def same_log_def marks_ok_def)

lemma quiet_forward: "forward_note env ss n seq st = Some st' \<Longrightarrow> quiet_note st st'"
  using forward_keeps by (simp add: quiet_note_def)

lemma quiet_finish:
  assumes "(case store_marks env ss n asChan mode p rd rv unread st of
        (False, st1) \<Rightarrow> Some st1
      | (True, st1) \<Rightarrow> if asChan then Some st1
          else forward_note env ss n seq (on_sys (on_topic (set_pud (nt_asUid n) p)) st1)) = Some st'"
    "nt_asUid n \<noteq> 0"
    "marks_ok st \<longrightarrow> mark_in (t_lastID (pub_topic st)) (pud_readID p, pud_recvID p) \<and> mark_in (t_lastID (pub_topic st)) (rd, rv)"
  shows "quiet_note st st'"
proof -
  obtain b st1 where s: "store_marks env ss n asChan mode p rd rv unread st = (b, st1)" by fastforce
  let ?st2 = "on_sys (on_topic (set_pud (nt_asUid n) p)) st1"
  have "quiet_note st st1 \<and> quiet_note st ?st2"
    using finish_keeps [OF s assms(2)] assms(3) store_marks_same [OF s] by (auto simp: quiet_note_def same_log_def)
  then show ?thesis using assms(1) s quiet_forward quiet_trans by (cases b) (auto split: if_split_asm)
qed

lemma marks_note_quiet:
  assumes "marks_note env ss n asChan mode pud st = Some st'" "nt_asUid n \<noteq> 0" "nt_SeqId n \<le> t_lastID (pub_topic st)"
    "nt_What n \<in> {''read'', ''recv''} \<longrightarrow> pud = pud_of (pub_topic st) (nt_asUid n)"
  shows "quiet_note st st'"
proof -
  have m: "mark_in (t_lastID (pub_topic st)) (pud_readID pud, pud_recvID pud)" if "marks_ok st" "nt_What n \<in> {''read'', ''recv''}"
    using that assms(4) by (auto simp: marks_ok_def marks_def)
  have fw: "quiet_note st st'" if "(if asChan then Some st else forward_note env ss n x st) = Some st'" for x
    using that quiet_forward by (auto split: if_split_asm)
  consider "nt_What n = ''read''" | "nt_What n = ''recv''" | "nt_What n \<notin> {''read'', ''recv''}" by auto
  then show ?thesis
  proof cases
    case 1
    show ?thesis
    proof (cases "nt_SeqId n \<le> pud_readID pud")
      case True
      then show ?thesis using assms(1) 1 by (auto simp: marks_note_def Let_def)
    next
      case False
      let ?p = "read_mark (pub_topic st) asChan (pv_now env) (nt_SeqId n) pud"
      have in': "marks_ok st \<longrightarrow> mark_in (t_lastID (pub_topic st)) (pud_readID ?p, pud_recvID ?p) \<and>
          mark_in (t_lastID (pub_topic st)) (pud_readID ?p, 0)"
        using read_mark_in [OF m _ assms(3)] False 1 by (fastforce simp: mark_in_def)
      show ?thesis
      proof (cases "pud_readID ?p > 0")
        case True
        then show ?thesis using assms(1) 1 False
          by (intro quiet_finish [OF _ assms(2) in']) (simp add: marks_note_def Let_def)
      next
        case neg: False
        then show ?thesis using assms(1) 1 False by (intro fw) (simp add: marks_note_def Let_def)
      qed
    qed
  next
    case 2
    show ?thesis
    proof (cases "nt_SeqId n \<le> pud_recvID pud")
      case True
      then show ?thesis using assms(1) 2 by (auto simp: marks_note_def Let_def)
    next
      case False
      let ?p = "recv_mark (nt_SeqId n) pud"
      have in': "marks_ok st \<longrightarrow> mark_in (t_lastID (pub_topic st)) (pud_readID ?p, pud_recvID ?p) \<and>
          mark_in (t_lastID (pub_topic st)) (0, pud_recvID ?p)"
        using recv_mark_in [OF m _ assms(3)] False 2 by (fastforce simp: mark_in_def)
      show ?thesis
      proof (cases "pud_recvID ?p > 0")
        case True
        then show ?thesis using assms(1) 2 False
          by (intro quiet_finish [OF _ assms(2) in']) (simp add: marks_note_def Let_def)
      next
        case neg: False
        then show ?thesis using assms(1) 2 False by (intro fw) (simp add: marks_note_def Let_def)
      qed
    qed
  next
    case 3
    then show ?thesis using assms(1) by (intro fw) (auto simp: marks_note_def Let_def)
  qed
qed

lemma note_quiet:
  assumes "handleNoteBroadcast env ss interact n st = Some st'" "nt_asUid n \<noteq> 0" "nt_What n \<notin> {''react'', ''pin'', ''call''}"
  shows "quiet_note st st'"
proof (cases "isInactive (pub_topic st) \<or> nt_SeqId n > t_lastID (pub_topic st)")
  case True
  then show ?thesis using assms(1) by (auto simp: handleNoteBroadcast_def Let_def split: if_split_asm)
next
  case False
  show ?thesis
  proof (cases "verifyChannelAccess (pub_topic st) (nt_Original n)")
    case (Inl x)
    then show ?thesis using assms(1) False by (auto simp: handleNoteBroadcast_def Let_def)
  next
    case (Inr asChan)
    let ?pud = "pud_of (pub_topic st) (nt_asUid n)"
    note def = assms(1) [unfolded handleNoteBroadcast_def Let_def Inr sum.case]
    show ?thesis
    proof (cases "nt_What n \<in> {''kp'', ''kpa'', ''kpv''}")
      case True
      obtain r s1 where c: "checkOfficialPublish (pv_official env) (ps_kv st) (nt_asUid n) ''message'' (ps_sys st) = (r, s1)"
        by fastforce
      have l: "loads (pub_db st) (pub_topic st) (pub_topic (st\<lparr>ps_sys := s1\<rparr>))" "pub_db (st\<lparr>ps_sys := s1\<rparr>) = pub_db st"
        using checks_load [OF c] by (simp_all add: pub_db_def pub_topic_def)
      have q: "quiet_note st (st\<lparr>ps_sys := s1\<rparr>)"
        using marks_ok_loads [OF _ l] l(1) by (auto simp: quiet_note_def same_log_def loads_def)
      have w: "nt_What n \<notin> {''read'', ''recv''}" using True by auto
      have "nt_SeqId n \<le> t_lastID (pub_topic (st\<lparr>ps_sys := s1\<rparr>))" using l(1) False by (simp add: loads_def)
      then have "quiet_note (st\<lparr>ps_sys := s1\<rparr>) st'" if "marks_note env ss n asChan mode p (st\<lparr>ps_sys := s1\<rparr>) = Some st'" for mode p
        using marks_note_quiet [OF that assms(2)] w by blast
      then show ?thesis using def True False assms(3) c q quiet_trans
        by (cases r) (auto split: if_split_asm)
    next
      case kp: False
      have "quiet_note st st'" if "marks_note env ss n asChan mode ?pud st = Some st'" for mode
        using marks_note_quiet [OF that assms(2)] False by simp
      then show ?thesis using def kp False assms(3) by (auto split: if_split_asm)
    qed
  qed
qed

section \<open>Sequences of steps\<close>

text \<open>Every topic's messages are numbered one after the other; no number and no client key is used twice, the
  cursor in the store is the topic's, and the marks are within the sequence.\<close>

definition topic_log :: "psys \<Rightarrow> any message list" where
  "topic_log st = filter (\<lambda>m. m_Topic m = t_name (pub_topic st)) (db_messages (ps_msgs st))"

definition log_ok :: "psys \<Rightarrow> bool" where
  "log_ok st \<longleftrightarrow> 0 \<le> t_lastID (pub_topic st) \<and> map m_SeqId (topic_log st) = [1..t_lastID (pub_topic st)] \<and>
     distinct (filter (\<lambda>k. k \<noteq> []) (map m_ClientKey (topic_log st))) \<and>
     map_option tr_seqid (db_topics (ps_msgs st) (t_name (pub_topic st))) = Some (t_lastID (pub_topic st))"

datatype pub_op =
    OpPublish pub_env sess_table pub_req uid bool "string list" "string \<rightharpoonup> any" "any option"
  | OpNote pub_env sess_table note_req

text \<open>The notes that the interactions handle are not steps here, and a note always has a user.\<close>

fun op_ok :: "pub_op \<Rightarrow> bool" where
  "op_ok (OpPublish env ss req u noEcho atts head content) = True"
| "op_ok (OpNote env ss n) = (nt_asUid n \<noteq> 0 \<and> nt_What n \<notin> {''react'', ''pin'', ''call''})"

fun pub_step :: "pub_op \<Rightarrow> psys \<Rightarrow> psys option" where
  "pub_step (OpPublish env ss req u noEcho atts head content) st =
     map_option snd (saveAndBroadcastMessage env ss req u noEcho atts head content st)"
| "pub_step (OpNote env ss n) st = handleNoteBroadcast env ss (\<lambda>_ st'. Some st') n st"

fun pub_run :: "pub_op list \<Rightarrow> psys \<Rightarrow> psys option" where
  "pub_run [] st = Some st"
| "pub_run (op # ops) st = (case pub_step op st of None \<Rightarrow> None | Some st1 \<Rightarrow> pub_run ops st1)"

lemma log_ok_same: "log_ok st \<Longrightarrow> same_log st st' \<Longrightarrow> log_ok st'"
  by (simp add: log_ok_def same_log_def topic_log_def)

lemma unsaved_same: "unsaved st st' \<Longrightarrow> same_log st st'"
  by (simp add: unsaved_def same_log_def loads_def)

lemma log_ok_appended:
  assumes "log_ok st" "appended u cid m st st'"
  shows "log_ok st' \<and> topic_log st' = topic_log st @ [m]"
proof -
  note a = assms(2) [unfolded appended_def adds_def insert_allowed_def]
  have l: "topic_log st' = topic_log st @ [m]" using a by (simp add: topic_log_def)
  have "1 \<le> t_lastID (pub_topic st) + 1" using assms(1) by (simp add: log_ok_def)
  then have "[1..t_lastID (pub_topic st) + 1] = [1..t_lastID (pub_topic st)] @ [t_lastID (pub_topic st) + 1]"
    by (simp add: upto_rec2)
  moreover have "m_ClientKey m \<noteq> [] \<longrightarrow> m_ClientKey m \<notin> m_ClientKey ` set (topic_log st)"
    using a by (auto simp: topic_log_def)
  ultimately have "log_ok st'" using assms(1) a l by (auto simp: log_ok_def)
  then show ?thesis using l by simp
qed

lemma marks_ok_appended:
  assumes "marks_ok st" "appended u cid m st st'"
  shows "marks_ok st'"
proof -
  note a = assms(2) [unfolded appended_def]
  let ?n = "t_lastID (pub_topic st)"
  have n: "0 \<le> ?n" using assms(1) by (simp add: marks_ok_def)
  have up: "mark_in ?n p \<Longrightarrow> mark_in (?n + 1) p" for p by (auto simp: mark_in_def)
  have now: "mark_in (?n + 1) (?n + 1, ?n + 1)" using n by (simp add: mark_in_def)
  have old: "mark_in ?n (marks (pub_topic st) v)" for v using assms(1) by (simp add: marks_ok_def)
  have row: "row_marks (pub_db st) (t_name (pub_topic st), v) = Some p \<Longrightarrow> mark_in (?n + 1) p" for v p
    using assms(1) up by (cases p) (simp add: marks_ok_def)
  have "mark_in (?n + 1) (marks (pub_topic st') v)" for v
    using a up [OF old] now n row [of v] by (metis (no_types, lifting) empty_iff insert_iff mark_in_zero add_nonneg_nonneg zero_le_one)
  moreover have "mark_in (?n + 1) p" if "row_marks (pub_db st') (t_name (pub_topic st), v) = Some p" for v p
    using a that row [of v] now unfolding marked_as_def by (metis option.inject)
  ultimately show ?thesis using a n by (simp add: marks_ok_def)
qed

lemma pub_step_cases:
  assumes "pub_step op st = Some st'" "op_ok op"
  obtains (quiet) "quiet_note st st'"
  | (saved) env ss req u noEcho atts head content m where
      "op = OpPublish env ss req u noEcho atts head content" "publishes (pv_sha env) u (pm_ClientId req) st m st'"
proof (cases op)
  case (OpPublish env ss req u noEcho atts head content)
  then obtain e where "saveAndBroadcastMessage env ss req u noEcho atts head content st = Some (e, st')" using assms by auto
  then show thesis
  proof (cases rule: publish_cases)
    case unsaved
    then show thesis using quiet marks_ok_loads unsaved_same by (auto simp: quiet_note_def unsaved_def)
  next
    case (saved m)
    then show thesis using OpPublish that(2) by blast
  qed
next
  case (OpNote env ss n)
  then show thesis using assms note_quiet quiet by auto
qed

lemma pub_step_log:
  assumes "pub_step op st = Some st'" "op_ok op" "log_ok st"
  shows "log_ok st' \<and> (topic_log st' = topic_log st \<or> (\<exists>m. topic_log st' = topic_log st @ [m]))"
  using assms(1,2)
proof (cases rule: pub_step_cases)
  case quiet
  then show ?thesis using assms(3) log_ok_same by (auto simp: quiet_note_def topic_log_def same_log_def)
next
  case (saved env ss req u noEcho atts head content m)
  then show ?thesis using log_ok_appended [OF assms(3)] by (auto simp: publishes_def)
qed

lemma pub_step_marks:
  assumes "pub_step op st = Some st'" "op_ok op" "marks_ok st"
  shows "marks_ok st'"
  using assms(1,2)
proof (cases rule: pub_step_cases)
  case quiet
  then show ?thesis using assms(3) by (simp add: quiet_note_def)
next
  case (saved env ss req u noEcho atts head content m)
  then show ?thesis using marks_ok_appended [OF assms(3)] by (auto simp: publishes_def)
qed

lemma pub_run_cons: "pub_run (op # ops) st = Some st' \<Longrightarrow> \<exists>st1. pub_step op st = Some st1 \<and> pub_run ops st1 = Some st'"
  by (auto split: option.splits)

text \<open>Nothing that was stored goes, and the topic stays the same one.\<close>

definition grows :: "psys \<Rightarrow> psys \<Rightarrow> bool" where
  "grows st st' \<longleftrightarrow> set (db_messages (ps_msgs st)) \<subseteq> set (db_messages (ps_msgs st')) \<and>
     t_name (pub_topic st') = t_name (pub_topic st)"

lemma pub_step_grows:
  assumes "pub_step op st = Some st'" "op_ok op"
  shows "grows st st'"
  using assms
proof (cases rule: pub_step_cases)
  case quiet
  then show ?thesis by (simp add: quiet_note_def same_log_def grows_def)
next
  case (saved env ss req u noEcho atts head content m)
  then show ?thesis by (auto simp: publishes_def appended_def adds_def grows_def)
qed

lemma pub_run_grows: "pub_run ops st = Some st' \<Longrightarrow> list_all op_ok ops \<Longrightarrow> grows st st'"
proof (induction ops arbitrary: st)
  case Nil
  then show ?case by (simp add: grows_def)
next
  case (Cons op ops)
  then obtain st1 where s: "pub_step op st = Some st1" "pub_run ops st1 = Some st'" using pub_run_cons by blast
  show ?case using pub_step_grows [OF s(1)] Cons.IH [OF s(2)] Cons.prems by (auto simp: grows_def)
qed

end
