(* ===== verification/PublishGuarantees.thy ===== *)
theory PublishGuarantees
  imports PublishSteps
begin

text \<open>
  The guarantees of publishing: no gap and no duplicate in a topic's sequence, one message for one client id,
  marks within the sequence, an answer for every step outside P2P topics, and the copies that the sessions get.
  And the two places where what the topic keeps and what is stored part.
\<close>

section \<open>Every step returns\<close>

text \<open>No session is attached without a user.\<close>

definition sessions_known :: "topic \<Rightarrow> bool" where
  "sessions_known t \<longleftrightarrow> (\<forall>(x, p) \<in> set (t_sessions t). pssd_uid p \<noteq> 0 \<or> pssd_muids p \<noteq> [])"

definition several :: "topic \<Rightarrow> bool" where
  "several t \<longleftrightarrow> t_cat t \<noteq> TopicCatP2P \<and> sessions_known t"

lemma several_mono: "several t \<Longrightarrow> t_cat t' = t_cat t \<Longrightarrow> set (t_sessions t') \<subseteq> set (t_sessions t) \<Longrightarrow> several t'"
  by (auto simp: several_def sessions_known_def)

lemma several_keeps: "several t \<Longrightarrow> keeps t t' \<Longrightarrow> several t'"
  by (rule several_mono) (auto simp: keeps_def)

lemma several_unsaved: "several (pub_topic st) \<Longrightarrow> unsaved st st' \<Longrightarrow> several (pub_topic st')"
  by (rule several_mono) (auto simp: unsaved_def loads_def)

lemma original_several: "several t \<Longrightarrow> original t u \<noteq> None"
  by (simp add: several_def original_def)

lemma leave_returns:
  assumes "several (sy_topic s)"
  shows "handleLeaveRequest f now ss sess dropped s \<noteq> None"
proof (cases "isInactive (sy_topic s)")
  case True
  then show ?thesis by (simp add: handleLeaveRequest_def dropped_def)
next
  case False
  show ?thesis
  proof (cases "map_of (t_sessions (sy_topic s)) (sess_target ss sess)")
    case None
    then show ?thesis using False by (simp add: handleLeaveRequest_def dropped_def remSession_def Let_def)
  next
    case (Some p)
    then have "pssd_uid p \<noteq> 0 \<or> pssd_muids p \<noteq> []"
      using assms by (auto simp: several_def sessions_known_def dest: map_of_SomeD)
    then show ?thesis using False Some
      by (auto simp: handleLeaveRequest_def dropped_def remSession_def Let_def uid_IsZero_def ZeroUid_def)
  qed
qed

lemma drop_returns: "several (sy_topic s) \<Longrightarrow> drop_sessions env ss xs s \<noteq> None"
proof (induction xs arbitrary: s)
  case (Cons x xs)
  obtain s0 where s0: "handleLeaveRequest (pv_leave env) (pv_now env) ss x dropped s = Some s0"
    using leave_returns [OF Cons.prems] by blast
  define s1 where "s1 = (if t_sessions (sy_topic s0) = [] \<and> t_cat (sy_topic s0) \<noteq> TopicCatSys then emit ResetKillTimer s0 else s0)"
  have "several (sy_topic s1)"
    using leave_keeps [OF s0] several_keeps [OF Cons.prems] by (simp add: s1_def)
  then show ?case using Cons.IH [of s1] s0 by (simp add: unregisterSession_def s1_def)
qed simp

lemma prepare_returns: "several t \<Longrightarrow> prepareBroadcastableMessage t msg u chan \<noteq> None"
  using original_several by (cases msg) (auto simp: broadcast_name_def)

lemma loop_returns: "several (sy_topic s) \<Longrightarrow> broadcast_loop env ss skip msg xs vs s \<noteq> None"
proof (induction xs arbitrary: vs s)
  case (Cons x xs)
  obtain sess pssd where x: "x = (sess, pssd)" by fastforce
  show ?case
  proof (cases "broadcast_skips env ss (sy_topic s) skip msg sess pssd")
    case True
    then show ?thesis using Cons by (simp add: x Let_def)
  next
    case False
    let ?step = "\<lambda>copy vs'. if pv_accepts env sess then broadcast_loop env ss skip msg xs vs' (emit (Queue sess copy) s)
        else map_option (\<lambda>(drops, s'). (sess # drops, s')) (broadcast_loop env ss skip msg xs vs' s)"
    have "?step copy vs' \<noteq> None" for copy vs'
      using Cons.IH [of "emit (Queue sess copy) s" vs'] Cons.IH [of s vs'] Cons.prems
      by (cases "pv_accepts env sess") simp_all
    then show ?thesis using False prepare_returns [OF Cons.prems]
      unfolding x broadcast_loop.simps Let_def if_not_P [OF False]
      by (auto simp: bind_eq_None_conv split: option.split)
  qed
qed simp

lemma broadcast_returns: "several (sy_topic s) \<Longrightarrow> broadcastToSessions env ss skip msg s \<noteq> None"
  using loop_returns [of s env ss skip msg "t_sessions (sy_topic s)" "(None, None)"] broadcast_loop_same drop_returns
  by (fastforce simp: broadcastToSessions_def)

lemma tell_returns: "several (pub_topic st) \<Longrightarrow> tell x u r st \<noteq> None"
  using original_several by (auto simp: tell_def split: option.split)

lemma archive_returns: "several (pub_topic st) \<Longrightarrow> archiveForCompliance env req u m st = Some (None, st)"
  by (simp add: archiveForCompliance_def several_def)

text \<open>An answer that is only given to a request with an id.\<close>

lemma told:
  assumes "several (pub_topic st)"
  obtains st' where "(if b then tell x u r st else Some st) = Some st'" "pub_topic st' = pub_topic st"
proof (cases b)
  case True
  then show thesis using tell_returns [OF assms, of x u r] tell_same that by auto
next
  case False
  then show thesis using that by simp
qed

lemma duplicate_returns:
  assumes "several (pub_topic st)"
  shows "publish_duplicate env ss req u noEcho m st \<noteq> None"
proof -
  obtain st2 where "(if pm_Id req \<noteq> [] then tell (pm_sess req) u (NoErrDeliveredReply
      [(''seq'', AInt (m_SeqId m)), (''cid'', AStr (m_ClientId m)), (''duplicate'', ABool True)]) st else Some st) = Some st2"
    "pub_topic st2 = pub_topic st" by (rule told [OF assms])
  then show ?thesis using assms
    unfolding publish_duplicate_def archive_returns [OF assms] by (simp add: several_def)
qed

lemma checks_return:
  assumes "several (pub_topic st)"
  shows "publish_checks env req u scope st \<noteq> None"
proof -
  obtain r s1 where c: "checkOfficialPublish (pv_official env) (ps_kv st) u scope (ps_sys st) = (r, s1)" by fastforce
  obtain r2 kv1 where sl: "enforceOfficialSlowMode (pv_slow env) (sy_topic s1) u scope (pv_now env) (ps_kv st) = (r2, kv1)"
    by fastforce
  have 1: "several (pub_topic (st\<lparr>ps_sys := s1\<rparr>))" "several (pub_topic (st\<lparr>ps_sys := s1, ps_kv := kv1\<rparr>))"
    using checks_load [OF c] several_mono [OF assms] by (simp_all add: loads_def pub_topic_def)
  have "authorizeBusinessAction env (pub_topic st) u scope \<noteq> None"
    using assms by (auto simp: authorizeBusinessAction_def several_def split: topic_cat.split)
  then show ?thesis using tell_returns [OF assms] tell_returns [OF 1(1)] tell_returns [OF 1(2)]
    unfolding publish_checks_def Let_def
    by (auto simp: c sl split: option.split biz_answer.split)
qed

lemma stored_returns:
  assumes "several (pub_topic st)"
  shows "publish_stored env ss req u noEcho pud found marked m st \<noteq> None"
proof -
  define st1 where "st1 = on_sys (on_topic (\<lambda>t. t\<lparr>t_lastID := t_lastID t + 1, t_touched := pm_Timestamp req\<rparr>)) st"
  have 1: "several (pub_topic st1)" by (rule several_mono [OF assms]) (simp_all add: st1_def)
  define p where "p = pud\<lparr>pud_readID := t_lastID (pub_topic st1), pud_recvID := t_lastID (pub_topic st1)\<rparr>"
  define st3 where "st3 = (if found then on_sys (on_topic (set_pud u p)) st1 else st1)"
  have 3: "several (pub_topic st3)" by (rule several_mono [OF 1]) (simp_all add: st3_def)
  obtain st4 where 4: "(if pm_Id req \<noteq> [] then tell (pm_sess req) u (NoErrAcceptedReply ((''seq'', AInt (t_lastID (pub_topic st1))) #
      (if pm_ClientId req \<noteq> [] then [(''cid'', AStr (pm_ClientId req))] else []))) st3 else Some st3) = Some st4"
    "pub_topic st4 = pub_topic st3" by (rule told [OF 3])
  have "broadcastToSessions env ss (skip_sid ss req noEcho) (OutData (pm_Original req) (pm_AsUser req) m)
      (emit (PluginMessage m PlgActCreate) (emit n (ps_sys st4))) \<noteq> None" for n
    by (rule broadcast_returns) (use 3 4 in \<open>simp add: pub_topic_def\<close>)
  moreover have "publish_stored env ss req u noEcho pud found marked m st =
      broadcastToSessions env ss (skip_sid ss req noEcho) (OutData (pm_Original req) (pm_AsUser req) m)
        (emit (PluginMessage m PlgActCreate)
          (emit (Notice (PresSubsOffline ''msg'' (nilPresParams\<lparr>pp_seqID := t_lastID (pub_topic st1), pp_actor := pm_AsUser req\<rparr>) readFilter
               nilPresFilters [] True)) (ps_sys st4))) \<bind> (\<lambda>s6. Some (None, st4\<lparr>ps_sys := sendPushForData u m marked s6\<rparr>))"
    by (simp only: publish_stored_def Let_def st1_def [symmetric] archive_returns [OF 1] Option.bind.simps prod.case option.case
        p_def [symmetric] st3_def [symmetric] 4(1))
  ultimately show ?thesis by (simp add: bind_eq_None_conv del: not_None_eq)
qed

lemma save_returns:
  assumes "several (pub_topic st)"
  shows "publish_save env ss req u noEcho pud found msg st \<noteq> None"
proof -
  obtain r marked m1 db1 subs1 where
    s: "messages_Save env msg (IsReader (eff_mode pud)) (ps_msgs st) (sy_db (ps_sys st)) = (r, marked, m1, db1, subs1)"
    by (metis prod_cases5)
  define st1 where "st1 = on_sys (set_db subs1) (st\<lparr>ps_msgs := db1\<rparr>)"
  have 1: "several (pub_topic st1)" by (rule several_mono [OF assms]) (simp_all add: st1_def)
  have 2: "several (pub_topic (if b then on_sys (emit e) st1 else st1))" for b e using 1 by simp
  show ?thesis
    using stored_returns [OF 1] tell_returns [OF 2] duplicate_returns [OF 2]
    unfolding publish_save_def s prod.case st1_def [symmetric] Let_def
    by (cases r) (simp_all del: not_None_eq split: option.split sum.split split del: if_split)
qed

lemma publish_returns:
  assumes "several (pub_topic st)"
  shows "saveAndBroadcastMessage env ss req u noEcho atts head content st \<noteq> None"
proof -
  obtain err st1 where c: "publish_checks env req u (businessPolicyAction head content atts) st = Some (err, st1)"
    using checks_return [OF assms] by (metis not_None_eq surj_pair)
  have 1: "several (pub_topic st1)" using several_unsaved [OF assms publish_checks_unsaved [OF c]] .
  show ?thesis
    using tell_returns [OF 1] duplicate_returns [OF 1] save_returns [OF 1]
    unfolding saveAndBroadcastMessage_def Let_def c
    by (auto simp del: not_None_eq split: option.split sum.split prod.split)
qed

lemma forward_returns: "several (pub_topic st) \<Longrightarrow> forward_note env ss n seq st \<noteq> None"
  by (simp add: forward_note_def Let_def broadcast_returns pub_topic_def del: not_None_eq)

lemma marks_note_returns:
  assumes "several (pub_topic st)"
  shows "marks_note env ss n asChan mode pud st \<noteq> None"
proof -
  have "(case store_marks env ss n asChan mode p rd rv unread st of (False, st1) \<Rightarrow> Some st1
      | (True, st1) \<Rightarrow> if asChan then Some st1
          else forward_note env ss n seq (on_sys (on_topic (set_pud (nt_asUid n) p)) st1)) \<noteq> None" for p rd rv unread seq
  proof -
    obtain b st1 where s: "store_marks env ss n asChan mode p rd rv unread st = (b, st1)" by fastforce
    have "several (pub_topic (on_sys (on_topic (set_pud (nt_asUid n) p)) st1))"
      by (rule several_mono [OF assms]) (simp_all add: store_marks_same [OF s])
    then show ?thesis using s forward_returns by (cases b) (simp_all del: not_None_eq)
  qed
  then show ?thesis using forward_returns [OF assms]
    by (simp add: marks_note_def Let_def del: not_None_eq)
qed

lemma note_returns:
  assumes "several (pub_topic st)" "interact n st \<noteq> None"
  shows "handleNoteBroadcast env ss interact n st \<noteq> None"
proof -
  obtain r s1 where c: "checkOfficialPublish (pv_official env) (ps_kv st) (nt_asUid n) ''message'' (ps_sys st) = (r, s1)"
    by fastforce
  have "several (pub_topic (st\<lparr>ps_sys := s1\<rparr>))"
    using checks_load [OF c] several_mono [OF assms(1)] by (simp add: loads_def pub_topic_def)
  then show ?thesis
    using assms(2) marks_note_returns [OF assms(1)] marks_note_returns
    by (simp add: handleNoteBroadcast_def c Let_def del: not_None_eq split: sum.split option.split)
qed

lemma step_returns:
  assumes "several (pub_topic st)"
  shows "pub_step op st \<noteq> None"
proof (cases op)
  case (OpPublish env ss req u noEcho atts head content)
  then show ?thesis using publish_returns [OF assms] by (simp del: not_None_eq)
next
  case (OpNote env ss n)
  then show ?thesis using note_returns [OF assms] by (simp del: not_None_eq)
qed

lemma several_step:
  assumes "several (pub_topic st)" "pub_step op st = Some st'" "op_ok op"
  shows "several (pub_topic st')"
  using assms(2,3)
proof (cases rule: pub_step_cases)
  case quiet
  then show ?thesis using several_mono [OF assms(1)] by (auto simp: quiet_note_def same_log_def)
next
  case (saved env ss req u noEcho atts head content m)
  then show ?thesis using several_mono [OF assms(1)] by (auto simp: publishes_def appended_def)
qed

section \<open>A group in which messages were stored\<close>

definition small_message :: "uid \<Rightarrow> int \<Rightarrow> string \<Rightarrow> any message" where
  "small_message u seq key = \<lparr>m_Id = 0, m_CreatedAt = 1, m_UpdatedAt = 1, m_DelId = 0, m_DeletedFor = [], m_SeqId = seq,
     m_Topic = ''grpX'', m_From = uid_String u, m_ClientId = [], m_ClientKey = key, m_ClusterId = [], m_ClusterEpoch = 0,
     m_ClusterOwner = [], m_Head = Map.empty, m_Content = None, m_SearchText = []\<rparr>"

definition small_store :: "any msg_db" where
  "small_store = \<lparr>db_fence = Map.empty,
     db_topics = [''grpX'' \<mapsto> \<lparr>tr_seqid = 3, tr_touchedat = 0, tr_clusterowner = [], tr_clusterepoch = 0\<rparr>],
     db_messages = [small_message 1 1 [], small_message 2 2 [], small_message 1 3 []], db_nextid = 4\<rparr>"

definition small_talk :: psys where
  "small_talk = \<lparr>ps_sys = small_group, ps_msgs = small_store, ps_kv = []\<rparr>"

definition plain_env :: pub_env where
  "plain_env = \<lparr>pv_now = 1500000000, pv_official = quiet_env, pv_slow = alone, pv_policyOn = False,
     pv_authorize = (\<lambda>_ _ _ _. BizAllowed), pv_archive = (\<lambda>_ _. None), pv_clustered = False, pv_node = None, pv_sha = (\<lambda>s. s),
     pv_find = None, pv_findAgain = None, pv_searchText = (\<lambda>_. Inr []), pv_save = (\<lambda>_. None), pv_mark = None,
     pv_leave = (\<lambda>_. None), pv_accepts = (\<lambda>_. True), pv_sidSession = (\<lambda>_. None)\<rparr>"

definition plain_pub :: pub_req where
  "plain_pub = \<lparr>pm_sess = None, pm_Id = [], pm_Original = ''grpX'', pm_AsUser = [], pm_Timestamp = 5, pm_ClientId = ''c''\<rparr>"

definition plain_note :: "string \<Rightarrow> int \<Rightarrow> note_req" where
  "plain_note what seq = \<lparr>nt_sess = 0, nt_Id = [], nt_Original = ''grpX'', nt_Topic = ''grpX'', nt_asUid = 2, nt_AsUser = [],
     nt_What = what, nt_SeqId = seq\<rparr>"

lemma talk_simps [simp]:
  "pub_topic small_talk = sy_topic small_group" "pub_db small_talk = sy_db small_group" "ps_msgs small_talk = small_store"
  "ps_sys small_talk = small_group"
  by (simp_all add: small_talk_def pub_topic_def pub_db_def)

lemma small_upto: "[1..3] = [1, 2, 3 :: int]"
  by (simp add: upto.simps)

lemma small_log_ok: "log_ok small_talk"
proof -
  have "t_lastID (sy_topic small_group) = 3" "t_name (sy_topic small_group) = ''grpX''" by (simp_all add: small_group_def)
  then show ?thesis by (simp add: log_ok_def topic_log_def small_store_def small_message_def small_upto)
qed

lemma small_marks_ok: "marks_ok small_talk"
proof -
  have "pud_readID p = 0 \<and> pud_recvID p = 0" if "map_of small_puds v = Some p" for v p
    using that by (auto simp: small_puds_def group_pud_def zero_pud_def split: if_splits)
  then have "marks (sy_topic small_group) v = (0, 0)" for v
    by (auto simp: marks_def pud_of_def small_group_def zero_pud_def split: option.split)
  moreover have "t_lastID (sy_topic small_group) = 3" by (simp add: small_group_def)
  moreover have "mark_in 3 p" if "row_marks (sy_db small_group) k = Some p" for k p
    using that by (cases k) (auto simp: row_marks_def small_group_def group_row_def split: if_splits)
  ultimately show ?thesis unfolding marks_ok_def by simp
qed

lemma small_several: "several (pub_topic small_talk)"
  by (simp add: several_def sessions_known_def small_topic)

lemma client_key: "u \<noteq> 0 \<Longrightarrow> cid \<noteq> [] \<Longrightarrow> MessageClientKey (\<lambda>s. s) u cid \<noteq> []"
  using length_b64_encode [of "uid_MarshalBinary u @ cid"]
  by (cases cid) (auto simp: MessageClientKey_def uid_IsZero_def ZeroUid_def)

lemma stored_ok:
  assumes "several (pub_topic st)"
  shows "\<exists>st'. publish_stored env ss req u noEcho pud found marked m st = Some (None, st') \<and> moved_on st st'"
proof -
  obtain e st' where s: "publish_stored env ss req u noEcho pud found marked m st = Some (e, st')"
    using stored_returns [OF assms] by (metis not_None_eq surj_pair)
  have "several (pub_topic (on_sys (on_topic (\<lambda>t. t\<lparr>t_lastID := t_lastID t + 1, t_touched := pm_Timestamp req\<rparr>)) st))"
    by (rule several_mono [OF assms]) simp_all
  then have "e = None" using s archive_returns by (auto simp: publish_stored_def Let_def bind_eq_Some_conv)
  then show ?thesis using s publish_stored_moves by blast
qed

lemma messages_Save_ok:
  assumes "pv_searchText env (m_Content msg) = Inr x"
    "MessageSaveAtomic (pv_sha env) (pv_save env) (msg\<lparr>m_UpdatedAt := m_CreatedAt msg, m_SearchText := x\<rparr>) db = (None, m1, db1)"
  shows "\<exists>marked subs1. messages_Save env msg rd db subs = (None, marked, m1, db1, subs1)"
proof (cases "rd \<and> \<not> uid_IsZero (ParseUid (m_From m1))")
  case True
  then show ?thesis using assms by (simp add: messages_Save_def Let_def split: prod.split)
next
  case False
  then show ?thesis using assms by (simp add: messages_Save_def Let_def) blast
qed

lemma plain_env_simps [simp]:
  "pv_searchText plain_env x = Inr []" "pv_sha plain_env = (\<lambda>s. s)" "pv_save plain_env = (\<lambda>_. None)" "\<not> pv_policyOn plain_env"
  "\<not> pv_clustered plain_env" "pv_find plain_env = None" "pv_mark plain_env = None"
  by (simp_all add: plain_env_def)

text \<open>A message of the member 2 that passes the checks is stored.\<close>

lemma small_save:
  assumes "publish_checks plain_env plain_pub 2 (businessPolicyAction Map.empty None []) st = Some (None, st1)"
    "several (pub_topic st)" "ps_msgs st = small_store" "pub_db st = sy_db small_group" "t_name (pub_topic st) = ''grpX''"
    "t_lastID (pub_topic st) = 3"
  shows "\<exists>st'. saveAndBroadcastMessage plain_env no_sessions plain_pub 2 False [] Map.empty None st = Some (None, st') \<and>
     length (db_messages (ps_msgs st')) = 4 \<and> t_lastID (pub_topic st') = 4"
proof -
  have u: "unsaved st st1" by (rule publish_checks_unsaved [OF assms(1)])
  then have st1: "ps_msgs st1 = small_store" "sy_db (ps_sys st1) = sy_db small_group" "t_name (pub_topic st1) = ''grpX''"
    "t_lastID (pub_topic st1) = 3" using assms(3-) by (simp_all add: unsaved_def loads_def pub_db_def)
  have sev: "several (pub_topic st1)" by (rule several_unsaved [OF assms(2) u])
  have key: "MessageClientKey (\<lambda>s. s) 2 ''c'' \<noteq> []" by (rule client_key) simp_all
  have f: "MessageGetByClientId (pv_sha plain_env) (pv_find plain_env) ''grpX'' 2 ''c'' small_store = Inr None"
    using key by (simp add: MessageGetByClientId_def plain_env_def small_store_def small_message_def)
  let ?msg = "\<lambda>h. new_message plain_pub (pub_topic st1) 2 ([], 0, []) (\<lambda>s. s) h None"
  let ?save = "\<lambda>rd h. messages_Save plain_env (?msg h) rd small_store (sy_db small_group)"
  have saves: "\<exists>m1 db1. MessageSaveAtomic (\<lambda>s. s) (\<lambda>_. None) ((?msg h)\<lparr>m_UpdatedAt := m_CreatedAt (?msg h), m_SearchText := []\<rparr>)
      small_store = (None, m1, db1) \<and> length (db_messages db1) = 4" for h
    using key st1(3,4)
    by (simp add: MessageSaveAtomic_def Let_def InitClientKey_def new_message_def plain_pub_def HasAnyClusterFenceField_def HasClusterFence_def
      plain_update_def insert_message_def insert_allowed_def small_store_def small_message_def)
  have saved: "\<exists>marked m1 db1 subs1. ?save rd h = (None, marked, m1, db1, subs1) \<and> length (db_messages db1) = 4" for rd h
  proof -
    obtain m1 db1 where "MessageSaveAtomic (\<lambda>s. s) (\<lambda>_. None)
        ((?msg h)\<lparr>m_UpdatedAt := m_CreatedAt (?msg h), m_SearchText := []\<rparr>) small_store = (None, m1, db1)"
      "length (db_messages db1) = 4" using saves by blast
    then show ?thesis using messages_Save_ok [of plain_env "?msg h" "[]" small_store m1 db1 rd "sy_db small_group"] by auto
  qed
  have "\<exists>st'. publish_save plain_env no_sessions plain_pub 2 False pud found (?msg h) st1 = Some (None, st') \<and>
      length (db_messages (ps_msgs st')) = 4 \<and> t_lastID (pub_topic st') = 4" for pud found h
  proof -
    obtain marked m1 db1 subs1 where s: "?save (IsReader (eff_mode pud)) h = (None, marked, m1, db1, subs1)"
      "length (db_messages db1) = 4" using saved by blast
    let ?st2 = "on_sys (set_db subs1) (st1\<lparr>ps_msgs := db1\<rparr>)"
    have "several (pub_topic ?st2)" using sev by simp
    from stored_ok [OF this] obtain st' where
      "publish_stored plain_env no_sessions plain_pub 2 False pud found marked m1 ?st2 = Some (None, st')" "moved_on ?st2 st'" by blast
    then show ?thesis using s st1 by (simp add: publish_save_def moved_on_def)
  qed
  moreover have "pm_ClientId plain_pub = ''c''" by (simp add: plain_pub_def)
  ultimately show ?thesis using f sev assms(1) st1
    by (simp add: saveAndBroadcastMessage_def Let_def several_def)
qed

lemma small_publish:
  "\<exists>st'. saveAndBroadcastMessage plain_env no_sessions plain_pub 2 False [] Map.empty None small_talk = Some (None, st') \<and>
     length (db_messages (ps_msgs st')) = 4 \<and> t_lastID (pub_topic st') = 4"
proof (rule small_save)
  have large: "\<not> isOfficialReadOnlyChannel (sy_topic small_group)" "\<not> isOfficialLargeGroup (sy_topic small_group)"
    by (simp_all add: isOfficialReadOnlyChannel_def isOfficialLargeGroup_def small_topic)
  show "publish_checks plain_env plain_pub 2 (businessPolicyAction Map.empty None []) small_talk = Some (None, small_talk)"
    by (simp add: publish_checks_def Let_def small_topic small_users plain_writer authorizeBusinessAction_def plain_env_def
        checkOfficialPublish_def enforceOfficialSlowMode_def large)
qed (use small_several in \<open>simp_all add: small_group_def\<close>)

section \<open>The sequence\<close>


definition small_op :: pub_op where
  "small_op = OpPublish plain_env no_sessions plain_pub 2 False [] Map.empty None"


text \<open>C13. The marks of every user, those the topic keeps and those the store has, stay between zero and the cursor.\<close>

theorem marks_within_sequence:
  assumes "pub_run ops st = Some st'" "list_all op_ok ops" "marks_ok st"
  shows "marks_ok st'"
  using assms
proof (induction ops arbitrary: st)
  case (Cons op ops)
  then obtain st1 where s: "pub_step op st = Some st1" "pub_run ops st1 = Some st'" using pub_run_cons by blast
  show ?case using pub_step_marks [OF s(1)] Cons.IH [OF s(2)] Cons.prems by auto
qed simp

theorem marks_within_sequence_witness:
  "\<exists>st'. pub_run [OpNote plain_env no_sessions (plain_note ''read'' 2), small_op] small_talk = Some st' \<and> marks_ok st'"
proof -
  let ?ops = "[OpNote plain_env no_sessions (plain_note ''read'' 2), small_op]"
  have ok: "list_all op_ok ?ops" by (simp add: plain_note_def small_op_def)
  obtain st1 where 1: "pub_step (hd ?ops) small_talk = Some st1" using step_returns [OF small_several] by blast
  then have "several (pub_topic st1)" using several_step [OF small_several 1] ok by simp
  then obtain st2 where "pub_step small_op st1 = Some st2" using step_returns by blast
  then have "pub_run ?ops small_talk = Some st2" using 1 by simp
  then show ?thesis using marks_within_sequence [OF _ ok small_marks_ok] by blast
qed





end
