(* ===== verification/PublishGaps.thy ===== *)
theory PublishGaps
  imports PublishGuarantees OnlineSteps
begin

text \<open>
  Who gets a copy of a message, compared with a broadcast that prepares one for each session; and the two places
  where what the topic keeps and what is stored part.
\<close>

section \<open>A copy for each session\<close>

fun broadcast_each ::
  "pub_env \<Rightarrow> sess_table \<Rightarrow> string \<Rightarrow> out_msg \<Rightarrow> (sref \<times> perSessionData) list \<Rightarrow> tsys \<Rightarrow> (sref list \<times> tsys) option" where
  "broadcast_each env ss skipSid msg [] s = Some ([], s)"
| "broadcast_each env ss skipSid msg ((sess, pssd) # rest) s =
     (if broadcast_skips env ss (sy_topic s) skipSid msg sess pssd then broadcast_each env ss skipSid msg rest s
      else
        case prepareBroadcastableMessage (sy_topic s) msg (pssd_uid pssd) (pssd_isChanSub pssd) of
          None \<Rightarrow> None
        | Some copy \<Rightarrow>
            if pv_accepts env sess then broadcast_each env ss skipSid msg rest (emit (Queue sess copy) s)
            else map_option (\<lambda>(drops, s'). (sess # drops, s')) (broadcast_each env ss skipSid msg rest s))"

text \<open>The prepared messages that are shared are those that each session would get.\<close>

definition shares :: "topic \<Rightarrow> out_msg \<Rightarrow> (sref \<times> perSessionData) list \<Rightarrow> out_msg option \<times> out_msg option \<Rightarrow> bool" where
  "shares t msg xs vs \<longleftrightarrow> (\<forall>(x, p) \<in> set xs. \<forall>m.
     (if pssd_isChanSub p then snd vs else fst vs) = Some m \<longrightarrow>
       prepareBroadcastableMessage t msg (pssd_uid p) (pssd_isChanSub p) = Some m)"

definition members_attach :: "topic \<Rightarrow> (sref \<times> perSessionData) list \<Rightarrow> bool" where
  "members_attach t xs \<longleftrightarrow> (\<forall>(x, p) \<in> set xs. \<not> pssd_isChanSub p \<longrightarrow> \<not> pud_isChan (pud_of t (pssd_uid p)))"

lemma prepare_group:
  assumes "t_cat t = TopicCatGrp" "\<not> chan \<longrightarrow> \<not> pud_isChan (pud_of t u)" "\<not> chan \<longrightarrow> \<not> pud_isChan (pud_of t v)"
  shows "prepareBroadcastableMessage t msg u chan = prepareBroadcastableMessage t msg v chan"
  using assms by (cases msg) (auto simp: broadcast_name_def original_def)

lemma loop_each:
  assumes "t_cat (sy_topic s) = TopicCatGrp \<longrightarrow> members_attach (sy_topic s) xs" "t_cat (sy_topic s) = TopicCatGrp \<longrightarrow> shares (sy_topic s) msg xs vs"
  shows "broadcast_loop env ss skip msg xs vs s = broadcast_each env ss skip msg xs s"
  using assms
proof (induction xs arbitrary: vs s)
  case (Cons x xs)
  obtain sess pssd where x: "x = (sess, pssd)" by fastforce
  let ?t = "sy_topic s" and ?chan = "pssd_isChanSub pssd"
  have rest: "t_cat ?t = TopicCatGrp \<longrightarrow> members_attach ?t xs" "t_cat ?t = TopicCatGrp \<longrightarrow> shares ?t msg xs vs"
    using Cons.prems by (auto simp: members_attach_def shares_def)
  show ?case
  proof (cases "broadcast_skips env ss ?t skip msg sess pssd")
    case True
    then show ?thesis using Cons.IH [of s vs] rest by (simp add: x Let_def)
  next
    case False
    let ?shared = "t_cat ?t = TopicCatGrp \<and> si_multi (ss sess) = None \<and> \<not> is_multiplex ss sess"
    let ?found = "if ?shared then (if ?chan then snd vs else fst vs) else None"
    let ?prep = "prepareBroadcastableMessage ?t msg (pssd_uid pssd) ?chan"
    have found: "(case ?found of Some m \<Rightarrow> Some m | None \<Rightarrow> ?prep) = ?prep"
      using Cons.prems(2) by (auto simp: shares_def x split: option.split)
    show ?thesis
    proof (cases ?prep)
      case None
      then show ?thesis using found False
        unfolding x broadcast_loop.simps Let_def if_not_P [OF False] by (simp add: x)
    next
      case (Some copy)
      let ?vs = "if \<not> ?shared then vs else if ?chan then (fst vs, Some copy) else (Some copy, snd vs)"
      have sh: "t_cat ?t = TopicCatGrp \<longrightarrow> shares ?t msg xs ?vs"
      proof (cases ?shared)
        case True
        have "prepareBroadcastableMessage ?t msg (pssd_uid p) (pssd_isChanSub p) = Some copy"
          if "(y, p) \<in> set xs" "pssd_isChanSub p = ?chan" for y p
          using prepare_group [of ?t ?chan "pssd_uid p" "pssd_uid pssd" msg] Some that Cons.prems(1) True
          by (auto simp: members_attach_def x)
        then show ?thesis using rest(2) by (auto simp: shares_def split: if_splits)
      qed (use rest(2) in auto)
      have ih: "broadcast_loop env ss skip msg xs ?vs s' = broadcast_each env ss skip msg xs s'" if "sy_topic s' = ?t" for s'
        using Cons.IH [of s' ?vs] rest(1) sh that by simp
      show ?thesis using found False Some ih [of s] ih [of "emit (Queue sess copy) s"]
        unfolding x broadcast_loop.simps Let_def if_not_P [OF False] by simp
    qed
  qed
qed simp

text \<open>C30. Sharing the prepared messages of a group changes nothing: every session gets the copy prepared for it, if no user
  that reads as a channel subscriber is attached as a member.\<close>

theorem broadcast_shares_copies:
  assumes "t_cat (sy_topic s) = TopicCatGrp \<longrightarrow> members_attach (sy_topic s) (t_sessions (sy_topic s))"
  shows "broadcast_loop env ss skip msg (t_sessions (sy_topic s)) (None, None) s =
    broadcast_each env ss skip msg (t_sessions (sy_topic s)) s"
  by (rule loop_each [OF assms]) (simp add: shares_def)

definition two_readers :: tsys where
  "two_readers = on_topic (\<lambda>t. (set_pud 5 ((group_pud 0x2F 0x2F)\<lparr>pud_isChan := True, pud_online := 1\<rparr>) t)\<lparr>t_isChan := True,
     t_sessions := [(0, \<lparr>pssd_uid = 5, pssd_isChanSub = True, pssd_muids = []\<rparr>), (1, \<lparr>pssd_uid = 2, pssd_isChanSub = False, pssd_muids = []\<rparr>)]\<rparr>)
     small_group"

theorem broadcast_shares_copies_witness:
  "broadcast_loop plain_env two_sessions ''none'' (OutData ''grpX'' ''usr'' (small_message 1 3 []))
     (t_sessions (sy_topic two_readers)) (None, None) two_readers =
   Some ([], emit (Queue 1 (OutData ''grpX'' ''usr'' (small_message 1 3 [])))
     (emit (Queue 0 (OutData ''chnX'' [] (small_message 1 3 []))) two_readers))"
proof -
  have u: "pud_of (sy_topic two_readers) 2 = group_pud 0x2F 0x2F"
    by (simp add: two_readers_def pud_of_def set_pud_def update_conv' small_group_def small_puds_def)
  have a: "members_attach (sy_topic two_readers) (t_sessions (sy_topic two_readers))"
    using u by (simp add: members_attach_def) (simp add: two_readers_def)
  have n: "GrpToChn ''grpX'' = ''chnX''" by code_simp
  have t: "t_sessions (sy_topic two_readers) = [(0, \<lparr>pssd_uid = 5, pssd_isChanSub = True, pssd_muids = []\<rparr>),
      (1, \<lparr>pssd_uid = 2, pssd_isChanSub = False, pssd_muids = []\<rparr>)]" "t_cat (sy_topic two_readers) = TopicCatGrp"
    "t_isChan (sy_topic two_readers)" "t_xoriginal (sy_topic two_readers) = ''grpX''"
    by (simp_all add: two_readers_def small_group_def set_pud_def)
  have r: "userIsReader (sy_topic two_readers) 2" 
  proof -
    have "IsReader 0x2F" by code_simp
    then show ?thesis using u by (simp add: userIsReader_def getPerUserAcs_def uid_IsZero_def ZeroUid_def)
  qed
  show ?thesis
    unfolding broadcast_shares_copies [OF a [THEN impI]]
    using r u n
    by (simp add: t broadcast_skips_def two_sessions_def no_sessions_def is_multiplex_def broadcast_name_def original_def plain_env_def)
qed

section \<open>A channel reader's marks\<close>

text \<open>The read mark of a channel reader is stored, but not kept by the topic.\<close>

lemma reader_note:
  assumes "handleNoteBroadcast env ss interact n st = Some st'" "nt_What n = ''read''"
    "verifyChannelAccess (pub_topic st) (nt_Original n) = Inr True" "\<not> isInactive (pub_topic st)"
    "nt_SeqId n \<le> t_lastID (pub_topic st)" "0 < nt_SeqId n" "pud_readID (pud_of (pub_topic st) (nt_asUid n)) < nt_SeqId n"
    "IsReader (eff_mode (pud_of (pub_topic st) (nt_asUid n)))" "\<not> pud_deleted (pud_of (pub_topic st) (nt_asUid n))"
    "pv_mark env = None" "nt_asUid n \<noteq> 0" "row_marks (pub_db st) (nt_Topic n, nt_asUid n) = Some (x, y)"
  shows "pub_topic st' = pub_topic st \<and> row_marks (pub_db st') (nt_Topic n, nt_asUid n) = Some (nt_SeqId n, y)"
proof -
  let ?pud = "pud_of (pub_topic st) (nt_asUid n)"
  let ?p = "read_mark (pub_topic st) True (pv_now env) (nt_SeqId n) ?pud"
  have p: "pud_readID ?p = nt_SeqId n" by (auto simp: read_mark_def Let_def)
  let ?upd = "no_update\<lparr>su_RecvSeqId := None, su_ReadSeqId := Some (nt_SeqId n), su_ReadHistory := None\<rparr>"
  obtain e db where u: "SubsUpdate None (pv_now env) (nt_Topic n) (nt_asUid n) ?upd (sy_db (ps_sys st)) = (e, db)" by fastforce
  have e: "e = None" using u by (auto simp: SubsUpdate_def no_update_def split: if_splits)
  have row: "row_marks db (nt_Topic n, nt_asUid n) = Some (nt_SeqId n, y)"
    using SubsUpdate_marks [OF u assms(11)] assms(12) e by (simp add: pub_db_def no_update_def opt_or_def)
  have "marks_note env ss n True (eff_mode ?pud) ?pud st = Some st'"
    using assms(1-5,8,9) by (simp add: handleNoteBroadcast_def Let_def)
  then obtain b where "store_marks env ss n True (eff_mode ?pud) ?p (nt_SeqId n) 0 (pud_readID ?pud - nt_SeqId n) st = (b, st')"
    using assms(2,6,7) p by (auto simp: marks_note_def Let_def split: prod.splits bool.splits)
  moreover from this have "pub_db st' = db"
    using u e assms(6,10) by (auto simp: store_marks_def Let_def subs_Update_def pub_db_def note_reply_def on_sys_def)
  ultimately show ?thesis using store_marks_same row by blast
qed

text \<open>A later note with a smaller number is not stale then, and the stored mark goes back to it.\<close>

theorem reader_mark_goes_back:
  assumes "handleNoteBroadcast env ss interact n1 st = Some st1" "handleNoteBroadcast env2 ss2 interact n2 st1 = Some st2"
    and "nt_What n1 = ''read''" "nt_What n2 = ''read''" "nt_asUid n1 = u" "nt_asUid n2 = u" "u \<noteq> 0"
    and "nt_Topic n1 = tp" "nt_Topic n2 = tp" "verifyChannelAccess (pub_topic st) (nt_Original n1) = Inr True"
    and "verifyChannelAccess (pub_topic st) (nt_Original n2) = Inr True" "\<not> isInactive (pub_topic st)"
    and "IsReader (eff_mode (pud_of (pub_topic st) u))" "\<not> pud_deleted (pud_of (pub_topic st) u)"
    and "pud_readID (pud_of (pub_topic st) u) < nt_SeqId n2" "0 < nt_SeqId n2" "nt_SeqId n2 < nt_SeqId n1"
    and "nt_SeqId n1 \<le> t_lastID (pub_topic st)" "pv_mark env = None" "pv_mark env2 = None"
    and "row_marks (pub_db st) (tp, u) = Some (x, y)"
  shows "row_marks (pub_db st1) (tp, u) = Some (nt_SeqId n1, y) \<and> row_marks (pub_db st2) (tp, u) = Some (nt_SeqId n2, y)"
proof -
  have 1: "pub_topic st1 = pub_topic st" "row_marks (pub_db st1) (tp, u) = Some (nt_SeqId n1, y)"
    using reader_note [OF assms(1,3,10,12)] assms(5,7,8,13-) by simp_all
  have "row_marks (pub_db st2) (tp, u) = Some (nt_SeqId n2, y)"
    using reader_note [OF assms(2,4)] 1 assms(6,7,9,11-) by simp
  then show ?thesis using 1 by simp
qed

definition reader_talk :: psys where
  "reader_talk = small_talk\<lparr>ps_sys := two_readers\<lparr>sy_db := (sy_db small_group)\<lparr>sd_subs :=
     (sd_subs (sy_db small_group))((''chnX'', 5) \<mapsto> group_row (group_pud 0x2F 0x2F))\<rparr>\<rparr>\<rparr>"

definition reader_note_of :: "int \<Rightarrow> note_req" where
  "reader_note_of seq = (plain_note ''read'' seq)\<lparr>nt_Original := ''chnX'', nt_Topic := ''chnX'', nt_asUid := 5\<rparr>"

theorem reader_mark_goes_back_witness:
  "\<exists>st1 st2. handleNoteBroadcast plain_env no_sessions (\<lambda>_. Some) (reader_note_of 3) reader_talk = Some st1 \<and>
     handleNoteBroadcast plain_env no_sessions (\<lambda>_. Some) (reader_note_of 2) st1 = Some st2 \<and>
     row_marks (pub_db st1) (''chnX'', 5) = Some (3, 0) \<and> row_marks (pub_db st2) (''chnX'', 5) = Some (2, 0)"
proof -
  let ?n = reader_note_of
  have t: "pub_topic reader_talk = sy_topic two_readers" by (simp add: reader_talk_def)
  have u: "pud_of (sy_topic two_readers) 5 = (group_pud 0x2F 0x2F)\<lparr>pud_isChan := True, pud_online := 1\<rparr>"
    by (simp add: two_readers_def pud_of_def set_pud_def update_conv')
  have top: "t_isChan (sy_topic two_readers)" "t_lastID (sy_topic two_readers) = 3" "\<not> isInactive (sy_topic two_readers)"
    "t_cat (sy_topic two_readers) = TopicCatGrp"
    using small_active(1) by (simp_all add: two_readers_def small_group_def set_pud_def isInactive_def)
  have s: "several (pub_topic reader_talk)" by (simp add: t several_def sessions_known_def top) (simp add: two_readers_def)
  have nt: "nt_What (?n q) = ''read''" "nt_asUid (?n q) = 5" "nt_Topic (?n q) = ''chnX''" "nt_Original (?n q) = ''chnX''"
    "nt_SeqId (?n q) = q" for q by (simp_all add: reader_note_of_def plain_note_def)
  obtain st1 where 1: "handleNoteBroadcast plain_env no_sessions (\<lambda>_. Some) (?n 3) reader_talk = Some st1"
    using note_returns [OF s, of "\<lambda>_. Some" "?n 3" plain_env no_sessions] by auto
  have q1: "quiet_note reader_talk st1" by (rule note_quiet [OF 1]) (simp_all add: nt)
  have "several (pub_topic st1)" by (rule several_mono [OF s]) (use q1 in \<open>simp_all add: quiet_note_def same_log_def\<close>)
  then obtain st2 where 2: "handleNoteBroadcast plain_env no_sessions (\<lambda>_. Some) (?n 2) st1 = Some st2"
    using note_returns [of st1 "\<lambda>_. Some" "?n 2" plain_env no_sessions] by auto
  have chan: "IsChannel ''chnX''" by code_simp
  have eff: "eff_mode (pud_of (sy_topic two_readers) 5) = 0x2F" "IsReader 0x2F"
    using plain_writer(3) by (simp add: u eff_mode_def) code_simp
  have "row_marks (pub_db reader_talk) (''chnX'', 5) = Some (0, 0)"
    by (simp add: row_marks_def reader_talk_def pub_db_def group_row_def)
  from reader_mark_goes_back [OF 1 2, of 5 "''chnX''" 0 0] this show ?thesis using 1 2 chan eff top
    by (simp add: nt t verifyChannelAccess_def u zero_pud_def group_pud_def)
qed

section \<open>The modes of a refreshed member\<close>

lemma quiet_broadcast: "t_sessions (sy_topic s) = [] \<Longrightarrow> broadcastToSessions env ss skip msg s = Some s"
  by (simp add: broadcastToSessions_def)

lemma push_same: "sy_topic (sendPushForData u m b s) = sy_topic s"
  by (simp add: sendPushForData_def split: option.split)

lemma stored_pud:
  assumes "publish_stored env ss req u noEcho pud True marked m st = Some (None, st')" "t_sessions (pub_topic st) = []"
  shows "\<exists>seq. pud_of (pub_topic st') u = pud\<lparr>pud_readID := seq, pud_recvID := seq\<rparr>"
proof -
  define st1 where "st1 = on_sys (on_topic (\<lambda>t. t\<lparr>t_lastID := t_lastID t + 1, t_touched := pm_Timestamp req\<rparr>)) st"
  obtain st2 where a: "archiveForCompliance env req u m st1 = Some (None, st2)"
    using assms(1) unfolding publish_stored_def Let_def st1_def [symmetric]
    by (cases "archiveForCompliance env req u m st1") (auto split: option.splits)
  define p where "p = pud\<lparr>pud_readID := t_lastID (pub_topic st2), pud_recvID := t_lastID (pub_topic st2)\<rparr>"
  define st3 where "st3 = on_sys (on_topic (set_pud u p)) st2"
  obtain st4 s5 where 4: "(if pm_Id req \<noteq> [] then tell (pm_sess req) u (NoErrAcceptedReply ((''seq'', AInt (t_lastID (pub_topic st2))) #
      (if pm_ClientId req \<noteq> [] then [(''cid'', AStr (pm_ClientId req))] else []))) st3 else Some st3) = Some st4"
    and 5: "sy_topic s5 = pub_topic st4"
    and st': "broadcastToSessions env ss (skip_sid ss req noEcho) (OutData (pm_Original req) (pm_AsUser req) m) s5 \<bind>
      (\<lambda>s6. Some (None :: pub_error option, st4\<lparr>ps_sys := sendPushForData u m marked s6\<rparr>)) = Some (None, st')"
  proof -
    let ?t = "if pm_Id req \<noteq> [] then tell (pm_sess req) u (NoErrAcceptedReply ((''seq'', AInt (t_lastID (pub_topic st2))) #
      (if pm_ClientId req \<noteq> [] then [(''cid'', AStr (pm_ClientId req))] else []))) st3 else Some st3"
    have "?t \<bind> (\<lambda>st4. broadcastToSessions env ss (skip_sid ss req noEcho) (OutData (pm_Original req) (pm_AsUser req) m)
        (emit (PluginMessage m PlgActCreate)
          (emit (Notice (PresSubsOffline ''msg'' (nilPresParams\<lparr>pp_seqID := t_lastID (pub_topic st2), pp_actor := pm_AsUser req\<rparr>) readFilter
               nilPresFilters [] True)) (ps_sys st4))) \<bind> (\<lambda>s6. Some (None :: pub_error option, st4\<lparr>ps_sys := sendPushForData u m marked s6\<rparr>))) = Some (None, st')"
      using assms(1)
      by (simp only: publish_stored_def Let_def st1_def [symmetric] a Option.bind.simps prod.case option.case if_True
          p_def [symmetric] st3_def [symmetric])
    then obtain st4 where r: "?t = Some st4" "broadcastToSessions env ss (skip_sid ss req noEcho) (OutData (pm_Original req) (pm_AsUser req) m)
        (emit (PluginMessage m PlgActCreate)
          (emit (Notice (PresSubsOffline ''msg'' (nilPresParams\<lparr>pp_seqID := t_lastID (pub_topic st2), pp_actor := pm_AsUser req\<rparr>) readFilter
               nilPresFilters [] True)) (ps_sys st4))) \<bind> (\<lambda>s6. Some (None :: pub_error option, st4\<lparr>ps_sys := sendPushForData u m marked s6\<rparr>)) = Some (None, st')"
      by (cases ?t) auto
    show thesis by (rule that [OF r(1) _ r(2)]) (simp add: pub_topic_def)
  qed
  have t4: "pub_topic st4 = pub_topic st3" using 4 tell_same by (auto split: if_split_asm)
  have "t_sessions (pub_topic st4) = []" using t4 assms(2) archive_unsaved [OF a] by (simp add: st3_def st1_def)
  then have "pub_topic st' = pub_topic st4" using st' 5 quiet_broadcast by (auto simp: push_same bind_eq_Some_conv)
  moreover have "pud_of (pub_topic st3) u = p" by (simp add: st3_def)
  ultimately show ?thesis using t4 p_def by auto
qed

text \<open>The route of a message that is stored.\<close>

lemma save_stored:
  assumes "publish_save env ss req u noEcho pud found msg st = Some (e, st')" "ps_msgs st' \<noteq> ps_msgs st"
  shows "\<exists>marked m st1. publish_stored env ss req u noEcho pud found marked m st1 = Some (e, st') \<and> pub_topic st1 = pub_topic st"
proof -
  obtain r marked m1 db1 subs1 where
    s: "messages_Save env msg (IsReader (eff_mode pud)) (ps_msgs st) (sy_db (ps_sys st)) = (r, marked, m1, db1, subs1)"
    by (metis prod_cases5)
  let ?st1 = "on_sys (set_db subs1) (st\<lparr>ps_msgs := db1\<rparr>)"
  note def = assms(1) [unfolded publish_save_def s prod.case]
  show ?thesis
  proof (cases r)
    case None
    then have "publish_stored env ss req u noEcho pud found marked m1 ?st1 = Some (e, st')" using def by simp
    then show ?thesis by (intro exI [of _ marked] exI [of _ m1] exI [of _ ?st1]) simp
  next
    case (Some err)
    have "db1 = ps_msgs st" using s Some by (auto elim!: messages_Save_cases)
    define st2 where "st2 = (if err = ErrClusterFenced then on_sys (emit (StatsInc ''ClusterFencingRejected'')) ?st1 else ?st1)"
    have 2: "ps_msgs st2 = ps_msgs st" using \<open>db1 = ps_msgs st\<close> by (simp add: st2_def)
    have "(\<exists>m. publish_duplicate env ss req u noEcho m st2 = Some (e, st')) \<or> (\<exists>rep. tell (pm_sess req) u rep st2 = Some st')"
      using def Some by (simp only: option.case Let_def st2_def [symmetric]) (auto split: sum.split_asm option.split_asm)
    then have "ps_msgs st' = ps_msgs st" using 2 duplicate_unsaved tell_same by (auto simp: unsaved_def)
    then show ?thesis using assms(2) by simp
  qed
qed

lemma publish_route:
  assumes "saveAndBroadcastMessage env ss req u noEcho atts head content st = Some (e, st')" "ps_msgs st' \<noteq> ps_msgs st"
  shows "\<exists>marked m st1. publish_stored env ss req u noEcho (pud_of (pub_topic st) u) (has_pud (pub_topic st) u) marked m st1 = Some (e, st') \<and>
    set (t_sessions (pub_topic st1)) \<subseteq> set (t_sessions (pub_topic st))"
proof -
  let ?pud = "pud_of (pub_topic st) u" and ?found = "has_pud (pub_topic st) u"
  obtain err st1 where c: "publish_checks env req u (businessPolicyAction head content atts) st = Some (err, st1)"
    using assms by (cases "publish_checks env req u (businessPolicyAction head content atts) st")
      (auto simp: saveAndBroadcastMessage_def Let_def)
  have u1: "unsaved st st1" by (rule publish_checks_unsaved [OF c])
  let ?no = "\<lambda>e' r. map_option (\<lambda>st'. (Some e', st')) (tell (pm_sess req) u r st1) = Some (e, st')"
  have "st' = st1 \<or> (\<exists>e' r. ?no e' r) \<or> (\<exists>m. publish_duplicate env ss req u noEcho m st1 = Some (e, st')) \<or>
      (\<exists>msg. publish_save env ss req u noEcho ?pud ?found msg st1 = Some (e, st'))"
    using assms c
    by (auto simp: saveAndBroadcastMessage_def Let_def split: option.split_asm sum.split_asm if_split_asm prod.split_asm)
  then show ?thesis
  proof (elim disjE exE)
    fix msg assume "publish_save env ss req u noEcho ?pud ?found msg st1 = Some (e, st')"
    then show ?thesis using save_stored assms(2) u1 by (fastforce simp: unsaved_def loads_def)
  qed (use assms(2) u1 duplicate_unsaved tell_same in \<open>auto simp: unsaved_def\<close>)
qed


text \<open>A large group whose topic has the member 2 as one who may approve others; in the store it no longer may.\<close>

definition calm_policy :: officialTopicPolicy where
  "calm_policy = small_policy\<lparr>op_SlowModeSeconds := 0\<rparr>"

definition demoted :: tsys where
  "demoted = on_topic (\<lambda>t. (set_pud 2 (group_pud 0x3F 0x3F) t)\<lparr>t_official := Some calm_policy, t_officialRefreshedAt := Some 0\<rparr>) small_group"

definition demoted_talk :: psys where
  "demoted_talk = \<lparr>ps_sys = demoted, ps_msgs = small_store, ps_kv = []\<rparr>"


end
