(* ===== verification/TopicDelete.thy ===== *)
theory TopicDelete
  imports PublishGuarantees
begin

text \<open>
  Deleting messages (\<open>replyDelMsg\<close> of \<^verbatim>\<open>internal/server/topic_meta_delete.go\<close>, \<open>DeleteList\<close> of
  \<^verbatim>\<open>server/store/store_messages.go\<close>, \<open>messageDeleteList\<close> of \<^verbatim>\<open>server/db/mysql/messages.go\<close>): a user hides
  messages, or they are cleared for everybody; the transaction keeps a log of the ranges. Revoking the access to
  the files of deleted messages only logs its errors and is not part of the model.
\<close>

section \<open>The tables\<close>

text \<open>The messages, the subscriptions with the log of deletions, and the counter of deletions of each topic.\<close>

record del_db =
  dd_msgs :: "any msg_db"
  dd_subs :: subs_db
  dd_delid :: "string \<rightharpoonup> int"

datatype del_stmt = DelBegin | DelSelect | DelLinks | DelClear | DelLog | DelTopic | DelSubs | DelCommit

definition MessageGet :: "store_error option \<Rightarrow> string \<Rightarrow> int \<Rightarrow> any msg_db \<Rightarrow> store_error + any message option" where
  "MessageGet f topic seq db =
     (case f of
        Some e \<Rightarrow> Inl e
      | None \<Rightarrow> Inr (find (\<lambda>m. m_Topic m = topic \<and> m_SeqId m = seq \<and> m_DelId m = 0) (db_messages db)))"

text \<open>The condition that \<open>RangesToSql\<close> writes, for a list that is not empty and whose ranges are not: the ranges of a request
  that passed the checks, or those of numbers that were found.\<close>

definition range_listed :: "range list \<Rightarrow> int \<Rightarrow> bool" where
  "range_listed rs i =
     (if length rs > 1 \<or> Hi (hd rs) = 0
      then list_ex (\<lambda>r. if Hi r = 0 then i = Low r else Low r \<le> i \<and> i < Hi r) rs
      else Low (hd rs) \<le> i \<and> i \<le> Hi (hd rs) - 1)"

definition tombstone :: "int \<Rightarrow> any message \<Rightarrow> any message" where
  "tombstone delid m = m\<lparr>m_DelId := delid, m_From := uid_String 0, m_Head := Map.empty, m_Content := None\<rparr>"

text \<open>A message has a time of deletion exactly when its deletion id is not zero.\<close>

definition deletable :: "string \<Rightarrow> range list \<Rightarrow> go_time option \<Rightarrow> any message \<Rightarrow> bool" where
  "deletable topic ranges newerThan m =
     (m_Topic m = topic \<and> (ranges \<noteq> [] \<longrightarrow> range_listed ranges (m_SeqId m)) \<and> m_DelId m = 0 \<and>
      (case newerThan of None \<Rightarrow> True | Some t \<Rightarrow> m_CreatedAt m > t))"

definition clear_messages :: "string \<Rightarrow> int \<Rightarrow> range list \<Rightarrow> any msg_db \<Rightarrow> any msg_db" where
  "clear_messages topic delid ranges db =
     db\<lparr>db_messages := map (\<lambda>m. if m_Topic m = topic \<and> range_listed ranges (m_SeqId m) then tombstone delid m else m) (db_messages db)\<rparr>"

text \<open>The log of the ranges, and the counters of the topic and of the subscriptions.\<close>

definition log_deletion :: "(del_stmt \<Rightarrow> store_error option) \<Rightarrow> string \<Rightarrow> uid \<Rightarrow> int \<Rightarrow> range list \<Rightarrow> del_db \<Rightarrow> store_error + del_db" where
  "log_deletion f topic forUser delid ranges db =
     (case f DelLog of
        Some e \<Rightarrow> Inl e
      | None \<Rightarrow>
          let subs = dd_subs db;
              subs1 = subs\<lparr>sd_dellog := sd_dellog subs @ map (\<lambda>r. (topic, forUser, delid, Range (Low r) (range_end r))) ranges\<rparr>;
              subs2 = subs1\<lparr>sd_subs := (\<lambda>(tp, u). if tp = topic \<and> (uid_IsZero forUser \<or> u = forUser)
                then map_option (\<lambda>r. r\<lparr>sr_delid := delid\<rparr>) (sd_subs subs1 (tp, u)) else sd_subs subs1 (tp, u))\<rparr>
          in if delid > 0 then
               (case f DelTopic of
                  Some e \<Rightarrow> Inl e
                | None \<Rightarrow>
                    (case f DelSubs of
                       Some e \<Rightarrow> Inl e
                     | None \<Rightarrow> Inr (db\<lparr>dd_subs := subs2, dd_delid := (dd_delid db)(topic := map_option (\<lambda>_. delid) (dd_delid db topic))\<rparr>)))
             else Inr (db\<lparr>dd_subs := subs1\<rparr>))"

text \<open>Which messages to delete: a \<open>DelMessage\<close>, or nothing for the whole topic.\<close>

record del_message =
  dm_DelId :: int
  dm_DeletedFor :: uid
  dm_SeqIdRanges :: "range list"
  dm_newerThan :: "go_time option"

definition clear_topic :: "(del_stmt \<Rightarrow> store_error option) \<Rightarrow> string \<Rightarrow> del_db \<Rightarrow> store_error + del_db" where
  "clear_topic f topic db =
     (case f DelLog of
        Some e \<Rightarrow> Inl e
      | None \<Rightarrow>
          (case f DelClear of
             Some e \<Rightarrow> Inl e
           | None \<Rightarrow> Inr (db\<lparr>dd_subs := (dd_subs db)\<lparr>sd_dellog := filter (\<lambda>l. fst l \<noteq> topic) (sd_dellog (dd_subs db))\<rparr>,
               dd_msgs := (dd_msgs db)\<lparr>db_messages := filter (\<lambda>m. m_Topic m \<noteq> topic) (db_messages (dd_msgs db))\<rparr>\<rparr>)))"

definition delete_some ::
  "(del_stmt \<Rightarrow> store_error option) \<Rightarrow> string \<Rightarrow> uid \<Rightarrow> int \<Rightarrow> go_time option \<Rightarrow> range list \<Rightarrow> del_db \<Rightarrow> store_error + del_db" where
  "delete_some f topic forUser delid newerThan ranges db =
     (if uid_IsZero forUser then
        (case f DelSelect of
           Some e \<Rightarrow> Inl e
         | None \<Rightarrow>
             let seqIDs = sort (map m_SeqId (filter (deletable topic ranges newerThan) (db_messages (dd_msgs db)))) in
             if seqIDs = [] then Inr db
             else
               let delRanges = SliceToRanges seqIDs in
               (case f DelLinks of
                  Some e \<Rightarrow> Inl e
                | None \<Rightarrow>
                    (case f DelClear of
                       Some e \<Rightarrow> Inl e
                     | None \<Rightarrow> log_deletion f topic forUser delid delRanges
                         (db\<lparr>dd_msgs := clear_messages topic delid delRanges (dd_msgs db)\<rparr>))))
      else log_deletion f topic forUser delid ranges db)"

definition messageDeleteList :: "(del_stmt \<Rightarrow> store_error option) \<Rightarrow> string \<Rightarrow> del_message option \<Rightarrow> del_db \<Rightarrow> store_error + del_db" where
  "messageDeleteList f topic toDel db =
     (case toDel of
        None \<Rightarrow> clear_topic f topic db
      | Some d \<Rightarrow> delete_some f topic (dm_DeletedFor d) (dm_DelId d) (dm_newerThan d) (dm_SeqIdRanges d) db)"

text \<open>The transaction: an error of any statement leaves the tables as they were.\<close>

definition MessageDeleteList ::
  "(del_stmt \<Rightarrow> store_error option) \<Rightarrow> string \<Rightarrow> del_message option \<Rightarrow> del_db \<Rightarrow> store_error option \<times> del_db" where
  "MessageDeleteList f topic toDel db =
     (case f DelBegin of
        Some e \<Rightarrow> (Some e, db)
      | None \<Rightarrow>
          (case messageDeleteList f topic toDel db of
             Inl e \<Rightarrow> (Some e, db)
           | Inr db1 \<Rightarrow> (case f DelCommit of Some e \<Rightarrow> (Some e, db) | None \<Rightarrow> (None, db1))))"

text \<open>The numbers of a range, one after the other.\<close>

definition range_list :: "range \<Rightarrow> int list" where
  "range_list r = [Low r..range_end r - 1]"

fun read_messages :: "(int \<Rightarrow> store_error option) \<Rightarrow> string \<Rightarrow> int list \<Rightarrow> any msg_db \<Rightarrow> store_error option" where
  "read_messages f topic [] db = None"
| "read_messages f topic (i # is) db =
     (case MessageGet (f i) topic i db of Inl e \<Rightarrow> Some e | Inr _ \<Rightarrow> read_messages f topic is db)"

record del_env =
  de_now :: go_time
  de_msgDeleteAge :: int
  de_check :: "int \<Rightarrow> store_error option"
  de_read :: "int \<Rightarrow> store_error option"
  de_stmt :: "del_stmt \<Rightarrow> store_error option"
  de_aux :: "store_error option"

text \<open>Before a hard deletion \<open>DeleteList\<close> reads the ids of the messages; a \<open>delID\<close> that is not positive stands for the
  whole topic.\<close>

definition messages_DeleteList ::
  "del_env \<Rightarrow> string \<Rightarrow> int \<Rightarrow> uid \<Rightarrow> int \<Rightarrow> range list \<Rightarrow> del_db \<Rightarrow> store_error option \<times> del_db" where
  "messages_DeleteList env topic delID forUser msgDelAge ranges db =
     (let toDel = (if delID > 0
            then Some \<lparr>dm_DelId = delID, dm_DeletedFor = forUser, dm_SeqIdRanges = ranges,
                   dm_newerThan = if msgDelAge > 0 then Some (de_now env - msgDelAge) else None\<rparr>
            else None)
      in case (if uid_IsZero forUser \<and> toDel \<noteq> None then read_messages (de_read env) topic (concat (map range_list ranges)) (dd_msgs db) else None) of
        Some e \<Rightarrow> (Some e, db)
      | None \<Rightarrow> MessageDeleteList (de_stmt env) topic toDel db)"

section \<open>The request\<close>

definition defaultMaxDeleteCount :: int where "defaultMaxDeleteCount = 1024"

text \<open>The ranges of a request, checked and cut to the messages there are, with the number of messages in them.\<close>

fun del_ranges :: "int \<Rightarrow> (int \<times> int) list \<Rightarrow> (int \<times> range list) option" where
  "del_ranges lastID [] = Some (0, [])"
| "del_ranges lastID ((low, hi) # rest) =
     (if low > lastID \<or> low < 0 \<or> hi < 0 \<or> hi > 0 \<and> low > hi \<or> low = 0 \<and> hi = 0 then None
      else
        let hi' = (if hi > lastID then lastID + 1 else if low = hi \<or> low + 1 = hi then 0 else hi);
            n = (if hi' = 0 then 1 else hi' - low)
        in map_option (\<lambda>(number, rs). (n + number, Range low hi' # rs)) (del_ranges lastID rest))"

definition delete_ranges :: "int \<Rightarrow> (int \<times> int) list \<Rightarrow> range list option" where
  "delete_ranges lastID delSeq =
     (if delSeq = [] then None
      else
        case del_ranges lastID delSeq of
          None \<Rightarrow> None
        | Some (number, rs) \<Rightarrow>
            let ranges = Normalize (sort_ranges rs) in
            if number > defaultMaxDeleteCount \<and> length ranges > 1 then None else Some ranges)"

datatype del_error = DelNotAllowed | DelDenied | DelMalformed | DelNotSender | DelStore store_error

text \<open>A member who may not delete for others hard-deletes only what they sent.\<close>

fun check_senders :: "(int \<Rightarrow> store_error option) \<Rightarrow> string \<Rightarrow> uid \<Rightarrow> int list \<Rightarrow> any msg_db \<Rightarrow> (del_error \<times> reply) option" where
  "check_senders f topic asUid [] db = None"
| "check_senders f topic asUid (i # is) db =
     (case MessageGet (f i) topic i db of
        Inl e \<Rightarrow> Some (DelStore e, ErrUnknownReply)
      | Inr (Some m) \<Rightarrow>
          if ParseUid (m_From m) \<noteq> asUid then Some (DelNotSender, ErrPermissionDeniedReply) else check_senders f topic asUid is db
      | Inr None \<Rightarrow> check_senders f topic asUid is db)"

section \<open>Pinned messages\<close>

text \<open>\<open>topicPins\<close> reads a list of numbers of any representation; the pins the server stores are positive, so a typed list
  and one of values are read alike. Anything else decodes to no pins.\<close>

definition topicPinsKey :: string where "topicPinsKey = ''pins''"

definition intHeadValue :: "any \<Rightarrow> int" where
  "intHeadValue v = (case v of AInt i \<Rightarrow> i | AFloat r \<Rightarrow> (if r < 0 then - \<lfloor>- r\<rfloor> else \<lfloor>r\<rfloor>) | _ \<Rightarrow> 0)"

definition topicPins :: "(string \<times> any) list \<Rightarrow> int list" where
  "topicPins aux =
     (case map_of aux topicPinsKey of
        Some (AList vs) \<Rightarrow> filter (\<lambda>i. i > 0) (map intHeadValue vs)
      | _ \<Rightarrow> [])"

definition unpin_deleted :: "del_env \<Rightarrow> range list \<Rightarrow> string \<Rightarrow> tsys \<Rightarrow> tsys" where
  "unpin_deleted env ranges sid s =
     (let pins = topicPins (t_aux (sy_topic s));
          kept = filter (\<lambda>pin. \<not> list_ex (\<lambda>r. Low r \<le> pin \<and> pin < range_end r) ranges) pins
      in if pins = [] \<or> length kept = length pins then s
         else
           case de_aux env of
             Some e \<Rightarrow> emit (StoreError e) s
           | None \<Rightarrow>
               emit (Notice (PresSubsOnline ''aux'' [] nilPresParams nilPresFilters sid))
                 (on_topic (\<lambda>t. t\<lparr>t_aux := AList.update topicPinsKey (AList (map AInt kept)) (t_aux t)\<rparr>) s))"

section \<open>Deleting\<close>

record del_sys =
  ds_sys :: tsys
  ds_msgs :: "any msg_db"
  ds_delid :: "string \<rightharpoonup> int"

definition del_db_of :: "del_sys \<Rightarrow> del_db" where
  "del_db_of st = \<lparr>dd_msgs = ds_msgs st, dd_subs = sy_db (ds_sys st), dd_delid = ds_delid st\<rparr>"

definition with_db :: "del_db \<Rightarrow> del_sys \<Rightarrow> del_sys" where
  "with_db db st = \<lparr>ds_sys = set_db (dd_subs db) (ds_sys st), ds_msgs = dd_msgs db, ds_delid = dd_delid db\<rparr>"

definition say :: "teffect \<Rightarrow> del_sys \<Rightarrow> del_sys" where
  "say e st = st\<lparr>ds_sys := emit e (ds_sys st)\<rparr>"

text \<open>Everybody's counter moves, and readers lose unread messages.\<close>

definition recount :: "int \<Rightarrow> range list \<Rightarrow> tsys \<Rightarrow> tsys" where
  "recount delID ranges s =
     (let t = sy_topic s;
          lost = filter (\<lambda>(u, n). n > 0) (map (\<lambda>(u, p). (u, calculateUnreadInRanges (pud_readID p) (t_lastID t) ranges))
            (filter (\<lambda>(u, p). IsReader (eff_mode p)) (t_perUser t)))
      in fold (\<lambda>(u, n). emit (UsersUpdateUnread u (- n) True)) lost
           (on_topic (\<lambda>t. t\<lparr>t_perUser := map (\<lambda>(u, p). (u, p\<lparr>pud_delID := delID\<rparr>)) (t_perUser t)\<rparr>) s))"

definition hard_deleted :: "del_env \<Rightarrow> uid \<Rightarrow> string \<Rightarrow> range list \<Rightarrow> tsys \<Rightarrow> tsys" where
  "hard_deleted env asUid sid ranges s =
     (let delID = t_delID (sy_topic s);
          actor = UserId asUid;
          params = nilPresParams\<lparr>pp_delID := delID, pp_delSeq := ranges, pp_actor := actor\<rparr>;
          filters = nilPresFilters\<lparr>pf_filterIn := ModeRead\<rparr>
      in emit (Notice (PresSubsOffline ''del'' params filters nilPresFilters sid True))
           (emit (Notice (PresSubsOnline ''del'' actor params filters sid))
             (recount delID ranges (unpin_deleted env ranges sid s))))"

definition soft_deleted :: "uid \<Rightarrow> string \<Rightarrow> range list \<Rightarrow> tsys \<Rightarrow> tsys" where
  "soft_deleted asUid sid ranges s =
     (let delID = t_delID (sy_topic s); pud = (pud_of (sy_topic s) asUid)\<lparr>pud_delID := delID\<rparr> in
      emit (Notice (PresPubMessageDelete asUid (eff_mode pud) delID ranges sid)) (on_topic (set_pud asUid pud) s))"

definition replyDelMsg ::
  "del_env \<Rightarrow> sess_table \<Rightarrow> sref \<Rightarrow> uid \<Rightarrow> bool \<Rightarrow> (int \<times> int) list \<Rightarrow> bool \<Rightarrow> del_sys \<Rightarrow> del_error option \<times> del_sys" where
  "replyDelMsg env ss sess asUid asChan delSeq hard st =
     (let t = sy_topic (ds_sys st);
          pud = pud_of t asUid;
          mode = eff_mode pud;
          no = (\<lambda>e r st. (Some e, say (Reply r) st))
      in if asChan \<or> pud_isChan pud then no DelNotAllowed ErrOperationNotAllowedReply st
         else if \<not> IsDeleter mode \<and> \<not> IsReader mode then no DelDenied ErrPermissionDeniedReply st
         else
           case delete_ranges (t_lastID t) delSeq of
             None \<Rightarrow> no DelMalformed ErrMalformedReply st
           | Some ranges \<Rightarrow>
               (case (if hard \<and> \<not> IsDeleter mode
                      then check_senders (de_check env) (t_name t) asUid (concat (map range_list ranges)) (ds_msgs st) else None) of
                  Some (e, r) \<Rightarrow> no e r st
                | None \<Rightarrow>
                    (case messages_DeleteList env (t_name t) (t_delID t + 1) (if hard then 0 else asUid)
                        (if hard then de_msgDeleteAge env else 0) ranges (del_db_of st) of
                       (Some e, db) \<Rightarrow> no (DelStore e) ErrUnknownReply (with_db db st)
                     | (None, db) \<Rightarrow>
                         let s1 = on_topic (\<lambda>t. t\<lparr>t_delID := t_delID t + 1\<rparr>) (ds_sys (with_db db st));
                             sid = si_sid (ss sess);
                             s2 = (if hard then hard_deleted env asUid sid ranges s1 else soft_deleted asUid sid ranges s1)
                         in (None, say (Reply (NoErrParamsReply [(''del'', AInt (t_delID t + 1))])) ((with_db db st)\<lparr>ds_sys := s2\<rparr>)))))"

section \<open>What a deletion changes\<close>

lemma normalize_loop_nonempty: "rs \<noteq> [] \<Longrightarrow> normalize_loop n i prev rs \<noteq> []"
  by (induction n i prev rs rule: normalize_loop.induct) auto

lemma delete_ranges_nonempty: "delete_ranges lastID delSeq = Some ranges \<Longrightarrow> ranges \<noteq> []"
proof -
  assume a: "delete_ranges lastID delSeq = Some ranges"
  then obtain n rs where r: "delSeq \<noteq> []" "del_ranges lastID delSeq = Some (n, rs)" "ranges = Normalize (sort_ranges rs)"
    by (auto simp: delete_ranges_def Let_def split: if_splits option.splits)
  have "rs \<noteq> []" using r(1,2) by (cases delSeq) (auto simp: Let_def split: if_splits option.splits)
  then have "sort_ranges rs \<noteq> []" by (metis length_0_conv length_sort sort_ranges_def)
  then show ?thesis using r(3) normalize_loop_nonempty by (simp add: Normalize_def)
qed

lemma range_listed_ids: "rs \<noteq> [] \<Longrightarrow> range_listed rs i \<longleftrightarrow> i \<in> ranges_ids rs"
proof -
  assume ne: "rs \<noteq> []"
  have each: "(if Hi r = 0 then i = Low r else Low r \<le> i \<and> i < Hi r) \<longleftrightarrow> i \<in> range_ids r" for r
    by (auto simp: range_ids_def range_end_def)
  show ?thesis
  proof (cases "length rs > 1 \<or> Hi (hd rs) = 0")
    case True
    then show ?thesis by (auto simp: range_listed_def list_ex_iff each ranges_ids_def)
  next
    case False
    then obtain r where r: "rs = [r]" using ne by (cases rs; cases "tl rs") auto
    show ?thesis using False each [of r] by (auto simp: range_listed_def ranges_ids_def r)
  qed
qed

lemma range_list_set [simp]: "set (range_list r) = range_ids r"
  by (auto simp: range_list_def range_ids_def)

text \<open>Every message of the topic has a number of its own, from 1.\<close>

definition numbered :: "string \<Rightarrow> any msg_db \<Rightarrow> bool" where
  "numbered topic db \<longleftrightarrow> db_wf db \<and> (\<forall>m \<in> set (db_messages db). m_Topic m = topic \<longrightarrow> 0 < m_SeqId m)"

lemma numbered_unique:
  assumes "numbered topic db" "m \<in> set (db_messages db)" "m' \<in> set (db_messages db)" "m_Topic m = topic" "m_Topic m' = topic"
    "m_SeqId m = m_SeqId m'"
  shows "m = m'"
proof -
  obtain i j where ij: "i < length (db_messages db)" "db_messages db ! i = m" "j < length (db_messages db)" "db_messages db ! j = m'"
    using assms(2,3) by (auto simp: in_set_conv_nth)
  have "\<not> (i < j \<or> j < i)"
    using assms(1,4-6) ij unfolding numbered_def db_wf_def sorted_wrt_iff_nth_less by metis
  then show ?thesis using ij by auto
qed

lemma live_ids:
  assumes "numbered topic db" "ids = sort (map m_SeqId (filter (deletable topic ranges nt) (db_messages db)))"
  shows "sorted_wrt (<) ids" "\<forall>i \<in> set ids. 0 < i"
proof -
  let ?P = "deletable topic ranges nt"
  have "distinct (map m_SeqId (filter ?P ms))" if "sorted_wrt (\<lambda>a b. m_Topic a = m_Topic b \<longrightarrow>
       m_SeqId a \<noteq> m_SeqId b \<and> (m_ClientKey b \<noteq> [] \<longrightarrow> m_ClientKey a \<noteq> m_ClientKey b)) ms" for ms
    using that by (induction ms) (auto simp: deletable_def)
  then have "distinct (map m_SeqId (filter ?P (db_messages db)))" using assms(1) by (simp add: numbered_def db_wf_def)
  then show "sorted_wrt (<) ids" using assms(2) by (simp add: strict_sorted_iff)
  show "\<forall>i \<in> set ids. 0 < i" using assms by (auto simp: numbered_def deletable_def)
qed

lemma log_deletion_ok:
  assumes "log_deletion f topic u d rs db = Inr db'"
  shows "dd_msgs db' = dd_msgs db \<and>
    (\<exists>ls. sd_dellog (dd_subs db') = sd_dellog (dd_subs db) @ map (\<lambda>r. (topic, u, d, r)) ls \<and> ranges_ids ls = ranges_ids rs) \<and>
    (d > 0 \<longrightarrow> dd_delid db' = (dd_delid db)(topic := map_option (\<lambda>_. d) (dd_delid db topic)))"
proof -
  let ?ls = "map (\<lambda>r. Range (Low r) (range_end r)) rs"
  have "range_ids (Range (Low r) (range_end r)) = range_ids r" for r
    by (auto simp: range_ids_def range_end_def)
  then have "ranges_ids ?ls = ranges_ids rs" by (simp add: ranges_ids_def)
  moreover have "sd_dellog (dd_subs db') = sd_dellog (dd_subs db) @ map (\<lambda>r. (topic, u, d, r)) ?ls"
    using assms by (auto simp: log_deletion_def Let_def o_def split: option.splits if_splits)
  moreover have "dd_msgs db' = dd_msgs db \<and> (d > 0 \<longrightarrow> dd_delid db' = (dd_delid db)(topic := map_option (\<lambda>_. d) (dd_delid db topic)))"
    using assms by (auto simp: log_deletion_def Let_def split: option.splits if_splits)
  ultimately show ?thesis by blast
qed

text \<open>What a message becomes.\<close>

definition cleared :: "string \<Rightarrow> int \<Rightarrow> range list \<Rightarrow> go_time option \<Rightarrow> any message \<Rightarrow> any message" where
  "cleared topic d ranges nt m = (if deletable topic ranges nt m then tombstone d m else m)"

lemma clear_cleared:
  assumes "numbered topic db" "ids = sort (map m_SeqId (filter (deletable topic ranges nt) (db_messages db)))" "ids \<noteq> []"
  shows "db_messages (clear_messages topic d (SliceToRanges ids) db) = map (cleared topic d ranges nt) (db_messages db)"
proof -
  note ids = live_ids [OF assms(1,2)]
  note sl = slice_to_ranges [OF ids]
  have ne: "SliceToRanges ids \<noteq> []" using sl assms(3) by simp
  have "(m_Topic m = topic \<and> range_listed (SliceToRanges ids) (m_SeqId m)) \<longleftrightarrow> deletable topic ranges nt m"
    if "m \<in> set (db_messages db)" for m
  proof -
    have "range_listed (SliceToRanges ids) (m_SeqId m) \<longleftrightarrow> m_SeqId m \<in> set ids"
      using range_listed_ids [OF ne, of "m_SeqId m"] conjunct1 [OF sl] by metis
    also have "\<dots> \<longleftrightarrow> (\<exists>m' \<in> set (db_messages db). deletable topic ranges nt m' \<and> m_SeqId m' = m_SeqId m)"
    proof -
      have "set ids = m_SeqId ` {m' \<in> set (db_messages db). deletable topic ranges nt m'}" using assms(2) by auto
      then show ?thesis by (auto simp: image_iff eq_commute [of "m_SeqId m"])
    qed
    finally show ?thesis using numbered_unique [OF assms(1)] that by (auto simp: deletable_def)
  qed
  then show ?thesis by (simp add: clear_messages_def cleared_def cong: map_cong)
qed

lemma hard_list_ok:
  assumes "delete_some f topic 0 d nt ranges db = Inr db'" "numbered topic (dd_msgs db)"
  shows "db_messages (dd_msgs db') = map (cleared topic d ranges nt) (db_messages (dd_msgs db)) \<and>
    (\<exists>rs. sd_dellog (dd_subs db') = sd_dellog (dd_subs db) @ map (\<lambda>r. (topic, 0, d, r)) rs \<and>
      ranges_ids rs = m_SeqId ` {m \<in> set (db_messages (dd_msgs db)). deletable topic ranges nt m}) \<and>
    ((\<forall>m \<in> set (db_messages (dd_msgs db)). \<not> deletable topic ranges nt m) \<longrightarrow> db' = db)"
proof -
  define ids where "ids = sort (map m_SeqId (filter (deletable topic ranges nt) (db_messages (dd_msgs db))))"
  have set_ids: "set ids = m_SeqId ` {m \<in> set (db_messages (dd_msgs db)). deletable topic ranges nt m}"
    by (auto simp: ids_def)
  show ?thesis
  proof (cases "ids = []")
    case True
    then have none: "\<forall>m \<in> set (db_messages (dd_msgs db)). \<not> deletable topic ranges nt m" using set_ids by auto
    then have "map (cleared topic d ranges nt) (db_messages (dd_msgs db)) = db_messages (dd_msgs db)"
      by (auto simp: cleared_def intro: map_idI)
    moreover have "db' = db" using assms(1) True
      by (simp add: delete_some_def ids_def [symmetric] uid_IsZero_def ZeroUid_def Let_def split: option.splits)
    moreover have "\<exists>rs. sd_dellog (dd_subs db) = sd_dellog (dd_subs db) @ map (\<lambda>r. (topic, 0, d, r)) rs \<and>
        ranges_ids rs = m_SeqId ` {m \<in> set (db_messages (dd_msgs db)). deletable topic ranges nt m}"
      using none by (intro exI [of _ "[]"]) (auto simp: ranges_ids_def)
    ultimately show ?thesis by auto
  next
    case False
    note sl = slice_to_ranges [OF live_ids [OF assms(2) ids_def]]
    have log: "log_deletion f topic 0 d (SliceToRanges ids) (db\<lparr>dd_msgs := clear_messages topic d (SliceToRanges ids) (dd_msgs db)\<rparr>) = Inr db'"
      using assms(1) False
      by (simp add: delete_some_def ids_def [symmetric] uid_IsZero_def ZeroUid_def Let_def split: option.splits)
    note l = log_deletion_ok [OF log]
    have "ranges_ids (SliceToRanges ids) = set ids" using sl by blast
    moreover have "\<not> (\<forall>m \<in> set (db_messages (dd_msgs db)). \<not> deletable topic ranges nt m)"
    proof -
      obtain i where "i \<in> set ids" using False by (cases ids) auto
      then show ?thesis using set_ids by auto
    qed
    moreover have "db_messages (dd_msgs db') = map (cleared topic d ranges nt) (db_messages (dd_msgs db))"
      using l clear_cleared [OF assms(2) ids_def False] by simp
    ultimately show ?thesis using l set_ids by fastforce
  qed
qed

lemma soft_list_ok:
  assumes "delete_some f topic u d nt ranges db = Inr db'" "u \<noteq> 0"
  shows "dd_msgs db' = dd_msgs db \<and> (\<exists>rs. sd_dellog (dd_subs db') = sd_dellog (dd_subs db) @ map (\<lambda>r. (topic, u, d, r)) rs \<and>
    ranges_ids rs = ranges_ids ranges)"
proof -
  have "log_deletion f topic u d ranges db = Inr db'"
    using assms by (simp add: delete_some_def uid_IsZero_def ZeroUid_def)
  then show ?thesis using log_deletion_ok by blast
qed

lemma DeleteList_ok:
  assumes "messages_DeleteList env topic d u age ranges db = (None, db')" "d > 0"
  shows "delete_some (de_stmt env) topic u d (if age > 0 then Some (de_now env - age) else None) ranges db = Inr db'"
  using assms by (auto simp: messages_DeleteList_def MessageDeleteList_def messageDeleteList_def Let_def split: option.splits sum.splits)

lemma emits_same: "sy_db (fold (\<lambda>(u, n). emit (k u n)) xs s) = sy_db s \<and> sy_topic (fold (\<lambda>(u, n). emit (k u n)) xs s) = sy_topic s"
  by (induction xs arbitrary: s) auto

lemma after_delete:
  "sy_db (hard_deleted env u sid ranges s) = sy_db s" "sy_db (soft_deleted u sid ranges s) = sy_db s"
  "t_delID (sy_topic (hard_deleted env u sid ranges s)) = t_delID (sy_topic s)"
  "t_delID (sy_topic (soft_deleted u sid ranges s)) = t_delID (sy_topic s)"
  using emits_same [of "\<lambda>u n. UsersUpdateUnread u (- n) True"]
  by (auto simp: hard_deleted_def soft_deleted_def recount_def unpin_deleted_def set_pud_def Let_def split: option.split)

text \<open>A request that is carried out.\<close>

lemma reply_ok:
  assumes "replyDelMsg env ss sess u asChan delSeq hard st = (None, st')" "0 \<le> t_delID (sy_topic (ds_sys st))"
  obtains ranges db where "delete_ranges (t_lastID (sy_topic (ds_sys st))) delSeq = Some ranges"
    "hard \<and> \<not> IsDeleter (eff_mode (pud_of (sy_topic (ds_sys st)) u)) \<longrightarrow>
       check_senders (de_check env) (t_name (sy_topic (ds_sys st))) u (concat (map range_list ranges)) (ds_msgs st) = None"
    "delete_some (de_stmt env) (t_name (sy_topic (ds_sys st))) (if hard then 0 else u) (t_delID (sy_topic (ds_sys st)) + 1)
       (if hard \<and> de_msgDeleteAge env > 0 then Some (de_now env - de_msgDeleteAge env) else None) ranges (del_db_of st) = Inr db"
    "ds_msgs st' = dd_msgs db" "sy_db (ds_sys st') = dd_subs db" "ds_delid st' = dd_delid db"
    "t_delID (sy_topic (ds_sys st')) = t_delID (sy_topic (ds_sys st)) + 1"
proof -
  let ?t = "sy_topic (ds_sys st)"
  note def = assms(1) [unfolded replyDelMsg_def Let_def]
  obtain ranges where r: "delete_ranges (t_lastID ?t) delSeq = Some ranges"
    using def by (cases "delete_ranges (t_lastID ?t) delSeq") (auto split: if_split_asm)
  note def = def [unfolded r option.case]
  have c: "(if hard \<and> \<not> IsDeleter (eff_mode (pud_of ?t u))
      then check_senders (de_check env) (t_name ?t) u (concat (map range_list ranges)) (ds_msgs st) else None) = None"
    using def by (auto split: if_split_asm option.split_asm prod.split_asm)
  note def = def [unfolded c option.case]
  obtain db where d: "messages_DeleteList env (t_name ?t) (t_delID ?t + 1) (if hard then 0 else u)
      (if hard then de_msgDeleteAge env else 0) ranges (del_db_of st) = (None, db)"
    using def by (auto split: if_split_asm option.split_asm prod.split_asm)
  note def = def [unfolded d prod.case option.case]
  show thesis
  proof (rule that [OF r])
    show "hard \<and> \<not> IsDeleter (eff_mode (pud_of ?t u)) \<longrightarrow>
        check_senders (de_check env) (t_name ?t) u (concat (map range_list ranges)) (ds_msgs st) = None"
      using c by (auto split: if_split_asm)
    show "delete_some (de_stmt env) (t_name ?t) (if hard then 0 else u) (t_delID ?t + 1)
       (if hard \<and> de_msgDeleteAge env > 0 then Some (de_now env - de_msgDeleteAge env) else None) ranges (del_db_of st) = Inr db"
      using DeleteList_ok [OF d] assms(2) by (cases hard) auto
    show "ds_msgs st' = dd_msgs db" "sy_db (ds_sys st') = dd_subs db" "ds_delid st' = dd_delid db"
      "t_delID (sy_topic (ds_sys st')) = t_delID ?t + 1"
      using def by (auto simp: say_def with_db_def after_delete set_db_def split: if_split_asm)
  qed
qed

text \<open>C15. A deletion that is acknowledged. A hard one clears the messages of the merged ranges that were not yet deleted and
  are not too old, and changes no other; a soft one changes none. The log gains entries for the user, or for everybody, with
  the next number of the topic, which cover just the numbers deleted. And a hard one that finds nothing still moves
  the counter of the topic, but not the one in the store.\<close>

theorem deletion_effect:
  assumes "replyDelMsg env ss sess u asChan delSeq hard st = (None, st')" "u \<noteq> 0" "numbered (t_name (sy_topic (ds_sys st))) (ds_msgs st)"
    and "0 \<le> t_delID (sy_topic (ds_sys st))" "delete_ranges (t_lastID (sy_topic (ds_sys st))) delSeq = Some ranges"
    and "t = sy_topic (ds_sys st)" "nt = (if hard \<and> de_msgDeleteAge env > 0 then Some (de_now env - de_msgDeleteAge env) else None)"
  shows "db_messages (ds_msgs st') =
      (if hard then map (cleared (t_name t) (t_delID t + 1) ranges nt) (db_messages (ds_msgs st)) else db_messages (ds_msgs st)) \<and>
    (\<exists>rs. sd_dellog (sy_db (ds_sys st')) = sd_dellog (sy_db (ds_sys st)) @
        map (\<lambda>r. (t_name t, if hard then 0 else u, t_delID t + 1, r)) rs \<and>
      ranges_ids rs = (if hard then m_SeqId ` {m \<in> set (db_messages (ds_msgs st)). deletable (t_name t) ranges nt m} else ranges_ids ranges)) \<and>
    t_delID (sy_topic (ds_sys st')) = t_delID t + 1 \<and>
    (hard \<and> (\<forall>m \<in> set (db_messages (ds_msgs st)). \<not> deletable (t_name t) ranges nt m) \<longrightarrow> ds_delid st' = ds_delid st)"
proof -
  obtain db where db: "delete_some (de_stmt env) (t_name t) (if hard then 0 else u) (t_delID t + 1) nt ranges (del_db_of st) = Inr db"
    and st': "ds_msgs st' = dd_msgs db" "sy_db (ds_sys st') = dd_subs db" "ds_delid st' = dd_delid db"
      "t_delID (sy_topic (ds_sys st')) = t_delID t + 1"
    by (rule reply_ok [OF assms(1,4)]) (use assms(5-7) in auto)
  have same: "dd_msgs (del_db_of st) = ds_msgs st" "dd_subs (del_db_of st) = sy_db (ds_sys st)" "dd_delid (del_db_of st) = ds_delid st"
    by (simp_all add: del_db_of_def)
  show ?thesis
  proof (cases hard)
    case True
    then show ?thesis using hard_list_ok [of "de_stmt env" "t_name t" "t_delID t + 1" nt ranges "del_db_of st" db] db st' assms(3,6) same
      by auto
  next
    case False
    then show ?thesis using soft_list_ok [of "de_stmt env" "t_name t" u "t_delID t + 1" nt ranges "del_db_of st" db] db st' assms(2) same
      by auto
  qed
qed

text \<open>The messages that pass the check of the senders.\<close>

lemma check_senders_own:
  assumes "check_senders f topic u is db = None" "i \<in> set is" "m \<in> set (db_messages db)" "m_Topic m = topic" "m_SeqId m = i"
    "m_DelId m = 0" "numbered topic db"
  shows "ParseUid (m_From m) = u"
  using assms
proof (induction f topic u "is" db rule: check_senders.induct)
  case (2 f topic u j js db)
  obtain r where g: "MessageGet (f j) topic j db = Inr r"
    using "2.prems"(1) by (cases "MessageGet (f j) topic j db") auto
  show ?case
  proof (cases "i = j")
    case True
    have "r = Some m"
    proof -
      have r: "r = find (\<lambda>m. m_Topic m = topic \<and> m_SeqId m = j \<and> m_DelId m = 0) (db_messages db)"
        using g by (auto simp: MessageGet_def split: option.splits)
      have "r \<noteq> None" unfolding r find_None_iff using "2.prems"(3-6) True by blast
      then obtain m' where m': "r = Some m'" by blast
      then have "m' \<in> set (db_messages db)" "m_Topic m' = topic" "m_SeqId m' = j" using r by (auto simp: find_Some_iff)
      then show ?thesis using numbered_unique [OF "2.prems"(7), of m' m] "2.prems"(3-5) True m' by simp
    qed
    then show ?thesis using "2.prems"(1) g by (auto split: if_split_asm)
  next
    case False
    then show ?thesis using "2.IH"(1) "2.IH"(2) "2.prems" g by (cases r) (auto split: if_split_asm)
  qed
qed simp

text \<open>C24. A member who may not delete for others never clears a message of somebody else.\<close>

theorem hard_delete_own_only:
  assumes "replyDelMsg env ss sess u asChan delSeq True st = (None, st')" "numbered (t_name (sy_topic (ds_sys st))) (ds_msgs st)"
    and "\<not> IsDeleter (eff_mode (pud_of (sy_topic (ds_sys st)) u))" "0 \<le> t_delID (sy_topic (ds_sys st))"
  shows "list_all2 (\<lambda>m m'. m' = m \<or> ParseUid (m_From m) = u) (db_messages (ds_msgs st)) (db_messages (ds_msgs st'))"
proof -
  let ?t = "sy_topic (ds_sys st)"
  let ?nt = "if de_msgDeleteAge env > 0 then Some (de_now env - de_msgDeleteAge env) else None"
  obtain ranges db where r: "delete_ranges (t_lastID ?t) delSeq = Some ranges"
    and c: "check_senders (de_check env) (t_name ?t) u (concat (map range_list ranges)) (ds_msgs st) = None"
    and d: "delete_some (de_stmt env) (t_name ?t) 0 (t_delID ?t + 1) ?nt ranges (del_db_of st) = Inr db"
    and st': "ds_msgs st' = dd_msgs db"
    by (rule reply_ok [OF assms(1,4)]) (use assms(3) in auto)
  have "db_messages (dd_msgs db) = map (cleared (t_name ?t) (t_delID ?t + 1) ranges ?nt) (db_messages (ds_msgs st))"
    using hard_list_ok [OF d] assms(2) by (simp add: del_db_of_def)
  moreover have "cleared (t_name ?t) (t_delID ?t + 1) ranges ?nt m = m \<or> ParseUid (m_From m) = u"
    if m: "m \<in> set (db_messages (ds_msgs st))" for m
  proof (cases "deletable (t_name ?t) ranges ?nt m")
    case True
    have "m_SeqId m \<in> ranges_ids ranges"
      using True range_listed_ids [OF delete_ranges_nonempty [OF r]] delete_ranges_nonempty [OF r] by (auto simp: deletable_def)
    then have "m_SeqId m \<in> set (concat (map range_list ranges))" by (simp add: ranges_ids_def)
    then show ?thesis using check_senders_own [OF c _ m _ refl _ assms(2)] True by (simp add: deletable_def)
  qed (simp add: cleared_def)
  ultimately show ?thesis by (auto simp: st' list_all2_conv_all_nth)
qed

section \<open>A group of three messages\<close>

definition small_del :: del_sys where
  "small_del = \<lparr>ds_sys = small_group, ds_msgs = small_store, ds_delid = [''grpX'' \<mapsto> 0]\<rparr>"

definition plain_del :: del_env where
  "plain_del = \<lparr>de_now = 9, de_msgDeleteAge = 0, de_check = (\<lambda>_. None), de_read = (\<lambda>_. None), de_stmt = (\<lambda>_. None), de_aux = None\<rparr>"

lemma small_del_simps [simp]: "ds_sys small_del = small_group" "ds_msgs small_del = small_store"
  "del_db_of small_del = \<lparr>dd_msgs = small_store, dd_subs = sy_db small_group, dd_delid = [''grpX'' \<mapsto> 0]\<rparr>"
  by (simp_all add: small_del_def del_db_of_def)

lemma plain_del_simps [simp]: "de_check plain_del = (\<lambda>_. None)" "de_read plain_del = (\<lambda>_. None)" "de_stmt plain_del = (\<lambda>_. None)"
  "de_msgDeleteAge plain_del = 0"
  by (simp_all add: plain_del_def)

lemma small_ids: "t_lastID (sy_topic small_group) = 3" "t_delID (sy_topic small_group) = 0"
  by (simp_all add: small_group_def)

lemma small_modes: "IsDeleter (eff_mode (pud_of (sy_topic small_group) 1))" "\<not> pud_isChan (pud_of (sy_topic small_group) 1)"
  "\<not> IsDeleter (eff_mode (pud_of (sy_topic small_group) 2))" "IsReader (eff_mode (pud_of (sy_topic small_group) 2))"
  "\<not> pud_isChan (pud_of (sy_topic small_group) 2)"
  by (simp_all add: small_users eff_mode_def IsDeleter_def IsReader_def) code_simp+

lemma small_numbered: "numbered ''grpX'' small_store"
  by (simp add: numbered_def db_wf_def small_store_def small_message_def)

lemma reads_none: "read_messages (\<lambda>_. None) topic is db = None"
  by (induction "is") (auto simp: MessageGet_def)

lemma delete_some_plain: "\<exists>db'. delete_some (\<lambda>_. None) topic u d nt rs db = Inr db'"
  by (simp add: delete_some_def log_deletion_def Let_def)

lemma DeleteList_plain:
  "d > 0 \<Longrightarrow> \<exists>db'. messages_DeleteList plain_del topic d u 0 rs db = (None, db') \<and> delete_some (\<lambda>_. None) topic u d None rs db = Inr db'"
  using delete_some_plain [of topic u d None rs db]
  by (auto simp: messages_DeleteList_def reads_none MessageDeleteList_def messageDeleteList_def)

text \<open>A request that passes the checks in this group is carried out.\<close>

lemma small_reply:
  assumes "delete_ranges 3 seqs = Some ranges" "u = 1 \<or> u = 2"
    "hard \<and> u = 2 \<longrightarrow> check_senders (\<lambda>_. None) ''grpX'' 2 (concat (map range_list ranges)) small_store = None"
  shows "\<exists>st' db'. replyDelMsg plain_del no_sessions 0 u False seqs hard small_del = (None, st') \<and> ds_msgs st' = dd_msgs db' \<and>
      delete_some (\<lambda>_. None) ''grpX'' (if hard then 0 else u) 1 None ranges (del_db_of small_del) = Inr db'"
proof -
  obtain db' where d: "messages_DeleteList plain_del ''grpX'' 1 (if hard then 0 else u) 0 ranges (del_db_of small_del) = (None, db')"
    "delete_some (\<lambda>_. None) ''grpX'' (if hard then 0 else u) 1 None ranges (del_db_of small_del) = Inr db'"
    using DeleteList_plain [of 1] by fastforce
  have "\<exists>st'. replyDelMsg plain_del no_sessions 0 u False seqs hard small_del = (None, st') \<and> ds_msgs st' = dd_msgs db'"
    using assms small_modes d(1)
    by (cases hard) (auto simp: replyDelMsg_def small_ids small_topic say_def with_db_def simp del: small_del_simps(3))
  then show ?thesis using d(2) by blast
qed

lemma small_hard:
  assumes "delete_ranges 3 seqs = Some ranges"
  shows "\<exists>st'. replyDelMsg plain_del no_sessions 0 1 False seqs True small_del = (None, st') \<and>
      db_messages (ds_msgs st') = map (cleared ''grpX'' 1 ranges None) (db_messages small_store)"
  using small_reply [OF assms, of 1 True] hard_list_ok [of "\<lambda>_. None" "''grpX''" 1 None ranges "del_db_of small_del"] small_numbered
  by fastforce


text \<open>The owner clears the first two messages of the group.\<close>

theorem deletion_effect_witness:
  "\<exists>st'. replyDelMsg plain_del no_sessions 0 1 False [(1, 3)] True small_del = (None, st') \<and>
     db_messages (ds_msgs st') = map (cleared ''grpX'' 1 [Range 1 3] None) (db_messages small_store)"
proof -
  have r: "delete_ranges 3 [(1, 3)] = Some [Range 1 3]" by code_simp
  then obtain st' where st': "replyDelMsg plain_del no_sessions 0 1 False [(1, 3)] True small_del = (None, st')"
    using small_hard by blast
  note conjunct1 [OF deletion_effect [OF st' _ _ _ _ refl refl, of "[Range 1 3]"]]
  then have "db_messages (ds_msgs st') = map (cleared ''grpX'' 1 [Range 1 3] None) (db_messages small_store)"
    using r small_numbered by (simp add: small_ids small_topic)
  then show ?thesis using st' by blast
qed

text \<open>A member clears their own message.\<close>

theorem hard_delete_own_only_witness:
  "\<exists>st'. replyDelMsg plain_del no_sessions 0 2 False [(2, 0)] True small_del = (None, st') \<and>
     list_all2 (\<lambda>m m'. m' = m \<or> ParseUid (m_From m) = 2) (db_messages small_store) (db_messages (ds_msgs st'))"
proof -
  have r: "delete_ranges 3 [(2, 0)] = Some [Range 2 0]" by code_simp
  have "check_senders (\<lambda>_. None) ''grpX'' 2 (concat (map range_list [Range 2 0])) small_store = None"
    by (simp add: range_list_def range_end_def MessageGet_def small_store_def small_message_def)
  then obtain st' where st': "replyDelMsg plain_del no_sessions 0 2 False [(2, 0)] True small_del = (None, st')"
    using small_reply [OF r, of 2 True] by auto
  have "list_all2 (\<lambda>m m'. m' = m \<or> ParseUid (m_From m) = 2) (db_messages (ds_msgs small_del)) (db_messages (ds_msgs st'))"
    by (rule hard_delete_own_only [OF st']) (use small_modes small_numbered in \<open>simp_all add: small_ids small_topic\<close>)
  then show ?thesis using st' by (simp only: small_del_simps) blast
qed

end
