(* ===== verification/TagQuery.thy ===== *)
theory TagQuery
  imports Utf8 "HOL-Library.Monad_Syntax"
begin

text \<open>
  The search expressions of the \<open>fnd\<close> topic (\<^verbatim>\<open>internal/server/tag_search_query.go\<close>): a tag is required, or
  optional next to a comma, and may stand in quotes. The scanner runs over byte indices; an index out of
  bounds panics, which is the result \<open>None\<close>. The functions \<open>strings.TrimSpace\<close> and \<open>strings.ToLower\<close>, which know
  all of Unicode, are the arguments \<open>trim\<close> and \<open>lower\<close>.
\<close>

section \<open>The scanner\<close>

datatype tagSearchTokenType =
    tagSearchTokenNone | tagSearchTokenQuote | tagSearchTokenAnd | tagSearchTokenOr | tagSearchTokenEnd | tagSearchTokenText

record tagSearchToken =
  tk_operator :: tagSearchTokenType
  tk_value :: string

record tagSearchContext =
  cx_previousOperator :: tagSearchTokenType
  cx_nextOperator :: tagSearchTokenType
  cx_quoted :: bool
  cx_start :: nat
  cx_end :: nat

datatype tag_error = MissingOperator | InvalidSequence | OpenQuote

text \<open>The kind of the character at the cursor: nothing follows, a quote, or an operator outside of quotes. The bytes
  compared are ASCII, and such a byte is always a rune of its own.\<close>

definition char_kind :: "bool \<Rightarrow> string \<Rightarrow> tagSearchTokenType" where
  "char_kind quoted rest =
     (case rest of
        [] \<Rightarrow> tagSearchTokenEnd
      | c # _ \<Rightarrow>
          if c = CHR 0x22 then tagSearchTokenQuote
          else if quoted then tagSearchTokenText
          else if c = CHR 0x20 \<or> c = CHR 0x09 then tagSearchTokenAnd
          else if c = CHR 0x2C then tagSearchTokenOr
          else tagSearchTokenText)"

definition scan_quote :: "tagSearchContext \<Rightarrow> tagSearchTokenType \<Rightarrow> tagSearchTokenType \<Rightarrow> tag_error + tagSearchTokenType \<times> tagSearchContext" where
  "scan_quote cx previous current =
     (if current = tagSearchTokenQuote then
        (if cx_quoted cx then Inr (tagSearchTokenText, cx\<lparr>cx_quoted := False\<rparr>)
         else if previous = tagSearchTokenText then Inl MissingOperator
         else Inr (tagSearchTokenText, cx\<lparr>cx_quoted := True\<rparr>))
      else Inr (current, cx))"

text \<open>The operators to the left and right of the tag, its end, and whether it is complete.\<close>

definition scan_operator ::
  "tagSearchContext \<Rightarrow> tagSearchTokenType \<Rightarrow> tagSearchTokenType \<Rightarrow> nat \<Rightarrow> tag_error + bool \<times> tagSearchContext" where
  "scan_operator cx previous current index =
     (let ended = (if previous = tagSearchTokenText then cx\<lparr>cx_end := index\<rparr> else cx) in
      case current of
        tagSearchTokenOr \<Rightarrow>
          (if cx_nextOperator cx = tagSearchTokenOr then Inl InvalidSequence
           else Inr (False, ended\<lparr>cx_nextOperator := tagSearchTokenOr\<rparr>))
      | tagSearchTokenAnd \<Rightarrow>
          Inr (False,
            if previous = tagSearchTokenText then ended\<lparr>cx_nextOperator := tagSearchTokenAnd\<rparr>
            else if cx_nextOperator cx \<noteq> tagSearchTokenOr then cx\<lparr>cx_nextOperator := tagSearchTokenAnd\<rparr>
            else cx)
      | tagSearchTokenText \<Rightarrow> Inr (previous = tagSearchTokenOr \<or> previous = tagSearchTokenAnd, cx)
      | tagSearchTokenEnd \<Rightarrow> Inr (True, ended)
      | _ \<Rightarrow> Inr (False, cx))"

definition byte_at :: "string \<Rightarrow> nat \<Rightarrow> char option" where
  "byte_at s i = (if i < length s then Some (s ! i) else None)"

definition slice :: "string \<Rightarrow> nat \<Rightarrow> nat \<Rightarrow> string option" where
  "slice s a b = (if a \<le> b \<and> b \<le> length s then Some (take (b - a) (drop a s)) else None)"

text \<open>The tag between the marks, without its quotes, if there is one.\<close>

definition tag_between :: "string \<Rightarrow> nat \<Rightarrow> nat \<Rightarrow> string option option" where
  "tag_between query start stop =
     (if start < stop then
        do {
          first \<leftarrow> byte_at query start;
          final \<leftarrow> byte_at query (stop - 1);
          let quoted = (first = CHR 0x22 \<and> final = CHR 0x22);
          let a = (if quoted then start + 1 else start);
          let b = (if quoted then stop - 1 else stop);
          if a < b then map_option Some (slice query a b) else Some None
        }
      else Some None)"

definition scan_emit ::
  "(string \<Rightarrow> string) \<Rightarrow> string \<Rightarrow> tagSearchContext \<Rightarrow> tagSearchTokenType \<Rightarrow> nat \<Rightarrow> tagSearchToken list \<Rightarrow>
   (tag_error + tagSearchContext \<times> tagSearchToken list) option" where
  "scan_emit lower query cx current index tokens =
     (if cx_quoted cx \<and> current = tagSearchTokenEnd then Some (Inl OpenQuote)
      else do {
        let operator = (if cx_nextOperator cx = tagSearchTokenOr then tagSearchTokenOr else cx_previousOperator cx);
        tag \<leftarrow> tag_between query (cx_start cx) (cx_end cx);
        let tokens' = (case tag of None \<Rightarrow> tokens | Some v \<Rightarrow> tokens @ [\<lparr>tk_operator = operator, tk_value = lower v\<rparr>]);
        Some (Inr (cx\<lparr>cx_start := index, cx_previousOperator := cx_nextOperator cx, cx_nextOperator := tagSearchTokenNone\<rparr>, tokens'))
      })"

definition scan_step ::
  "(string \<Rightarrow> string) \<Rightarrow> string \<Rightarrow> tagSearchContext \<Rightarrow> tagSearchTokenType \<Rightarrow> tagSearchToken list \<Rightarrow> nat \<Rightarrow>
   (tag_error + tagSearchTokenType \<times> tagSearchContext \<times> tagSearchToken list) option" where
  "scan_step lower query cx previous tokens index =
     (case scan_quote cx previous (char_kind (cx_quoted cx) (drop index query)) of
        Inl e \<Rightarrow> Some (Inl e)
      | Inr (current, cx1) \<Rightarrow>
          (case scan_operator cx1 previous current index of
             Inl e \<Rightarrow> Some (Inl e)
           | Inr (False, cx2) \<Rightarrow> Some (Inr (current, cx2, tokens))
           | Inr (True, cx2) \<Rightarrow>
               (case scan_emit lower query cx2 current index tokens of
                  None \<Rightarrow> None
                | Some (Inl e) \<Rightarrow> Some (Inl e)
                | Some (Inr (cx3, tokens')) \<Rightarrow> Some (Inr (current, cx3, tokens')))))"

lemma scan_step_end:
  "scan_step lower query cx previous tokens index = Some (Inr (current, cx', tokens')) \<Longrightarrow> length query \<le> index \<Longrightarrow> current = tagSearchTokenEnd"
  by (auto simp: scan_step_def char_kind_def scan_quote_def split: if_splits sum.splits bool.splits option.splits)

lemma scan_step_smaller:
  assumes "scan_step lower query cx previous tokens index = Some (Inr (current, cx', tokens'))" "current \<noteq> tagSearchTokenEnd"
  shows "length query - (index + rune_width (drop index query)) < length query - index"
proof -
  have "index < length query" using scan_step_end [OF assms(1)] assms(2) by force
  moreover from this have "0 < rune_width (drop index query)" by simp
  ultimately show ?thesis by linarith
qed

text \<open>The loop; the last argument counts the characters, for the error.\<close>

function tag_loop ::
  "(string \<Rightarrow> string) \<Rightarrow> string \<Rightarrow> tagSearchContext \<Rightarrow> tagSearchTokenType \<Rightarrow> tagSearchToken list \<Rightarrow> nat \<Rightarrow> nat \<Rightarrow>
   (tag_error \<times> nat + tagSearchToken list) option" where
  "tag_loop lower query cx previous tokens index position =
     (if previous = tagSearchTokenEnd then Some (Inr tokens)
      else case scan_step lower query cx previous tokens index of
             None \<Rightarrow> None
           | Some (Inl e) \<Rightarrow> Some (Inl (e, position))
           | Some (Inr (current, cx', tokens')) \<Rightarrow>
               tag_loop lower query cx' current tokens' (index + rune_width (drop index query)) (position + 1))"
  by auto
termination
  by (relation "measure (\<lambda>(lower, query, cx, previous, tokens, index, position).
      if previous = tagSearchTokenEnd then 0 else Suc (length query - index))")
    (auto dest: scan_step_smaller)

declare tag_loop.simps [simp del]

definition initial_context :: tagSearchContext where
  "initial_context = \<lparr>cx_previousOperator = tagSearchTokenAnd, cx_nextOperator = tagSearchTokenNone, cx_quoted = False,
     cx_start = 0, cx_end = 0\<rparr>"

definition tags_of :: "tagSearchTokenType \<Rightarrow> tagSearchToken list \<Rightarrow> string list" where
  "tags_of operator tokens = map tk_value (filter (\<lambda>t. tk_operator t = operator) tokens)"

definition parseTagSearchQuery ::
  "(string \<Rightarrow> string) \<Rightarrow> (string \<Rightarrow> string) \<Rightarrow> string \<Rightarrow> (tag_error \<times> nat + string list \<times> string list) option" where
  "parseTagSearchQuery trim lower query =
     map_option (map_sum id (\<lambda>tokens. (tags_of tagSearchTokenAnd tokens, tags_of tagSearchTokenOr tokens)))
       (tag_loop lower (trim query) initial_context tagSearchTokenNone [] 0 0)"

section \<open>No index is out of bounds\<close>

lemma tag_between_in: "stop \<le> length q \<Longrightarrow> tag_between q start stop \<noteq> None"
  by (auto simp: tag_between_def byte_at_def slice_def Let_def)

lemma scan_emit_in: "cx_end cx \<le> length q \<Longrightarrow> scan_emit lower q cx current index tokens \<noteq> None"
  using tag_between_in [of "cx_end cx" q "cx_start cx"] by (auto simp: scan_emit_def Let_def)

lemma scan_quote_end: "scan_quote cx previous k = Inr (current, cx') \<Longrightarrow> cx_end cx' = cx_end cx"
  by (auto simp: scan_quote_def split: if_splits)

lemma scan_operator_end:
  "scan_operator cx previous current index = Inr (b, cx') \<Longrightarrow> cx_end cx' = cx_end cx \<or> cx_end cx' = index"
  by (auto simp: scan_operator_def Let_def split: if_splits tagSearchTokenType.splits)

lemma scan_emit_end: "scan_emit lower q cx current index tokens = Some (Inr (cx', tokens')) \<Longrightarrow> cx_end cx' = cx_end cx"
  by (auto simp: scan_emit_def Let_def bind_eq_Some_conv split: if_splits)

lemma scan_step_in:
  assumes "cx_end cx \<le> length q" "index \<le> length q"
  shows "scan_step lower q cx previous tokens index \<noteq> None \<and>
    (\<forall>current cx' tokens'. scan_step lower q cx previous tokens index = Some (Inr (current, cx', tokens')) \<longrightarrow> cx_end cx' \<le> length q)"
proof (cases "scan_quote cx previous (char_kind (cx_quoted cx) (drop index q))")
  case (Inl e)
  then show ?thesis by (simp add: scan_step_def)
next
  case quote: (Inr r)
  obtain current cx1 where r: "r = (current, cx1)" by fastforce
  have 1: "cx_end cx1 \<le> length q" using scan_quote_end quote r assms(1) by fastforce
  show ?thesis
  proof (cases "scan_operator cx1 previous current index")
    case (Inl e)
    then show ?thesis using quote r by (simp add: scan_step_def)
  next
    case op: (Inr r2)
    obtain b cx2 where r2: "r2 = (b, cx2)" by fastforce
    have 2: "cx_end cx2 \<le> length q" using scan_operator_end op r2 1 assms(2) by fastforce
    show ?thesis
    proof (cases b)
      case False
      then show ?thesis using quote r op r2 2 by (simp add: scan_step_def)
    next
      case True
      obtain x where x: "scan_emit lower q cx2 current index tokens = Some x" using scan_emit_in [OF 2] by (metis not_None_eq)
      show ?thesis
      proof (cases x)
        case (Inl e)
        then show ?thesis using quote r op r2 x True by (simp add: scan_step_def)
      next
        case inr: (Inr y)
        obtain cx3 toks where y: "y = (cx3, toks)" by fastforce
        then show ?thesis using quote r op r2 x True inr 2 scan_emit_end [of lower q cx2 current index tokens cx3 toks]
          by (simp add: scan_step_def)
      qed
    qed
  qed
qed

lemma tag_loop_in:
  "cx_end cx \<le> length q \<Longrightarrow> index \<le> length q \<Longrightarrow> tag_loop lower q cx previous tokens index position \<noteq> None"
proof (induction lower q cx previous tokens index position rule: tag_loop.induct)
  case (1 lower q cx previous tokens index position)
  note step = scan_step_in [OF 1(2,3), of lower previous tokens]
  show ?case
  proof (cases "previous = tagSearchTokenEnd")
    case False
    have "index + rune_width (drop index q) \<le> length q" using rune_width_le [of "drop index q"] 1(3) by simp
    then show ?thesis using 1(1) [OF False] False step
      by (subst tag_loop.simps) (fastforce split: option.split sum.split)
  qed (simp add: tag_loop.simps)
qed

text \<open>The parser terminates and never reads out of bounds: every query gives tags or an error.\<close>

theorem parse_returns: "parseTagSearchQuery trim lower query \<noteq> None"
  using tag_loop_in [of initial_context "trim query" 0 lower tagSearchTokenNone "[]" 0]
  by (simp add: parseTagSearchQuery_def initial_context_def)

section \<open>Queries as words and separators\<close>

datatype tag_word = Plain string | Quoted string

definition is_sep :: "char \<Rightarrow> bool" where
  "is_sep c \<longleftrightarrow> c = CHR 0x20 \<or> c = CHR 0x09 \<or> c = CHR 0x2C"

fun word_ok :: "tag_word \<Rightarrow> bool" where
  "word_ok (Plain w) = (w \<noteq> [] \<and> (\<forall>c \<in> set w. c \<noteq> CHR 0x22 \<and> \<not> is_sep c))"
| "word_ok (Quoted w) = (w \<noteq> [] \<and> (\<forall>c \<in> set w. c \<noteq> CHR 0x22))"

fun word_text :: "tag_word \<Rightarrow> string" where
  "word_text (Plain w) = w"
| "word_text (Quoted w) = CHR 0x22 # w @ [CHR 0x22]"

fun word_value :: "tag_word \<Rightarrow> string" where
  "word_value (Plain w) = w"
| "word_value (Quoted w) = w"

definition has_comma :: "string \<Rightarrow> bool" where
  "has_comma s \<longleftrightarrow> CHR 0x2C \<in> set s"

definition sep_ok :: "string \<Rightarrow> bool" where
  "sep_ok s \<longleftrightarrow> (\<forall>c \<in> set s. is_sep c) \<and> length (filter (\<lambda>c. c = CHR 0x2C) s) \<le> 1"

text \<open>Each word with the separator after it; between two words it is not empty.\<close>

fun render :: "(tag_word \<times> string) list \<Rightarrow> string" where
  "render [] = []"
| "render ((w, s) # ps) = word_text w @ s @ render ps"

fun render_ok :: "(tag_word \<times> string) list \<Rightarrow> bool" where
  "render_ok [] = True"
| "render_ok ((w, s) # ps) = (word_ok w \<and> sep_ok s \<and> (ps \<noteq> [] \<longrightarrow> s \<noteq> []) \<and> render_ok ps)"

text \<open>A tag is optional if there is a comma on its left or on its right.\<close>

fun meant :: "bool \<Rightarrow> (tag_word \<times> string) list \<Rightarrow> (bool \<times> string) list" where
  "meant left [] = []"
| "meant left ((w, s) # ps) = (left \<or> has_comma s, word_value w) # meant (has_comma s) ps"

definition op_of :: "bool \<Rightarrow> tagSearchTokenType" where
  "op_of b = (if b then tagSearchTokenOr else tagSearchTokenAnd)"

definition tokens_of :: "(string \<Rightarrow> string) \<Rightarrow> (bool \<times> string) list \<Rightarrow> tagSearchToken list" where
  "tokens_of lower = map (\<lambda>(b, v). \<lparr>tk_operator = op_of b, tk_value = lower v\<rparr>)"

section \<open>Scanning the pieces\<close>

lemma loop_step:
  assumes "previous \<noteq> tagSearchTokenEnd" "scan_step lower q cx previous toks i = Some (Inr (current, cx', toks'))"
  shows "tag_loop lower q cx previous toks i p = tag_loop lower q cx' current toks' (i + rune_width (drop i q)) (p + 1)"
  using assms by (subst tag_loop.simps) simp

lemma sep_ascii: "is_sep c \<Longrightarrow> ascii c" "ascii (CHR 0x22)"
  by (auto simp: is_sep_def ascii_def)

lemma has_comma_Cons: "has_comma (c # s) \<longleftrightarrow> c = CHR 0x2C \<or> has_comma s"
  by (auto simp: has_comma_def)

text \<open>The separators after the first.\<close>

lemma scan_seps:
  assumes "\<forall>c \<in> set s. is_sep c" "cx_nextOperator cx = op_of b" "length (filter (\<lambda>c. c = CHR 0x2C) s) + of_bool b \<le> 1"
    "\<not> cx_quoted cx" "previous = op_of d" "q = pre @ s @ rest" "i = length pre"
  shows "\<exists>d' p'. tag_loop lower q cx previous toks i p =
    tag_loop lower q (cx\<lparr>cx_nextOperator := op_of (b \<or> has_comma s)\<rparr>) (op_of d') toks (i + length s) p'"
  using assms
proof (induction s arbitrary: cx b previous d pre i p)
  case Nil
  then have "cx\<lparr>cx_nextOperator := op_of b\<rparr> = cx" by (cases cx) simp
  then show ?case using Nil(5) by (intro exI [of _ d] exI [of _ p]) (simp add: has_comma_def)
next
  case (Cons c s)
  let ?cx = "cx\<lparr>cx_nextOperator := op_of (b \<or> c = CHR 0x2C)\<rparr>"
  have dr: "drop i q = c # s @ rest" using Cons.prems(6,7) by simp
  have "scan_step lower q cx previous toks i = Some (Inr (op_of (c = CHR 0x2C), ?cx, toks))"
  proof -
    have same: "cx\<lparr>cx_nextOperator := op_of b\<rparr> = cx" using Cons.prems(2) by (cases cx) simp
    have prev: "previous \<noteq> tagSearchTokenText" using Cons.prems(5) by (simp add: op_of_def)
    show ?thesis
    proof (cases "c = CHR 0x2C")
      case True
      then have "\<not> b" using Cons.prems(3) by (cases b) simp_all
      then show ?thesis using True Cons.prems(2,4) prev
        by (simp add: scan_step_def char_kind_def dr scan_quote_def scan_operator_def op_of_def)
    next
      case False
      then have "char_kind (cx_quoted cx) (drop i q) = tagSearchTokenAnd"
        using Cons.prems(1,4) by (auto simp: char_kind_def dr is_sep_def)
      then show ?thesis using False Cons.prems(2) prev same
        by (cases b) (simp_all add: scan_step_def scan_quote_def scan_operator_def op_of_def)
    qed
  qed
  then have "tag_loop lower q cx previous toks i p = tag_loop lower q ?cx (op_of (c = CHR 0x2C)) toks (i + 1) (p + 1)"
    using loop_step [of previous lower q cx toks i] Cons.prems(1,5) sep_ascii rune_width_ascii
    by (simp add: dr op_of_def)
  moreover have "\<exists>d' p'. tag_loop lower q ?cx (op_of (c = CHR 0x2C)) toks (i + 1) (p + 1) =
      tag_loop lower q (?cx\<lparr>cx_nextOperator := op_of ((b \<or> c = CHR 0x2C) \<or> has_comma s)\<rparr>) (op_of d') toks (i + 1 + length s) p'"
    by (rule Cons.IH [of ?cx _ _ _ "pre @ [c]"]) (use Cons.prems in \<open>auto split: if_splits\<close>)
  ultimately show ?case by (auto simp: has_comma_Cons)
qed

text \<open>Separators after a word, or at the beginning.\<close>

lemma scan_gap:
  assumes "s \<noteq> []" "sep_ok s" "cx_nextOperator cx = tagSearchTokenNone" "\<not> cx_quoted cx"
    "previous = tagSearchTokenText \<or> previous = tagSearchTokenNone" "q = pre @ s @ rest" "i = length pre"
  shows "\<exists>d p'. tag_loop lower q cx previous toks i p =
    tag_loop lower q (cx\<lparr>cx_end := if previous = tagSearchTokenText then i else cx_end cx, cx_nextOperator := op_of (has_comma s)\<rparr>)
      (op_of d) toks (i + length s) p'"
proof -
  obtain c s' where s: "s = c # s'" using assms(1) by (cases s) auto
  let ?cx = "cx\<lparr>cx_end := if previous = tagSearchTokenText then i else cx_end cx, cx_nextOperator := op_of (c = CHR 0x2C)\<rparr>"
  have dr: "drop i q = c # s' @ rest" using assms(6,7) s by simp
  have "char_kind False (drop i q) = op_of (c = CHR 0x2C)"
    using assms(2) by (auto simp: sep_ok_def s char_kind_def dr is_sep_def op_of_def)
  moreover have "cx\<lparr>cx_end := cx_end cx\<rparr> = cx" by (cases cx) simp
  ultimately have "scan_step lower q cx previous toks i = Some (Inr (op_of (c = CHR 0x2C), ?cx, toks))"
    using assms(3-5) by (cases "c = CHR 0x2C") (auto simp: scan_step_def scan_quote_def scan_operator_def op_of_def Let_def)
  then have "tag_loop lower q cx previous toks i p = tag_loop lower q ?cx (op_of (c = CHR 0x2C)) toks (i + 1) (p + 1)"
    using loop_step [of previous lower q cx toks i] assms(2,5) sep_ascii rune_width_ascii
    by (auto simp: dr sep_ok_def s)
  moreover have "\<exists>d' p'. tag_loop lower q ?cx (op_of (c = CHR 0x2C)) toks (i + 1) (p + 1) =
      tag_loop lower q (?cx\<lparr>cx_nextOperator := op_of (c = CHR 0x2C \<or> has_comma s')\<rparr>) (op_of d') toks (i + 1 + length s') p'"
    by (rule scan_seps [of s' ?cx "c = CHR 0x2C" _ _ _ "pre @ [c]" rest])
      (use assms s in \<open>auto simp: sep_ok_def split: if_splits\<close>)
  ultimately show ?thesis by (auto simp: s has_comma_Cons)
qed

text \<open>The rest of a word.\<close>

lemma rune_inside:
  assumes "u \<noteq> []" "rest = [] \<or> ascii (hd rest)"
  shows "rune_width (u @ rest) \<le> length u"
proof (rule ccontr)
  assume less: "\<not> rune_width (u @ rest) \<le> length u"
  obtain c cs where u: "u = c # cs" using assms(1) by (cases u) auto
  obtain n lo hi where lead: "lead_byte c = Some (n, lo, hi)"
    using less u by (cases "lead_byte c") (auto simp: rune_width_def)
  have n: "n \<le> length (u @ rest)" "byte_in (hd (cs @ rest)) lo hi" "\<forall>b \<in> set (take (n - 2) (tl (cs @ rest))). byte_in b 0x80 0xBF"
    "length u < n"
    using less u lead by (auto simp: rune_width_def split: if_splits)
  have lo: "0x80 \<le> lo" "hi \<le> 0xBF" using lead by (auto simp: lead_byte_def split: if_splits)
  have ne: "rest \<noteq> []" using n(1,4) by auto
  have "byte_in (hd rest) 0x80 0xBF"
  proof (cases cs)
    case Nil
    then show ?thesis using n(2) lo by (auto simp: byte_in_def)
  next
    case (Cons c' cs')
    have "hd rest = tl (cs @ rest) ! length cs'" using ne Cons by (simp add: nth_append hd_conv_nth)
    moreover have "length cs' < n - 2" "length cs' < length (tl (cs @ rest))" using n(4) u Cons ne by auto
    ultimately have "hd rest \<in> set (take (n - 2) (tl (cs @ rest)))"
      by (metis in_set_conv_nth length_take min_less_iff_conj nth_take)
    then show ?thesis using n(3) by blast
  qed
  then show False using assms(2) ne by (auto simp: byte_in_def ascii_def)
qed

lemma scan_text:
  assumes "\<forall>c \<in> set u. c \<noteq> CHR 0x22 \<and> (cx_quoted cx \<or> \<not> is_sep c)" "q = pre @ u @ rest" "i = length pre"
    "rest = [] \<or> ascii (hd rest)"
  shows "\<exists>p'. tag_loop lower q cx tagSearchTokenText toks i p = tag_loop lower q cx tagSearchTokenText toks (i + length u) p'"
  using assms
proof (induction "length u" arbitrary: u pre i p rule: less_induct)
  case less
  show ?case
  proof (cases u)
    case Nil
    then show ?thesis by auto
  next
    case (Cons c cs)
    let ?n = "rune_width (u @ rest)"
    have n: "0 < ?n" "?n \<le> length u" using rune_inside [of u rest] less.prems(4) Cons by auto
    have dr: "drop i q = u @ rest" using less.prems(2,3) by simp
    have "char_kind (cx_quoted cx) (drop i q) = tagSearchTokenText"
      using less.prems(1) Cons by (auto simp: dr char_kind_def is_sep_def)
    then have "scan_step lower q cx tagSearchTokenText toks i = Some (Inr (tagSearchTokenText, cx, toks))"
      by (simp add: scan_step_def scan_quote_def scan_operator_def)
    from loop_step [OF _ this] have "tag_loop lower q cx tagSearchTokenText toks i p = tag_loop lower q cx tagSearchTokenText toks (i + ?n) (p + 1)"
      by (simp add: dr)
    moreover have "\<exists>p'. tag_loop lower q cx tagSearchTokenText toks (i + ?n) (p + 1) =
        tag_loop lower q cx tagSearchTokenText toks (i + ?n + length (drop ?n u)) p'"
      by (rule less.hyps [of "drop ?n u" "pre @ take ?n u"])
        (use n less.prems in \<open>auto dest: in_set_dropD\<close>)
    ultimately show ?thesis using n by auto
  qed
qed

section \<open>Words\<close>

definition add_tag :: "(string \<Rightarrow> string) \<Rightarrow> tagSearchTokenType \<Rightarrow> string option \<Rightarrow> tagSearchToken list \<Rightarrow> tagSearchToken list" where
  "add_tag lower operator tag toks = (case tag of None \<Rightarrow> toks | Some v \<Rightarrow> toks @ [\<lparr>tk_operator = operator, tk_value = lower v\<rparr>])"

text \<open>What the first character of a word does to the tag before it: nothing at the beginning of the query.\<close>

definition entered ::
  "(string \<Rightarrow> string) \<Rightarrow> string \<Rightarrow> tagSearchContext \<Rightarrow> tagSearchTokenType \<Rightarrow> nat \<Rightarrow> tagSearchToken list \<Rightarrow>
   tagSearchContext \<times> tagSearchToken list" where
  "entered lower q cx previous i toks =
     (if previous = tagSearchTokenNone then (cx, toks)
      else (cx\<lparr>cx_start := i, cx_previousOperator := cx_nextOperator cx, cx_nextOperator := tagSearchTokenNone\<rparr>,
            add_tag lower (if cx_nextOperator cx = tagSearchTokenOr then tagSearchTokenOr else cx_previousOperator cx)
              (the (tag_between q (cx_start cx) (cx_end cx))) toks))"

lemma enter_step:
  assumes "scan_quote cx previous (char_kind (cx_quoted cx) (drop i q)) = Inr (tagSearchTokenText, cx1)"
    "previous = tagSearchTokenNone \<or> previous = op_of d" "cx_end cx \<le> length q"
  shows "scan_step lower q cx previous toks i =
    (case entered lower q cx1 previous i toks of (cx2, toks2) \<Rightarrow> Some (Inr (tagSearchTokenText, cx2, toks2)))"
proof (cases "previous = tagSearchTokenNone")
  case True
  then show ?thesis using assms(1) by (simp add: scan_step_def scan_operator_def entered_def)
next
  case False
  have "cx_end cx1 \<le> length q" using scan_quote_end [OF assms(1)] assms(3) by simp
  then obtain tag where "tag_between q (cx_start cx1) (cx_end cx1) = Some tag" using tag_between_in by blast
  then show ?thesis using assms(1,2) False
    by (auto simp: scan_step_def scan_operator_def entered_def scan_emit_def add_tag_def op_of_def Let_def split: option.split)
qed

lemma entered_quoted:
  "entered lower q (cx\<lparr>cx_quoted := b\<rparr>) previous i toks = (case entered lower q cx previous i toks of (cx2, toks2) \<Rightarrow> (cx2\<lparr>cx_quoted := b\<rparr>, toks2))"
  by (simp add: entered_def)

lemma scan_word:
  assumes "word_ok w" "q = pre @ word_text w @ rest" "i = length pre" "rest = [] \<or> is_sep (hd rest)" "\<not> cx_quoted cx"
    "previous = tagSearchTokenNone \<or> previous = op_of d" "cx_end cx \<le> length q" "entered lower q cx previous i toks = (cx2, toks2)"
  shows "\<exists>p'. tag_loop lower q cx previous toks i p = tag_loop lower q cx2 tagSearchTokenText toks2 (i + length (word_text w)) p'"
proof (cases w)
  case (Plain u)
  then obtain c cs where u: "u = c # cs" using assms(1) by (cases u) auto
  let ?n = "rune_width (u @ rest)"
  have dr: "drop i q = u @ rest" using assms(2,3) Plain by simp
  have asc: "rest = [] \<or> ascii (hd rest)" using assms(4) sep_ascii by blast
  have n: "0 < ?n" "?n \<le> length u" using rune_inside [of u rest] asc u by auto
  have "char_kind False (drop i q) = tagSearchTokenText" using assms(1) Plain u by (auto simp: dr char_kind_def is_sep_def)
  then have "scan_quote cx previous (char_kind (cx_quoted cx) (drop i q)) = Inr (tagSearchTokenText, cx)"
    using assms(5) by (simp add: scan_quote_def)
  from enter_step [OF this assms(6,7)] have "scan_step lower q cx previous toks i = Some (Inr (tagSearchTokenText, cx2, toks2))"
    using assms(8) by simp
  from loop_step [OF _ this] have "tag_loop lower q cx previous toks i p = tag_loop lower q cx2 tagSearchTokenText toks2 (i + ?n) (p + 1)"
    using assms(6) by (auto simp: dr op_of_def)
  moreover have "\<exists>p'. tag_loop lower q cx2 tagSearchTokenText toks2 (i + ?n) (p + 1) =
      tag_loop lower q cx2 tagSearchTokenText toks2 (i + ?n + length (drop ?n u)) p'"
    by (rule scan_text [of _ _ _ "pre @ take ?n u" rest]) (use assms(1-3) Plain n asc in \<open>auto dest: in_set_dropD\<close>)
  ultimately show ?thesis using n Plain by auto
next
  case (Quoted u)
  have dr: "drop i q = CHR 0x22 # u @ CHR 0x22 # rest" using assms(2,3) Quoted by simp
  have "previous \<noteq> tagSearchTokenText" using assms(6) by (auto simp: op_of_def split: if_splits)
  then have "scan_quote cx previous (char_kind (cx_quoted cx) (drop i q)) = Inr (tagSearchTokenText, cx\<lparr>cx_quoted := True\<rparr>)"
    using assms(5) by (simp add: scan_quote_def char_kind_def dr)
  from enter_step [OF this assms(6,7)] have "scan_step lower q cx previous toks i =
      Some (Inr (tagSearchTokenText, cx2\<lparr>cx_quoted := True\<rparr>, toks2))"
    using assms(8) by (simp add: entered_quoted)
  from loop_step [OF _ this] have "tag_loop lower q cx previous toks i p =
      tag_loop lower q (cx2\<lparr>cx_quoted := True\<rparr>) tagSearchTokenText toks2 (i + 1) (p + 1)"
    using assms(6) sep_ascii(2) rune_width_ascii by (auto simp: dr op_of_def)
  moreover have "\<exists>p'. tag_loop lower q (cx2\<lparr>cx_quoted := True\<rparr>) tagSearchTokenText toks2 (i + 1) (p + 1) =
      tag_loop lower q (cx2\<lparr>cx_quoted := True\<rparr>) tagSearchTokenText toks2 (i + 1 + length u) p'"
    by (rule scan_text [of _ _ _ "pre @ [CHR 0x22]" "CHR 0x22 # rest"]) (use assms(1-3) Quoted sep_ascii(2) in auto)
  moreover have "tag_loop lower q (cx2\<lparr>cx_quoted := True\<rparr>) tagSearchTokenText toks2 (i + 1 + length u) p' =
      tag_loop lower q cx2 tagSearchTokenText toks2 (i + 1 + length u + 1) (p' + 1)" for p'
  proof -
    have dr2: "drop (i + 1 + length u) q = CHR 0x22 # rest" using assms(2,3) Quoted by simp
    then have kind: "char_kind True (drop (i + 1 + length u) q) = tagSearchTokenQuote" by (simp add: char_kind_def)
    have "\<not> cx_quoted cx2" using assms(5,8) by (auto simp: entered_def split: if_splits)
    then have "cx2\<lparr>cx_quoted := False\<rparr> = cx2" by (cases cx2) simp
    then have "scan_step lower q (cx2\<lparr>cx_quoted := True\<rparr>) tagSearchTokenText toks2 (i + 1 + length u) = Some (Inr (tagSearchTokenText, cx2, toks2))"
      using kind by (simp add: scan_step_def scan_quote_def scan_operator_def)
    moreover have "rune_width (drop (i + 1 + length u) q) = 1" unfolding dr2 by (rule rune_width_ascii [OF sep_ascii(2)])
    ultimately show ?thesis using loop_step [of tagSearchTokenText lower q] by simp
  qed
  ultimately show ?thesis using Quoted by auto
qed

lemma tag_between_word:
  assumes "word_ok w" "q = pre @ word_text w @ rest"
  shows "tag_between q (length pre) (length pre + length (word_text w)) = Some (Some (word_value w))"
proof (cases w)
  case (Plain u)
  then obtain c cs where u: "u = c # cs" "c \<noteq> CHR 0x22" using assms(1) by (cases u) auto
  then have "byte_at q (length pre) = Some c" "byte_at q (length pre + length u - 1) \<noteq> None"
    using assms(2) Plain by (auto simp: byte_at_def nth_append)
  then show ?thesis using assms(2) Plain u by (auto simp: tag_between_def slice_def Let_def)
next
  case (Quoted u)
  have "byte_at q (length pre) = Some (CHR 0x22)" "byte_at q (length pre + length u + 1) = Some (CHR 0x22)"
    using assms(2) Quoted by (auto simp: byte_at_def nth_append)
  then show ?thesis using assms Quoted by (auto simp: tag_between_def slice_def Let_def)
qed

section \<open>The whole query\<close>

lemma sep_start: "s @ render ps = [] \<or> is_sep (hd (s @ render ps))" if "sep_ok s" "ps \<noteq> [] \<longrightarrow> s \<noteq> []"
  using that by (cases s) (auto simp: sep_ok_def)

text \<open>The end of the query.\<close>

lemma scan_end:
  assumes "length q \<le> i" "previous \<noteq> tagSearchTokenEnd" "\<not> cx_quoted cx"
    "(if previous = tagSearchTokenText then i else cx_end cx) \<le> length q"
    "tag_between q (cx_start cx) (if previous = tagSearchTokenText then i else cx_end cx) = Some tag"
  shows "tag_loop lower q cx previous toks i p =
    Some (Inr (add_tag lower (if cx_nextOperator cx = tagSearchTokenOr then tagSearchTokenOr else cx_previousOperator cx) tag toks))"
proof -
  have "\<exists>cx'. scan_step lower q cx previous toks i = Some (Inr (tagSearchTokenEnd, cx',
      add_tag lower (if cx_nextOperator cx = tagSearchTokenOr then tagSearchTokenOr else cx_previousOperator cx) tag toks))"
    using assms(1,3,5)
    by (cases "previous = tagSearchTokenText")
      (auto simp: scan_step_def char_kind_def scan_quote_def scan_operator_def scan_emit_def add_tag_def Let_def split: option.split)
  then obtain cx' where "scan_step lower q cx previous toks i = Some (Inr (tagSearchTokenEnd, cx',
      add_tag lower (if cx_nextOperator cx = tagSearchTokenOr then tagSearchTokenOr else cx_previousOperator cx) tag toks))" by blast
  from loop_step [OF assms(2) this] show ?thesis by (simp add: tag_loop.simps)
qed

lemma op_of_values [simp]: "op_of True = tagSearchTokenOr" "op_of False = tagSearchTokenAnd"
  by (simp_all add: op_of_def)

lemma op_of_simps [simp]: "op_of b = tagSearchTokenOr \<longleftrightarrow> b" "op_of b \<noteq> tagSearchTokenNone" "op_of b \<noteq> tagSearchTokenEnd" "op_of b \<noteq> tagSearchTokenText"
  by (simp_all add: op_of_def)

lemma op_either: "(if b then tagSearchTokenOr else op_of a) = op_of (a \<or> b)"
  by (simp add: op_of_def)

lemma scan_rest:
  assumes "render_ok ((w, s) # ps)" "q = pre @ render ((w, s) # ps)" "cx_start cx = length pre" "cx_previousOperator cx = op_of left"
    "cx_nextOperator cx = tagSearchTokenNone" "\<not> cx_quoted cx"
  shows "tag_loop lower q cx tagSearchTokenText toks (length pre + length (word_text w)) p =
    Some (Inr (toks @ tokens_of lower (meant left ((w, s) # ps))))"
  using assms
proof (induction ps arbitrary: pre w s cx left toks p)
  case Nil
  let ?i = "length pre + length (word_text w)"
  have btw: "tag_between q (length pre) ?i = Some (Some (word_value w))"
    using tag_between_word [of w q pre s] Nil.prems(1,2) by simp
  show ?case
  proof (cases "s = []")
    case True
    then show ?thesis using scan_end [of q ?i tagSearchTokenText cx "Some (word_value w)" lower toks p] Nil.prems btw
      by (simp add: add_tag_def tokens_of_def has_comma_def)
  next
    case False
    have sep: "sep_ok s" using Nil.prems(1) by simp
    have q: "q = (pre @ word_text w) @ s @ []" using Nil.prems(2) by simp
    let ?cx = "cx\<lparr>cx_end := ?i, cx_nextOperator := op_of (has_comma s)\<rparr>"
    obtain d p' where "tag_loop lower q cx tagSearchTokenText toks ?i p = tag_loop lower q ?cx (op_of d) toks (?i + length s) p'"
      using scan_gap [OF False sep Nil.prems(5,6) _ q, of tagSearchTokenText ?i lower toks p] by auto
    moreover have "tag_loop lower q ?cx (op_of d) toks (?i + length s) p' =
        Some (Inr (add_tag lower (if has_comma s then tagSearchTokenOr else op_of left) (Some (word_value w)) toks))"
      using scan_end [of q "?i + length s" "op_of d" ?cx "Some (word_value w)" lower toks p'] Nil.prems q btw by simp
    ultimately show ?thesis by (simp add: add_tag_def tokens_of_def op_either)
  qed
next
  case (Cons ps1 ps)
  obtain w2 s2 where ps1: "ps1 = (w2, s2)" by fastforce
  let ?i = "length pre + length (word_text w)"
  have ok: "sep_ok s" "s \<noteq> []" "render_ok ((w2, s2) # ps)" "word_ok w2" "sep_ok s2" "ps \<noteq> [] \<longrightarrow> s2 \<noteq> []"
    using Cons.prems(1) by (simp_all add: ps1)
  have q: "q = (pre @ word_text w) @ s @ render ((w2, s2) # ps)" using Cons.prems(2) by (simp add: ps1)
  have btw: "tag_between q (length pre) ?i = Some (Some (word_value w))"
    using tag_between_word [of w q pre "s @ render ((w2, s2) # ps)"] Cons.prems(1) q by simp
  let ?cx = "cx\<lparr>cx_end := ?i, cx_nextOperator := op_of (has_comma s)\<rparr>"
  let ?j = "?i + length s"
  obtain d p1 where 1: "tag_loop lower q cx tagSearchTokenText toks ?i p = tag_loop lower q ?cx (op_of d) toks ?j p1"
    using scan_gap [OF ok(2,1) Cons.prems(5,6) _ q, of tagSearchTokenText ?i lower toks p] by auto
  let ?cx2 = "?cx\<lparr>cx_start := ?j, cx_previousOperator := op_of (has_comma s), cx_nextOperator := tagSearchTokenNone\<rparr>"
  let ?toks = "toks @ [\<lparr>tk_operator = op_of (left \<or> has_comma s), tk_value = lower (word_value w)\<rparr>]"
  have ent: "entered lower q ?cx (op_of d) ?j toks = (?cx2, ?toks)"
    using btw Cons.prems(3,4) by (simp add: entered_def add_tag_def op_either)
  obtain p2 where 2: "tag_loop lower q ?cx (op_of d) toks ?j p1 =
      tag_loop lower q ?cx2 tagSearchTokenText ?toks (?j + length (word_text w2)) p2"
    using scan_word [OF ok(4), of q "pre @ word_text w @ s" "s2 @ render ps" ?j ?cx "op_of d" d lower toks ?cx2 ?toks p1]
      sep_start [OF ok(5,6)] q Cons.prems(6) ent by auto
  have "tag_loop lower q ?cx2 tagSearchTokenText ?toks (length (pre @ word_text w @ s) + length (word_text w2)) p2 =
      Some (Inr (?toks @ tokens_of lower (meant (has_comma s) ((w2, s2) # ps))))"
    by (rule Cons.IH [OF ok(3)]) (use q Cons.prems(6) in simp_all)
  then show ?case using 1 2 by (simp add: ps1 tokens_of_def add.assoc)
qed

lemma tags_of_meant:
  "tags_of tagSearchTokenAnd (tokens_of lower ms) = map (lower \<circ> snd) (filter (\<lambda>(b, v). \<not> b) ms)"
  "tags_of tagSearchTokenOr (tokens_of lower ms) = map (lower \<circ> snd) (filter fst ms)"
  by (induction ms) (auto simp: tags_of_def tokens_of_def op_of_def split: if_splits)

text \<open>C31. The meaning of a query of words with separators between them, of which none has two commas: the tags next to a
  comma are optional, the others are required, each in its order and in lower case, without its quotes.\<close>

theorem parse_meaning:
  assumes "trim query = s0 @ render ps" "sep_ok s0" "render_ok ps"
  shows "parseTagSearchQuery trim lower query =
    Some (Inr (map (lower \<circ> snd) (filter (\<lambda>(b, v). \<not> b) (meant (has_comma s0) ps)),
               map (lower \<circ> snd) (filter fst (meant (has_comma s0) ps))))"
proof -
  let ?q = "trim query"
  have loop: "tag_loop lower ?q initial_context tagSearchTokenNone [] 0 0 = Some (Inr (tokens_of lower (meant (has_comma s0) ps)))"
  proof (cases ps)
    case Nil
    have empty: "tag_between ?q 0 0 = Some None" by (simp add: tag_between_def)
    show ?thesis
    proof (cases "s0 = []")
      case True
      then show ?thesis using Nil assms(1) empty
          scan_end [of ?q 0 tagSearchTokenNone initial_context None lower "[]" 0]
        by (simp add: initial_context_def add_tag_def tokens_of_def)
    next
      case False
      let ?cx = "initial_context\<lparr>cx_nextOperator := op_of (has_comma s0)\<rparr>"
      obtain d p' where "tag_loop lower ?q initial_context tagSearchTokenNone [] 0 0 = tag_loop lower ?q ?cx (op_of d) [] (length s0) p'"
        using scan_gap [OF False assms(2), of initial_context tagSearchTokenNone ?q "[]" "[]" 0 lower "[]" 0] Nil assms(1)
        by (auto simp: initial_context_def)
      then show ?thesis using Nil assms(1) empty scan_end [of ?q "length s0" "op_of d" ?cx None lower "[]" p']
        by (simp add: initial_context_def add_tag_def tokens_of_def)
    qed
  next
    case (Cons ps1 ps')
    obtain w s where ps: "ps = (w, s) # ps'" using Cons by (metis surj_pair)
    have ok: "word_ok w" "sep_ok s" "ps' \<noteq> [] \<longrightarrow> s \<noteq> []" using assms(3) ps by simp_all
    have btw: "tag_between ?q 0 0 = Some None" by (simp add: tag_between_def)
    show ?thesis
    proof (cases "s0 = []")
      case True
      obtain p where "tag_loop lower ?q initial_context tagSearchTokenNone [] 0 0 =
          tag_loop lower ?q initial_context tagSearchTokenText [] (length (word_text w)) p"
        using scan_word [OF ok(1), of ?q "[]" "s @ render ps'" 0 initial_context tagSearchTokenNone False lower "[]" initial_context "[]" 0]
          sep_start [OF ok(2,3)] True assms(1) ps by (auto simp: initial_context_def entered_def)
      then show ?thesis
        using scan_rest [OF assms(3) [unfolded ps], of ?q "[]" initial_context False lower "[]" p] True assms(1) ps
        by (simp add: initial_context_def op_of_def has_comma_def)
    next
      case False
      let ?cx = "initial_context\<lparr>cx_nextOperator := op_of (has_comma s0)\<rparr>"
      let ?cx2 = "?cx\<lparr>cx_start := length s0, cx_previousOperator := op_of (has_comma s0), cx_nextOperator := tagSearchTokenNone\<rparr>"
      obtain d p1 where 1: "tag_loop lower ?q initial_context tagSearchTokenNone [] 0 0 = tag_loop lower ?q ?cx (op_of d) [] (length s0) p1"
        using scan_gap [OF False assms(2), of initial_context tagSearchTokenNone ?q "[]" "render ps" 0 lower "[]" 0] assms(1)
        by (auto simp: initial_context_def)
      have ent: "entered lower ?q ?cx (op_of d) (length s0) [] = (?cx2, [])"
        using btw by (simp add: entered_def add_tag_def initial_context_def)
      obtain p where 2: "tag_loop lower ?q ?cx (op_of d) [] (length s0) p1 =
          tag_loop lower ?q ?cx2 tagSearchTokenText [] (length s0 + length (word_text w)) p"
        using scan_word [OF ok(1), of ?q s0 "s @ render ps'" "length s0" ?cx "op_of d" d lower "[]" ?cx2 "[]" p1]
          sep_start [OF ok(2,3)] assms(1) ps ent by (auto simp: initial_context_def)
      show ?thesis
        using 1 2 scan_rest [OF assms(3) [unfolded ps], of ?q s0 ?cx2 "has_comma s0" lower "[]" p] assms(1) ps
        by (simp add: initial_context_def)
    qed
  qed
  show ?thesis by (simp add: parseTagSearchQuery_def loop tags_of_meant)
qed

theorem parse_meaning_witness:
  "parseTagSearchQuery TrimSpace ToLower ''a B,\"c d\"  e'' = Some (Inr ([''a'', ''e''], [''b'', ''c d'']))"
proof -
  let ?ps = "[(Plain ''a'', '' ''), (Plain ''B'', '',''), (Quoted ''c d'', ''  ''), (Plain ''e'', [])]"
  have "TrimSpace ''a B,\"c d\"  e'' = [] @ render ?ps" by code_simp
  moreover have "sep_ok []" "render_ok ?ps" by (simp_all add: sep_ok_def is_sep_def)
  moreover have "map (ToLower \<circ> snd) (filter (\<lambda>(b, v). \<not> b) (meant (has_comma []) ?ps)) = [''a'', ''e'']"
    "map (ToLower \<circ> snd) (filter fst (meant (has_comma []) ?ps)) = [''b'', ''c d'']" by code_simp+
  ultimately show ?thesis using parse_meaning [of TrimSpace "''a B,\"c d\"  e''" "[]" ?ps ToLower] by simp
qed

end
