(* ===== verification/Spec2Isabelle.thy ===== *)
theory Spec2Isabelle
  imports AccessMode Encoding Uid Ranges RingHash Election Message Fence Topology Dedupe
    SessionQueue PCache FieldCodec Invites Outbox Utf8 TranslateSettings Placeholders
    TranslateRouter AdminModel ControlPlane ControlPlaneSafety ControlPlaneStart
    SubsTable TopicState TopicRoles TopicMembers TopicSelfSub TopicOwnership TopicSafety
    TopicReturns TopicGroup GroupSafety TopicSessions OnlineCount OnlineSteps
    OfficialTopics OfficialSafety TopicPublish PublishSafety PublishSteps PublishGuarantees
    PublishGaps TopicDelete TagQuery
begin

text \<open>
  A verification library of the instant messaging server in this repository (Go).

  \<^bold>\<open>The program.\<close> Clients hold sessions on the nodes of a cluster. A topic (a group, a
  conversation of two users, a user's own \<open>me\<close> topic) is hosted by exactly one node, chosen by a
  consistent hash ring over the live nodes; the other nodes proxy requests to it. The nodes elect
  a leader that decides which nodes are live. A node that has lost its topics must not store
  messages for them any more: every write carries a fencing token that the database compares
  with the epoch and the owner it has recorded. Messages are numbered per topic; what a user has
  read, received and deleted is kept as numbers and ranges of numbers. Access to a topic is a set
  of permission bits on each side, wanted by the user and given by the topic. Replies and
  broadcasts leave through a bounded queue per session and are packed into frames. Push
  notifications go through a durable outbox, and invitations to groups are signed tokens whose
  uses are counted; both live in a key value table with compare and swap. Texts are translated by
  external providers behind a router with quotas and circuit breakers. Administrators change roles,
  bindings and settings in one document under an optimistic lock.

  \<^bold>\<open>Theories.\<close>

    \<^item> \<^verbatim>\<open>Prelude\<close>: byte strings, errors of the storage layer, binary search, and the locale
      \<open>monotone_steps\<close> of components with a level that never falls.
    \<^item> \<^verbatim>\<open>Encoding\<close>: the little endian integers and the base64 code of Go's standard library.
    \<^item> \<^verbatim>\<open>AccessMode\<close> (\<^verbatim>\<open>server/store/types/access_mode.go\<close>): a mode is a word of permission
      bits; printing, parsing, applying textual mutations, differences and tests.
    \<^item> \<^verbatim>\<open>Uid\<close> (\<^verbatim>\<open>uid.go\<close>, \<^verbatim>\<open>uidgen.go\<close> of the same package): 64 bit identifiers, their text
      forms, topic names derived from them, sorted slices of them, and the generator, whose
      snowflake counter and XTEA cipher are arguments. The locale \<open>reporting_set\<close> states the
      contract of the slices as finite sets.
    \<^item> \<^verbatim>\<open>Ranges\<close> (\<^verbatim>\<open>message.go\<close>, \<^verbatim>\<open>read_history.go\<close> of the same package and the unread counter
      of \<^verbatim>\<open>internal/server/topic.go\<close>): half open ranges of message numbers.
    \<^item> \<^verbatim>\<open>RingHash\<close> (\<^verbatim>\<open>server/ringhash/ringhash.go\<close>, \<^verbatim>\<open>rehash\<close> of \<^verbatim>\<open>cluster_membership.go\<close>): the
      ring over any 32 bit hash, the two checksums of the standard library it can use, the owner
      of a topic.
    \<^item> \<^verbatim>\<open>Election\<close> (\<^verbatim>\<open>internal/server/cluster_leader.go\<close>): each case of a node's event loop as a
      function on the node's state, and the cluster as an inductive step relation over the states
      of all nodes, the calls in flight and the votes granted.
    \<^item> \<^verbatim>\<open>Message\<close> and \<^verbatim>\<open>Fence\<close> (\<^verbatim>\<open>server/db/mysql/messages.go\<close>, \<^verbatim>\<open>cluster_membership.go\<close>): the
      tables a stored message touches as one record, the transaction that stores a message, the
      statement that advances the fence, and the tokens a node may use.
    \<^item> \<^verbatim>\<open>Topology\<close> (\<^verbatim>\<open>cluster_control_plane_topology.go\<close>): members, normal form of the committed
      topology, the views derived from it.
    \<^item> \<^verbatim>\<open>Dedupe\<close> (\<^verbatim>\<open>cluster_transport_dedupe.go\<close>): the window that runs a request of another node
      at most once, as the two critical sections of the code over an explicit cache.
    \<^item> \<^verbatim>\<open>SessionQueue\<close> (\<^verbatim>\<open>session_queue.go\<close>, \<^verbatim>\<open>session_serialize.go\<close>, version numbers of
      \<^verbatim>\<open>utils.go\<close>): byte accounting, the bounded channel, JSON and Protobuf batches.
    \<^item> \<^verbatim>\<open>PCache\<close> (\<^verbatim>\<open>server/db/mysql/cache.go\<close>): the key value table. The locale \<open>kv_store\<close> is the
      contract its clients rely on, interpreted on the table; every operation may also fail, and
      an oracle argument says which calls do.
    \<^item> \<^verbatim>\<open>Invites\<close> (\<^verbatim>\<open>topic_invites.go\<close>) and \<^verbatim>\<open>Outbox\<close> (\<^verbatim>\<open>server/push/outbox.go\<close>): the two
      clients of the cache. \<^verbatim>\<open>FieldCodec\<close> is a concrete reversible encoding used to apply
      theorems that hold for every such encoding.
    \<^item> \<^verbatim>\<open>TranslateSettings\<close> and \<^verbatim>\<open>TranslateRouter\<close> (\<^verbatim>\<open>server/translate\<close>): the configuration of
      the providers, the choice and reservation of a provider, its quota and its breaker;
      \<^verbatim>\<open>Utf8\<close> and \<^verbatim>\<open>Placeholders\<close>: the tokens that protect parts of a text.
    \<^item> \<^verbatim>\<open>AdminModel\<close>, \<^verbatim>\<open>ControlPlane\<close>, \<^verbatim>\<open>ControlPlaneSafety\<close>, \<^verbatim>\<open>ControlPlaneStart\<close>
      (\<^verbatim>\<open>server/admin\<close>): the document, its validation, the operations under the lock, the evaluation
      of permissions, and the start of a process.
    \<^item> \<^verbatim>\<open>SubsTable\<close> (\<^verbatim>\<open>server/store/store_subs.go\<close>, \<^verbatim>\<open>server/db/mysql/subscriptions.go\<close>): the
      subscriptions in the store; the locale \<open>subs_store\<close> is the contract on live ones.
    \<^item> \<^verbatim>\<open>TopicState\<close> (\<^verbatim>\<open>internal/server/topic.go\<close> and the files it calls): the state of a topic, its
      sessions, the notifications and evictions, with the effects on other components as a log;
      \<^verbatim>\<open>TopicRoles\<close> (\<^verbatim>\<open>topic_roles.go\<close>, \<^verbatim>\<open>topic_sub_transition.go\<close>): roles and transitions as pure
      functions; \<^verbatim>\<open>TopicMembers\<close> and \<^verbatim>\<open>TopicSelfSub\<close> (\<^verbatim>\<open>topic_roles.go\<close>, \<^verbatim>\<open>topic_sub_*.go\<close>,
      \<^verbatim>\<open>topic_meta_delete.go\<close>): the five operations on members.
    \<^item> \<^verbatim>\<open>TopicOwnership\<close>, \<^verbatim>\<open>TopicSafety\<close>, \<^verbatim>\<open>TopicReturns\<close>, \<^verbatim>\<open>TopicGroup\<close>, \<^verbatim>\<open>GroupSafety\<close>: every
      outcome of these operations in a group that is not a channel, and the guarantees that follow.
    \<^item> \<^verbatim>\<open>TopicSessions\<close> (\<^verbatim>\<open>topic_sub.go\<close>, \<^verbatim>\<open>topic_pres.go\<close>): a session that subscribes, comes back to the
      foreground, leaves or ends. \<^verbatim>\<open>OnlineCount\<close> has the invariant that the topic's count of each
      user's foreground sessions is right, and \<^verbatim>\<open>OnlineSteps\<close> the step relation \<open>session_step\<close> that
      keeps it, with the two ways of ending a session that do not.
    \<^item> \<^verbatim>\<open>OfficialTopics\<close> and \<^verbatim>\<open>OfficialSafety\<close> (\<^verbatim>\<open>official_topics.go\<close>, \<^verbatim>\<open>business_policy.go\<close>,
      \<^verbatim>\<open>message_features.go\<close>): policy, members and mutes as they are refreshed from the store, slow mode
      over the shared cache while other nodes act, and the check before a message.
    \<^item> \<^verbatim>\<open>TopicPublish\<close> (\<^verbatim>\<open>topic_msg.go\<close>, \<^verbatim>\<open>push.go\<close>, \<^verbatim>\<open>server/store/store_messages.go\<close>): storing and
      broadcasting a message, and read and received notes, over the topic, the tables and the cache at
      once (record \<open>psys\<close>). \<^verbatim>\<open>PublishSafety\<close> and \<^verbatim>\<open>PublishSteps\<close> say what a step changes;
      \<^verbatim>\<open>PublishGuarantees\<close> and \<^verbatim>\<open>PublishGaps\<close> what follows for sequences of steps, and where the topic and
      the store part.
    \<^item> \<^verbatim>\<open>TopicDelete\<close> (\<^verbatim>\<open>topic_meta_delete.go\<close>, \<^verbatim>\<open>server/store/store_messages.go\<close>,
      \<^verbatim>\<open>server/db/mysql/messages.go\<close>): hiding messages or clearing them for everybody, with the log of
      deletions, over the same topic and tables.
    \<^item> \<^verbatim>\<open>TagQuery\<close> (\<^verbatim>\<open>tag_search_query.go\<close>): the scanner of search expressions over byte indices.

  \<^bold>\<open>What is shown.\<close> Round trips of modes, identifiers and invitation tokens; the meaning of
  mode differences; exact unread counts and where merging ranges loses some; the owner of a topic
  on the ring, that adding a node only moves topics to it and that the order of nodes does not
  matter; at most one leader per term in every reachable cluster state, and that an election
  returns; that storing a message is atomic, that a stale node is refused and that an
  epoch has one owner; that a request runs at most once while its record is kept and that the
  window stays within its bounds; that the pending bytes of a session are those of the queued
  items in every interleaving and that batches carry the messages in order; that an invitation is
  never used more often than allowed however the nodes interleave; that no push job is lost,
  whatever fails, and that a claim is exclusive; that the quota of a provider is kept, a
  breaker opens and recovers and a translation fails over; that the administrative document stays
  consistent and permissions are evaluated as the bindings say; that a group always has its
  owner, that nobody grants or takes more permissions than they may, that the members a topic has
  cached agree with the store whatever statement fails, and that no request on members panics;
  that each user's foreground sessions are counted right; that slow mode keeps its distance on all
  nodes and a publication in a large official group has passed every check; that a topic's messages
  are numbered without gaps as in the store, that a client id is stored once, that marks stay
  within the numbers, that publishing returns, and that copies shared in a broadcast are the copies
  each session would get; that a deletion clears just the messages of its ranges and the log says which,
  and that who may not delete for others clears only their own messages; what a search expression
  means, and that its scanner stays within the text. Where the code does otherwise (a mute that a header avoids, modes that come
  back, marks that go back, sessions counted twice or not at all, ranges that merging widens or loses) the theorem states what it does.

  \<^bold>\<open>Conventions, bounds and fuel.\<close> A function that may fail returns a sum with the error on the
  left, one that may panic an option. Times are integers. Loops over slices are structural
  recursions. The compare and swap loops of the source have constant bounds (eight attempts of
  \<open>consumeTopicInvite\<close>, the attempts of the outbox worker) and the models count the same
  number down, so no fuel is added. The vote collection of \<open>electLeader\<close> is a recursion over the
  list of events the channels deliver; the theorem about it bounds the number of events by
  the number of nodes and the time-out, as the code does. Code outside the repository (hash and
  MAC functions, JSON and Protobuf encoders, the snowflake counter) is an argument, and
  what is used of it a named hypothesis.

  \<^bold>\<open>Not modelled.\<close> The network transports and HTTP handlers, the hub, loading a topic, presence
  fan-out, calls, translation during a broadcast, the {meta} replies,
  preparing, editing and searching messages, the authentication schemes, media storage, the other
  database adapters and schema management, the push providers, generated Protobuf code, mocks and the
  command line tools. Of the SQL adapter only the statements for messages, fences, subscriptions and
  the cache are modelled, with tables as maps and a transaction as an atomic function, so isolation
  levels are not. Clocks, random numbers and goroutine scheduling are arguments or free choices of the
  step relations. The guarantees of a group are for groups that are not channels; the operations
  themselves are modelled for every category.

  \<^bold>\<open>Plan.\<close> What would come next are reactions and pins (\<^verbatim>\<open>message_interactions.go\<close>), edits
  (\<^verbatim>\<open>message_edit.go\<close>) and video calls (\<^verbatim>\<open>calls.go\<close>).
\<close>

end
